(* ===== verification/Prelude.thy ===== *)
theory Prelude
  imports Main "HOL-Library.Sublist" "HOL-Library.AList"
begin

text \<open>
  Shared vocabulary of the development. Go strings and byte slices are lists of 8-bit
  characters (\<^typ>\<open>string\<close>), a Go \<^verbatim>\<open>rune\<close> is an \<^typ>\<open>int\<close>
  (\<^verbatim>\<open>-1\<close> is used by the scanners as the end-of-input marker). The named collections
  gather the facts the component proofs share.
\<close>

named_theorems utf8_simps \<open>byte arithmetic of the UTF-8 coder\<close>
named_theorems frame_simps \<open>fields an operation leaves alone\<close>
named_theorems step_defs \<open>definitions of single operations, unfolded together\<close>

type_synonym rune = int
type_synonym gobytes = string

abbreviation (input) RuneError :: rune where
  "RuneError \<equiv> 65533"

section \<open>Decimal rendering of integers (strconv.Itoa, the fmt verb for decimals)\<close>

definition digit_char :: "nat \<Rightarrow> char" where
  "digit_char d = char_of (48 + d)"

fun nat_digits :: "nat \<Rightarrow> string" where
  "nat_digits n = (if n < 10 then [digit_char n] else nat_digits (n div 10) @ [digit_char (n mod 10)])"

declare nat_digits.simps [simp del]

definition itoa :: "int \<Rightarrow> string" where
  "itoa i = (if i < 0 then CHR ''-'' # nat_digits (nat (- i)) else nat_digits (nat i))"

lemma digit_char_inj: "a < 10 \<Longrightarrow> b < 10 \<Longrightarrow> digit_char a = digit_char b \<Longrightarrow> a = b"
proof -
  assume ab: "a < 10" "b < 10" and eq: "digit_char a = digit_char b"
  have "(of_char (digit_char a) :: nat) = of_char (digit_char b)"
    using eq by simp
  then show "a = b" using ab by (simp add: digit_char_def)
qed

lemma of_char_digit_char [simp]: "d < 10 \<Longrightarrow> (of_char (digit_char d) :: nat) = 48 + d"
  by (simp add: digit_char_def)

lemma digit_char_neq_minus: "d < 10 \<Longrightarrow> digit_char d \<noteq> CHR ''-''"
proof
  assume "d < 10" and "digit_char d = CHR ''-''"
  then have "(of_char (digit_char d) :: nat) = of_char (CHR ''-'')" by simp
  with \<open>d < 10\<close> show False by simp
qed

definition is_digit_char :: "char \<Rightarrow> bool" where
  "is_digit_char c \<longleftrightarrow> (\<exists>d<10. c = digit_char d)"

lemma nat_digits_nonempty [simp]: "nat_digits n \<noteq> []" "[] \<noteq> nat_digits n"
  by (subst nat_digits.simps, simp)+

lemma nat_digits_are_digits: "c \<in> set (nat_digits n) \<Longrightarrow> is_digit_char c"
proof (induction n arbitrary: c rule: nat_digits.induct)
  case (1 n)
  show ?case
  proof (cases "n < 10")
    case True
    with 1 show ?thesis by (auto simp: nat_digits.simps [of n] is_digit_char_def)
  next
    case False
    have "is_digit_char (digit_char (n mod 10))"
      unfolding is_digit_char_def by (rule exI [of _ "n mod 10"]) simp
    with 1 False show ?thesis by (auto simp: nat_digits.simps [of n])
  qed
qed

lemma nat_digits_inj: "nat_digits m = nat_digits n \<Longrightarrow> m = n"
proof (induction m arbitrary: n rule: nat_digits.induct)
  case (1 m)
  note eq = 1(2)
  show ?case
  proof (cases "m < 10")
    case True
    note m = True
    show ?thesis
    proof (cases "n < 10")
      case True
      with m eq have "digit_char m = digit_char n" by (simp add: nat_digits.simps)
      with m True show ?thesis by (blast intro: digit_char_inj)
    next
      case False
      with m eq show ?thesis by (simp add: nat_digits.simps [of n] nat_digits.simps [of m])
    qed
  next
    case False
    note m = False
    show ?thesis
    proof (cases "n < 10")
      case True
      with m eq show ?thesis by (simp add: nat_digits.simps [of n] nat_digits.simps [of m])
    next
      case False
      with m eq have d: "nat_digits (m div 10) = nat_digits (n div 10)"
        and r: "digit_char (m mod 10) = digit_char (n mod 10)"
        by (simp_all add: nat_digits.simps [of n] nat_digits.simps [of m])
      from d have "m div 10 = n div 10" by (rule 1(1) [OF m])
      moreover from r have "m mod 10 = n mod 10" by (rule digit_char_inj [rotated -1]) simp_all
      ultimately show ?thesis by (metis div_mult_mod_eq)
    qed
  qed
qed

lemma itoa_nat_inj [simp]: "itoa (int m) = itoa (int n) \<longleftrightarrow> m = n"
  using nat_digits_inj by (auto simp: itoa_def)

section \<open>Lists\<close>

lemma prefix_snocI [intro]: "prefix xs ys \<Longrightarrow> prefix xs (ys @ zs)"
  by (auto simp: prefix_def)

lemma prefix_transI [trans]: "prefix xs ys \<Longrightarrow> prefix ys zs \<Longrightarrow> prefix xs zs"
  by auto

end
