(* ===== verification/Utf8.thy ===== *)
theory Utf8
  imports Prelude
begin

text \<open>
  The decoding and encoding of UTF-8 as Go's \<^verbatim>\<open>unicode/utf8\<close> does it: a byte that starts no valid sequence decodes to U+FFFD
  with width 1, and encoding an invalid rune gives the bytes of U+FFFD. With the conversions between strings and runes and
  their round trip on valid runes.
\<close>

definition contByte :: "int \<Rightarrow> bool" where
  "contByte b \<longleftrightarrow> 128 \<le> b \<and> b \<le> 191"

definition secondLo :: "int \<Rightarrow> int" where
  "secondLo b0 = (if b0 = 224 then 160 else if b0 = 240 then 144 else 128)"

definition secondHi :: "int \<Rightarrow> int" where
  "secondHi b0 = (if b0 = 237 then 159 else if b0 = 244 then 143 else 191)"

fun decodeBytes :: "int list \<Rightarrow> rune \<times> nat" where
  "decodeBytes [] = (RuneError, 0)"
| "decodeBytes (b0 # bs) =
     (if b0 < 128 then (b0, 1)
      else if b0 < 194 \<or> 244 < b0 then (RuneError, 1)
      else case bs of
        [] \<Rightarrow> (RuneError, 1)
      | b1 # bs1 \<Rightarrow>
          if \<not> (secondLo b0 \<le> b1 \<and> b1 \<le> secondHi b0) then (RuneError, 1)
          else if b0 < 224 then ((b0 - 192) * 64 + (b1 - 128), 2)
          else (case bs1 of
            [] \<Rightarrow> (RuneError, 1)
          | b2 # bs2 \<Rightarrow>
              if \<not> contByte b2 then (RuneError, 1)
              else if b0 < 240 then ((b0 - 224) * 4096 + (b1 - 128) * 64 + (b2 - 128), 3)
              else (case bs2 of
                [] \<Rightarrow> (RuneError, 1)
              | b3 # bs3 \<Rightarrow>
                  if \<not> contByte b3 then (RuneError, 1)
                  else ((b0 - 240) * 262144 + (b1 - 128) * 4096 + (b2 - 128) * 64 + (b3 - 128), 4))))"

definition decodeRune :: "gobytes \<Rightarrow> rune \<times> nat" where
  "decodeRune s = decodeBytes (map of_char (take 4 s))"

definition validRune :: "rune \<Rightarrow> bool" where
  "validRune r \<longleftrightarrow> 0 \<le> r \<and> r < 55296 \<or> 57343 < r \<and> r \<le> 1114111"

definition encodeValid :: "rune \<Rightarrow> gobytes" where
  "encodeValid r =
     (if r < 128 then [char_of r]
      else if r < 2048 then [char_of (192 + r div 64), char_of (128 + r mod 64)]
      else if r < 65536 then
        [char_of (224 + r div 4096), char_of (128 + r div 64 mod 64), char_of (128 + r mod 64)]
      else
        [char_of (240 + r div 262144), char_of (128 + r div 4096 mod 64),
         char_of (128 + r div 64 mod 64), char_of (128 + r mod 64)])"

definition encodeRune :: "rune \<Rightarrow> gobytes" where
  "encodeRune r = encodeValid (if validRune r then r else RuneError)"


lemma split_base64:
  fixes r :: int
  shows "r = 64 * (r div 64) + r mod 64"
    and "r div 64 = 64 * (r div 4096) + r div 64 mod 64"
    and "r div 4096 = 64 * (r div 262144) + r div 4096 mod 64"
proof -
  show "r = 64 * (r div 64) + r mod 64" by simp
  have "r div 4096 = r div 64 div 64" using zdiv_zmult2_eq [of 64 r 64] by simp
  then show "r div 64 = 64 * (r div 4096) + r div 64 mod 64" by simp
  have "r div 262144 = r div 4096 div 64" using zdiv_zmult2_eq [of 64 r 4096] by simp
  then show "r div 4096 = 64 * (r div 262144) + r div 4096 mod 64" by simp
qed

lemma of_char_byte [utf8_simps]: "0 \<le> b \<Longrightarrow> b < 256 \<Longrightarrow> of_char (char_of (b::int)) = b"
  by simp

lemma decode2:
  assumes "2 \<le> q" "q < 32" "0 \<le> m" "m < 64"
  shows "decodeRune (char_of (192 + q) # char_of (128 + m) # s) = (64 * q + m, 2)"
  using assms by (simp add: decodeRune_def secondLo_def secondHi_def)

lemma decode3:
  assumes "0 \<le> q" "q < 16" "0 \<le> n" "n < 64" "0 \<le> m" "m < 64"
    and "q = 0 \<Longrightarrow> 32 \<le> n" and "q = 13 \<Longrightarrow> n < 32"
  shows "decodeRune (char_of (224 + q) # char_of (128 + n) # char_of (128 + m) # s)
    = (4096 * q + 64 * n + m, 3)"
proof -
  have "secondLo (224 + q) \<le> 128 + n" "128 + n \<le> secondHi (224 + q)"
    using assms by (auto simp: secondLo_def secondHi_def)
  with assms show ?thesis by (simp add: decodeRune_def contByte_def)
qed

lemma decode4:
  assumes "0 \<le> q" "q < 5" "0 \<le> k" "k < 64" "0 \<le> n" "n < 64" "0 \<le> m" "m < 64"
    and "q = 0 \<Longrightarrow> 16 \<le> k" and "q = 4 \<Longrightarrow> k < 16"
  shows "decodeRune (char_of (240 + q) # char_of (128 + k) # char_of (128 + n) # char_of (128 + m) # s)
    = (262144 * q + 4096 * k + 64 * n + m, 4)"
proof -
  have "secondLo (240 + q) \<le> 128 + k" "128 + k \<le> secondHi (240 + q)"
    using assms by (auto simp: secondLo_def secondHi_def)
  with assms show ?thesis by (simp add: decodeRune_def contByte_def)
qed

lemma low_surrogate_free:
  assumes "validRune r" "r = 64 * a + m" "a = 64 * q + n" "q = 13" "0 \<le> m" "m < 64" "n < 64"
  shows "n < 32"
  using assms unfolding validRune_def by auto

lemma decode_encodeValid:
  assumes "validRune r"
  shows "decodeRune (encodeValid r @ s) = (r, length (encodeValid r))"
proof -
  note r64 = split_base64 [of r]
  have m: "0 \<le> r mod 64" "r mod 64 < 64" "0 \<le> r div 64 mod 64" "r div 64 mod 64 < 64"
    "0 \<le> r div 4096 mod 64" "r div 4096 mod 64 < 64" by simp_all
  consider "0 \<le> r" "r < 128" | "128 \<le> r" "r < 2048" | "2048 \<le> r" "r < 65536" | "65536 \<le> r" "r \<le> 1114111"
    using assms by (fastforce simp: validRune_def)
  then show ?thesis
  proof cases
    case 1
    then show ?thesis by (simp add: decodeRune_def encodeValid_def)
  next
    case 2
    have dec: "decodeRune (char_of (192 + r div 64) # char_of (128 + r mod 64) # s)
      = (64 * (r div 64) + r mod 64, 2)"
      by (rule decode2) (use 2 m in auto)
    have enc: "encodeValid r = [char_of (192 + r div 64), char_of (128 + r mod 64)]"
      using 2 by (simp add: encodeValid_def)
    have eq: "64 * (r div 64) + r mod 64 = r" by simp
    show ?thesis unfolding enc using dec unfolding eq by simp
  next
    case 3
    have dec: "decodeRune (char_of (224 + r div 4096) # char_of (128 + r div 64 mod 64) # char_of (128 + r mod 64) # s)
      = (4096 * (r div 4096) + 64 * (r div 64 mod 64) + r mod 64, 3)"
    proof (rule decode3)
      show "r div 4096 = 0 \<Longrightarrow> 32 \<le> r div 64 mod 64" using 3 m r64 by linarith
      show "r div 4096 = 13 \<Longrightarrow> r div 64 mod 64 < 32"
        by (rule low_surrogate_free [OF assms r64(1,2)]) (use m in auto)
    qed (use 3 m in auto)
    have enc: "encodeValid r = [char_of (224 + r div 4096), char_of (128 + r div 64 mod 64), char_of (128 + r mod 64)]"
      using 3 by (simp add: encodeValid_def)
    have eq: "4096 * (r div 4096) + 64 * (r div 64 mod 64) + r mod 64 = r"
      using r64 by linarith
    show ?thesis unfolding enc using dec unfolding eq by simp
  next
    case 4
    have dec: "decodeRune (char_of (240 + r div 262144) # char_of (128 + r div 4096 mod 64) #
        char_of (128 + r div 64 mod 64) # char_of (128 + r mod 64) # s)
      = (262144 * (r div 262144) + 4096 * (r div 4096 mod 64) + 64 * (r div 64 mod 64) + r mod 64, 4)"
    proof (rule decode4)
      show "r div 262144 = 0 \<Longrightarrow> 16 \<le> r div 4096 mod 64" using 4 m r64 by linarith
      show "r div 262144 = 4 \<Longrightarrow> r div 4096 mod 64 < 16" using 4 m r64 by linarith
    qed (use 4 m in auto)
    have enc: "encodeValid r = [char_of (240 + r div 262144), char_of (128 + r div 4096 mod 64),
        char_of (128 + r div 64 mod 64), char_of (128 + r mod 64)]"
      using 4 by (simp add: encodeValid_def)
    have eq: "262144 * (r div 262144) + 4096 * (r div 4096 mod 64) + 64 * (r div 64 mod 64) + r mod 64 = r"
      using r64 by linarith
    show ?thesis unfolding enc using dec unfolding eq by simp
  qed
qed


lemma decodeRune_encodeRune:
  "decodeRune (encodeRune r @ s) = (if validRune r then r else RuneError, length (encodeRune r))"
  by (simp add: encodeRune_def decode_encodeValid validRune_def)

lemma decodeBytes_width:
  "decodeBytes bs = (r, n) \<Longrightarrow> n \<le> length bs \<and> n \<le> 4 \<and> (n = 0 \<longleftrightarrow> bs = [])"
  by (cases bs) (auto split: list.splits if_splits)

lemma decodeRune_width:
  "decodeRune s = (r, n) \<Longrightarrow> n \<le> length s \<and> (n = 0 \<longleftrightarrow> s = [])"
  using decodeBytes_width [of "map of_char (take 4 s)"] by (fastforce simp: decodeRune_def)

lemma decodeRune_Nil [simp]: "decodeRune [] = (RuneError, 0)"
  by (simp add: decodeRune_def)

lemma decodeRune_ascii [simp]:
  "(of_char c :: int) < 128 \<Longrightarrow> decodeRune (c # s) = (of_char c, 1)"
  by (simp add: decodeRune_def)

lemma base64_digits:
  assumes "r = 64 * q + m" "0 \<le> m" "m < 64"
  shows "r div 64 = (q::int)" and "r mod 64 = m"
  using assms by simp_all

text \<open>A decoded rune that is not the error marker is the rune the bytes encode.\<close>

lemma encode_decodeBytes:
  assumes "decodeBytes bs = (r, n)" and "r \<noteq> RuneError \<or> 1 < n"
    and "\<forall>b\<in>set bs. 0 \<le> b \<and> b < 256"
  shows "validRune r \<and> encodeValid r = map char_of (take n bs)"
proof -
  obtain b0 bs1 where bs: "bs = b0 # bs1" using assms by (cases bs) auto
  have b0: "0 \<le> b0" using assms bs by auto
  show ?thesis
  proof (cases "b0 < 128")
    case True
    with assms bs b0 show ?thesis by (auto simp: validRune_def encodeValid_def)
  next
    case False
    note n0 = this
    then obtain b1 bs2 where bs1: "bs1 = b1 # bs2" and g0: "194 \<le> b0" "b0 \<le> 244"
      and g1: "secondLo b0 \<le> b1" "b1 \<le> secondHi b0"
      using assms(1,2) bs by (cases bs1) (auto split: if_splits)
    have lo: "128 \<le> secondLo b0" and hi: "secondHi b0 \<le> 191" by (auto simp: secondLo_def secondHi_def)
    show ?thesis
    proof (cases "b0 < 224")
      case True
      with n0 assms(1) bs bs1 g0 g1 have r: "r = (b0 - 192) * 64 + (b1 - 128)" and n: "n = 2"
        by auto
      have e: "r = 64 * (b0 - 192) + (b1 - 128)" using r by simp
      have "r div 64 = b0 - 192" "r mod 64 = b1 - 128"
        using base64_digits [OF e] g1 lo hi by auto
      with r g0 g1 lo hi True show ?thesis
        by (simp add: n bs bs1 encodeValid_def validRune_def)
    next
      case False
      note n1 = this
      then obtain b2 bs3 where bs2: "bs2 = b2 # bs3" and g2: "128 \<le> b2" "b2 \<le> 191"
        using assms(1,2) bs bs1 n0 g0 g1 by (cases bs2) (auto simp: contByte_def split: if_splits)
      show ?thesis
      proof (cases "b0 < 240")
        case True
        with n0 n1 assms(1) bs bs1 bs2 g0 g1 g2
        have r: "r = (b0 - 224) * 4096 + (b1 - 128) * 64 + (b2 - 128)" and n: "n = 3"
          by (auto simp: contByte_def)
        have e: "r = 64 * (64 * (b0 - 224) + (b1 - 128)) + (b2 - 128)" using r by simp
        have d: "r div 64 = 64 * (b0 - 224) + (b1 - 128)" "r mod 64 = b2 - 128"
          using base64_digits [OF e] g2 by auto
        have d2: "r div 64 mod 64 = b1 - 128" and "r div 64 div 64 = b0 - 224"
          using base64_digits [OF d(1)] g1 lo hi by auto
        then have d4: "r div 4096 = b0 - 224" using zdiv_zmult2_eq [of 64 r 64] by simp
        have "2048 \<le> r" "r < 65536" "\<not> (55296 \<le> r \<and> r \<le> 57343)"
          using r g1 g2 n1 True by (auto simp: secondLo_def secondHi_def split: if_splits)
        with d d2 d4 show ?thesis by (auto simp: n bs bs1 bs2 encodeValid_def validRune_def)
      next
        case False
        note n2 = this
        then obtain b3 bs4 where bs3: "bs3 = b3 # bs4" and g3: "128 \<le> b3" "b3 \<le> 191"
          using assms(1,2) bs bs1 bs2 n0 n1 g0 g1 g2
          by (cases bs3) (auto simp: contByte_def split: if_splits)
        have r: "r = (b0 - 240) * 262144 + (b1 - 128) * 4096 + (b2 - 128) * 64 + (b3 - 128)" and n: "n = 4"
          using n0 n1 n2 assms(1) bs bs1 bs2 bs3 g0 g1 g2 g3 by (auto simp: contByte_def)
        have e: "r = 64 * (64 * (64 * (b0 - 240) + (b1 - 128)) + (b2 - 128)) + (b3 - 128)" using r by simp
        have d: "r div 64 = 64 * (64 * (b0 - 240) + (b1 - 128)) + (b2 - 128)" "r mod 64 = b3 - 128"
          using base64_digits [OF e] g3 by auto
        have d2: "r div 64 mod 64 = b2 - 128" and "r div 64 div 64 = 64 * (b0 - 240) + (b1 - 128)"
          using base64_digits [OF d(1)] g2 by auto
        then have d4: "r div 4096 = 64 * (b0 - 240) + (b1 - 128)"
          using zdiv_zmult2_eq [of 64 r 64] by simp
        have d3: "r div 4096 mod 64 = b1 - 128" and "r div 4096 div 64 = b0 - 240"
          using base64_digits [OF d4] g1 lo hi by auto
        then have d6: "r div 262144 = b0 - 240" using zdiv_zmult2_eq [of 64 r 4096] by simp
        have "65536 \<le> r" "r \<le> 1114111"
          using r g0 g1 g2 g3 n2 by (auto simp: secondLo_def secondHi_def split: if_splits)
        then have v: "validRune r" and enc: "encodeValid r =
          [char_of (240 + r div 262144), char_of (128 + r div 4096 mod 64),
           char_of (128 + r div 64 mod 64), char_of (128 + r mod 64)]"
          by (simp_all add: validRune_def encodeValid_def)
        have "encodeValid r = [char_of b0, char_of b1, char_of b2, char_of b3]"
          unfolding enc d(2) d2 d3 d6 by simp
        with v show ?thesis by (simp add: n bs bs1 bs2 bs3)
      qed
    qed
  qed
qed

lemma encode_decodeRune:
  assumes "decodeRune s = (r, n)" and "r \<noteq> RuneError \<or> 1 < n"
  shows "validRune r" and "encodeRune r = take n s"
proof -
  have b: "\<forall>b\<in>set (map of_char (take 4 s)). 0 \<le> b \<and> b < (256::int)"
    by (auto simp: of_char_def)
  from assms have *: "validRune r \<and> encodeValid r = map char_of (take n (map of_char (take 4 s)) :: int list)"
    using encode_decodeBytes [OF _ _ b] by (simp add: decodeRune_def)
  have "n \<le> 4" using assms(1) decodeBytes_width by (fastforce simp: decodeRune_def)
  then have "map char_of (take n (map of_char (take 4 s)) :: int list) = take n s"
    by (simp add: take_map o_def min_def)
  with * show "validRune r" and "encodeRune r = take n s" by (simp_all add: encodeRune_def)
qed

section \<open>A text as a sequence of runes\<close>

function runes_of :: "gobytes \<Rightarrow> rune list" where
  "runes_of s = (if s = [] then [] else fst (decodeRune s) # runes_of (drop (snd (decodeRune s)) s))"
  by pat_completeness auto
termination
proof (relation "measure length")
  fix s :: gobytes
  assume "s \<noteq> []"
  with decodeRune_width [of s "fst (decodeRune s)" "snd (decodeRune s)"]
  show "(drop (snd (decodeRune s)) s, s) \<in> measure length" by simp
qed simp

declare runes_of.simps [simp del]

lemma runes_of_Nil [simp]: "runes_of [] = []"
  by (simp add: runes_of.simps)

lemma runes_of_encode: "validRune r \<Longrightarrow> runes_of (encodeRune r @ s) = r # runes_of s"
proof -
  assume v: "validRune r"
  have d: "decodeRune (encodeRune r @ s) = (r, length (encodeRune r))"
    using v by (simp add: decodeRune_encodeRune)
  have "encodeRune r @ s \<noteq> []" by (simp add: encodeRune_def encodeValid_def)
  then show ?thesis by (subst runes_of.simps) (simp add: d)
qed

definition string_of_runes :: "rune list \<Rightarrow> gobytes" where
  "string_of_runes rs = concat (map encodeRune rs)"

lemma runes_of_string_of_runes: "list_all validRune rs \<Longrightarrow> runes_of (string_of_runes rs) = rs"
  by (induction rs) (simp_all add: string_of_runes_def runes_of_encode)

end
