(* ===== verification/Unicode_Env.thy ===== *)
theory Unicode_Env
  imports Utf8
begin

text \<open>
  The Unicode tables of Go's \<^verbatim>\<open>unicode\<close> package. The tables are data of the Go
  release, so every definition that consults them takes them as an argument: a record of the
  predicates, the case mapping and the named range tables. \<^verbatim>\<open>unicode.Is\<close> itself, the
  search of a code point in a range table, is modelled. \<open>ascii_env\<close> is the restriction of the
  tables to the ASCII range; it serves the concrete runs.
\<close>

section \<open>Range tables\<close>

type_synonym rangeTable = "(rune \<times> rune \<times> rune) list"

fun inRange :: "rune \<Rightarrow> rune \<times> rune \<times> rune \<Rightarrow> bool" where
  "inRange r (lo, hi, stride) \<longleftrightarrow> lo \<le> r \<and> r \<le> hi \<and> (r - lo) mod stride = 0"

definition unicodeIs :: "rangeTable \<Rightarrow> rune \<Rightarrow> bool" where
  "unicodeIs rt r \<longleftrightarrow> list_ex (inRange r) rt"

record unicode_env =
  uToLower :: "rune \<Rightarrow> rune"
  uIsLetter :: "rune \<Rightarrow> bool"
  uIsDigit :: "rune \<Rightarrow> bool"
  uCategories :: "(string \<times> rangeTable) list"
  uProperties :: "(string \<times> rangeTable) list"
  uScripts :: "(string \<times> rangeTable) list"

section \<open>The ASCII part of the tables\<close>

definition ascii_lower :: "rune \<Rightarrow> rune" where
  "ascii_lower r = (if 65 \<le> r \<and> r \<le> 90 then r + 32 else r)"

definition ascii_letter :: "rune \<Rightarrow> bool" where
  "ascii_letter r \<longleftrightarrow> 65 \<le> r \<and> r \<le> 90 \<or> 97 \<le> r \<and> r \<le> 122"

definition ascii_digit :: "rune \<Rightarrow> bool" where
  "ascii_digit r \<longleftrightarrow> 48 \<le> r \<and> r \<le> 57"

definition ascii_env :: unicode_env where
  "ascii_env = \<lparr>uToLower = ascii_lower, uIsLetter = ascii_letter, uIsDigit = ascii_digit,
     uCategories = [(''L'', [(65, 90, 1), (97, 122, 1)]), (''Lu'', [(65, 90, 1)]),
       (''Ll'', [(97, 122, 1)]), (''Nd'', [(48, 57, 1)])],
     uProperties = [(''White_Space'', [(9, 13, 1), (32, 32, 1)])],
     uScripts = [(''Latin'', [(65, 90, 1), (97, 122, 1)])]\<rparr>"

lemma ascii_env_simps [simp]:
  "uToLower ascii_env = ascii_lower"
  "uIsLetter ascii_env = ascii_letter"
  "uIsDigit ascii_env = ascii_digit"
  by (simp_all add: ascii_env_def)

end
