(* ===== verification/Loops.thy ===== *)
theory Loops
  imports Main
begin

text \<open>
  Loops of the source whose number of rounds is not bounded by a list: a body that either continues
  with a new loop state or ends with a result, run at most a given number of rounds. The result
  None stands for a loop that has not ended within them.
\<close>

fun iter :: "nat \<Rightarrow> ('a \<Rightarrow> 'a + 'b) \<Rightarrow> 'a \<Rightarrow> 'b option" where
  "iter 0 body x = None"
| "iter (Suc n) body x = (case body x of Inl y \<Rightarrow> iter n body y | Inr r \<Rightarrow> Some r)"

lemma iter_mono: "iter m body x = Some r \<Longrightarrow> m \<le> n \<Longrightarrow> iter n body x = Some r"
proof (induction n arbitrary: m x)
  case (Suc n)
  then show ?case by (cases m) (auto split: sum.splits)
qed simp

lemma iter_post:
  assumes "iter n body x = Some r" and "Inv x"
    and "\<And>y z. Inv y \<Longrightarrow> body y = Inl z \<Longrightarrow> Inv z"
    and "\<And>y r. Inv y \<Longrightarrow> body y = Inr r \<Longrightarrow> post r"
  shows "post r"
  using assms(1,2)
proof (induction n arbitrary: x)
  case (Suc n)
  then show ?case using assms(3,4) by (auto split: sum.splits)
qed simp

lemma iter_rule:
  assumes "iter n body x = Some r" and "Inv x"
    and "\<And>y. Inv y \<Longrightarrow> case body y of Inl z \<Rightarrow> Inv z | Inr q \<Rightarrow> post q"
  shows "post r"
  by (rule iter_post [where Inv = Inv, OF assms(1,2)]) (use assms(3) in \<open>auto dest: assms(3) split: sum.splits\<close>)

text \<open>A loop with a variant: every round keeps the invariant and makes the variant smaller.\<close>

locale variant_loop =
  fixes body :: "'a \<Rightarrow> 'a + 'b" and Inv :: "'a \<Rightarrow> bool" and size_of :: "'a \<Rightarrow> nat"
  assumes round: "Inv x \<Longrightarrow> body x = Inl y \<Longrightarrow> Inv y \<and> size_of y < size_of x"
begin

lemma ends: "Inv x \<Longrightarrow> size_of x < n \<Longrightarrow> \<exists>r. iter n body x = Some r"
proof (induction n arbitrary: x)
  case (Suc n)
  show ?case
  proof (cases "body x")
    case (Inl y)
    with round [OF Suc.prems(1) this] Suc.IH [of y] Suc.prems show ?thesis by simp
  qed simp
qed simp

lemma ends_with:
  assumes "Inv x" "size_of x < n" and "\<And>y r. Inv y \<Longrightarrow> body y = Inr r \<Longrightarrow> post r"
  obtains r where "iter n body x = Some r" "post r"
proof -
  obtain r where r: "iter n body x = Some r" using ends [OF assms(1,2)] by blast
  have "post r" by (rule iter_post [OF r, of Inv]) (use assms round in auto)
  with r show ?thesis by (rule that)
qed

end

section \<open>Abrupt completion\<close>

text \<open>
  A call returns a value and a state, panics (an error value or another value) in a state, or has
  not returned within the fuel. A call that reaches code of the user that never returns ends in
  \<open>Hangs\<close>: it propagates as a panic does, but nothing recovers it.
\<close>

datatype panicval = PanicError string | PanicValue string | Hangs

datatype ('s, 'r) result = Ret 'r 's | Panic panicval 's | OutOfFuel

definition bindR :: "('s, 'r) result \<Rightarrow> ('r \<Rightarrow> 's \<Rightarrow> ('s, 'q) result) \<Rightarrow> ('s, 'q) result" where
  "bindR m f = (case m of Ret r s \<Rightarrow> f r s | Panic e s \<Rightarrow> Panic e s | OutOfFuel \<Rightarrow> OutOfFuel)"

lemma bindR_simps [simp]:
  "bindR (Ret r s) f = f r s" "bindR (Panic e s) f = Panic e s" "bindR OutOfFuel f = OutOfFuel"
  by (simp_all add: bindR_def)

end
