(* ===== verification/Peg_Runtime.thy ===== *)
theory Peg_Runtime
  imports Unicode_Env Loops
begin

text \<open>
  The parsing engine that every generated parser carries, \<^verbatim>\<open>peg/builder/static_code.go\<close>. The parser is a record
  passed from call to call; a call returns, panics, or runs out of fuel, which bounds both the depth of the recursion and the rounds of a
  repetition. The code blocks of a grammar are functions of the current match and the labels in scope.
\<close>

section \<open>Data\<close>

record position =
  line :: int
  col :: int
  offset :: nat

record savepoint =
  sp_position :: position
  sp_rn :: rune
  sp_w :: nat

record current =
  cur_pos :: position
  cur_text :: gobytes

datatype 'a goval = VNil | VString gobytes | VSlice "'a goval list" | VUser 'a

type_synonym 'a vmap = "(string \<times> 'a goval) list"

datatype 'r codeResult = CodeReturns current 'r "string option" | CodePanics current panicval

type_synonym 'a runFn = "current \<Rightarrow> 'a vmap \<Rightarrow> 'a goval codeResult"
type_synonym 'a predFn = "current \<Rightarrow> 'a vmap \<Rightarrow> bool codeResult"

record charClass =
  cc_pos :: position
  cc_val :: string
  chars :: "rune list"
  ranges :: "rune list"
  classes :: "rangeTable list"
  cc_ignoreCase :: bool
  inverted :: bool

datatype (dead 'a) expr =
    actionExpr position "'a expr" "'a runFn"
  | andCodeExpr position "'a predFn"
  | andExpr position "'a expr"
  | anyMatcher position
  | charClassMatcher charClass
  | choiceExpr position "'a expr list"
  | labeledExpr position string "'a expr"
  | litMatcher position gobytes bool
  | notCodeExpr position "'a predFn"
  | notExpr position "'a expr"
  | oneOrMoreExpr position "'a expr"
  | ruleRefExpr position string
  | seqExpr position "'a expr list"
  | zeroOrMoreExpr position "'a expr"
  | zeroOrOneExpr position "'a expr"
  | otherExpr string

record 'a rule =
  rule_pos :: position
  rule_name :: string
  displayName :: string
  rule_expr :: "'a expr"

record 'a grammar =
  grammar_pos :: position
  grammar_rules :: "'a rule list"

record parserError =
  Inner :: string
  err_prefix :: string

record 'a parser =
  filename :: string
  pt :: savepoint
  cur :: current
  data :: gobytes
  errs :: "parserError list"
  rules :: "(string \<times> 'a rule) list"
  vslots :: "'a vmap option list"
  vlen :: nat
  rstack :: "'a rule list"

section \<open>Errors\<close>

definition ErrNoRule :: string where "ErrNoRule = ''grammar has no rule''"
definition ErrInvalidEncoding :: string where "ErrInvalidEncoding = ''invalid encoding''"
definition ErrNoMatch :: string where "ErrNoMatch = ''no match found''"

definition ParserError_Error :: "parserError \<Rightarrow> string" where
  "ParserError_Error e = err_prefix e @ '': '' @ Inner e"

definition position_String :: "position \<Rightarrow> string" where
  "position_String p = itoa (line p) @ '':'' @ itoa (col p) @ '' ['' @ itoa (int (offset p)) @ '']''"

definition errList_add :: "parserError \<Rightarrow> parserError list \<Rightarrow> parserError list" where
  "errList_add err e = e @ [err]"

fun dedupe_loop :: "string list \<Rightarrow> parserError list \<Rightarrow> parserError list \<Rightarrow> parserError list" where
  "dedupe_loop seen cleaned [] = cleaned"
| "dedupe_loop seen cleaned (err # es) =
     (let msg = ParserError_Error err
      in if msg \<notin> set seen then dedupe_loop (msg # seen) (cleaned @ [err]) es
         else dedupe_loop seen cleaned es)"

definition errList_dedupe :: "parserError list \<Rightarrow> parserError list" where
  "errList_dedupe e = dedupe_loop [] [] e"

definition errList_err :: "parserError list \<Rightarrow> parserError list option" where
  "errList_err e = (if length e = 0 then None else Some (errList_dedupe e))"

fun join_lines :: "string list \<Rightarrow> string" where
  "join_lines [] = ''''"
| "join_lines [x] = x"
| "join_lines (x # y # ys) = x @ [CHR 0x0A] @ join_lines (y # ys)"

definition errList_Error :: "parserError list \<Rightarrow> string" where
  "errList_Error e = join_lines (map ParserError_Error e)"

section \<open>The value stack\<close>

definition pushV :: "'a parser \<Rightarrow> 'a parser" where
  "pushV p =
     (let p1 = (if length (vslots p) = vlen p
                then p\<lparr>vslots := vslots p @ [None], vlen := Suc (vlen p)\<rparr>
                else p\<lparr>vlen := Suc (vlen p)\<rparr>)
      in case vslots p1 ! (vlen p1 - 1) of
           Some m \<Rightarrow> if length m = 0 then p1 else p1\<lparr>vslots := (vslots p1)[vlen p1 - 1 := Some []]\<rparr>
         | None \<Rightarrow> p1\<lparr>vslots := (vslots p1)[vlen p1 - 1 := Some []]\<rparr>)"

definition popV :: "'a parser \<Rightarrow> 'a parser" where
  "popV p =
     (let p1 = (case vslots p ! (vlen p - 1) of
                  Some m \<Rightarrow> if length m > 0 then p\<lparr>vslots := (vslots p)[vlen p - 1 := None]\<rparr> else p
                | None \<Rightarrow> p)
      in p1\<lparr>vlen := vlen p1 - 1\<rparr>)"

definition topV :: "'a parser \<Rightarrow> 'a vmap option" where
  "topV p =
     (if vlen p = 0 then None
      else case vslots p ! (vlen p - 1) of None \<Rightarrow> Some [] | Some m \<Rightarrow> Some m)"

section \<open>Positions and errors of the parser\<close>

definition addErrAt :: "string \<Rightarrow> position \<Rightarrow> 'a parser \<Rightarrow> 'a parser" where
  "addErrAt err pos p =
     (let b1 = (if filename p \<noteq> '''' then filename p else '''');
          b2 = (if length b1 > 0 then b1 @ '':'' else b1);
          b3 = b2 @ itoa (line pos) @ '':'' @ itoa (col pos) @ '' ('' @ itoa (int (offset pos)) @ '')'';
          b4 = (if length (rstack p) > 0
                then (let b = (if length b3 > 0 then b3 @ '': '' else b3); r = last (rstack p)
                      in if displayName r \<noteq> '''' then b @ ''rule '' @ displayName r
                         else b @ ''rule '' @ rule_name r)
                else b3)
      in p\<lparr>errs := errList_add \<lparr>Inner = err, err_prefix = b4\<rparr> (errs p)\<rparr>)"

definition addErr :: "string \<Rightarrow> 'a parser \<Rightarrow> 'a parser" where
  "addErr err p = addErrAt err (sp_position (pt p)) p"

definition advance :: "gobytes \<Rightarrow> savepoint \<Rightarrow> savepoint" where
  "advance d sp =
     (let off = offset (sp_position sp) + sp_w sp;
          (r, n) = decodeRune (drop off d);
          c = col (sp_position sp) + 1
      in \<lparr>sp_position = (if r = 10
                        then \<lparr>line = line (sp_position sp) + 1, col = 0, offset = off\<rparr>
                        else \<lparr>line = line (sp_position sp), col = c, offset = off\<rparr>),
          sp_rn = r, sp_w = n\<rparr>)"

definition read :: "'a parser \<Rightarrow> 'a parser" where
  "read p =
     (let p1 = p\<lparr>pt := advance (data p) (pt p)\<rparr>
      in if sp_rn (pt p1) = RuneError \<and> sp_w (pt p1) > 0 then addErr ErrInvalidEncoding p1 else p1)"

definition save :: "'a parser \<Rightarrow> savepoint" where
  "save p = pt p"

definition restore :: "savepoint \<Rightarrow> 'a parser \<Rightarrow> 'a parser" where
  "restore sp p = (if offset (sp_position sp) = offset (sp_position (pt p)) then p else p\<lparr>pt := sp\<rparr>)"

definition slice :: "position \<Rightarrow> position \<Rightarrow> 'a parser \<Rightarrow> gobytes" where
  "slice start end p = take (offset end - offset start) (drop (offset start) (data p))"

definition buildRulesTable :: "'a grammar \<Rightarrow> 'a parser \<Rightarrow> 'a parser" where
  "buildRulesTable g p = p\<lparr>rules := fold (\<lambda>r m. AList.update (rule_name r) r m) (grammar_rules g) []\<rparr>"

section \<open>Results\<close>

type_synonym 'a matcher = "'a parser \<Rightarrow> ('a parser, 'a goval \<times> bool) result"
type_synonym 'a recFn = "'a expr \<Rightarrow> 'a matcher"

section \<open>The handlers, one per kind of expression\<close>

definition nilMapPanic :: panicval where
  "nilMapPanic = PanicError ''assignment to entry in nil map''"

definition indexPanic :: panicval where
  "indexPanic = PanicError ''runtime error: index out of range''"

definition parseRule :: "'a recFn \<Rightarrow> 'a rule \<Rightarrow> 'a matcher" where
  "parseRule rec r p =
     (let p1 = pushV (p\<lparr>rstack := rstack p @ [r]\<rparr>)
      in bindR (rec (rule_expr r) p1)
           (\<lambda>(val, ok) p2. let p3 = popV p2 in Ret (val, ok) (p3\<lparr>rstack := butlast (rstack p3)\<rparr>)))"

definition runAction :: "savepoint \<Rightarrow> 'a runFn \<Rightarrow> 'a parser \<Rightarrow> ('a parser, 'a goval) result" where
  "runAction start run p =
     (let p1 = p\<lparr>cur := \<lparr>cur_pos = sp_position start,
                   cur_text = slice (sp_position start) (sp_position (save p)) p\<rparr>\<rparr>
      in case topV p1 of
           None \<Rightarrow> Panic indexPanic p1
         | Some m \<Rightarrow>
             (case run (cur p1) m of
                CodePanics c e \<Rightarrow> Panic e (p1\<lparr>cur := c\<rparr>)
              | CodeReturns c actVal err \<Rightarrow>
                  let p2 = p1\<lparr>cur := c\<rparr>
                  in Ret actVal (case err of None \<Rightarrow> p2 | Some e \<Rightarrow> addErrAt e (sp_position start) p2)))"

definition parseActionExpr :: "'a recFn \<Rightarrow> 'a expr \<Rightarrow> 'a runFn \<Rightarrow> 'a matcher" where
  "parseActionExpr rec e run p =
     (let start = save p
      in bindR (rec e p) (\<lambda>(val, ok) p1.
           if ok then bindR (runAction start run p1) (\<lambda>actVal p2. Ret (actVal, ok) p2)
           else Ret (val, ok) p1))"

definition runPred :: "'a predFn \<Rightarrow> 'a parser \<Rightarrow> ('a parser, bool) result" where
  "runPred run p =
     (case topV p of
        None \<Rightarrow> Panic indexPanic p
      | Some m \<Rightarrow>
          (case run (cur p) m of
             CodePanics c e \<Rightarrow> Panic e (p\<lparr>cur := c\<rparr>)
           | CodeReturns c ok err \<Rightarrow>
               let p1 = p\<lparr>cur := c\<rparr>
               in Ret ok (case err of None \<Rightarrow> p1 | Some e \<Rightarrow> addErr e p1)))"

definition parseAndCodeExpr :: "'a predFn \<Rightarrow> 'a matcher" where
  "parseAndCodeExpr run p = bindR (runPred run p) (\<lambda>ok p1. Ret (VNil, ok) p1)"

definition parseNotCodeExpr :: "'a predFn \<Rightarrow> 'a matcher" where
  "parseNotCodeExpr run p = bindR (runPred run p) (\<lambda>ok p1. Ret (VNil, \<not> ok) p1)"

definition parseAndExpr :: "'a recFn \<Rightarrow> 'a expr \<Rightarrow> 'a matcher" where
  "parseAndExpr rec e p =
     (let sp = save p in bindR (rec e p) (\<lambda>(_, ok) p1. Ret (VNil, ok) (restore sp p1)))"

definition parseNotExpr :: "'a recFn \<Rightarrow> 'a expr \<Rightarrow> 'a matcher" where
  "parseNotExpr rec e p =
     (let sp = save p in bindR (rec e p) (\<lambda>(_, ok) p1. Ret (VNil, \<not> ok) (restore sp p1)))"

definition parseAnyMatcher :: "'a matcher" where
  "parseAnyMatcher p =
     (if sp_rn (pt p) \<noteq> RuneError
      then let p1 = read p in Ret (VString (encodeRune (sp_rn (pt p1))), True) p1
      else Ret (VNil, False) p)"

datatype classHit = Hit | Miss | BadRange

fun matchRanges :: "rune list \<Rightarrow> rune \<Rightarrow> classHit" where
  "matchRanges [] c = Miss"
| "matchRanges [lo] c = (if lo \<le> c then BadRange else Miss)"
| "matchRanges (lo # hi # rs) c = (if lo \<le> c \<and> c \<le> hi then Hit else matchRanges rs c)"

definition matchClass :: "charClass \<Rightarrow> rune \<Rightarrow> classHit" where
  "matchClass chr c =
     (if c \<in> set (chars chr) then Hit
      else case matchRanges (ranges chr) c of
        Hit \<Rightarrow> Hit
      | BadRange \<Rightarrow> BadRange
      | Miss \<Rightarrow> if list_ex (\<lambda>cl. unicodeIs cl c) (classes chr) then Hit else Miss)"

definition parseCharClassMatcher :: "unicode_env \<Rightarrow> charClass \<Rightarrow> 'a matcher" where
  "parseCharClassMatcher U chr p =
     (let c = (if cc_ignoreCase chr then uToLower U (sp_rn (pt p)) else sp_rn (pt p))
      in case matchClass chr c of
           Hit \<Rightarrow> if inverted chr then Ret (VNil, False) p
                  else Ret (VString (encodeRune c), True) (read p)
         | BadRange \<Rightarrow> Panic indexPanic p
         | Miss \<Rightarrow> if inverted chr then Ret (VString (encodeRune c), True) (read p)
                   else Ret (VNil, False) p)"

fun parseAlternatives :: "'a recFn \<Rightarrow> 'a expr list \<Rightarrow> 'a matcher" where
  "parseAlternatives rec [] p = Ret (VNil, False) p"
| "parseAlternatives rec (alt # alts) p =
     bindR (rec alt (pushV p)) (\<lambda>(val, ok) p1.
       let p2 = popV p1 in if ok then Ret (val, ok) p2 else parseAlternatives rec alts p2)"

definition parseChoiceExpr :: "'a recFn \<Rightarrow> 'a expr list \<Rightarrow> 'a matcher" where
  "parseChoiceExpr rec alts p = parseAlternatives rec alts p"

definition parseLabeledExpr :: "'a recFn \<Rightarrow> string \<Rightarrow> 'a expr \<Rightarrow> 'a matcher" where
  "parseLabeledExpr rec label e p =
     bindR (rec e (pushV p)) (\<lambda>(val, ok) p1.
       let p2 = popV p1
       in if ok \<and> label \<noteq> '''' then
            (if vlen p2 = 0 then Panic indexPanic p2
             else case vslots p2 ! (vlen p2 - 1) of
               None \<Rightarrow> Panic nilMapPanic p2
             | Some m \<Rightarrow> Ret (val, ok) (p2\<lparr>vslots := (vslots p2)[vlen p2 - 1 := Some (AList.update label val m)]\<rparr>))
          else Ret (val, ok) p2)"

fun matchLit :: "unicode_env \<Rightarrow> bool \<Rightarrow> savepoint \<Rightarrow> gobytes \<Rightarrow> rune list \<Rightarrow> 'a matcher" where
  "matchLit U ignoreCase sp buf [] p = Ret (VString buf, True) p"
| "matchLit U ignoreCase sp buf (want # wants) p =
     (let buf1 = buf @ encodeRune (sp_rn (pt p));
          c = (if ignoreCase then uToLower U (sp_rn (pt p)) else sp_rn (pt p))
      in if c \<noteq> want then Ret (VNil, False) (restore sp p)
         else matchLit U ignoreCase sp buf1 wants (read p))"

definition parseLitMatcher :: "unicode_env \<Rightarrow> gobytes \<Rightarrow> bool \<Rightarrow> 'a matcher" where
  "parseLitMatcher U val ignoreCase p = matchLit U ignoreCase (save p) [] (runes_of val) p"

fun parseMany :: "'a recFn \<Rightarrow> nat \<Rightarrow> 'a expr \<Rightarrow> 'a goval list \<Rightarrow> 'a parser \<Rightarrow>
    ('a parser, 'a goval list) result" where
  "parseMany rec 0 e vals p = OutOfFuel"
| "parseMany rec (Suc k) e vals p =
     bindR (rec e p) (\<lambda>(val, ok) p1.
       if \<not> ok then Ret vals p1 else parseMany rec k e (vals @ [val]) p1)"

definition parseOneOrMoreExpr :: "'a recFn \<Rightarrow> nat \<Rightarrow> 'a expr \<Rightarrow> 'a matcher" where
  "parseOneOrMoreExpr rec k e p =
     bindR (parseMany rec k e [] p) (\<lambda>vals p1.
       if length vals = 0 then Ret (VNil, False) p1 else Ret (VSlice vals, True) p1)"

definition parseZeroOrMoreExpr :: "'a recFn \<Rightarrow> nat \<Rightarrow> 'a expr \<Rightarrow> 'a matcher" where
  "parseZeroOrMoreExpr rec k e p =
     bindR (parseMany rec k e [] p) (\<lambda>vals p1. Ret (VSlice vals, True) p1)"

definition parseZeroOrOneExpr :: "'a recFn \<Rightarrow> 'a expr \<Rightarrow> 'a matcher" where
  "parseZeroOrOneExpr rec e p = bindR (rec e p) (\<lambda>(val, _) p1. Ret (val, True) p1)"

definition parseRuleRefExpr :: "'a recFn \<Rightarrow> position \<Rightarrow> string \<Rightarrow> 'a matcher" where
  "parseRuleRefExpr rec pos name p =
     (if name = '''' then Panic (PanicValue (position_String pos @ '': invalid rule: missing name'')) p
      else case map_of (rules p) name of
        None \<Rightarrow> Ret (VNil, False) (addErr (''undefined rule: '' @ name) p)
      | Some r \<Rightarrow> parseRule rec r p)"

fun parseSeq :: "'a recFn \<Rightarrow> savepoint \<Rightarrow> 'a goval list \<Rightarrow> 'a expr list \<Rightarrow> 'a matcher" where
  "parseSeq rec sp vals [] p = Ret (VSlice vals, True) p"
| "parseSeq rec sp vals (e # es) p =
     bindR (rec e p) (\<lambda>(val, ok) p1.
       if \<not> ok then Ret (VNil, False) (restore sp p1) else parseSeq rec sp (vals @ [val]) es p1)"

definition parseSeqExpr :: "'a recFn \<Rightarrow> 'a expr list \<Rightarrow> 'a matcher" where
  "parseSeqExpr rec es p = parseSeq rec (save p) [] es p"

section \<open>The dispatcher and the entry point\<close>

fun dispatch :: "unicode_env \<Rightarrow> 'a recFn \<Rightarrow> nat \<Rightarrow> 'a recFn" where
  "dispatch U rec k (actionExpr _ e run) p = parseActionExpr rec e run p"
| "dispatch U rec k (andCodeExpr _ run) p = parseAndCodeExpr run p"
| "dispatch U rec k (andExpr _ e) p = parseAndExpr rec e p"
| "dispatch U rec k (anyMatcher _) p = parseAnyMatcher p"
| "dispatch U rec k (charClassMatcher chr) p = parseCharClassMatcher U chr p"
| "dispatch U rec k (choiceExpr _ alts) p = parseChoiceExpr rec alts p"
| "dispatch U rec k (labeledExpr _ label e) p = parseLabeledExpr rec label e p"
| "dispatch U rec k (litMatcher _ val ignoreCase) p = parseLitMatcher U val ignoreCase p"
| "dispatch U rec k (notCodeExpr _ run) p = parseNotCodeExpr run p"
| "dispatch U rec k (notExpr _ e) p = parseNotExpr rec e p"
| "dispatch U rec k (oneOrMoreExpr _ e) p = parseOneOrMoreExpr rec k e p"
| "dispatch U rec k (ruleRefExpr pos name) p = parseRuleRefExpr rec pos name p"
| "dispatch U rec k (seqExpr _ es) p = parseSeqExpr rec es p"
| "dispatch U rec k (zeroOrMoreExpr _ e) p = parseZeroOrMoreExpr rec k e p"
| "dispatch U rec k (zeroOrOneExpr _ e) p = parseZeroOrOneExpr rec e p"
| "dispatch U rec k (otherExpr ty) p = Panic (PanicValue (''unknown expression type '' @ ty)) p"

fun parseExpr :: "unicode_env \<Rightarrow> nat \<Rightarrow> 'a recFn" where
  "parseExpr U 0 e p = OutOfFuel"
| "parseExpr U (Suc n) e p = dispatch U (parseExpr U n) n e p"

definition newParser :: "string \<Rightarrow> gobytes \<Rightarrow> 'a parser" where
  "newParser fname b =
     \<lparr>filename = fname,
      pt = \<lparr>sp_position = \<lparr>line = 1, col = 0, offset = 0\<rparr>, sp_rn = 0, sp_w = 0\<rparr>,
      cur = \<lparr>cur_pos = \<lparr>line = 0, col = 0, offset = 0\<rparr>, cur_text = []\<rparr>,
      data = b, errs = [], rules = [], vslots = [], vlen = 0, rstack = []\<rparr>"

fun panicMessage :: "panicval \<Rightarrow> string" where
  "panicMessage (PanicError m) = m"
| "panicMessage (PanicValue m) = m"
| "panicMessage Hangs = ''''"

definition parser_parse :: "unicode_env \<Rightarrow> nat \<Rightarrow> 'a grammar \<Rightarrow> 'a parser \<Rightarrow>
    ('a parser \<times> 'a goval \<times> parserError list option) option" where
  "parser_parse U fuel g p =
     (if length (grammar_rules g) = 0
      then (let p1 = addErr ErrNoRule p in Some (p1, VNil, errList_err (errs p1)))
      else
        let p1 = read (buildRulesTable g p)
        in case parseRule (parseExpr U fuel) (hd (grammar_rules g)) p1 of
             OutOfFuel \<Rightarrow> None
           | Panic e p2 \<Rightarrow>
               if e = Hangs then None
               else (let p3 = addErr (panicMessage e) p2 in Some (p3, VNil, errList_err (errs p3)))
           | Ret (val, ok) p2 \<Rightarrow>
               if \<not> ok then
                 (let p3 = (if length (errs p2) = 0 then addErr ErrNoMatch p2 else p2)
                  in Some (p3, VNil, errList_err (errs p3)))
               else Some (p2, val, errList_err (errs p2)))"

datatype parseFailure = ReadFailure string | ErrList "parserError list"

definition parse :: "unicode_env \<Rightarrow> nat \<Rightarrow> string \<Rightarrow> string + gobytes \<Rightarrow> 'a grammar \<Rightarrow>
    ('a goval \<times> parseFailure option) option" where
  "parse U fuel fname r g =
     (case r of
        Inl err \<Rightarrow> Some (VNil, Some (ReadFailure err))
      | Inr b \<Rightarrow>
          map_option (\<lambda>(_, val, err). (val, map_option ErrList err)) (parser_parse U fuel g (newParser fname b)))"

definition rangeTable_of :: "unicode_env \<Rightarrow> string \<Rightarrow> panicval + rangeTable" where
  "rangeTable_of U cls =
     (case map_of (uCategories U) cls of
        Some rt \<Rightarrow> Inr rt
      | None \<Rightarrow>
          (case map_of (uProperties U) cls of
             Some rt \<Rightarrow> Inr rt
           | None \<Rightarrow>
               (case map_of (uScripts U) cls of
                  Some rt \<Rightarrow> Inr rt
                | None \<Rightarrow> Inl (PanicValue (''invalid Unicode class: '' @ cls)))))"

end
