(* ===== verification/Peg_Engine.thy ===== *)
theory Peg_Engine
  imports Peg_Runtime
begin

text \<open>
  Facts about the engine of \<open>Peg_Runtime\<close>: the positions it can be at, the invariant of its stacks, and the contract
  \<open>good_result\<close> that every matcher keeps when the matchers it calls do. More fuel never changes a result.
\<close>

section \<open>Save points\<close>

abbreviation sp_off :: "savepoint \<Rightarrow> nat" where
  "sp_off sp \<equiv> offset (sp_position sp)"

abbreviation off :: "'a parser \<Rightarrow> nat" where
  "off p \<equiv> sp_off (pt p)"

definition sp_start :: savepoint where
  "sp_start = \<lparr>sp_position = \<lparr>line = 1, col = 0, offset = 0\<rparr>, sp_rn = 0, sp_w = 0\<rparr>"

definition sp_nth :: "gobytes \<Rightarrow> nat \<Rightarrow> savepoint" where
  "sp_nth d k = (advance d ^^ Suc k) sp_start"

definition sp_reach :: "gobytes \<Rightarrow> savepoint \<Rightarrow> bool" where
  "sp_reach d sp \<longleftrightarrow> (\<exists>k. sp = sp_nth d k)"

lemma sp_nth_0: "sp_nth d 0 = advance d sp_start"
  by (simp add: sp_nth_def)

lemma sp_nth_Suc: "sp_nth d (Suc k) = advance d (sp_nth d k)"
  by (simp add: sp_nth_def)

lemma sp_reach_advance [intro]: "sp_reach d sp \<Longrightarrow> sp_reach d (advance d sp)"
  unfolding sp_reach_def using sp_nth_Suc by metis

lemma advance_off [simp]: "sp_off (advance d sp) = sp_off sp + sp_w sp"
  by (simp add: advance_def Let_def split: prod.splits)

lemma advance_decode:
  "decodeRune (drop (sp_off (advance d sp)) d) = (sp_rn (advance d sp), sp_w (advance d sp))"
  by (simp add: advance_def Let_def split: prod.splits)

lemma sp_reach_decode:
  assumes "sp_reach d sp"
  shows "decodeRune (drop (sp_off sp) d) = (sp_rn sp, sp_w sp)"
proof -
  from assms obtain k where "sp = sp_nth d k" by (auto simp: sp_reach_def)
  then have "\<exists>sp0. sp = advance d sp0" by (cases k) (auto simp: sp_nth_0 sp_nth_Suc)
  then show ?thesis using advance_decode by blast
qed

lemma sp_reach_width:
  assumes "sp_reach d sp"
  shows "sp_w sp = 0 \<longleftrightarrow> length d \<le> sp_off sp" and "sp_w sp \<le> length d - sp_off sp"
  using decodeRune_width [OF sp_reach_decode [OF assms]] by auto

lemma sp_nth_off_le: "sp_off (sp_nth d k) \<le> length d"
proof (induction k)
  case 0
  show ?case by (simp add: sp_nth_0 sp_start_def)
next
  case (Suc k)
  have "sp_reach d (sp_nth d k)" by (auto simp: sp_reach_def)
  with Suc sp_reach_width(2) show ?case by (fastforce simp: sp_nth_Suc)
qed

lemma sp_reach_off_le: "sp_reach d sp \<Longrightarrow> sp_off sp \<le> length d"
  using sp_nth_off_le by (auto simp: sp_reach_def)

lemma sp_nth_mono: "i \<le> j \<Longrightarrow> sp_off (sp_nth d i) \<le> sp_off (sp_nth d j)"
  by (induction j) (auto simp: le_Suc_eq sp_nth_Suc)

lemma sp_nth_strict: "i < j \<Longrightarrow> sp_w (sp_nth d i) \<noteq> 0 \<Longrightarrow> sp_off (sp_nth d i) < sp_off (sp_nth d j)"
  using sp_nth_mono [of "Suc i" j d] by (simp add: sp_nth_Suc)

lemma sp_reach_unique:
  assumes "sp_reach d a" "sp_reach d b" "sp_off a = sp_off b" "sp_w a \<noteq> 0"
  shows "a = b"
proof -
  from assms obtain i j where ij: "a = sp_nth d i" "b = sp_nth d j" by (auto simp: sp_reach_def)
  have "sp_w b = sp_w a" using sp_reach_decode assms by (metis prod.inject)
  then have "i = j" using sp_nth_strict [of i j d] sp_nth_strict [of j i d] assms ij
    by (metis linorder_neqE_nat nat_neq_iff)
  with ij show ?thesis by simp
qed

lemma sp_reach_same_rune:
  assumes "sp_reach d a" "sp_reach d b" "sp_off a = sp_off b"
  shows "sp_rn a = sp_rn b" and "sp_w a = sp_w b"
  using sp_reach_decode assms by (metis prod.inject)+

section \<open>Well-formed parser states\<close>

definition wf_v :: "'a parser \<Rightarrow> bool" where
  "wf_v p \<longleftrightarrow> vlen p \<le> length (vslots p) \<and> (\<forall>i<vlen p. vslots p ! i \<noteq> None)"

definition wf_parser :: "'a parser \<Rightarrow> bool" where
  "wf_parser p \<longleftrightarrow> sp_reach (data p) (pt p) \<and> wf_v p"

definition kept :: "nat \<Rightarrow> 'a parser \<Rightarrow> 'a parser \<Rightarrow> bool" where
  "kept k p p' \<longleftrightarrow>
     wf_parser p' \<and> data p' = data p \<and> filename p' = filename p \<and> rules p' = rules p \<and>
     rstack p' = rstack p \<and> vlen p' = vlen p \<and> (\<forall>i<k. vslots p' ! i = vslots p ! i) \<and>
     Sublist.prefix (errs p) (errs p') \<and> off p \<le> off p'"

definition aborted :: "'a parser \<Rightarrow> 'a parser \<Rightarrow> bool" where
  "aborted p p' \<longleftrightarrow> data p' = data p \<and> filename p' = filename p \<and>
     Sublist.prefix (errs p) (errs p')"

lemma kept_refl [simp, intro]: "wf_parser p \<Longrightarrow> kept k p p"
  by (simp add: kept_def)

lemma kept_trans [trans]: "kept k p q \<Longrightarrow> kept k q r \<Longrightarrow> kept k p r"
  by (auto simp: kept_def)

lemma kept_mono: "kept k p q \<Longrightarrow> j \<le> k \<Longrightarrow> kept j p q"
  by (auto simp: kept_def)

lemma kept_wf [dest]: "kept k p q \<Longrightarrow> wf_parser q"
  by (simp add: kept_def)

lemma kept_vlen: "kept k p q \<Longrightarrow> vlen q = vlen p"
  by (simp add: kept_def)

lemma kept_aborted [trans]: "kept k p q \<Longrightarrow> aborted q r \<Longrightarrow> aborted p r"
  by (auto simp: kept_def aborted_def)

lemma aborted_refl [simp, intro]: "aborted p p"
  by (simp add: aborted_def)

subsection \<open>Frames of the basic operations\<close>

lemma addErrAt_frame [frame_simps, simp]:
  "pt (addErrAt e ps p) = pt p" "data (addErrAt e ps p) = data p" "filename (addErrAt e ps p) = filename p"
  "rules (addErrAt e ps p) = rules p" "vslots (addErrAt e ps p) = vslots p" "vlen (addErrAt e ps p) = vlen p"
  "rstack (addErrAt e ps p) = rstack p" "cur (addErrAt e ps p) = cur p"
  by (simp_all add: addErrAt_def Let_def)

lemma addErrAt_errs: "\<exists>e'. errs (addErrAt e ps p) = errs p @ [e'] \<and> Inner e' = e"
  by (simp add: addErrAt_def Let_def errList_add_def)

lemma addErrAt_prefix [simp]: "Sublist.prefix (errs p) (errs (addErrAt e ps p))"
  using addErrAt_errs [of e ps p] by auto

lemma wf_addErrAt [simp]: "wf_parser (addErrAt e ps p) = wf_parser p"
  by (simp add: wf_parser_def wf_v_def)

lemma kept_addErrAt [simp, intro]: "wf_parser p \<Longrightarrow> kept k p (addErrAt e ps p)"
  by (simp add: kept_def)

lemma kept_addErr [simp, intro]: "wf_parser p \<Longrightarrow> kept k p (addErr e p)"
  by (simp add: addErr_def)

lemma wf_set_cur [simp]: "wf_parser (p\<lparr>cur := c\<rparr>) = wf_parser p"
  by (simp add: wf_parser_def wf_v_def)

lemma kept_set_cur [simp, intro]: "wf_parser p \<Longrightarrow> kept k p (p\<lparr>cur := c\<rparr>)"
  by (simp add: kept_def)

lemma read_frame [frame_simps, simp]:
  "data (read p) = data p" "filename (read p) = filename p" "rules (read p) = rules p"
  "vslots (read p) = vslots p" "vlen (read p) = vlen p" "rstack (read p) = rstack p"
  "cur (read p) = cur p" "pt (read p) = advance (data p) (pt p)"
  by (simp_all add: read_def Let_def addErr_def)

lemma read_prefix [simp]: "Sublist.prefix (errs p) (errs (read p))"
  using addErrAt_prefix [of "p\<lparr>pt := advance (data p) (pt p)\<rparr>"]
  by (simp add: read_def Let_def addErr_def)

lemma kept_read [simp, intro]: "wf_parser p \<Longrightarrow> kept k p (read p)"
  by (auto simp: kept_def wf_parser_def wf_v_def)

lemma restore_frame [frame_simps, simp]:
  "data (restore sp p) = data p" "filename (restore sp p) = filename p" "rules (restore sp p) = rules p"
  "vslots (restore sp p) = vslots p" "vlen (restore sp p) = vlen p" "rstack (restore sp p) = rstack p"
  "errs (restore sp p) = errs p" "off (restore sp p) = sp_off sp"
  by (simp_all add: restore_def)

lemma restore_back:
  assumes "wf_parser p" "kept k p q"
  shows "kept k p (restore (pt p) q)"
  using assms by (auto simp: kept_def wf_parser_def wf_v_def restore_def)

subsection \<open>The value stack is a stack\<close>

lemma pushV_frame [frame_simps, simp]:
  "pt (pushV p) = pt p" "data (pushV p) = data p" "filename (pushV p) = filename p"
  "rules (pushV p) = rules p" "rstack (pushV p) = rstack p" "errs (pushV p) = errs p"
  "cur (pushV p) = cur p" "vlen (pushV p) = Suc (vlen p)"
  by (simp_all add: pushV_def Let_def split: option.split)

lemma popV_frame [frame_simps, simp]:
  "pt (popV p) = pt p" "data (popV p) = data p" "filename (popV p) = filename p"
  "rules (popV p) = rules p" "rstack (popV p) = rstack p" "errs (popV p) = errs p"
  "cur (popV p) = cur p" "vlen (popV p) = vlen p - 1"
  by (simp_all add: popV_def Let_def split: option.split)

lemma pushV_length: "wf_v p \<Longrightarrow> vlen p < length (vslots (pushV p))"
  by (auto simp: pushV_def Let_def wf_v_def split: option.split)

lemma pushV_top: "wf_v p \<Longrightarrow> vslots (pushV p) ! vlen p = Some []"
  by (auto simp: pushV_def Let_def wf_v_def nth_append split: option.split)

lemma pushV_below: "wf_v p \<Longrightarrow> i < vlen p \<Longrightarrow> vslots (pushV p) ! i = vslots p ! i"
  by (auto simp: pushV_def Let_def wf_v_def nth_append split: option.split)

lemma popV_length: "length (vslots (popV p)) = length (vslots p)"
  by (auto simp: popV_def Let_def split: option.split)

lemma popV_below: "i < vlen p - 1 \<Longrightarrow> vslots (popV p) ! i = vslots p ! i"
  by (auto simp: popV_def Let_def split: option.split)

lemma wf_pushV: "wf_parser p \<Longrightarrow> wf_parser (pushV p)"
proof -
  assume wf: "wf_parser p"
  then have v: "wf_v p" by (simp add: wf_parser_def)
  have "vslots (pushV p) ! i \<noteq> None" if "i < Suc (vlen p)" for i
    using that pushV_top [OF v] pushV_below [OF v] v by (cases "i = vlen p") (auto simp: wf_v_def)
  with pushV_length [OF v] wf show ?thesis by (auto simp: wf_parser_def wf_v_def)
qed

lemma wf_popV: "wf_parser p \<Longrightarrow> wf_parser (popV p)"
  by (auto simp: wf_parser_def wf_v_def popV_length popV_below)

text \<open>A call made between \<open>pushV\<close> and \<open>popV\<close> leaves every frame of the caller alone.\<close>

lemma kept_scoped:
  assumes "wf_parser p" and "kept (vlen p) (pushV p) q"
  shows "kept (vlen p) p (popV q)"
proof -
  have v: "wf_v p" using assms(1) by (simp add: wf_parser_def)
  have q: "vlen q = Suc (vlen p)" using assms(2) by (simp add: kept_def)
  have "vslots (popV q) ! i = vslots p ! i" if "i < vlen p" for i
    using that assms(2) pushV_below [OF v that] popV_below [of i q] by (simp add: kept_def q)
  with assms(2) wf_popV [of q] show ?thesis by (auto simp: kept_def)
qed

lemma aborted_scoped: "aborted (pushV p) q \<Longrightarrow> aborted p q"
  by (simp add: aborted_def)

section \<open>The contract of the recursive call\<close>

definition pre_parser :: "'a parser \<Rightarrow> bool" where
  "pre_parser p \<longleftrightarrow> wf_parser p \<and> 0 < vlen p"

definition nlow :: "'a parser \<Rightarrow> nat" where
  "nlow p = vlen p - 1"

lemma nlow_pushV [simp]: "nlow (pushV p) = vlen p"
  by (simp add: nlow_def)

lemma nlow_le [simp]: "nlow p \<le> vlen p"
  by (simp add: nlow_def)

lemma nlow_kept: "kept k p q \<Longrightarrow> nlow q = nlow p"
  by (simp add: nlow_def kept_vlen)

definition good_result :: "nat \<Rightarrow> 'a parser \<Rightarrow> ('a parser, 'a goval \<times> bool) result \<Rightarrow> bool" where
  "good_result k p r \<longleftrightarrow>
     (case r of
        OutOfFuel \<Rightarrow> True
      | Panic x p' \<Rightarrow> aborted p p'
      | Ret (v, ok) p' \<Rightarrow> kept k p p' \<and> (\<not> ok \<longrightarrow> off p' = off p))"

lemma good_result_simps [simp]:
  "good_result k p OutOfFuel" "good_result k p (Panic x p') = aborted p p'"
  "good_result k p (Ret (v, ok) p') = (kept k p p' \<and> (\<not> ok \<longrightarrow> off p' = off p))"
  by (simp_all add: good_result_def)

lemma good_result_bind:
  assumes "good_result k p m"
    and "\<And>v ok q. m = Ret (v, ok) q \<Longrightarrow> kept k p q \<Longrightarrow> (\<not> ok \<Longrightarrow> off q = off p) \<Longrightarrow> good_result j r (f (v, ok) q)"
    and "\<And>x q. aborted p q \<Longrightarrow> aborted r q"
  shows "good_result j r (bindR m f)"
  using assms by (cases m) (auto)

lemma kept_update_top:
  assumes "wf_parser p" "0 < vlen p"
  shows "kept (nlow p) p (p\<lparr>vslots := (vslots p)[vlen p - 1 := Some m]\<rparr>)"
  using assms by (auto simp: kept_def wf_parser_def wf_v_def nth_list_update nlow_def)

text \<open>User code sees the top frame and the current match, and changes the current match only.\<close>

lemma runAction_cases:
  assumes "wf_parser p"
  shows "case runAction sp run p of
      Ret v p' \<Rightarrow> kept k p p' \<and> off p' = off p
    | Panic x p' \<Rightarrow> aborted p p' | OutOfFuel \<Rightarrow> False"
proof -
  let ?c = "\<lambda>c. p\<lparr>cur := c\<rparr>"
  have "kept k p (?c c)" "kept k p (addErrAt e ps (?c c))" "aborted p (?c c)" for c e ps
    using assms kept_trans [OF kept_set_cur kept_addErrAt]
    by (auto simp: aborted_def)
  then show ?thesis
    by (auto simp: runAction_def Let_def split: option.split codeResult.split)
qed

lemma runPred_cases:
  assumes "wf_parser p"
  shows "case runPred run p of
      Ret v p' \<Rightarrow> kept k p p' \<and> off p' = off p
    | Panic x p' \<Rightarrow> aborted p p' | OutOfFuel \<Rightarrow> False"
proof -
  let ?c = "\<lambda>c. p\<lparr>cur := c\<rparr>"
  have "kept k p (?c c)" "kept k p (addErr e (?c c))" "aborted p (?c c)" "off (addErr e (?c c)) = off p" for c e
    using assms kept_trans [OF kept_set_cur kept_addErr]
    by (auto simp: aborted_def addErr_def)
  then show ?thesis
    by (auto simp: runPred_def Let_def split: option.split codeResult.split)
qed

lemma matchLit_good:
  assumes "wf_parser p" "kept k p q"
  shows "good_result k p (matchLit U ic (pt p) buf ws q)"
  using assms
proof (induction ws arbitrary: buf q)
  case Nil
  then show ?case by simp
next
  case (Cons x ws)
  have "kept k p (read q)" using Cons.prems kept_trans [OF _ kept_read] by blast
  with Cons show ?case by (simp add: Let_def restore_back)
qed

lemma class_good: "wf_parser p \<Longrightarrow> good_result k p (parseCharClassMatcher U chr p)"
  by (auto simp: parseCharClassMatcher_def Let_def split: classHit.split)

lemma any_good: "wf_parser p \<Longrightarrow> good_result k p (parseAnyMatcher p)"
  by (auto simp: parseAnyMatcher_def Let_def)

lemma codePred_good:
  assumes "wf_parser p"
  shows "good_result k p (parseAndCodeExpr run p)" "good_result k p (parseNotCodeExpr run p)"
  using runPred_cases [OF assms, where run = run and k = k]
  by (auto simp: parseAndCodeExpr_def parseNotCodeExpr_def split: result.splits)

lemma parseMany_longer:
  "parseMany rec k e vals q = Ret vs q' \<Longrightarrow> Sublist.prefix vals vs"
proof (induction k arbitrary: vals q)
  case (Suc k)
  then show ?case
    by (cases "rec e q") (auto split: if_splits dest!: Suc.IH intro: append_prefixD)
qed simp

locale engine_contract =
  fixes rec :: "'a recFn"
  assumes rec_good: "pre_parser p \<Longrightarrow> good_result (nlow p) p (rec e p)"
begin

lemma rec_scoped:
  assumes "wf_parser p"
    and "\<And>v ok q. kept (vlen p) p (popV q) \<Longrightarrow> (\<not> ok \<Longrightarrow> off q = off p) \<Longrightarrow>
      good_result j p (f (v, ok) q)"
  shows "good_result j p (bindR (rec e (pushV p)) f)"
proof (rule good_result_bind)
  show "good_result (vlen p) (pushV p) (rec e (pushV p))"
    using rec_good [of "pushV p" e] assms(1) by (simp add: pre_parser_def wf_pushV)
  fix v ok q
  assume "kept (vlen p) (pushV p) q" and "\<not> ok \<Longrightarrow> off q = off (pushV p)"
  then show "good_result j p (f (v, ok) q)"
    using assms kept_scoped [of p q] by simp
qed (rule aborted_scoped)

lemma rec_bind:
  assumes "pre_parser p"
    and "\<And>v ok q. kept (nlow p) p q \<Longrightarrow> pre_parser q \<Longrightarrow> (\<not> ok \<Longrightarrow> off q = off p) \<Longrightarrow>
      good_result (nlow p) p (f (v, ok) q)"
  shows "good_result (nlow p) p (bindR (rec e p) f)"
proof (rule good_result_bind [OF rec_good [OF assms(1)]])
  fix v ok q
  assume k: "kept (nlow p) p q" and o: "\<not> ok \<Longrightarrow> off q = off p"
  from k assms(1) have "pre_parser q" by (auto simp: pre_parser_def kept_def)
  with k o show "good_result (nlow p) p (f (v, ok) q)" by (intro assms(2))
qed

lemma rule_good:
  assumes "wf_parser p"
  shows "good_result (vlen p) p (parseRule rec r p)"
proof -
  let ?p = "p\<lparr>rstack := rstack p @ [r]\<rparr>"
  have wf: "wf_parser ?p" using assms by (simp add: wf_parser_def wf_v_def)
  have g: "good_result (vlen p) (pushV ?p) (rec (rule_expr r) (pushV ?p))"
    using rec_good [of "pushV ?p" "rule_expr r"] wf by (simp add: pre_parser_def wf_pushV)
  show ?thesis
    unfolding parseRule_def Let_def
  proof (rule good_result_bind [OF g])
    fix v ok q
    assume k: "kept (vlen p) (pushV ?p) q" and o: "\<not> ok \<Longrightarrow> off q = off (pushV ?p)"
    have "kept (vlen p) ?p (popV q)" using kept_scoped [OF wf, of q] k by simp
    then have "kept (vlen p) p ((popV q)\<lparr>rstack := butlast (rstack (popV q))\<rparr>)"
      by (auto simp: kept_def wf_parser_def wf_v_def)
    then show "good_result (vlen p) p ((\<lambda>(val, ok) p2.
        Ret (val, ok) ((popV p2)\<lparr>rstack := butlast (rstack (popV p2))\<rparr>)) (v, ok) q)"
      using o by simp
  qed (simp add: aborted_def)
qed

lemma action_good:
  assumes "pre_parser p"
  shows "good_result (nlow p) p (parseActionExpr rec e run p)"
  unfolding parseActionExpr_def Let_def
proof (rule rec_bind [OF assms])
  fix v ok q
  assume k: "kept (nlow p) p q" and o: "\<not> ok \<Longrightarrow> off q = off p"
  show "good_result (nlow p) p ((\<lambda>(val, ok) p1.
      if ok then bindR (runAction (save p) run p1) (\<lambda>actVal p2. Ret (actVal, ok) p2)
      else Ret (val, ok) p1) (v, ok) q)"
    using runAction_cases [OF kept_wf [OF k], where sp = "save p" and run = run and k = "nlow p"] k o
    by (auto split: result.splits intro: kept_trans kept_aborted)
qed

lemma lookahead_good:
  assumes "pre_parser p"
  shows "good_result (nlow p) p (parseAndExpr rec e p)"
    and "good_result (nlow p) p (parseNotExpr rec e p)"
  unfolding parseAndExpr_def parseNotExpr_def Let_def save_def
  using assms by (auto intro!: rec_bind restore_back simp: pre_parser_def)

lemma alternatives_good:
  assumes "wf_parser p"
  shows "good_result (vlen p) p (parseAlternatives rec alts p)"
  using assms
proof (induction alts arbitrary: p)
  case Nil
  then show ?case by simp
next
  case (Cons alt alts)
  show ?case
    unfolding parseAlternatives.simps
  proof (rule rec_scoped [OF Cons.prems])
    fix v ok q
    assume k: "kept (vlen p) p (popV q)" and o: "\<not> ok \<Longrightarrow> off q = off p"
    have g: "good_result (vlen p) (popV q) (parseAlternatives rec alts (popV q))"
      using Cons.IH [of "popV q"] k kept_vlen [OF k] by auto
    show "good_result (vlen p) p ((\<lambda>(val, ok) p1. let p2 = popV p1 in
        if ok then Ret (val, ok) p2 else parseAlternatives rec alts p2) (v, ok) q)"
      using k o g
      by (cases "parseAlternatives rec alts (popV q)")
        (auto simp: Let_def intro: kept_trans kept_aborted)
  qed
qed

lemma labeled_good:
  assumes "pre_parser p"
  shows "good_result (nlow p) p (parseLabeledExpr rec l e p)"
  unfolding parseLabeledExpr_def
proof (rule rec_scoped)
  show "wf_parser p" using assms by (simp add: pre_parser_def)
  fix v ok q
  assume k0: "kept (vlen p) p (popV q)" and o: "\<not> ok \<Longrightarrow> off q = off p"
  define r where "r = popV q"
  have k: "kept (vlen p) p r" and o': "\<not> ok \<Longrightarrow> off r = off p" using k0 o by (simp_all add: r_def)
  then have k1: "kept (nlow p) p r" using kept_mono [OF k] by simp
  have v: "vlen r = vlen p" "0 < vlen p" using k assms by (auto simp: kept_def pre_parser_def)
  have "kept (nlow p) r (r\<lparr>vslots := (vslots r)[vlen r - 1 := Some m]\<rparr>)" for m
    using kept_update_top [of r m] k v by (auto simp: nlow_kept [OF k])
  then have "kept (nlow p) p (r\<lparr>vslots := (vslots r)[vlen r - 1 := Some m]\<rparr>)" for m
    using kept_trans [OF k1] by blast
  then show "good_result (nlow p) p ((\<lambda>(val, ok) p1.
       let p2 = popV p1
       in if ok \<and> l \<noteq> '''' then
            (if vlen p2 = 0 then Panic indexPanic p2
             else case vslots p2 ! (vlen p2 - 1) of
               None \<Rightarrow> Panic nilMapPanic p2
             | Some m \<Rightarrow> Ret (val, ok) (p2\<lparr>vslots := (vslots p2)[vlen p2 - 1 := Some (AList.update l val m)]\<rparr>))
          else Ret (val, ok) p2) (v, ok) q)"
    using o' v k1 by (auto simp: Let_def simp flip: r_def split: option.split intro: kept_aborted)
qed

lemma many_good:
  assumes "pre_parser p" "kept (nlow p) p q"
  shows "case parseMany rec k e vals q of
      Ret vs q' \<Rightarrow> kept (nlow p) p q' \<and> (vs = vals \<longrightarrow> off q' = off q)
    | Panic x q' \<Rightarrow> aborted p q' | OutOfFuel \<Rightarrow> True"
  using assms(2)
proof (induction k arbitrary: vals q)
  case 0
  then show ?case by simp
next
  case (Suc k)
  have pq: "pre_parser q" using Suc.prems assms(1) by (auto simp: kept_def pre_parser_def)
  have g: "good_result (nlow p) q (rec e q)"
    using rec_good [OF pq] by (simp add: nlow_kept [OF Suc.prems])
  show ?case
  proof (cases "rec e q")
    case (Ret r q1)
    obtain v ok where r: "r = (v, ok)" by (cases r)
    have k1: "kept (nlow p) p q1" using Suc.prems g Ret r kept_trans by auto
    have longer: "vs = vals \<Longrightarrow> False"
      if "parseMany rec k e (vals @ [v]) q1 = Ret vs q'" for vs q'
      using that parseMany_longer by fastforce
    show ?thesis
      using Suc.IH [OF k1, of "vals @ [v]"] g Ret r k1 longer
      by (auto split: result.splits)
  qed (use g Suc.prems kept_aborted in auto)
qed

lemma repeat_good:
  assumes "pre_parser p"
  shows "good_result (nlow p) p (parseZeroOrMoreExpr rec k e p)"
    and "good_result (nlow p) p (parseOneOrMoreExpr rec k e p)"
  using many_good [OF assms, where q = p and k = k and e = e and vals = "[]"] assms
  by (auto simp: parseZeroOrMoreExpr_def parseOneOrMoreExpr_def pre_parser_def split: result.splits)

lemma seq_good:
  assumes "pre_parser p" "kept (nlow p) p q"
  shows "good_result (nlow p) p (parseSeq rec (pt p) vals es q)"
  using assms(2)
proof (induction es arbitrary: vals q)
  case Nil
  then show ?case by simp
next
  case (Cons e es)
  have pq: "pre_parser q" using Cons.prems assms(1) by (auto simp: kept_def pre_parser_def)
  have g: "good_result (nlow p) q (rec e q)"
    using rec_good [OF pq] by (simp add: nlow_kept [OF Cons.prems])
  show ?case
  proof (cases "rec e q")
    case (Ret r q1)
    obtain v ok where r: "r = (v, ok)" by (cases r)
    have k1: "kept (nlow p) p q1" using Cons.prems g Ret r kept_trans by auto
    have "wf_parser p" using assms(1) by (simp add: pre_parser_def)
    with Cons.IH [OF k1, of "vals @ [v]"] Ret r restore_back [OF _ k1] show ?thesis
      by auto
  qed (use g Cons.prems kept_aborted in auto)
qed

lemma ruleRef_good:
  assumes "wf_parser p"
  shows "good_result (vlen p) p (parseRuleRefExpr rec ps name p)"
  using assms rule_good by (auto simp: parseRuleRefExpr_def addErr_def split: option.split)

lemma dispatch_good:
  assumes "pre_parser p"
  shows "good_result (nlow p) p (dispatch U rec k e p)"
proof -
  have wf: "wf_parser p" using assms by (simp add: pre_parser_def)
  have weaken: "good_result (nlow p) p r" if "good_result (vlen p) p r" for r
    using that kept_mono [of "vlen p" p] by (auto simp: good_result_def split: result.splits)
  note leaf = class_good [OF wf] any_good [OF wf] codePred_good [OF wf]
    weaken [OF alternatives_good [OF wf]] weaken [OF ruleRef_good [OF wf]]
  note inner = action_good [OF assms] lookahead_good [OF assms] labeled_good [OF assms]
    repeat_good [OF assms]
  have lit: "good_result (nlow p) p (matchLit U ic (pt p) [] ws p)" for ic ws
    by (rule matchLit_good [OF wf]) (simp add: wf)
  have seq: "good_result (nlow p) p (parseSeq rec (pt p) [] es p)" for es
    by (rule seq_good [OF assms]) (simp add: wf)
  have opt: "good_result (nlow p) p (parseZeroOrOneExpr rec e p)" for e
    unfolding parseZeroOrOneExpr_def by (rule rec_bind [OF assms]) simp
  show ?thesis
    by (cases e) (simp_all add: leaf inner lit seq opt parseChoiceExpr_def parseSeqExpr_def
        parseLitMatcher_def save_def)
qed

end

lemma parseExpr_contract: "engine_contract (parseExpr U n)"
proof (induction n)
  case 0
  show ?case by unfold_locales simp
next
  case (Suc n)
  then show ?case by unfold_locales (simp add: engine_contract.dispatch_good)
qed

interpretation eng: engine_contract "parseExpr U n" for U n
  by (rule parseExpr_contract)

end
