(* ===== verification/Peg_Semantics.thy ===== *)
theory Peg_Semantics
  imports Peg_Engine
begin

text \<open>
  The reference semantics of parsing expression grammars, a relation between an expression, the runes left, and the runes left after
  a match or failure, and the simulation of it by the engine, in both directions.
\<close>

section \<open>Reference semantics\<close>

fun peek :: "rune list \<Rightarrow> rune" where
  "peek [] = RuneError"
| "peek (r # _) = r"

definition classAccepts :: "unicode_env \<Rightarrow> charClass \<Rightarrow> rune \<Rightarrow> bool" where
  "classAccepts U chr r \<longleftrightarrow>
     (matchClass chr (if cc_ignoreCase chr then uToLower U r else r) = Hit) \<noteq> inverted chr"

fun litAccepts :: "unicode_env \<Rightarrow> bool \<Rightarrow> rune list \<Rightarrow> rune list \<Rightarrow> rune list option" where
  "litAccepts U ic [] s = Some s"
| "litAccepts U ic (x # xs) s =
     (if (if ic then uToLower U (peek s) else peek s) = x then litAccepts U ic xs (tl s) else None)"

inductive peg :: "unicode_env \<Rightarrow> (string \<rightharpoonup> 'a rule) \<Rightarrow> 'a expr \<Rightarrow> rune list \<Rightarrow> rune list option \<Rightarrow> bool"
  for U :: unicode_env and G :: "string \<rightharpoonup> 'a rule"
where
  action: "peg U G e s o' \<Longrightarrow> peg U G (actionExpr ps e run) s o'"
| and_ok: "peg U G e s (Some t) \<Longrightarrow> peg U G (andExpr ps e) s (Some s)"
| and_no: "peg U G e s None \<Longrightarrow> peg U G (andExpr ps e) s None"
| not_ok: "peg U G e s None \<Longrightarrow> peg U G (notExpr ps e) s (Some s)"
| not_no: "peg U G e s (Some t) \<Longrightarrow> peg U G (notExpr ps e) s None"
| any_ok: "peek s \<noteq> RuneError \<Longrightarrow> peg U G (anyMatcher ps) s (Some (tl s))"
| any_no: "peek s = RuneError \<Longrightarrow> peg U G (anyMatcher ps) s None"
| class_ok: "classAccepts U chr (peek s) \<Longrightarrow> peg U G (charClassMatcher chr) s (Some (tl s))"
| class_no: "\<not> classAccepts U chr (peek s) \<Longrightarrow> peg U G (charClassMatcher chr) s None"
| choice_end: "peg U G (choiceExpr ps []) s None"
| choice_hit: "peg U G e s (Some t) \<Longrightarrow> peg U G (choiceExpr ps (e # es)) s (Some t)"
| choice_next: "peg U G e s None \<Longrightarrow> peg U G (choiceExpr ps es) s o' \<Longrightarrow> peg U G (choiceExpr ps (e # es)) s o'"
| labeled: "peg U G e s o' \<Longrightarrow> peg U G (labeledExpr ps l e) s o'"
| lit: "peg U G (litMatcher ps val ic) s (litAccepts U ic (runes_of val) s)"
| plus_no: "peg U G e s None \<Longrightarrow> peg U G (oneOrMoreExpr ps e) s None"
| plus_ok: "peg U G e s (Some t) \<Longrightarrow> peg U G (zeroOrMoreExpr ps e) t o' \<Longrightarrow> peg U G (oneOrMoreExpr ps e) s o'"
| ref: "G n = Some r \<Longrightarrow> peg U G (rule_expr r) s o' \<Longrightarrow> peg U G (ruleRefExpr ps n) s o'"
| ref_no: "G n = None \<Longrightarrow> peg U G (ruleRefExpr ps n) s None"
| seq_end: "peg U G (seqExpr ps []) s (Some s)"
| seq_no: "peg U G e s None \<Longrightarrow> peg U G (seqExpr ps (e # es)) s None"
| seq_next: "peg U G e s (Some t) \<Longrightarrow> peg U G (seqExpr ps es) t o' \<Longrightarrow> peg U G (seqExpr ps (e # es)) s o'"
| star_end: "peg U G e s None \<Longrightarrow> peg U G (zeroOrMoreExpr ps e) s (Some s)"
| star_next: "peg U G e s (Some t) \<Longrightarrow> peg U G (zeroOrMoreExpr ps e) t o' \<Longrightarrow> peg U G (zeroOrMoreExpr ps e) s o'"
| opt_ok: "peg U G e s (Some t) \<Longrightarrow> peg U G (zeroOrOneExpr ps e) s (Some t)"
| opt_no: "peg U G e s None \<Longrightarrow> peg U G (zeroOrOneExpr ps e) s (Some s)"

inductive_cases peg_actionE: "peg U G (actionExpr ps e run) s o'"
inductive_cases peg_andE: "peg U G (andExpr ps e) s o'"
inductive_cases peg_notE: "peg U G (notExpr ps e) s o'"
inductive_cases peg_anyE: "peg U G (anyMatcher ps) s o'"
inductive_cases peg_classE: "peg U G (charClassMatcher chr) s o'"
inductive_cases peg_choiceNilE: "peg U G (choiceExpr ps []) s o'"
inductive_cases peg_choiceE: "peg U G (choiceExpr ps (e # es)) s o'"
inductive_cases peg_labeledE: "peg U G (labeledExpr ps l e) s o'"
inductive_cases peg_litE: "peg U G (litMatcher ps val ic) s o'"
inductive_cases peg_plusE: "peg U G (oneOrMoreExpr ps e) s o'"
inductive_cases peg_refE: "peg U G (ruleRefExpr ps n) s o'"
inductive_cases peg_seqNilE: "peg U G (seqExpr ps []) s o'"
inductive_cases peg_seqE: "peg U G (seqExpr ps (e # es)) s o'"
inductive_cases peg_starE: "peg U G (zeroOrMoreExpr ps e) s o'"
inductive_cases peg_optE: "peg U G (zeroOrOneExpr ps e) s o'"

lemmas peg_elims = peg_actionE peg_andE peg_notE peg_anyE peg_classE peg_choiceNilE peg_choiceE
  peg_labeledE peg_litE peg_plusE peg_refE peg_seqNilE peg_seqE peg_starE peg_optE

lemma peg_deterministic: "peg U G e s a \<Longrightarrow> peg U G e s b \<Longrightarrow> a = b"
proof (induction arbitrary: b rule: peg.induct)
  case (star_next e s t ps o')
  from star_next.prems show ?case
    by (rule peg_starE) (use star_next.IH in blast)+
qed (erule peg_elims; metis option.distinct(1) option.inject)+

section \<open>Grammars the reference semantics covers\<close>

text \<open>
  A plain expression has no code predicate, names every rule it refers to, has paired range
  bounds, and action code that returns. Its matching does not depend on action values.
\<close>

definition calm :: "'a runFn \<Rightarrow> bool" where
  "calm run \<longleftrightarrow> (\<forall>c m. \<exists>c' v err. run c m = CodeReturns c' v err)"

fun plain :: "'a expr \<Rightarrow> bool" where
  "plain (actionExpr _ e run) \<longleftrightarrow> plain e \<and> calm run"
| "plain (andCodeExpr _ _) \<longleftrightarrow> False"
| "plain (andExpr _ e) \<longleftrightarrow> plain e"
| "plain (anyMatcher _) \<longleftrightarrow> True"
| "plain (charClassMatcher chr) \<longleftrightarrow> even (length (ranges chr))"
| "plain (choiceExpr _ es) \<longleftrightarrow> (\<forall>e\<in>set es. plain e)"
| "plain (labeledExpr _ _ e) \<longleftrightarrow> plain e"
| "plain (litMatcher _ _ _) \<longleftrightarrow> True"
| "plain (notCodeExpr _ _) \<longleftrightarrow> False"
| "plain (notExpr _ e) \<longleftrightarrow> plain e"
| "plain (oneOrMoreExpr _ e) \<longleftrightarrow> plain e"
| "plain (ruleRefExpr _ n) \<longleftrightarrow> n \<noteq> []"
| "plain (seqExpr _ es) \<longleftrightarrow> (\<forall>e\<in>set es. plain e)"
| "plain (zeroOrMoreExpr _ e) \<longleftrightarrow> plain e"
| "plain (zeroOrOneExpr _ e) \<longleftrightarrow> plain e"
| "plain (otherExpr _) \<longleftrightarrow> False"

definition plain_rules :: "'a parser \<Rightarrow> bool" where
  "plain_rules p \<longleftrightarrow> (\<forall>n r. map_of (rules p) n = Some r \<longrightarrow> plain (rule_expr r))"

definition ready :: "'a parser \<Rightarrow> bool" where
  "ready p \<longleftrightarrow> pre_parser p \<and> plain_rules p"

definition rest :: "'a parser \<Rightarrow> rune list" where
  "rest p = runes_of (drop (off p) (data p))"

lemma ready_kept: "ready p \<Longrightarrow> kept k p q \<Longrightarrow> ready q"
  by (auto simp: ready_def pre_parser_def plain_rules_def kept_def)

lemma ready_pushV: "ready p \<Longrightarrow> ready (pushV p)"
  by (simp add: ready_def pre_parser_def plain_rules_def wf_pushV)

lemma rest_peek:
  assumes "wf_parser p"
  shows "peek (rest p) = sp_rn (pt p)"
proof -
  have d: "decodeRune (drop (off p) (data p)) = (sp_rn (pt p), sp_w (pt p))"
    using assms sp_reach_decode by (auto simp: wf_parser_def)
  show ?thesis
  proof (cases "drop (off p) (data p) = []")
    case True
    then show ?thesis using d by (simp add: rest_def)
  next
    case False
    then have "rest p = sp_rn (pt p) # runes_of (drop (sp_w (pt p)) (drop (off p) (data p)))"
      unfolding rest_def by (subst runes_of.simps) (simp add: d)
    then show ?thesis by simp
  qed
qed

lemma rest_read:
  assumes "wf_parser p"
  shows "rest (read p) = tl (rest p)"
proof -
  have d: "decodeRune (drop (off p) (data p)) = (sp_rn (pt p), sp_w (pt p))"
    using assms sp_reach_decode by (auto simp: wf_parser_def)
  show ?thesis
  proof (cases "drop (off p) (data p) = []")
    case True
    then show ?thesis using d by (simp add: rest_def)
  next
    case False
    then have "rest p = sp_rn (pt p) # runes_of (drop (sp_w (pt p)) (drop (off p) (data p)))"
      unfolding rest_def by (subst runes_of.simps) (simp add: d)
    then show ?thesis by (simp add: rest_def add.commute)
  qed
qed

lemma rest_cong: "data q = data p \<Longrightarrow> off q = off p \<Longrightarrow> rest q = rest p"
  by (simp add: rest_def)

lemma rest_frame [simp]:
  "rest (pushV p) = rest p" "rest (popV p) = rest p" "rest (p\<lparr>cur := c\<rparr>) = rest p"
  "rest (addErrAt e ps p) = rest p" "rest (p\<lparr>rstack := rs\<rparr>) = rest p" "rest (p\<lparr>vslots := vs\<rparr>) = rest p"
  by (simp_all add: rest_def)

lemma rest_restore: "kept k p q \<Longrightarrow> rest (restore (pt p) q) = rest p"
  by (rule rest_cong) (simp_all add: kept_def)

section \<open>Soundness of the engine\<close>

definition outcome :: "bool \<Rightarrow> 'a parser \<Rightarrow> rune list option" where
  "outcome ok p = (if ok then Some (rest p) else None)"

lemma outcome_simps [simp]: "outcome True p = Some (rest p)" "outcome False p = None"
  by (simp_all add: outcome_def)

definition agrees :: "unicode_env \<Rightarrow> 'a parser \<Rightarrow> 'a expr \<Rightarrow> ('a parser, 'a goval \<times> bool) result \<Rightarrow> bool" where
  "agrees U p e r \<longleftrightarrow>
     (case r of
        OutOfFuel \<Rightarrow> True
      | Panic _ _ \<Rightarrow> False
      | Ret (v, ok) p' \<Rightarrow> peg U (map_of (rules p)) e (rest p) (outcome ok p'))"

lemma agrees_simps [simp]:
  "agrees U p e OutOfFuel" "\<not> agrees U p e (Panic x q)"
  "agrees U p e (Ret (v, ok) q) \<longleftrightarrow> peg U (map_of (rules p)) e (rest p) (outcome ok q)"
  by (simp_all add: agrees_def)

lemma matchRanges_even: "even (length rs) \<Longrightarrow> matchRanges rs c \<noteq> BadRange"
  by (induction rs c rule: matchRanges.induct) auto

lemma matchClass_even: "even (length (ranges chr)) \<Longrightarrow> matchClass chr c \<noteq> BadRange"
  using matchRanges_even [of "ranges chr" c] by (auto simp: matchClass_def split: classHit.split)

lemma peg_class_iff:
  "peg U G (charClassMatcher chr) s o' \<longleftrightarrow> o' = (if classAccepts U chr (peek s) then Some (tl s) else None)"
  by (auto elim: peg_classE intro: class_ok class_no)

lemma peg_any_iff:
  "peg U G (anyMatcher ps) s o' \<longleftrightarrow> o' = (if peek s \<noteq> RuneError then Some (tl s) else None)"
  by (auto elim: peg_anyE intro: any_ok any_no)

lemma peg_lit_iff:
  "peg U G (litMatcher ps val ic) s o' \<longleftrightarrow> o' = litAccepts U ic (runes_of val) s"
  by (auto elim: peg_litE intro: lit)

lemma class_agrees:
  assumes "wf_parser p" "even (length (ranges chr))"
  shows "agrees U p (charClassMatcher chr) (parseCharClassMatcher U chr p)"
  using matchClass_even [OF assms(2)] rest_peek [OF assms(1)] rest_read [OF assms(1)]
  by (auto simp: parseCharClassMatcher_def Let_def classAccepts_def peg_class_iff split: classHit.split)

lemma any_agrees:
  assumes "wf_parser p"
  shows "agrees U p (anyMatcher ps) (parseAnyMatcher p)"
  using rest_peek [OF assms] rest_read [OF assms]
  by (simp add: parseAnyMatcher_def Let_def peg_any_iff)

lemma matchLit_outcome:
  assumes "wf_parser p" "kept k p q"
  shows "\<exists>v ok q'. matchLit U ic (pt p) buf xs q = Ret (v, ok) q' \<and>
    outcome ok q' = litAccepts U ic xs (rest q)"
  using assms(2)
proof (induction xs arbitrary: buf q)
  case Nil
  show ?case by (auto simp: outcome_def)
next
  case (Cons x xs)
  have wq: "wf_parser q" using Cons.prems by auto
  have "kept k p (read q)" using Cons.prems kept_trans [OF _ kept_read [OF wq]] by blast
  from Cons.IH [OF this] show ?case
    by (auto simp: Let_def rest_peek [OF wq] rest_read [OF wq])
qed

lemma lit_agrees:
  assumes "wf_parser p"
  shows "agrees U p (litMatcher ps val ic) (parseLitMatcher U val ic p)"
  using matchLit_outcome [OF assms kept_refl [OF assms], where U = U and ic = ic and buf = "[]"
      and xs = "runes_of val"]
  by (auto simp: parseLitMatcher_def save_def peg_lit_iff)

locale engine_sound = engine_contract rec for rec :: "'a recFn" +
  fixes U :: unicode_env
  assumes rec_agrees: "ready p \<Longrightarrow> plain e \<Longrightarrow> agrees U p e (rec e p)"
begin

text \<open>Case analysis on the recursive call: it runs out of fuel, or returns as the semantics says.\<close>

lemma rec_cases:
  assumes "ready p" "plain e"
  obtains (fuel) "rec e p = OutOfFuel"
  | (ok) v q where "rec e p = Ret (v, True) q" "kept (nlow p) p q" "ready q"
      "peg U (map_of (rules p)) e (rest p) (Some (rest q))"
  | (no) v q where "rec e p = Ret (v, False) q" "kept (nlow p) p q" "ready q" "rest q = rest p"
      "peg U (map_of (rules p)) e (rest p) None"
proof (cases "rec e p")
  case (Ret r q)
  obtain v b where r: "r = (v, b)" by (cases r)
  have k: "kept (nlow p) p q" and o: "\<not> b \<Longrightarrow> off q = off p"
    using rec_good [of p e] assms(1) Ret r by (auto simp: ready_def)
  have a: "peg U (map_of (rules p)) e (rest p) (outcome b q)"
    using rec_agrees [OF assms] Ret r by simp
  show ?thesis
  proof (cases b)
    case True
    show ?thesis using ok [of v q] Ret r True k a ready_kept [OF assms(1) k] by simp
  next
    case False
    have "rest q = rest p" using k o False by (auto intro: rest_cong simp: kept_def)
    then show ?thesis using no [of v q] Ret r False k a ready_kept [OF assms(1) k] by simp
  qed
next
  case (Panic x q)
  then show ?thesis using rec_agrees [OF assms] by simp
next
  case OutOfFuel
  then show ?thesis using fuel by simp
qed

lemma rec_scoped_cases:
  assumes "ready p" "plain e"
  obtains (fuel) "rec e (pushV p) = OutOfFuel"
  | (ok) v q where "rec e (pushV p) = Ret (v, True) q" "kept (vlen p) p (popV q)" "ready (popV q)"
      "peg U (map_of (rules p)) e (rest p) (Some (rest q))"
  | (no) v q where "rec e (pushV p) = Ret (v, False) q" "kept (vlen p) p (popV q)" "ready (popV q)"
      "rest q = rest p" "peg U (map_of (rules p)) e (rest p) None"
proof -
  have wf: "wf_parser p" using assms(1) by (simp add: ready_def pre_parser_def)
  have scoped: "kept (vlen p) p (popV q) \<and> ready (popV q)" if "kept (nlow (pushV p)) (pushV p) q" for q
    using kept_scoped [OF wf, of q] that ready_kept [OF assms(1)] by auto
  show ?thesis
    by (rule rec_cases [OF ready_pushV [OF assms(1)] assms(2)])
      (use fuel ok no scoped in auto)
qed

lemma action_agrees:
  assumes "ready p" "plain e" "calm run"
  shows "agrees U p (actionExpr ps e run) (parseActionExpr rec e run p)"
proof (cases rule: rec_cases [OF assms(1,2), case_names fuel ok no])
  case (ok v q)
  have "\<exists>v' q'. runAction (save p) run q = Ret v' q' \<and> rest q' = rest q"
  proof -
    have "0 < vlen q" using ok(3) by (simp add: ready_def pre_parser_def)
    moreover obtain c' v' err where "run \<lparr>cur_pos = sp_position (save p),
        cur_text = slice (sp_position (save p)) (sp_position (save q)) q\<rparr>
        (the (topV q)) = CodeReturns c' v' err"
      using assms(3) unfolding calm_def by blast
    ultimately show ?thesis
      by (auto simp: runAction_def topV_def Let_def split: option.splits)
  qed
  with ok show ?thesis by (auto simp: parseActionExpr_def intro: action)
qed (auto simp: parseActionExpr_def intro: action)

lemma lookahead_agrees:
  assumes "ready p" "plain e"
  shows "agrees U p (andExpr ps e) (parseAndExpr rec e p)"
    and "agrees U p (notExpr ps e) (parseNotExpr rec e p)"
  by (cases rule: rec_cases [OF assms];
      auto simp: parseAndExpr_def parseNotExpr_def save_def rest_restore intro: and_ok and_no not_ok not_no)+

lemma choice_agrees:
  assumes "ready p" "\<forall>e\<in>set es. plain e"
  shows "agrees U p (choiceExpr ps es) (parseAlternatives rec es p)"
  using assms
proof (induction es arbitrary: p)
  case Nil
  then show ?case by (simp add: choice_end)
next
  case (Cons e es)
  then have pl: "plain e" by simp
  show ?case
  proof (cases rule: rec_scoped_cases [OF Cons.prems(1) pl, case_names fuel ok no])
    case (no v q)
    have "agrees U (popV q) (choiceExpr ps es) (parseAlternatives rec es (popV q))"
      using Cons no by simp
    moreover have "rules q = rules p" using no(2) by (simp add: kept_def)
    ultimately show ?thesis using no
      by (auto simp: agrees_def split: result.splits intro: choice_next)
  qed (auto intro: choice_hit)
qed

lemma labeled_agrees:
  assumes "ready p" "plain e"
  shows "agrees U p (labeledExpr ps l e) (parseLabeledExpr rec l e p)"
proof (cases rule: rec_scoped_cases [OF assms, case_names fuel ok no])
  case (ok v q)
  have "0 < vlen (popV q)" "vslots (popV q) ! (vlen (popV q) - 1) \<noteq> None"
    using ok(3) by (auto simp: ready_def pre_parser_def wf_parser_def wf_v_def)
  with ok show ?thesis
    by (auto simp: parseLabeledExpr_def Let_def intro: labeled)
qed (auto simp: parseLabeledExpr_def Let_def intro: labeled)

lemma many_agrees:
  assumes "ready p" "plain e"
  shows "case parseMany rec k e vals p of
      Ret vs q \<Rightarrow> peg U (map_of (rules p)) (zeroOrMoreExpr ps e) (rest p) (Some (rest q)) \<and>
        (if vs = vals then peg U (map_of (rules p)) e (rest p) None
         else peg U (map_of (rules p)) (oneOrMoreExpr ps e) (rest p) (Some (rest q)))
    | Panic x q \<Rightarrow> False | OutOfFuel \<Rightarrow> True"
  using assms(1)
proof (induction k arbitrary: vals p)
  case 0
  then show ?case by simp
next
  case (Suc k)
  show ?case
  proof (cases rule: rec_cases [OF Suc.prems assms(2), case_names fuel ok no])
    case (ok v q)
    have r: "rules q = rules p" using ok(2) by (simp add: kept_def)
    have "vs \<noteq> vals" if "parseMany rec k e (vals @ [v]) q = Ret vs q'" for vs q'
      using parseMany_longer [OF that] by auto
    then show ?thesis
      using Suc.IH [OF ok(3), of "vals @ [v]"] ok(1,4) r
      by (auto split: result.splits intro: star_next plus_ok)
  qed (auto intro: star_end)
qed

lemma repeat_agrees:
  assumes "ready p" "plain e"
  shows "agrees U p (zeroOrMoreExpr ps e) (parseZeroOrMoreExpr rec k e p)"
    and "agrees U p (oneOrMoreExpr ps e) (parseOneOrMoreExpr rec k e p)"
  using many_agrees [OF assms, where k = k and vals = "[]" and ps = ps]
  by (auto simp: parseZeroOrMoreExpr_def parseOneOrMoreExpr_def split: result.splits if_splits
      intro: plus_no)

lemma seq_agrees:
  assumes "ready p" "\<forall>e\<in>set es. plain e"
  shows "case parseSeq rec sp vals es p of
      Ret (v, ok) q \<Rightarrow> peg U (map_of (rules p)) (seqExpr ps es) (rest p) (outcome ok q)
    | Panic x q \<Rightarrow> False | OutOfFuel \<Rightarrow> True"
  using assms
proof (induction es arbitrary: p vals)
  case Nil
  then show ?case by (simp add: seq_end)
next
  case (Cons e es)
  then have pl: "plain e" by simp
  show ?case
  proof (cases rule: rec_cases [OF Cons.prems(1) pl, case_names fuel ok no])
    case (ok v q)
    have r: "rules q = rules p" using ok(2) by (simp add: kept_def)
    then show ?thesis
      using Cons.IH [OF ok(3), of "vals @ [v]"] Cons.prems ok(1,4)
      by (auto split: result.splits intro: seq_next)
  qed (auto intro: seq_no)
qed

lemma rule_agrees:
  assumes "ready p" "plain (rule_expr r)"
  shows "case parseRule rec r p of
      Ret (v, ok) q \<Rightarrow> peg U (map_of (rules p)) (rule_expr r) (rest p) (outcome ok q)
    | Panic x q \<Rightarrow> False | OutOfFuel \<Rightarrow> True"
proof -
  let ?p = "p\<lparr>rstack := rstack p @ [r]\<rparr>"
  have "ready ?p"
    using assms(1) by (simp add: ready_def pre_parser_def plain_rules_def wf_parser_def wf_v_def)
  then show ?thesis
    by (cases rule: rec_scoped_cases [OF _ assms(2), of ?p, case_names r fuel ok no])
      (auto simp: parseRule_def Let_def)
qed

lemma ruleRef_agrees:
  assumes "ready p" "name \<noteq> []"
  shows "agrees U p (ruleRefExpr ps name) (parseRuleRefExpr rec ps name p)"
proof (cases "map_of (rules p) name")
  case None
  with assms(2) show ?thesis by (simp add: parseRuleRefExpr_def ref_no)
next
  case (Some r)
  have "plain (rule_expr r)" using assms(1) Some by (auto simp: ready_def plain_rules_def)
  from rule_agrees [OF assms(1) this] Some assms(2) show ?thesis
    by (auto simp: parseRuleRefExpr_def split: result.splits intro: ref)
qed

lemma dispatch_agrees:
  assumes "ready p" "plain e"
  shows "agrees U p e (dispatch U rec k e p)"
proof -
  have wf: "wf_parser p" using assms(1) by (simp add: ready_def pre_parser_def)
  note leaf = class_agrees [OF wf] any_agrees [OF wf] lit_agrees [OF wf]
  note inner = action_agrees [OF assms(1)] lookahead_agrees [OF assms(1)] labeled_agrees [OF assms(1)]
    repeat_agrees [OF assms(1)] choice_agrees [OF assms(1)] ruleRef_agrees [OF assms(1)]
  have seq: "agrees U p (seqExpr ps es) (parseSeqExpr rec es p)" if "\<forall>e\<in>set es. plain e" for ps es
    using seq_agrees [OF assms(1) that, where sp = "save p" and vals = "[]" and ps = ps]
    by (auto simp: parseSeqExpr_def agrees_def split: result.splits)
  have opt: "agrees U p (zeroOrOneExpr ps e) (parseZeroOrOneExpr rec e p)" if "plain e" for ps e
    by (cases rule: rec_cases [OF assms(1) that])
      (auto simp: parseZeroOrOneExpr_def intro: opt_ok opt_no)
  show ?thesis
    using assms(2)
    by (cases e) (simp_all add: leaf inner seq opt parseChoiceExpr_def)
qed

end

lemma parseExpr_sound: "engine_sound (parseExpr U n) U"
proof (induction n)
  case 0
  show ?case by unfold_locales simp
next
  case (Suc n)
  then show ?case by unfold_locales (simp add: engine_sound.dispatch_agrees)
qed

interpretation sem: engine_sound "parseExpr U n" U for U n
  by (rule parseExpr_sound)

section \<open>More fuel never changes a result\<close>

definition le_res :: "('s, 'r) result \<Rightarrow> ('s, 'r) result \<Rightarrow> bool" where
  "le_res a b \<longleftrightarrow> a = OutOfFuel \<or> b = a"

definition le_rec :: "'a recFn \<Rightarrow> 'a recFn \<Rightarrow> bool" where
  "le_rec f g \<longleftrightarrow> (\<forall>e p. le_res (f e p) (g e p))"

lemma le_res_refl [simp, intro]: "le_res a a"
  by (simp add: le_res_def)

lemma le_res_fuel [simp]: "le_res OutOfFuel a"
  by (simp add: le_res_def)

lemma le_resD: "le_res a b \<Longrightarrow> a \<noteq> OutOfFuel \<Longrightarrow> b = a"
  by (auto simp: le_res_def)

lemma le_res_trans [trans]: "le_res a b \<Longrightarrow> le_res b c \<Longrightarrow> le_res a c"
  by (auto simp: le_res_def)

lemma bindR_mono:
  assumes "le_res a b" and "\<And>r s. le_res (f r s) (g r s)"
  shows "le_res (bindR a f) (bindR b g)"
  using assms by (cases a) (auto simp: le_res_def)

lemma bindR_fuel: "bindR m f \<noteq> OutOfFuel \<Longrightarrow> m \<noteq> OutOfFuel"
  by auto

lemma parseRule_mono: "le_rec f g \<Longrightarrow> le_res (parseRule f r p) (parseRule g r p)"
  by (auto simp: parseRule_def Let_def le_rec_def intro!: bindR_mono)

lemma parseAlternatives_mono: "le_rec f g \<Longrightarrow> le_res (parseAlternatives f es p) (parseAlternatives g es p)"
  by (induction es arbitrary: p) (auto simp: Let_def le_rec_def intro!: bindR_mono)

lemma parseSeq_mono: "le_rec f g \<Longrightarrow> le_res (parseSeq f sp vals es p) (parseSeq g sp vals es p)"
  by (induction es arbitrary: vals p) (auto simp: le_rec_def intro!: bindR_mono)

lemma parseMany_mono:
  "le_rec f g \<Longrightarrow> j \<le> k \<Longrightarrow> le_res (parseMany f j e vals p) (parseMany g k e vals p)"
proof (induction j arbitrary: k vals p)
  case 0
  then show ?case by simp
next
  case (Suc j)
  then obtain k' where "k = Suc k'" "j \<le> k'" by (cases k) auto
  with Suc show ?case by (auto simp: le_rec_def intro!: bindR_mono)
qed

lemma dispatch_mono:
  assumes "le_rec f g" "j \<le> k"
  shows "le_res (dispatch U f j e p) (dispatch U g k e p)"
proof -
  have r: "le_res (f e p) (g e p)" for e p using assms(1) by (simp add: le_rec_def)
  show ?thesis
    using parseRule_mono [OF assms(1)] parseAlternatives_mono [OF assms(1)] parseSeq_mono [OF assms(1)]
      parseMany_mono [OF assms] r
    by (cases e)
      (auto simp: parseActionExpr_def parseAndExpr_def parseNotExpr_def parseChoiceExpr_def
        parseLabeledExpr_def parseOneOrMoreExpr_def parseZeroOrMoreExpr_def parseZeroOrOneExpr_def
        parseRuleRefExpr_def parseSeqExpr_def Let_def split: option.split intro!: bindR_mono)
qed

lemma parseExpr_Suc_mono: "le_rec (parseExpr U n) (parseExpr U (Suc n))"
proof (induction n)
  case 0
  show ?case by (simp add: le_rec_def)
next
  case (Suc n)
  then show ?case
    by (subst le_rec_def, auto intro: dispatch_mono simp del: parseExpr.simps(2))
      (metis dispatch_mono le_SucI order_refl parseExpr.simps(2))
qed

lemma parseExpr_mono: "m \<le> n \<Longrightarrow> le_rec (parseExpr U m) (parseExpr U n)"
proof (induction n)
  case 0
  then show ?case by (simp add: le_rec_def)
next
  case (Suc n)
  show ?case
  proof (cases "m = Suc n")
    case False
    with Suc.prems have "m \<le> n" by simp
    from Suc.IH [OF this] parseExpr_Suc_mono [of U n] show ?thesis
      unfolding le_rec_def by (meson le_res_trans)
  qed (simp add: le_rec_def)
qed

section \<open>Completeness: where the semantics has an outcome, the engine returns\<close>

lemma parseSeq_shape:
  "(parseSeq f sp vals es p = OutOfFuel) = (parseSeq f sp' vals' es p = OutOfFuel)"
  by (induction es arbitrary: p vals vals')
    (auto simp: bindR_def split: result.splits)

lemma parseMany_shape:
  "(parseMany f k e vals p = OutOfFuel) = (parseMany f k e vals' p = OutOfFuel)"
  by (induction k arbitrary: p vals vals') (auto simp: bindR_def split: result.splits)

definition returns :: "unicode_env \<Rightarrow> 'a expr \<Rightarrow> 'a parser \<Rightarrow> bool" where
  "returns U e p \<longleftrightarrow> (\<exists>n. parseExpr U n e p \<noteq> OutOfFuel)"

lemma returnsI: "dispatch U (parseExpr U n) n e p \<noteq> OutOfFuel \<Longrightarrow> returns U e p"
  unfolding returns_def by (rule exI [of _ "Suc n"]) simp

lemma returns_stable:
  assumes "returns U e p"
  obtains n where "\<And>m. n \<le> m \<Longrightarrow> parseExpr U m e p = parseExpr U n e p"
    and "parseExpr U n e p \<noteq> OutOfFuel"
proof -
  from assms obtain n where n: "parseExpr U n e p \<noteq> OutOfFuel" by (auto simp: returns_def)
  have "parseExpr U m e p = parseExpr U n e p" if "n \<le> m" for m
    using parseExpr_mono [OF that, of U] n unfolding le_rec_def by (meson le_resD)
  with n show ?thesis using that by blast
qed

lemma returns_some:
  assumes "returns U e p" "ready p" "plain e" "peg U (map_of (rules p)) e (rest p) (Some t)"
  obtains n v q where "\<And>m. n \<le> m \<Longrightarrow> parseExpr U m e p = Ret (v, True) q"
    "kept (nlow p) p q" "ready q" "rest q = t"
proof -
  from returns_stable [OF assms(1)] obtain n
    where st: "\<And>m. n \<le> m \<Longrightarrow> parseExpr U m e p = parseExpr U n e p"
      and nz: "parseExpr U n e p \<noteq> OutOfFuel" by blast
  show ?thesis
  proof (cases rule: sem.rec_cases [OF assms(2,3), of U n, case_names fuel ok no])
    case (ok v q)
    with peg_deterministic [OF assms(4)] have "rest q = t" by fastforce
    with ok st that show ?thesis by metis
  next
    case (no v q)
    with peg_deterministic [OF assms(4)] show ?thesis by fastforce
  qed (use nz in simp)
qed

lemma returns_none:
  assumes "returns U e p" "ready p" "plain e" "peg U (map_of (rules p)) e (rest p) None"
  obtains n v q where "\<And>m. n \<le> m \<Longrightarrow> parseExpr U m e p = Ret (v, False) q"
    "kept (nlow p) p q" "ready q" "rest q = rest p"
proof -
  from returns_stable [OF assms(1)] obtain n
    where st: "\<And>m. n \<le> m \<Longrightarrow> parseExpr U m e p = parseExpr U n e p"
      and nz: "parseExpr U n e p \<noteq> OutOfFuel" by blast
  show ?thesis
  proof (cases rule: sem.rec_cases [OF assms(2,3), of U n, case_names fuel ok no])
    case (ok v q)
    with peg_deterministic [OF assms(4)] show ?thesis by fastforce
  next
    case (no v q)
    with st that show ?thesis by metis
  qed (use nz in simp)
qed

lemma seq_returns:
  assumes "\<And>m. n1 \<le> m \<Longrightarrow> parseExpr U m e p = Ret (v, True) q" and "returns U (seqExpr ps es) q"
  shows "returns U (seqExpr ps (e # es)) p"
proof -
  from assms(2) obtain n2 where "parseExpr U n2 (seqExpr ps es) q \<noteq> OutOfFuel"
    by (auto simp: returns_def)
  then obtain n3 where n3: "parseSeq (parseExpr U n3) (save q) [] es q \<noteq> OutOfFuel"
    by (cases n2) (auto simp: parseSeqExpr_def)
  let ?n = "max n1 n3"
  have "parseSeq (parseExpr U ?n) (save q) [] es q \<noteq> OutOfFuel"
    using le_resD [OF parseSeq_mono [OF parseExpr_mono [of n3 ?n U]] n3] n3 by simp
  then have "parseSeq (parseExpr U ?n) (save p) [v] es q \<noteq> OutOfFuel"
    using parseSeq_shape by metis
  then show ?thesis
    by (intro returnsI [of U ?n]) (simp add: parseSeqExpr_def assms(1))
qed

lemma many_returns:
  assumes "\<And>m. n1 \<le> m \<Longrightarrow> parseExpr U m e p = Ret (v, True) q"
    and "returns U (zeroOrMoreExpr ps e) q"
  obtains n where "parseMany (parseExpr U n) n e [] p \<noteq> OutOfFuel"
proof -
  from assms(2) obtain n2 where "parseExpr U n2 (zeroOrMoreExpr ps e) q \<noteq> OutOfFuel"
    by (auto simp: returns_def)
  then obtain n3 where n3: "parseMany (parseExpr U n3) n3 e [] q \<noteq> OutOfFuel"
    by (cases n2) (auto simp: parseZeroOrMoreExpr_def dest!: bindR_fuel)
  let ?n = "Suc (max n1 n3)"
  have "parseMany (parseExpr U ?n) (max n1 n3) e [] q \<noteq> OutOfFuel"
    using le_resD [OF parseMany_mono [OF parseExpr_mono [of n3 ?n U], of n3 "max n1 n3"] n3] n3 by simp
  then have "parseMany (parseExpr U ?n) (max n1 n3) e [v] q \<noteq> OutOfFuel"
    using parseMany_shape by metis
  moreover have "parseExpr U ?n e p = Ret (v, True) q" by (rule assms(1)) simp
  ultimately have "parseMany (parseExpr U ?n) ?n e [] p \<noteq> OutOfFuel"
    by (simp del: parseExpr.simps(2))
  then show ?thesis by (rule that)
qed

lemma repeat_returns:
  assumes "parseMany (parseExpr U n) n e [] p \<noteq> OutOfFuel"
  shows "returns U (zeroOrMoreExpr ps e) p" "returns U (oneOrMoreExpr ps e) p"
  using assms
  by (auto intro!: returnsI [of U n] simp: parseZeroOrMoreExpr_def parseOneOrMoreExpr_def bindR_def
      split: result.splits if_splits)

lemma many_stops:
  assumes "\<And>m. n1 \<le> m \<Longrightarrow> parseExpr U m e p = Ret (v, False) q"
  shows "parseMany (parseExpr U (Suc n1)) (Suc n1) e [] p \<noteq> OutOfFuel"
  using assms [of "Suc n1"] by (simp del: parseExpr.simps(2))

lemma alternatives_returns:
  assumes "\<And>m. n1 \<le> m \<Longrightarrow> parseExpr U m e (pushV p) = Ret (v, False) q"
    and "returns U (choiceExpr ps es) (popV q)"
  shows "returns U (choiceExpr ps (e # es)) p"
proof -
  from assms(2) obtain n2 where "parseExpr U n2 (choiceExpr ps es) (popV q) \<noteq> OutOfFuel"
    by (auto simp: returns_def)
  then obtain n3 where n3: "parseAlternatives (parseExpr U n3) es (popV q) \<noteq> OutOfFuel"
    by (cases n2) (auto simp: parseChoiceExpr_def)
  let ?n = "max n1 n3"
  have "parseAlternatives (parseExpr U ?n) es (popV q) \<noteq> OutOfFuel"
    using le_resD [OF parseAlternatives_mono [OF parseExpr_mono [of n3 ?n U]] n3] n3 by simp
  then show ?thesis
    by (intro returnsI [of U ?n]) (simp add: parseChoiceExpr_def assms(1))
qed

lemma runAction_returns: "runAction start run p \<noteq> OutOfFuel"
  by (auto simp: runAction_def Let_def split: option.splits codeResult.splits)

lemma matchLit_returns: "matchLit U ic sp buf ws p \<noteq> OutOfFuel"
  by (induction ws arbitrary: buf p) (auto simp: Let_def)

lemma leaf_returns:
  "returns U (anyMatcher ps) p" "returns U (charClassMatcher chr) p" "returns U (litMatcher ps val ic) p"
  "returns U (choiceExpr ps []) p" "returns U (seqExpr ps []) p"
  by (intro returnsI [of U 0], auto simp: parseAnyMatcher_def parseCharClassMatcher_def Let_def
      parseLitMatcher_def matchLit_returns parseChoiceExpr_def parseSeqExpr_def split: classHit.splits)+

lemma wrapper_returns:
  assumes "returns U e p"
  shows "returns U (actionExpr ps e run) p" "returns U (andExpr ps e) p" "returns U (notExpr ps e) p"
    "returns U (zeroOrOneExpr ps e) p"
proof -
  from assms obtain n where "parseExpr U n e p \<noteq> OutOfFuel" by (auto simp: returns_def)
  then show "returns U (actionExpr ps e run) p" "returns U (andExpr ps e) p" "returns U (notExpr ps e) p"
    "returns U (zeroOrOneExpr ps e) p"
    by (intro returnsI [of U n], auto simp: parseActionExpr_def parseAndExpr_def parseNotExpr_def
        parseZeroOrOneExpr_def bindR_def Let_def runAction_returns split: result.splits)+
qed

lemma labeled_returns:
  assumes "returns U e (pushV p)"
  shows "returns U (labeledExpr ps l e) p"
proof -
  from assms obtain n where "parseExpr U n e (pushV p) \<noteq> OutOfFuel" by (auto simp: returns_def)
  then show ?thesis
    by (intro returnsI [of U n])
      (auto simp: parseLabeledExpr_def bindR_def Let_def split: result.splits option.splits if_splits)
qed

lemma ref_none_returns: "map_of (rules p) n = None \<Longrightarrow> returns U (ruleRefExpr ps n) p"
  by (intro returnsI [of U 0]) (simp add: parseRuleRefExpr_def)

lemma seq_fails:
  assumes "\<And>m. n1 \<le> m \<Longrightarrow> parseExpr U m e p = Ret (v, False) q"
  shows "returns U (seqExpr ps (e # es)) p"
  by (intro returnsI [of U n1]) (simp add: parseSeqExpr_def assms)

lemma peg_returns:
  assumes "peg U G e s o'" "plain e" "ready p" "G = map_of (rules p)" "s = rest p"
  shows "returns U e p"
  using assms
proof (induction arbitrary: p rule: peg.induct)
  case (seq_next e s t ps es o')
  from seq_next have r: "returns U e p" by simp
  obtain n v q
    where q: "\<And>m. n \<le> m \<Longrightarrow> parseExpr U m e p = Ret (v, True) q" "kept (nlow p) p q" "ready q" "rest q = t"
    by (rule returns_some [OF r, of t]) (use seq_next in auto)
  then have "returns U (seqExpr ps es) q"
    using seq_next.prems by (intro seq_next.IH(2)) (auto simp: kept_def)
  with q(1) show ?case by (rule seq_returns)
next
  case (star_next e s t ps o')
  from star_next have r: "returns U e p" by simp
  obtain n v q
    where q: "\<And>m. n \<le> m \<Longrightarrow> parseExpr U m e p = Ret (v, True) q" "kept (nlow p) p q" "ready q" "rest q = t"
    by (rule returns_some [OF r, of t]) (use star_next in auto)
  then have "returns U (zeroOrMoreExpr ps e) q"
    using star_next.prems by (intro star_next.IH(2)) (auto simp: kept_def)
  then obtain k where "parseMany (parseExpr U k) k e [] p \<noteq> OutOfFuel"
    using many_returns [OF q(1)] by blast
  then show ?case by (rule repeat_returns)
next
  case (plus_ok e s t ps o')
  from plus_ok have r: "returns U e p" by simp
  obtain n v q
    where q: "\<And>m. n \<le> m \<Longrightarrow> parseExpr U m e p = Ret (v, True) q" "kept (nlow p) p q" "ready q" "rest q = t"
    by (rule returns_some [OF r, of t]) (use plus_ok in auto)
  then have "returns U (zeroOrMoreExpr ps e) q"
    using plus_ok.prems by (intro plus_ok.IH(2)) (auto simp: kept_def)
  then obtain k where "parseMany (parseExpr U k) k e [] p \<noteq> OutOfFuel"
    using many_returns [OF q(1)] by blast
  then show ?case by (rule repeat_returns)
next
  case (star_end e s ps)
  from star_end have r: "returns U e p" by simp
  obtain n v q where "\<And>m. n \<le> m \<Longrightarrow> parseExpr U m e p = Ret (v, False) q"
    by (rule returns_none [OF r]) (use star_end in auto)
  then show ?case by (rule repeat_returns [OF many_stops])
next
  case (plus_no e s ps)
  from plus_no have r: "returns U e p" by simp
  obtain n v q where "\<And>m. n \<le> m \<Longrightarrow> parseExpr U m e p = Ret (v, False) q"
    by (rule returns_none [OF r]) (use plus_no in auto)
  then show ?case by (rule repeat_returns [OF many_stops])
next
  case (choice_next e s ps es o')
  have wf: "wf_parser p" using choice_next.prems by (simp add: ready_def pre_parser_def)
  have r: "returns U e (pushV p)" using choice_next by (simp add: ready_pushV)
  obtain n v q
    where q: "\<And>m. n \<le> m \<Longrightarrow> parseExpr U m e (pushV p) = Ret (v, False) q"
      "kept (nlow (pushV p)) (pushV p) q" "rest q = rest (pushV p)"
    by (rule returns_none [OF r]) (use choice_next in \<open>auto simp: ready_pushV\<close>)
  then have k: "kept (vlen p) p (popV q)" using kept_scoped [OF wf] by simp
  have "returns U (choiceExpr ps es) (popV q)"
    using choice_next.prems q(3) ready_kept [OF _ k] k
    by (intro choice_next.IH(2)) (auto simp: kept_def)
  with q(1) show ?case by (rule alternatives_returns)
next
  case (choice_hit e s t ps es)
  have "returns U e (pushV p)" using choice_hit by (simp add: ready_pushV)
  then obtain n where "parseExpr U n e (pushV p) \<noteq> OutOfFuel" by (auto simp: returns_def)
  moreover have "parseExpr U n e (pushV p) = Ret (v, ok) q \<Longrightarrow> ok" for v ok q
    using sem.rec_agrees [OF ready_pushV, of p e U n] peg_deterministic choice_hit.prems choice_hit.hyps
    by (fastforce simp: outcome_def split: if_splits)
  ultimately show ?case
    by (intro returnsI [of U n]) (auto simp: parseChoiceExpr_def Let_def bindR_def split: result.splits)
next
  case (ref n r s o' ps)
  let ?p = "p\<lparr>rstack := rstack p @ [r]\<rparr>"
  have "ready ?p"
    using ref.prems by (simp add: ready_def pre_parser_def plain_rules_def wf_parser_def wf_v_def)
  then have "ready (pushV ?p)" by (rule ready_pushV)
  moreover have "plain (rule_expr r)"
    using ref.prems(2) ref.hyps(1) ref.prems(3) by (auto simp: ready_def plain_rules_def)
  ultimately have "returns U (rule_expr r) (pushV ?p)"
    using ref.prems by (intro ref.IH) (auto simp: rest_def)
  then obtain m where "parseExpr U m (rule_expr r) (pushV ?p) \<noteq> OutOfFuel" by (auto simp: returns_def)
  then show ?case using ref.prems ref.hyps
    by (intro returnsI [of U m]) (auto simp: parseRuleRefExpr_def parseRule_def bindR_def split: result.splits)
next
  case (seq_no e s ps es)
  from seq_no have r: "returns U e p" by simp
  obtain n v q where "\<And>m. n \<le> m \<Longrightarrow> parseExpr U m e p = Ret (v, False) q"
    by (rule returns_none [OF r]) (use seq_no in auto)
  then show ?case by (rule seq_fails)
qed (auto simp: leaf_returns ready_pushV intro!: wrapper_returns labeled_returns ref_none_returns)

end
