(* ===== verification/Peg_Properties.thy ===== *)
theory Peg_Properties
  imports Peg_Semantics
begin

text \<open>
  What a generated parser promises its user: the contract of the engine, its agreement with the
  reference semantics of parsing expression grammars, the error list, and where the engine
  departs from what a reader of the grammar expects.
\<close>

section \<open>The state a parse starts from\<close>

definition started :: "'a grammar \<Rightarrow> string \<Rightarrow> gobytes \<Rightarrow> 'a parser" where
  "started g f b = read (buildRulesTable g (newParser f b))"

definition table_of :: "'a grammar \<Rightarrow> string \<rightharpoonup> 'a rule" where
  "table_of g = map_of (rev (map (\<lambda>r. (rule_name r, r)) (grammar_rules g)))"

definition plain_grammar :: "'a grammar \<Rightarrow> bool" where
  "plain_grammar g \<longleftrightarrow> grammar_rules g \<noteq> [] \<and> (\<forall>r\<in>set (grammar_rules g). plain (rule_expr r))"

lemma fold_update_map_of:
  "map_of (fold (\<lambda>r. AList.update (rule_name r) r) rs m) n =
     (map_of m ++ map_of (rev (map (\<lambda>r. (rule_name r, r)) rs))) n"
  by (induction rs arbitrary: m) (auto simp: update_conv map_add_def split: option.split)

lemma started_rules: "map_of (rules (started g f b)) = table_of g"
  by (rule ext) (simp add: started_def buildRulesTable_def table_of_def fold_update_map_of newParser_def)

lemma started_frame [simp]:
  "vlen (started g f b) = 0" "rstack (started g f b) = []" "data (started g f b) = b"
  "filename (started g f b) = f"
  by (simp_all add: started_def buildRulesTable_def newParser_def)

lemma started_pt: "pt (started g f b) = sp_nth b 0"
  by (simp add: started_def buildRulesTable_def newParser_def sp_nth_0 sp_start_def)

lemma started_wf: "wf_parser (started g f b)"
  by (auto simp: wf_parser_def wf_v_def started_pt sp_reach_def)

lemma started_off [simp]: "off (started g f b) = 0"
  by (simp add: started_pt sp_nth_0 sp_start_def)

lemma started_rest: "rest (started g f b) = runes_of b"
  by (simp add: rest_def)

lemma table_of_in: "table_of g n = Some r \<Longrightarrow> r \<in> set (grammar_rules g)"
  by (auto simp: table_of_def dest: map_of_SomeD)

lemma started_plain: "plain_grammar g \<Longrightarrow> plain_rules (started g f b)"
  unfolding plain_rules_def started_rules by (auto simp: plain_grammar_def dest: table_of_in)

lemma pushed_ready:
  assumes "plain_grammar g"
  shows "ready (pushV (started g f b\<lparr>rstack := rs\<rparr>))"
proof -
  have "wf_parser (started g f b\<lparr>rstack := rs\<rparr>)" using started_wf [of g f b]
    by (simp add: wf_parser_def wf_v_def)
  with started_plain [OF assms, of f b] show ?thesis
    by (simp add: ready_def pre_parser_def plain_rules_def wf_pushV)
qed

lemma parse_unfold:
  "grammar_rules g \<noteq> [] \<Longrightarrow> parser_parse U n g (newParser f b) =
     (case parseRule (parseExpr U n) (hd (grammar_rules g)) (started g f b) of
        OutOfFuel \<Rightarrow> None
      | Panic e p2 \<Rightarrow>
          if e = Hangs then None
          else (let p3 = addErr (panicMessage e) p2 in Some (p3, VNil, errList_err (errs p3)))
      | Ret (val, ok) p2 \<Rightarrow>
          if \<not> ok then
            (let p3 = (if length (errs p2) = 0 then addErr ErrNoMatch p2 else p2)
             in Some (p3, VNil, errList_err (errs p3)))
          else Some (p2, val, errList_err (errs p2)))"
  by (simp add: parser_parse_def started_def)

lemma parse_none_iff:
  "grammar_rules g \<noteq> [] \<Longrightarrow> parser_parse U n g (newParser f b) = None \<longleftrightarrow>
     parseRule (parseExpr U n) (hd (grammar_rules g)) (started g f b) = OutOfFuel \<or>
     (\<exists>q. parseRule (parseExpr U n) (hd (grammar_rules g)) (started g f b) = Panic Hangs q)"
  by (auto simp: parse_unfold Let_def split: result.splits if_splits)

lemma start_rule_kept:
  "good_result 0 (started g f b) (parseRule (parseExpr U n) r (started g f b))"
  using eng.rule_good [OF started_wf, of g f b] by simp

section \<open>The contract of the engine\<close>

definition grammar_ab :: "unit grammar" where
  "grammar_ab =
     (let z = \<lparr>line = 1, col = 1, offset = 0\<rparr>
      in \<lparr>grammar_pos = z, grammar_rules =
        [\<lparr>rule_pos = z, rule_name = ''A'', displayName = '''', rule_expr =
           choiceExpr z [seqExpr z [litMatcher z ''a'' False, ruleRefExpr z ''A''], litMatcher z ''b'' False]\<rparr>]\<rparr>)"

definition start_ab :: "string \<Rightarrow> unit parser" where
  "start_ab b = pushV (started grammar_ab ''in'' b)"

lemma start_ab_wf: "wf_parser (start_ab b)" "vlen (start_ab b) = 1"
  by (simp_all add: start_ab_def wf_pushV started_wf)

definition shown :: "('a parser, 'a goval \<times> bool) result \<Rightarrow> ('a goval \<times> bool \<times> nat \<times> string list) option" where
  "shown r = (case r of Ret (v, ok) q \<Rightarrow> Some (v, ok, off q, map Inner (errs q)) | _ \<Rightarrow> None)"

lemma shownD: "shown r = Some (v, ok, k, es) \<Longrightarrow> \<exists>q. r = Ret (v, ok) q \<and> off q = k \<and> map Inner (errs q) = es"
  by (auto simp: shown_def split: result.splits)

text \<open>
  C3. Whatever the expression, the grammar and the actions, a call of the engine that returns
  leaves the input, the file name, the rule table, the rule stack and every frame of the value
  stack below the caller's as they were, only appends to the error list and never moves
  backwards; and when it reports no match, it has restored the input position.
\<close>

theorem parseExpr_frame:
  assumes "wf_parser p" "0 < vlen p" "parseExpr U n e p = Ret (v, ok) q"
  shows "wf_parser q \<and> data q = data p \<and> filename q = filename p \<and> rules q = rules p \<and>
    rstack q = rstack p \<and> vlen q = vlen p \<and> (\<forall>i. Suc i < vlen p \<longrightarrow> vslots q ! i = vslots p ! i) \<and>
    Sublist.prefix (errs p) (errs q) \<and> off p \<le> off q \<and> (\<not> ok \<longrightarrow> off q = off p)"
  using eng.rec_good [of p U n e] assms by (auto simp: pre_parser_def kept_def nlow_def)

theorem parseExpr_frame_witness:
  "\<exists>q. parseExpr ascii_env 12 (ruleRefExpr (grammar_pos grammar_ab) ''A'') (start_ab ''aac'') = Ret (VNil, False) q
     \<and> wf_parser q \<and> data q = ''aac'' \<and> vlen q = 1 \<and> off q = 0"
proof -
  have "shown (parseExpr ascii_env 12 (ruleRefExpr (grammar_pos grammar_ab) ''A'') (start_ab ''aac''))
      = Some (VNil, False, 0, [])"
    by code_simp
  then obtain q where q: "parseExpr ascii_env 12 (ruleRefExpr (grammar_pos grammar_ab) ''A'') (start_ab ''aac'')
      = Ret (VNil, False) q"
    by (auto dest!: shownD)
  have "data (start_ab ''aac'') = ''aac''" "off (start_ab ''aac'') = 0"
    by (simp_all add: start_ab_def)
  with parseExpr_frame [OF _ _ q] q show ?thesis by (simp add: start_ab_wf)
qed

text \<open>
  C4. Before the end of the input, a call that reports no match restores the whole save point:
  offset, line, column, current rune and its width.
\<close>

theorem failed_match_restores_position:
  assumes "wf_parser p" "0 < vlen p" "parseExpr U n e p = Ret (v, False) q" "off p < length (data p)"
  shows "pt q = pt p"
proof -
  have k: "wf_parser q" "data q = data p" "off q = off p"
    using eng.rec_good [of p U n e] assms by (auto simp: pre_parser_def kept_def)
  then show ?thesis
    using sp_reach_unique [of "data p" "pt p" "pt q"] sp_reach_width(1) [of "data p" "pt p"] assms(1,4)
    by (auto simp: wf_parser_def)
qed

theorem failed_match_restores_position_witness:
  "\<exists>q. parseExpr ascii_env 12 (ruleRefExpr (grammar_pos grammar_ab) ''A'') (start_ab ''aac'') = Ret (VNil, False) q
     \<and> pt q = pt (start_ab ''aac'')"
proof -
  have "shown (parseExpr ascii_env 12 (ruleRefExpr (grammar_pos grammar_ab) ''A'') (start_ab ''aac''))
      = Some (VNil, False, 0, [])"
    by code_simp
  then obtain q where q: "parseExpr ascii_env 12 (ruleRefExpr (grammar_pos grammar_ab) ''A'') (start_ab ''aac'')
      = Ret (VNil, False) q"
    by (auto dest!: shownD)
  have "off (start_ab ''aac'') < length (data (start_ab ''aac''))"
    by (simp add: start_ab_def)
  with failed_match_restores_position [OF _ _ q] q show ?thesis by (simp add: start_ab_wf)
qed

text \<open>
  C5. A parse that ends without an error has matched the start rule, has left no rule on the rule
  stack and no frame on the value stack, and has consumed a prefix of the input.
\<close>

theorem parse_clean_end:
  assumes "parser_parse U n g (newParser f b) = Some (q, v, None)"
  shows "vlen q = 0 \<and> rstack q = [] \<and> errs q = [] \<and> data q = b \<and> off q \<le> length b \<and>
    parseRule (parseExpr U n) (hd (grammar_rules g)) (started g f b) = Ret (v, True) q"
proof -
  have e: "errs (addErr x p) \<noteq> []" for x and p :: "'a parser"
    using addErrAt_errs [of x "sp_position (pt p)" p] by (auto simp: addErr_def)
  have ne: "grammar_rules g \<noteq> []"
    using assms e by (auto simp: parser_parse_def errList_err_def Let_def split: if_splits)
  have r: "parseRule (parseExpr U n) (hd (grammar_rules g)) (started g f b) = Ret (v, True) q \<and> errs q = []"
    using assms e unfolding parse_unfold [OF ne]
    by (auto simp: errList_err_def Let_def split: result.splits if_splits)
  then show ?thesis
    using start_rule_kept [of g f b U n "hd (grammar_rules g)"] sp_reach_off_le [of b "pt q"]
    by (auto simp: kept_def wf_parser_def)
qed

theorem parse_clean_end_witness:
  "\<exists>q. parser_parse ascii_env 12 grammar_ab (newParser ''in'' ''aab'') =
      Some (q, VSlice [VString ''a'', VSlice [VString ''a'', VString ''b'']], None) \<and>
    vlen q = 0 \<and> rstack q = [] \<and> errs q = []"
proof -
  have "map_option (\<lambda>(q, v, err). (v, err)) (parser_parse ascii_env 12 grammar_ab (newParser ''in'' ''aab''))
      = Some (VSlice [VString ''a'', VSlice [VString ''a'', VString ''b'']], None)"
    by code_simp
  then obtain q where q: "parser_parse ascii_env 12 grammar_ab (newParser ''in'' ''aab'') =
      Some (q, VSlice [VString ''a'', VSlice [VString ''a'', VString ''b'']], None)"
    by auto
  with parse_clean_end [OF q] show ?thesis by blast
qed

definition told :: "('a parser \<times> 'a goval \<times> parserError list option) option \<Rightarrow>
    ('a goval \<times> nat \<times> string list) option" where
  "told r = map_option (\<lambda>(q, v, err). (v, off q, case err of None \<Rightarrow> [] | Some es \<Rightarrow> map ParserError_Error es)) r"

lemma toldD: "told r = Some (v, k, es) \<Longrightarrow> \<exists>q err. r = Some (q, v, err) \<and> off q = k \<and>
    (case err of None \<Rightarrow> [] | Some es \<Rightarrow> map ParserError_Error es) = es"
  by (auto simp: told_def)

lemma errList_err_some: "errList_err es = Some ds \<Longrightarrow> es \<noteq> []"
  by (auto simp: errList_err_def split: if_splits)

lemma dedupe_loop_app: "dedupe_loop seen cleaned es = cleaned @ dedupe_loop seen [] es"
proof (induction es arbitrary: seen cleaned)
  case (Cons e es)
  show ?case
  proof (cases "ParserError_Error e \<in> set seen")
    case False
    then have "dedupe_loop seen cleaned (e # es) = (cleaned @ [e]) @ dedupe_loop (ParserError_Error e # seen) [] es"
      using Cons.IH [of _ "cleaned @ [e]"] by simp
    moreover have "dedupe_loop seen [] (e # es) = [e] @ dedupe_loop (ParserError_Error e # seen) [] es"
      using False Cons.IH [of _ "[e]"] by simp
    ultimately show ?thesis by simp
  qed (simp add: Cons.IH [of seen cleaned])
qed simp

lemma dedupe_loop_step:
  "dedupe_loop seen [] (e # es) =
     (if ParserError_Error e \<in> set seen then dedupe_loop seen [] es
      else e # dedupe_loop (ParserError_Error e # seen) [] es)"
  using dedupe_loop_app [of "ParserError_Error e # seen" "[e]" es] by simp

lemma dedupe_loop_messages:
  "distinct (map ParserError_Error (dedupe_loop seen [] es)) \<and>
   ParserError_Error ` set (dedupe_loop seen [] es) = ParserError_Error ` set es - set seen \<and>
   subseq (dedupe_loop seen [] es) es"
proof (induction es arbitrary: seen)
  case (Cons e es)
  from Cons [of seen] Cons [of "ParserError_Error e # seen"] show ?case
    unfolding dedupe_loop_step by auto
qed simp

lemma dedupe_loop_first:
  assumes "es = xs @ e # ys" "ParserError_Error e \<notin> ParserError_Error ` set xs" "ParserError_Error e \<notin> set seen"
  shows "e \<in> set (dedupe_loop seen [] es)"
  using assms
proof (induction xs arbitrary: seen es)
  case Nil
  then show ?case unfolding Nil(1) append_Nil dedupe_loop_step by simp
next
  case (Cons x xs)
  from Cons.prems Cons.IH [OF refl] show ?case
    unfolding Cons.prems(1) append_Cons dedupe_loop_step by auto
qed

lemma errList_dedupe_nonempty: "es \<noteq> [] \<Longrightarrow> errList_dedupe es \<noteq> []"
  using dedupe_loop_messages [of "[]" es] by (auto simp: errList_dedupe_def)

text \<open>
  C7. The error list a parse reports has no two entries with the same message, loses no message,
  keeps the order of the entries and, of those that share a message, keeps the first.
\<close>

theorem errList_dedupe_correct:
  "distinct (map ParserError_Error (errList_dedupe es)) \<and>
   ParserError_Error ` set (errList_dedupe es) = ParserError_Error ` set es \<and>
   subseq (errList_dedupe es) es \<and>
   (\<forall>xs e ys. es = xs @ e # ys \<longrightarrow> ParserError_Error e \<notin> ParserError_Error ` set xs \<longrightarrow>
      e \<in> set (errList_dedupe es))"
  using dedupe_loop_messages [of "[]" es] dedupe_loop_first [of es _ _ _ "[]"]
  by (auto simp: errList_dedupe_def)

theorem errList_dedupe_correct_witness:
  "map Inner (errList_dedupe
     [\<lparr>Inner = ''x'', err_prefix = ''1:1''\<rparr>, \<lparr>Inner = ''y'', err_prefix = ''1:1''\<rparr>, \<lparr>Inner = ''x'', err_prefix = ''1:1''\<rparr>])
   = [''x'', ''y''] \<and>
   distinct (map ParserError_Error (errList_dedupe
     [\<lparr>Inner = ''x'', err_prefix = ''1:1''\<rparr>, \<lparr>Inner = ''y'', err_prefix = ''1:1''\<rparr>, \<lparr>Inner = ''x'', err_prefix = ''1:1''\<rparr>]))"
  using errList_dedupe_correct [of
     "[\<lparr>Inner = ''x'', err_prefix = ''1:1''\<rparr>, \<lparr>Inner = ''y'', err_prefix = ''1:1''\<rparr>, \<lparr>Inner = ''x'', err_prefix = ''1:1''\<rparr>]"]
  by (simp add: errList_dedupe_def ParserError_Error_def)

section \<open>Agreement with the reference semantics\<close>

lemma start_rule_cases:
  fixes g :: "'a grammar"
  assumes "plain_grammar g"
  defines "r \<equiv> hd (grammar_rules g)"
  obtains (fuel) "parseRule (parseExpr U n) r (started g f b) = OutOfFuel"
      "parseExpr U n (rule_expr r) (pushV (started g f b\<lparr>rstack := [r]\<rparr>)) = OutOfFuel"
  | (ok) v q where "parseRule (parseExpr U n) r (started g f b) = Ret (v, True) q"
      "peg U (table_of g) (rule_expr r) (runes_of b) (Some (rest q))"
  | (no) v q where "parseRule (parseExpr U n) r (started g f b) = Ret (v, False) q"
      "peg U (table_of g) (rule_expr r) (runes_of b) None"
proof -
  let ?p = "pushV (started g f b\<lparr>rstack := [r]\<rparr>)"
  have pl: "plain (rule_expr r)" using assms by (cases "grammar_rules g") (auto simp: plain_grammar_def)
  have R: "parseRule (parseExpr U n) r (started g f b) =
      bindR (parseExpr U n (rule_expr r) ?p)
        (\<lambda>(val, ok) p2. let p3 = popV p2 in Ret (val, ok) (p3\<lparr>rstack := butlast (rstack p3)\<rparr>))"
    by (simp add: parseRule_def)
  have "map_of (rules ?p) = table_of g" "rest ?p = runes_of b"
    by (simp_all add: started_rules started_rest)
  then show ?thesis
    by (cases rule: sem.rec_cases [OF pushed_ready [OF assms(1)] pl, of U n, case_names fuel ok no])
      (use fuel ok no R in auto)
qed

text \<open>
  C2. For a grammar whose actions return and whose expressions are well formed, the parse returns,
  for some amount of fuel, exactly when the reference semantics gives the start rule an outcome
  on the input: the engine diverges on no input on which the grammar means something.
\<close>

theorem parse_terminates_iff:
  assumes "plain_grammar g"
  shows "(\<exists>n. parser_parse U n g (newParser f b) \<noteq> None) \<longleftrightarrow>
    (\<exists>res. peg U (table_of g) (rule_expr (hd (grammar_rules g))) (runes_of b) res)"
proof
  let ?r = "hd (grammar_rules g)"
  assume "\<exists>n. parser_parse U n g (newParser f b) \<noteq> None"
  then obtain n where "parseRule (parseExpr U n) ?r (started g f b) \<noteq> OutOfFuel"
    using assms parse_none_iff unfolding plain_grammar_def by metis
  then show "\<exists>res. peg U (table_of g) (rule_expr ?r) (runes_of b) res"
    by (cases rule: start_rule_cases [OF assms, of U n f b]) auto
next
  let ?r = "hd (grammar_rules g)" and ?p = "pushV (started g f b\<lparr>rstack := [hd (grammar_rules g)]\<rparr>)"
  assume "\<exists>res. peg U (table_of g) (rule_expr ?r) (runes_of b) res"
  then obtain res where "peg U (table_of g) (rule_expr ?r) (runes_of b) res" by blast
  then have "returns U (rule_expr ?r) ?p"
    by (rule peg_returns)
      (use assms in \<open>simp_all add: pushed_ready started_rules started_rest plain_grammar_def\<close>)
  then obtain n where "parseExpr U n (rule_expr ?r) ?p \<noteq> OutOfFuel" by (auto simp: returns_def)
  then have "\<exists>r q. parseRule (parseExpr U n) ?r (started g f b) = Ret r q"
    by (cases rule: start_rule_cases [OF assms, of U n f b]) auto
  then have "parser_parse U n g (newParser f b) \<noteq> None"
    using assms parse_none_iff [of g U n f b] unfolding plain_grammar_def by fastforce
  then show "\<exists>n. parser_parse U n g (newParser f b) \<noteq> None" by blast
qed

lemma grammar_ab_plain: "plain_grammar grammar_ab"
  by (simp add: plain_grammar_def grammar_ab_def Let_def)

theorem parse_terminates_iff_witness:
  "\<exists>res. peg ascii_env (table_of grammar_ab) (rule_expr (hd (grammar_rules grammar_ab))) (runes_of ''aab'') res"
proof -
  have "told (parser_parse ascii_env 12 grammar_ab (newParser ''in'' ''aab'')) \<noteq> None"
    by code_simp
  then have "parser_parse ascii_env 12 grammar_ab (newParser ''in'' ''aab'') \<noteq> None"
    by (simp add: told_def)
  with parse_terminates_iff [OF grammar_ab_plain] show ?thesis by blast
qed

text \<open>
  C1. For such a grammar a parse that returns agrees with the reference semantics: where the start
  rule matches, the parser stops at the rest of the input that the semantics leaves; where it does
  not match, the parse gives no value and a non-empty error list; and a parse without an error
  has matched.
\<close>

theorem parse_agrees_with_peg:
  assumes "plain_grammar g" "parser_parse U n g (newParser f b) = Some (q, v, err)"
  defines "Start \<equiv> peg U (table_of g) (rule_expr (hd (grammar_rules g))) (runes_of b)"
  shows "(Start (Some t) \<longrightarrow> rest q = t) \<and>
    (Start None \<longrightarrow> v = VNil \<and> (\<exists>es. err = Some es \<and> es \<noteq> [])) \<and>
    (err = None \<longrightarrow> Start (Some (rest q)))"
proof -
  let ?r = "hd (grammar_rules g)"
  have ne: "grammar_rules g \<noteq> []" using assms(1) by (simp add: plain_grammar_def)
  have dd: "errList_dedupe es \<noteq> []" if "es \<noteq> []" for es
    using errList_dedupe_nonempty that by blast
  show ?thesis
  proof (cases rule: start_rule_cases [OF assms(1), of U n f b, case_names fuel ok no])
    case fuel
    with assms(2) ne show ?thesis by (simp add: parse_unfold)
  next
    case (ok v' q')
    with assms(2) ne have "q' = q" by (simp add: parse_unfold)
    with ok(2) have s: "Start (Some (rest q))" by (simp add: Start_def)
    have "t = rest q" if "Start (Some t)"
      using peg_deterministic [OF s [unfolded Start_def] that [unfolded Start_def]] by simp
    moreover have "\<not> Start None"
      using peg_deterministic [OF s [unfolded Start_def]] unfolding Start_def by blast
    ultimately show ?thesis using s by blast
  next
    case (no v' q')
    let ?q = "if length (errs q') = 0 then addErr ErrNoMatch q' else q'"
    have "errs ?q \<noteq> []" using addErrAt_errs [of ErrNoMatch "sp_position (pt q')" q'] by (auto simp: addErr_def)
    moreover have "v = VNil" "err = errList_err (errs ?q)"
      using no(1) assms(2) ne by (auto simp: parse_unfold Let_def)
    ultimately have "v = VNil \<and> (\<exists>es. err = Some es \<and> es \<noteq> [])" using dd by (simp add: errList_err_def)
    moreover have "\<not> Start (Some t)" for t
      unfolding Start_def using peg_deterministic [OF no(2), of "Some t"] by blast
    ultimately show ?thesis by auto
  qed
qed

theorem parse_agrees_with_peg_witness:
  "peg ascii_env (table_of grammar_ab) (rule_expr (hd (grammar_rules grammar_ab))) (runes_of ''aabb'') (Some [98])"
proof -
  have "told (parser_parse ascii_env 12 grammar_ab (newParser ''in'' ''aabb'')) =
      Some (VSlice [VString ''a'', VSlice [VString ''a'', VString ''b'']], 3, [])"
    by code_simp
  moreover have "map_option (\<lambda>(q, v, err). (rest q, err)) (parser_parse ascii_env 12 grammar_ab (newParser ''in'' ''aabb''))
      = Some ([98], None)"
    by code_simp
  ultimately obtain q v where "parser_parse ascii_env 12 grammar_ab (newParser ''in'' ''aabb'') = Some (q, v, None)"
      and "rest q = [98]"
    by auto
  with parse_agrees_with_peg [OF grammar_ab_plain this(1)] show ?thesis by simp
qed

lemma parse_mono:
  assumes "n \<le> m" "parser_parse U n g p \<noteq> None"
  shows "parser_parse U m g p = parser_parse U n g p"
proof (cases "grammar_rules g = []")
  case False
  let ?p = "read (buildRulesTable g p)"
  have "parseRule (parseExpr U n) (hd (grammar_rules g)) ?p \<noteq> OutOfFuel"
    using assms(2) False by (auto simp: parser_parse_def)
  then have "parseRule (parseExpr U m) (hd (grammar_rules g)) ?p = parseRule (parseExpr U n) (hd (grammar_rules g)) ?p"
    by (rule le_resD [OF parseRule_mono [OF parseExpr_mono [OF assms(1)]]])
  then show ?thesis by (simp add: parser_parse_def)
qed (simp add: parser_parse_def)

text \<open>
  Once a parse returns with some fuel, every larger amount gives the same value, the same error
  and the same final state, so the fuel is no part of the result.
\<close>

lemma parse_fuel_stable:
  assumes "parse U n f r g = Some res" "n \<le> m"
  shows "parse U m f r g = Some res"
proof (cases r)
  case (Inr b)
  with assms(1) have "parser_parse U n g (newParser f b) \<noteq> None" by (auto simp: parse_def)
  from parse_mono [OF assms(2) this] assms(1) Inr show ?thesis by (simp add: parse_def)
qed (use assms in \<open>simp add: parse_def\<close>)

text \<open>
  C6. Panics do not escape: when the start rule panics, in an action, in a predicate or in the
  engine itself, the parse returns no value and an error list in which the panic's message is
  the last error recorded.
\<close>

theorem parse_recovers_panic:
  assumes "grammar_rules g \<noteq> []"
    and "parseRule (parseExpr U n) (hd (grammar_rules g)) (started g f b) = Panic x q" and "x \<noteq> Hangs"
  shows "\<exists>q' es. parser_parse U n g (newParser f b) = Some (q', VNil, Some es) \<and>
    Inner (last (errs q')) = panicMessage x \<and> (\<exists>e\<in>set es. ParserError_Error e = ParserError_Error (last (errs q')))"
proof -
  let ?q = "addErr (panicMessage x) q"
  obtain e where e: "errs ?q = errs q @ [e]" "Inner e = panicMessage x"
    using addErrAt_errs [of "panicMessage x" "sp_position (pt q)" q] by (auto simp: addErr_def)
  have r: "parser_parse U n g (newParser f b) = Some (?q, VNil, Some (errList_dedupe (errs ?q)))"
    using assms e by (simp add: parse_unfold Let_def errList_err_def)
  have "ParserError_Error e \<in> ParserError_Error ` set (errList_dedupe (errs ?q))"
    using dedupe_loop_messages [of "[]" "errs ?q"] e by (auto simp: errList_dedupe_def)
  with r e show ?thesis by auto
qed

definition grammar_panic :: "unit grammar" where
  "grammar_panic =
     (let z = \<lparr>line = 1, col = 1, offset = 0\<rparr>
      in \<lparr>grammar_pos = z, grammar_rules =
        [\<lparr>rule_pos = z, rule_name = ''P'', displayName = '''', rule_expr =
           actionExpr z (litMatcher z ''a'' False) (\<lambda>c m. CodePanics c (PanicValue ''boom''))\<rparr>]\<rparr>)"

theorem parse_recovers_panic_witness:
  "told (parser_parse ascii_env 3 grammar_panic (newParser '''' ''a'')) = Some (VNil, 1, [''1:2 (1): rule P: boom'']) \<and>
   (\<exists>q' es. parser_parse ascii_env 3 grammar_panic (newParser '''' ''a'') = Some (q', VNil, Some es) \<and>
     Inner (last (errs q')) = ''boom'')"
proof -
  have t: "told (parser_parse ascii_env 3 grammar_panic (newParser '''' ''a''))
      = Some (VNil, 1, [''1:2 (1): rule P: boom''])"
    by code_simp
  have "(case parseRule (parseExpr ascii_env 3) (hd (grammar_rules grammar_panic)) (started grammar_panic '''' ''a'') of
      Panic x q \<Rightarrow> Some (panicMessage x) | _ \<Rightarrow> None) = Some ''boom''"
    by code_simp
  then obtain x q where "parseRule (parseExpr ascii_env 3) (hd (grammar_rules grammar_panic)) (started grammar_panic '''' ''a'')
      = Panic x q" "panicMessage x = ''boom''"
    by (auto split: result.splits)
  moreover from this(2) have "x \<noteq> Hangs" by auto
  ultimately show ?thesis
    using parse_recovers_panic [of grammar_panic ascii_env 3 "''''" "''a''" x q] t
    by (fastforce simp: grammar_panic_def Let_def)
qed

section \<open>Positions\<close>

definition column_of :: "rune list \<Rightarrow> int" where
  "column_of rs = int (length (takeWhile (\<lambda>r. r \<noteq> 10) (rev rs)))"

lemma column_of_snoc: "column_of (rs @ [r]) = (if r = 10 then 0 else 1 + column_of rs)"
  by (simp add: column_of_def)

lemma drop_runes_of:
  "sp_off (sp_nth d k) < length d \<Longrightarrow>
     drop k (runes_of d) = runes_of (drop (sp_off (sp_nth d k)) d) \<and> k < length (runes_of d)"
proof (induction k)
  case 0
  then have "d \<noteq> []" by auto
  then have "runes_of d \<noteq> []" by (simp add: runes_of.simps [of d])
  then show ?case by (simp add: sp_nth_0 sp_start_def)
next
  case (Suc k)
  let ?s = "sp_nth d k"
  have rs: "sp_reach d ?s" by (auto simp: sp_reach_def)
  have lt: "sp_off ?s < length d" using Suc.prems by (simp add: sp_nth_Suc)
  with sp_reach_width(1) [OF rs] have "drop (sp_off ?s) d \<noteq> []" by simp
  with Suc.IH [OF lt] sp_reach_decode [OF rs]
  have "drop k (runes_of d) = sp_rn ?s # runes_of (drop (sp_w ?s + sp_off ?s) d)"
    by (subst (asm) runes_of.simps [of "drop _ _"]) (simp add: add.commute)
  then have d: "drop (Suc k) (runes_of d) = runes_of (drop (sp_off (sp_nth d (Suc k))) d)"
    using tl_drop [of k "runes_of d"] by (simp add: sp_nth_Suc drop_Suc add.commute)
  have "drop (sp_off (sp_nth d (Suc k))) d \<noteq> []" using Suc.prems by simp
  then have "runes_of (drop (sp_off (sp_nth d (Suc k))) d) \<noteq> []"
    by (subst runes_of.simps) simp
  with d show ?case by (metis drop_all leI)
qed

lemma take_runes_of:
  assumes "sp_off (sp_nth d k) < length d"
  shows "take (Suc k) (runes_of d) = take k (runes_of d) @ [sp_rn (sp_nth d k)]"
proof -
  let ?s = "sp_nth d k"
  have rs: "sp_reach d ?s" by (auto simp: sp_reach_def)
  have "drop (sp_off ?s) d \<noteq> []" using assms by simp
  then have "hd (runes_of (drop (sp_off ?s) d)) = sp_rn ?s"
    using sp_reach_decode [OF rs] by (subst runes_of.simps) simp
  with drop_runes_of [OF assms] show ?thesis
    by (metis hd_drop_conv_nth take_Suc_conv_app_nth)
qed

text \<open>
  C8. The position the engine keeps is the position in the text: at the k-th rune of the input, the
  line is one more than the number of line feeds among the runes up to and including it, and the
  column counts the runes since the last line feed.
\<close>

theorem position_counts_runes:
  assumes "sp_off (sp_nth d k) < length d"
  shows "line (sp_position (sp_nth d k)) = 1 + int (count_list (take (Suc k) (runes_of d)) 10) \<and>
    col (sp_position (sp_nth d k)) = column_of (take (Suc k) (runes_of d)) \<and>
    sp_rn (sp_nth d k) = runes_of d ! k"
  using assms
proof (induction k)
  case 0
  have t: "take (Suc 0) (runes_of d) = [sp_rn (sp_nth d 0)]"
    using take_runes_of [OF 0] by simp
  then have n: "runes_of d ! 0 = sp_rn (sp_nth d 0)" by (cases "runes_of d") auto
  have p: "sp_position (sp_nth d 0) =
      (if sp_rn (sp_nth d 0) = 10 then \<lparr>line = 2, col = 0, offset = 0\<rparr> else \<lparr>line = 1, col = 1, offset = 0\<rparr>)"
    by (auto simp: sp_nth_0 sp_start_def advance_def Let_def split: prod.splits)
  show ?case unfolding p t n by (simp add: column_of_def)
next
  case (Suc k)
  have lt: "sp_off (sp_nth d k) < length d" using Suc.prems by (simp add: sp_nth_Suc)
  have t: "take (Suc (Suc k)) (runes_of d) = take (Suc k) (runes_of d) @ [sp_rn (sp_nth d (Suc k))]"
    by (rule take_runes_of [OF Suc.prems])
  have n: "runes_of d ! Suc k = sp_rn (sp_nth d (Suc k))"
    using t drop_runes_of [OF Suc.prems] by (simp add: take_Suc_conv_app_nth)
  have p: "line (sp_position (sp_nth d (Suc k))) =
        line (sp_position (sp_nth d k)) + (if sp_rn (sp_nth d (Suc k)) = 10 then 1 else 0)"
      "col (sp_position (sp_nth d (Suc k))) =
        (if sp_rn (sp_nth d (Suc k)) = 10 then 0 else col (sp_position (sp_nth d k)) + 1)"
    by (auto simp: sp_nth_Suc advance_def Let_def split: prod.splits)
  show ?case using Suc.IH [OF lt] unfolding p t n
    by (simp add: column_of_snoc)
qed

theorem position_counts_runes_witness:
  "sp_position (sp_nth [CHR ''a'', CHR 0x0A, CHR ''b'', CHR ''c''] 3) = \<lparr>line = 2, col = 2, offset = 3\<rparr> \<and>
   sp_rn (sp_nth [CHR ''a'', CHR 0x0A, CHR ''b'', CHR ''c''] 3) = runes_of [CHR ''a'', CHR 0x0A, CHR ''b'', CHR ''c''] ! 3"
proof -
  have p: "sp_position (sp_nth [CHR ''a'', CHR 0x0A, CHR ''b'', CHR ''c''] 3) = \<lparr>line = 2, col = 2, offset = 3\<rparr>"
    by code_simp
  with position_counts_runes [of "[CHR ''a'', CHR 0x0A, CHR ''b'', CHR ''c'']" 3] show ?thesis by simp
qed

section \<open>Values\<close>

lemma wf_text_step:
  assumes "wf_parser p" "sp_rn (pt p) \<noteq> RuneError"
  shows "encodeRune (sp_rn (pt p)) = take (sp_w (pt p)) (drop (off p) (data p))"
  using encode_decodeRune(2) [OF sp_reach_decode] assms by (auto simp: wf_parser_def)

lemma matchLit_text:
  assumes "matchLit U ic sp buf ws q = Ret (v, True) r" "wf_parser q" "d = data q"
    and "RuneError \<notin> set ws" "ic \<longrightarrow> uToLower U RuneError \<notin> set ws"
    and "buf = take (off q - a) (drop a d)" "a \<le> off q"
  shows "v = VString (take (off r - a) (drop a d))"
  using assms
proof (induction ws arbitrary: buf q)
  case (Cons x ws)
  let ?c = "if ic then uToLower U (sp_rn (pt q)) else sp_rn (pt q)"
  have c: "?c = x" using Cons.prems(1) by (simp add: Let_def split: if_splits)
  then have ne: "sp_rn (pt q) \<noteq> RuneError" using Cons.prems(4,5) by (auto split: if_splits)
  have "drop (off q - a) (drop a d) = drop (off q) d" using Cons.prems(7) by simp
  then have "buf @ encodeRune (sp_rn (pt q)) = take (off q - a + sp_w (pt q)) (drop a d)"
    unfolding take_add wf_text_step [OF Cons.prems(2) ne] Cons.prems(3,6) by simp
  then have b: "buf @ encodeRune (sp_rn (pt q)) = take (off (read q) - a) (drop a d)"
    using Cons.prems(7) by simp
  have m: "matchLit U ic sp (buf @ encodeRune (sp_rn (pt q))) ws (read q) = Ret (v, True) r"
    using Cons.prems(1) c by (simp add: Let_def split: if_splits)
  have "wf_parser (read q)" using kept_read [OF Cons.prems(2), of 0] by blast
  then show ?case by (rule Cons.IH [OF m]) (use Cons.prems b in auto)
qed auto

text \<open>
  The value of a literal matcher is the text it matched: the bytes of the input between the
  position before and the position after, also when the comparison ignores case (the literal
  and its lower-cased form then do not contain the replacement character).
\<close>

lemma literal_value_is_matched_text:
  assumes "wf_parser p" "parseLitMatcher U val ic p = Ret (v, True) q"
    and "RuneError \<notin> set (runes_of val)" "ic \<longrightarrow> uToLower U RuneError \<notin> set (runes_of val)"
  shows "v = VString (slice (sp_position (pt p)) (sp_position (pt q)) p)"
  using matchLit_text [OF assms(2)[unfolded parseLitMatcher_def] assms(1) refl assms(3,4), of "off p"]
  by (simp add: slice_def)

text \<open>
  C9. The code of an action is called, once its expression has matched, with the text between the
  start of the match and the current position, with the position of the start, and with the
  labelled values of the frame the action stands in.
\<close>

theorem action_sees_matched_text:
  assumes "wf_parser p" "0 < vlen p" "parseExpr U n e p = Ret (val, True) q"
    and "run \<lparr>cur_pos = sp_position (pt p), cur_text = slice (sp_position (pt p)) (sp_position (pt q)) p\<rparr>
           (the (topV q)) = CodeReturns c v None"
  shows "\<exists>q'. parseExpr U (Suc n) (actionExpr ps e run) p = Ret (v, True) q' \<and> off q' = off q \<and> errs q' = errs q"
proof -
  have k: "data q = data p" "vlen q = vlen p" "wf_parser q"
    using eng.rec_good [of p U n e] assms by (auto simp: pre_parser_def kept_def)
  obtain m where m: "topV q = Some m"
    using k assms(2) by (cases "vslots q ! (vlen q - 1)") (auto simp: topV_def)
  let ?q = "q\<lparr>cur := \<lparr>cur_pos = sp_position (pt p), cur_text = slice (sp_position (pt p)) (sp_position (pt q)) p\<rparr>\<rparr>"
  have s: "slice (sp_position (pt p)) (sp_position (pt q)) q = slice (sp_position (pt p)) (sp_position (pt q)) p"
    using k by (simp add: slice_def)
  have "topV ?q = topV q" by (simp add: topV_def)
  then have "topV ?q = Some m" using m by simp
  then have "runAction (pt p) run q = Ret v (?q\<lparr>cur := c\<rparr>)"
    using assms(4) m s by (simp add: runAction_def Let_def save_def)
  then show ?thesis using assms(3) by (simp add: parseActionExpr_def save_def)
qed

definition text_action :: "'a runFn" where
  "text_action c m = CodeReturns c (VString (cur_text c)) None"

theorem action_sees_matched_text_witness:
  "\<exists>q'. parseExpr ascii_env 5 (actionExpr (grammar_pos grammar_ab) (oneOrMoreExpr (grammar_pos grammar_ab)
      (litMatcher (grammar_pos grammar_ab) ''a'' False)) text_action) (start_ab ''aac'')
    = Ret (VString ''aa'', True) q' \<and> off q' = 2"
proof -
  let ?e = "oneOrMoreExpr (grammar_pos grammar_ab) (litMatcher (grammar_pos grammar_ab) ''a'' False)"
  have "shown (parseExpr ascii_env 4 ?e (start_ab ''aac'')) = Some (VSlice [VString ''a'', VString ''a''], True, 2, [])"
    by code_simp
  then obtain q where q: "parseExpr ascii_env 4 ?e (start_ab ''aac'') = Ret (VSlice [VString ''a'', VString ''a''], True) q"
      "off q = 2"
    by (auto dest!: shownD)
  have "slice (sp_position (pt (start_ab ''aac''))) (sp_position (pt q)) (start_ab ''aac'') = ''aa''"
    using q(2) by (simp add: slice_def start_ab_def)
  with action_sees_matched_text [OF _ _ q(1), of text_action _ "VString ''aa''"] q(2) show ?thesis
    by (auto simp: start_ab_wf text_action_def numeral_eq_Suc)
qed

section \<open>Where the engine departs from the grammar\<close>

lemma read_at_end:
  assumes "wf_parser p" "off p = length (data p)"
  shows "wf_parser (read p) \<and> off (read p) = length (data (read p)) \<and> sp_rn (pt p) = RuneError"
proof -
  have r: "sp_reach (data p) (pt p)" using assms(1) by (simp add: wf_parser_def)
  have "sp_w (pt p) = 0" using sp_reach_width(1) [OF r] assms(2) by simp
  moreover have "sp_rn (pt p) = RuneError" using sp_reach_decode [OF r] assms(2) by simp
  moreover have "wf_parser (read p)" using kept_read [OF assms(1), of 0] by blast
  ultimately show ?thesis using assms(2) by simp
qed

definition loopy :: "unicode_env \<Rightarrow> charClass \<Rightarrow> bool" where
  "loopy U chr \<longleftrightarrow> inverted chr \<and> matchClass chr (if cc_ignoreCase chr then uToLower U RuneError else RuneError) = Miss"

lemma loopy_many:
  assumes "loopy U chr" "wf_parser p" "off p = length (data p)"
  shows "parseMany (parseExpr U n) k (charClassMatcher chr) vals p = OutOfFuel"
  using assms
proof (induction k arbitrary: vals p)
  case (Suc k)
  note e = read_at_end [OF Suc.prems(2,3)]
  show ?case
  proof (cases n)
    case (Suc n')
    have "parseExpr U n (charClassMatcher chr) p =
        Ret (VString (encodeRune (if cc_ignoreCase chr then uToLower U RuneError else RuneError)), True) (read p)"
      using Suc Suc.prems(1) e by (cases "cc_ignoreCase chr") (simp_all add: parseCharClassMatcher_def loopy_def)
    then show ?thesis using Suc.IH [of "read p"] Suc.prems(1) e by simp
  qed simp
qed simp

text \<open>
  C10. An inverted character class matches at the end of the input, where it consumes nothing, so
  a repetition of one never returns once it gets there: the engine runs out of every amount of
  fuel. A class like this is one that does not itself contain the replacement character.
\<close>

theorem inverted_class_repetition_diverges:
  assumes "wf_parser p" "off p = length (data p)" "inverted chr"
    and "matchClass chr (if cc_ignoreCase chr then uToLower U RuneError else RuneError) = Miss"
  shows "parseExpr U n (zeroOrMoreExpr ps (charClassMatcher chr)) p = OutOfFuel \<and>
    parseExpr U n (oneOrMoreExpr ps (charClassMatcher chr)) p = OutOfFuel"
  using assms loopy_many [of U chr p]
  by (cases n) (simp_all add: loopy_def parseZeroOrMoreExpr_def parseOneOrMoreExpr_def)

definition not_a :: charClass where
  "not_a = \<lparr>cc_pos = \<lparr>line = 1, col = 1, offset = 0\<rparr>, cc_val = ''[^a]'', chars = [97], ranges = [],
     classes = [], cc_ignoreCase = False, inverted = True\<rparr>"

theorem inverted_class_repetition_diverges_witness:
  "\<forall>n. parseExpr ascii_env n (zeroOrMoreExpr (cc_pos not_a) (charClassMatcher not_a)) (start_ab '''') = OutOfFuel"
proof
  fix n
  have "matchClass not_a 65533 = Miss" by code_simp
  moreover have "off (start_ab '''') = length (data (start_ab ''''))" by (simp add: start_ab_def)
  ultimately show "parseExpr ascii_env n (zeroOrMoreExpr (cc_pos not_a) (charClassMatcher not_a)) (start_ab '''') = OutOfFuel"
    using inverted_class_repetition_diverges [OF start_ab_wf(1), of "''''" not_a ascii_env n]
    by (simp add: not_a_def)
qed

text \<open>
  The value of the any matcher is not the rune it consumed but the one that follows it (the
  replacement character at the end of the input).
\<close>

lemma any_matcher_value_is_next_rune:
  assumes "wf_parser p" "sp_rn (pt p) \<noteq> RuneError"
  shows "parseAnyMatcher p = Ret (VString (encodeRune (peek (tl (rest p)))), True) (read p)"
proof -
  have "wf_parser (read p)" using kept_read [OF assms(1), of 0] by blast
  from rest_peek [OF this] have "sp_rn (pt (read p)) = peek (tl (rest p))" by (simp add: rest_read [OF assms(1)])
  then show ?thesis using assms(2) by (simp add: parseAnyMatcher_def Let_def)
qed

text \<open>
  A correctly encoded replacement character in the input is reported as an encoding error, like
  a malformed byte: reading the first rune of any input that starts with its three-byte encoding
  records \<open>ErrInvalidEncoding\<close>.
\<close>

lemma valid_replacement_char_reported:
  "map Inner (errs (started g f (encodeRune RuneError @ b))) = [ErrInvalidEncoding] \<and>
   validRune RuneError \<and> runes_of (encodeRune RuneError @ b) = RuneError # runes_of b"
proof -
  have v: "validRune RuneError" by (simp add: validRune_def)
  have d: "decodeRune (encodeRune RuneError @ b) = (RuneError, length (encodeRune RuneError))"
    using decodeRune_encodeRune v by simp
  let ?p = "(buildRulesTable g (newParser f (encodeRune RuneError @ b)))\<lparr>pt := sp_nth (encodeRune RuneError @ b) 0\<rparr>"
  have l: "0 < length (encodeRune RuneError)" by (simp add: encodeRune_def encodeValid_def)
  have "sp_rn (sp_nth (encodeRune RuneError @ b) 0) = RuneError" "0 < sp_w (sp_nth (encodeRune RuneError @ b) 0)"
    using d l by (simp_all add: sp_nth_0 sp_start_def advance_def Let_def)
  then have "started g f (encodeRune RuneError @ b) = addErr ErrInvalidEncoding ?p"
    by (simp add: started_def read_def Let_def buildRulesTable_def newParser_def sp_nth_0 sp_start_def)
  moreover have "errs ?p = []" by (simp add: buildRulesTable_def newParser_def)
  ultimately have "map Inner (errs (started g f (encodeRune RuneError @ b))) = [ErrInvalidEncoding]"
    using addErrAt_errs [of ErrInvalidEncoding "sp_position (pt ?p)" ?p] by (auto simp: addErr_def)
  with v runes_of_encode show ?thesis by simp
qed

end
