(* ===== verification/Strconv.thy ===== *)
theory Strconv
  imports Utf8
begin

text \<open>
  The two functions of Go's package \<^verbatim>\<open>strconv\<close> that the grammar parser calls, \<^verbatim>\<open>UnquoteChar\<close> and
  \<^verbatim>\<open>Unquote\<close>, on text that is valid UTF-8 (as the scanner's literals are). None is \<^verbatim>\<open>ErrSyntax\<close>.
\<close>

definition byte :: "char \<Rightarrow> int" where
  "byte c = of_char c"

definition unhex :: "char \<Rightarrow> int option" where
  "unhex c =
     (let b = byte c
      in if 0x30 \<le> b \<and> b \<le> 0x39 then Some (b - 0x30)
         else if 0x61 \<le> b \<and> b \<le> 0x66 then Some (b - 0x61 + 10)
         else if 0x41 \<le> b \<and> b \<le> 0x46 then Some (b - 0x41 + 10)
         else None)"

fun hexDigits :: "nat \<Rightarrow> int \<Rightarrow> gobytes \<Rightarrow> (int \<times> gobytes) option" where
  "hexDigits 0 v s = Some (v, s)"
| "hexDigits (Suc n) v [] = None"
| "hexDigits (Suc n) v (c # s) =
     (case unhex c of None \<Rightarrow> None | Some x \<Rightarrow> hexDigits n (v * 16 + x) s)"

fun octDigits :: "nat \<Rightarrow> int \<Rightarrow> gobytes \<Rightarrow> (int \<times> gobytes) option" where
  "octDigits 0 v s = Some (v, s)"
| "octDigits (Suc n) v [] = None"
| "octDigits (Suc n) v (c # s) =
     (let x = byte c - 0x30 in if x < 0 \<or> x > 7 then None else octDigits n (v * 8 + x) s)"

definition simpleEscapes :: "(int \<times> rune) list" where
  "simpleEscapes = [(0x61, 7), (0x62, 8), (0x66, 12), (0x6E, 10), (0x72, 13), (0x74, 9), (0x76, 11), (0x5C, 0x5C)]"

definition unicodeEscape :: "nat \<Rightarrow> gobytes \<Rightarrow> (rune \<times> bool \<times> gobytes) option" where
  "unicodeEscape n s =
     (case hexDigits n 0 s of
        None \<Rightarrow> None
      | Some (v, t) \<Rightarrow> if validRune v then Some (v, True, t) else None)"

definition UnquoteEscape :: "int \<Rightarrow> gobytes \<Rightarrow> int \<Rightarrow> (rune \<times> bool \<times> gobytes) option" where
  "UnquoteEscape c s quote =
     (case map_of simpleEscapes c of
        Some v \<Rightarrow> Some (v, False, s)
      | None \<Rightarrow>
          if c = 0x78 then map_option (\<lambda>(v, t). (v, False, t)) (hexDigits 2 0 s)
          else if c = 0x75 then unicodeEscape 4 s
          else if c = 0x55 then unicodeEscape 8 s
          else if 0x30 \<le> c \<and> c \<le> 0x37 then
            (case octDigits 2 (c - 0x30) s of
               None \<Rightarrow> None
             | Some (v, t) \<Rightarrow> if v > 255 then None else Some (v, False, t))
          else if c = 0x27 \<or> c = 0x22 then (if c \<noteq> quote then None else Some (c, False, s))
          else None)"

fun UnquoteChar :: "gobytes \<Rightarrow> int \<Rightarrow> (rune \<times> bool \<times> gobytes) option" where
  "UnquoteChar [] quote = None"
| "UnquoteChar (c # s) quote =
     (if byte c = quote \<and> (quote = 0x27 \<or> quote = 0x22) then None
      else if byte c \<ge> 0x80 then
        (let (r, size) = decodeRune (c # s) in Some (r, True, drop size (c # s)))
      else if byte c \<noteq> 0x5C then Some (byte c, False, s)
      else case s of
        [] \<Rightarrow> None
      | e # t \<Rightarrow> UnquoteEscape (byte e) t quote)"

lemma hexDigits_shorter: "hexDigits n v s = Some (w, t) \<Longrightarrow> length t \<le> length s"
  by (induction n v s rule: hexDigits.induct) (auto split: option.splits)

lemma octDigits_shorter: "octDigits n v s = Some (w, t) \<Longrightarrow> length t \<le> length s"
  by (induction n v s rule: octDigits.induct) (auto simp: Let_def split: if_splits)

lemma UnquoteEscape_shorter: "UnquoteEscape c s q = Some (v, m, t) \<Longrightarrow> length t \<le> length s"
  by (auto simp: UnquoteEscape_def unicodeEscape_def dest!: hexDigits_shorter octDigits_shorter
      split: option.splits if_splits)

lemma UnquoteChar_shorter: "UnquoteChar s q = Some (v, m, t) \<Longrightarrow> length t < length s"
proof (cases s)
  case (Cons c s')
  assume "UnquoteChar s q = Some (v, m, t)"
  with Cons show ?thesis
    using decodeRune_width [of "c # s'"] UnquoteEscape_shorter
    by (fastforce simp: Let_def split: if_splits list.splits prod.splits)
qed simp

function unquoteLoop :: "int \<Rightarrow> gobytes \<Rightarrow> gobytes \<Rightarrow> gobytes option" where
  "unquoteLoop quote buf s =
     (if s = [] then Some buf
      else case UnquoteChar s quote of
        None \<Rightarrow> None
      | Some (c, multibyte, ss) \<Rightarrow>
          let buf1 = (if c < 0x80 \<or> \<not> multibyte then buf @ [char_of c] else buf @ encodeRune c)
          in if quote = 0x27 \<and> ss \<noteq> [] then None else unquoteLoop quote buf1 ss)"
  by pat_completeness auto
termination by (relation "measure (\<lambda>(q, b, s). length s)") (auto dest: UnquoteChar_shorter)

declare unquoteLoop.simps [simp del]

definition Unquote :: "gobytes \<Rightarrow> gobytes option" where
  "Unquote s =
     (if length s < 2 then None
      else let quote = byte (hd s); t = butlast (tl s)
      in if quote \<noteq> byte (last s) then None
         else if quote = 0x60 then
           (if CHR 0x60 \<in> set t then None else Some (filter (\<lambda>c. c \<noteq> CHR 0x0D) t))
         else if quote \<noteq> 0x22 \<and> quote \<noteq> 0x27 then None
         else if CHR 0x0A \<in> set t then None
         else unquoteLoop quote [] t)"

end
