(* ===== verification/Fmt.thy ===== *)
theory Fmt
  imports Strconv
begin

text \<open>
  What the generators use of Go's packages \<^verbatim>\<open>fmt\<close> and \<^verbatim>\<open>strconv\<close>: formatting with the verbs for
  strings, integers, booleans and quoted strings and runes, with explicit argument indexes.
  Which runes are printable (\<^verbatim>\<open>strconv.IsPrint\<close>) is a table of the Go release, an argument here.
  None stands for the error texts \<^verbatim>\<open>fmt\<close> puts in its output when format and arguments do not fit.
\<close>

section \<open>Quoting\<close>

definition hexDigit :: "int \<Rightarrow> char" where
  "hexDigit d = char_of (if d < 10 then 48 + d else 87 + d)"

fun hexN :: "nat \<Rightarrow> int \<Rightarrow> string" where
  "hexN 0 v = []"
| "hexN (Suc n) v = hexN n (v div 16) @ [hexDigit (v mod 16)]"

definition escapeLetters :: "(rune \<times> char) list" where
  "escapeLetters = [(7, CHR ''a''), (8, CHR ''b''), (12, CHR ''f''), (10, CHR ''n''), (13, CHR ''r''), (9, CHR ''t''), (11, CHR ''v'')]"

definition appendEscapedRune :: "(rune \<Rightarrow> bool) \<Rightarrow> rune \<Rightarrow> rune \<Rightarrow> string" where
  "appendEscapedRune isPrint quote r =
     (if r = quote \<or> r = 0x5C then CHR 0x5C # encodeRune r
      else if isPrint r then encodeRune r
      else case map_of escapeLetters r of
        Some c \<Rightarrow> [CHR 0x5C, c]
      | None \<Rightarrow>
          if r < 0x20 \<or> r = 0x7F then [CHR 0x5C, CHR ''x''] @ hexN 2 r
          else if \<not> validRune r then [CHR 0x5C, CHR ''u''] @ hexN 4 RuneError
          else if r < 0x10000 then [CHR 0x5C, CHR ''u''] @ hexN 4 r
          else [CHR 0x5C, CHR ''U''] @ hexN 8 r)"

function quoteLoop :: "(rune \<Rightarrow> bool) \<Rightarrow> gobytes \<Rightarrow> string" where
  "quoteLoop isPrint s =
     (if s = [] then []
      else let (r, width) = decodeRune s
        in (if width = 1 \<and> r = RuneError then [CHR 0x5C, CHR ''x''] @ hexN 2 (byte (hd s))
            else appendEscapedRune isPrint 0x22 r) @ quoteLoop isPrint (drop (snd (decodeRune s)) s))"
  by pat_completeness auto
termination
proof (relation "measure (\<lambda>(P, s). length s)", goal_cases)
  case (2 isPrint s x xa y)
  then show ?case using decodeRune_width [of s] by (cases "decodeRune s") fastforce
qed simp

declare quoteLoop.simps [simp del]

definition Quote :: "(rune \<Rightarrow> bool) \<Rightarrow> gobytes \<Rightarrow> string" where
  "Quote isPrint s = [CHR 0x22] @ quoteLoop isPrint s @ [CHR 0x22]"

definition QuoteRune :: "(rune \<Rightarrow> bool) \<Rightarrow> rune \<Rightarrow> string" where
  "QuoteRune isPrint r =
     [CHR 0x27] @ appendEscapedRune isPrint 0x27 (if validRune r then r else RuneError) @ [CHR 0x27]"

section \<open>Formatting\<close>

datatype farg = AStr gobytes | AInt int | ABool bool | ARune rune

type_synonym fcall = "string \<times> farg list"

definition fmtVerb :: "(rune \<Rightarrow> bool) \<Rightarrow> char \<Rightarrow> farg \<Rightarrow> string option" where
  "fmtVerb isPrint v arg =
     (case arg of
        AStr s \<Rightarrow> if v = CHR ''s'' then Some s else if v = CHR ''q'' then Some (Quote isPrint s) else None
      | AInt i \<Rightarrow> if v = CHR ''d'' then Some (itoa i) else None
      | ABool b \<Rightarrow> if v = CHR ''t'' then Some (if b then ''true'' else ''false'') else None
      | ARune r \<Rightarrow> if v = CHR ''q'' then Some (QuoteRune isPrint r) else None)"

definition argOf :: "(rune \<Rightarrow> bool) \<Rightarrow> farg list \<Rightarrow> nat \<Rightarrow> char \<Rightarrow> string option" where
  "argOf isPrint args i v = (if i < length args then fmtVerb isPrint v (args ! i) else None)"

definition catOpt :: "string option \<Rightarrow> string option \<Rightarrow> string option" where
  "catOpt x y = (case x of None \<Rightarrow> None | Some a \<Rightarrow> map_option (\<lambda>b. a @ b) y)"

text \<open>An explicit index is a single digit; the argument after it is the next one.\<close>

fun doPrintf :: "(rune \<Rightarrow> bool) \<Rightarrow> farg list \<Rightarrow> nat \<Rightarrow> bool \<Rightarrow> string \<Rightarrow> string option" where
  "doPrintf isPrint args i reordered f =
     (case f of
        [] \<Rightarrow> if \<not> reordered \<and> i < length args then None else Some []
      | c # f1 \<Rightarrow>
          if c \<noteq> CHR ''%'' then map_option ((#) c) (doPrintf isPrint args i reordered f1)
          else (case f1 of
            [] \<Rightarrow> None
          | d # f2 \<Rightarrow>
              if d = CHR ''%'' then map_option ((#) d) (doPrintf isPrint args i reordered f2)
              else if d = CHR ''['' then
                (case f2 of
                   n # e # v # f3 \<Rightarrow>
                     (let k = nat (byte n - 48) in
                      if e = CHR '']'' \<and> 1 \<le> k \<and> k \<le> 9
                      then catOpt (argOf isPrint args (k - 1) v) (doPrintf isPrint args k True f3)
                      else None)
                 | _ \<Rightarrow> None)
              else catOpt (argOf isPrint args i d) (doPrintf isPrint args (Suc i) reordered f2)))"

declare doPrintf.simps [simp del]

definition Sprintf :: "(rune \<Rightarrow> bool) \<Rightarrow> fcall \<Rightarrow> string option" where
  "Sprintf isPrint c = doPrintf isPrint (snd c) 0 False (fst c)"

definition ascii_print :: "rune \<Rightarrow> bool" where
  "ascii_print r \<longleftrightarrow> 0x20 \<le> r \<and> r < 0x7F"

end
