(* ===== verification/Peg_Token.thy ===== *)
theory Peg_Token
  imports Prelude
begin

text \<open>
  Tokens of the grammar language and source positions, \<^verbatim>\<open>peg/bootstrap/token.go\<close> and the type
  \<^verbatim>\<open>Pos\<close> of \<^verbatim>\<open>peg/ast/ast.go\<close>.
\<close>

record Pos =
  Filename :: string
  Line :: int
  Col :: int
  Off :: nat

definition Pos_String :: "Pos \<Rightarrow> string" where
  "Pos_String p =
     (if Filename p \<noteq> '''' then Filename p @ '':'' @ itoa (Line p) @ '':'' @ itoa (Col p) @ '' ('' @ itoa (int (Off p)) @ '')''
      else itoa (Line p) @ '':'' @ itoa (Col p) @ '' ('' @ itoa (int (Off p)) @ '')'')"

datatype tid = invalid | eof | ident | ruledef | char_tok | str | rstr | cls | lcomment | mlcomment | code
  | eol | colon | semicolon | lparen | rparen | dot | ampersand | exclamation | question | plus_tok | star | slash

text \<open>The numbers of the constants: \<^verbatim>\<open>iota - 1\<close> from the first, \<^verbatim>\<open>iota + 127\<close> from the third, and
  the rune for operators.\<close>

fun tid_val :: "tid \<Rightarrow> int" where
  "tid_val invalid = -1" | "tid_val eof = 0"
| "tid_val ident = 129" | "tid_val ruledef = 130" | "tid_val char_tok = 131" | "tid_val str = 132"
| "tid_val rstr = 133" | "tid_val cls = 134" | "tid_val lcomment = 135" | "tid_val mlcomment = 136"
| "tid_val code = 137"
| "tid_val eol = 10" | "tid_val colon = 58" | "tid_val semicolon = 59" | "tid_val lparen = 40"
| "tid_val rparen = 41" | "tid_val dot = 46" | "tid_val ampersand = 38" | "tid_val exclamation = 33"
| "tid_val question = 63" | "tid_val plus_tok = 43" | "tid_val star = 42" | "tid_val slash = 47"

fun tid_String :: "tid \<Rightarrow> string" where
  "tid_String invalid = ''invalid''" | "tid_String eof = ''eof''" | "tid_String ident = ''ident''"
| "tid_String ruledef = ''ruledef''" | "tid_String char_tok = ''char''" | "tid_String str = ''str''"
| "tid_String rstr = ''rstr''" | "tid_String cls = ''class''" | "tid_String lcomment = ''lcomment''"
| "tid_String mlcomment = ''mlcomment''" | "tid_String code = ''code''" | "tid_String eol = ''eol''"
| "tid_String colon = ''colon''" | "tid_String semicolon = ''semicolon''" | "tid_String lparen = ''lparen''"
| "tid_String rparen = ''rparen''" | "tid_String dot = ''dot''" | "tid_String ampersand = ''ampersand''"
| "tid_String exclamation = ''exclamation''" | "tid_String question = ''question''" | "tid_String plus_tok = ''plus''"
| "tid_String star = ''star''" | "tid_String slash = ''slash''"

definition operators :: "(rune \<times> tid) list" where
  "operators = [(58, colon), (59, semicolon), (40, lparen), (41, rparen), (46, dot), (38, ampersand),
     (33, exclamation), (63, question), (43, plus_tok), (42, star), (10, eol), (47, slash)]"

definition blacklistedIdents :: "string list" where
  "blacklistedIdents =
     [''break'', ''case'', ''chan'', ''const'', ''continue'', ''default'', ''defer'', ''else'', ''fallthrough'',
      ''for'', ''func'', ''go'', ''goto'', ''if'', ''import'', ''interface'', ''map'', ''package'', ''range'',
      ''return'', ''select'', ''struct'', ''switch'', ''type'', ''var'',
      ''bool'', ''byte'', ''complex64'', ''complex128'', ''error'', ''float32'', ''float64'', ''int'', ''int8'',
      ''int16'', ''int32'', ''int64'', ''rune'', ''string'', ''uint'', ''uint8'', ''uint16'', ''uint32'',
      ''uint64'', ''uintptr'', ''true'', ''false'', ''iota'', ''nil'', ''append'', ''cap'', ''close'',
      ''complex'', ''copy'', ''delete'', ''imag'', ''len'', ''make'', ''new'', ''panic'', ''print'', ''println'',
      ''real'', ''recover'']"

record token =
  id_of :: tid
  lit :: gobytes
  tok_pos :: Pos

text \<open>The operators have the value of their character, and no two kinds of token share a value or a name.\<close>

lemma operators_val: "(r, t) \<in> set operators \<Longrightarrow> tid_val t = r"
  by (auto simp: operators_def)

lemma tid_val_inj: "tid_val a = tid_val b \<Longrightarrow> a = b"
  by (cases a; cases b; simp)

lemma tid_String_inj: "tid_String a = tid_String b \<Longrightarrow> a = b"
  by (cases a; cases b; simp)

end
