(* ===== verification/Peg_Ast.thy ===== *)
theory Peg_Ast
  imports Strconv Peg_Token Loops
begin

text \<open>
  The syntax tree of a grammar, \<^verbatim>\<open>peg/ast/ast.go\<close>: the node types, their constructors, and the parser
  of character classes. The nil value of the interface \<^verbatim>\<open>Expression\<close> is the constructor \<open>NilExpr\<close>;
  a nil pointer to an identifier, a literal or a code block is None.
\<close>

section \<open>Nodes\<close>

record posValue =
  pv_p :: Pos
  Val :: gobytes

type_synonym Identifier = posValue
type_synonym StringLit = posValue
type_synonym CodeBlock = posValue

record CharClassMatcher =
  cm_p :: Pos
  cm_Val :: gobytes
  IgnoreCase :: bool
  Inverted :: bool
  Chars :: "rune list"
  Ranges :: "rune list"
  UnicodeClasses :: "gobytes list"

datatype Expression =
    ChoiceExpr Pos "Expression list"
  | ActionExpr Pos Expression "CodeBlock option" int
  | SeqExpr Pos "Expression list"
  | LabeledExpr Pos "Identifier option" Expression
  | AndExpr Pos Expression
  | NotExpr Pos Expression
  | ZeroOrOneExpr Pos Expression
  | ZeroOrMoreExpr Pos Expression
  | OneOrMoreExpr Pos Expression
  | RuleRefExpr Pos "Identifier option"
  | AndCodeExpr Pos "CodeBlock option" int
  | NotCodeExpr Pos "CodeBlock option" int
  | LitMatcher Pos gobytes bool
  | ClassMatcher CharClassMatcher
  | AnyMatcher Pos gobytes
  | NilExpr

record Rule =
  r_p :: Pos
  r_Name :: "Identifier option"
  r_DisplayName :: "StringLit option"
  r_Expr :: Expression

record Grammar =
  g_p :: Pos
  g_Init :: "CodeBlock option"
  g_Rules :: "Rule list"

section \<open>Constructors\<close>

definition NewIdentifier :: "Pos \<Rightarrow> gobytes \<Rightarrow> Identifier" where "NewIdentifier p name = \<lparr>pv_p = p, Val = name\<rparr>"
definition NewStringLit :: "Pos \<Rightarrow> gobytes \<Rightarrow> StringLit" where "NewStringLit p v = \<lparr>pv_p = p, Val = v\<rparr>"
definition NewCodeBlock :: "Pos \<Rightarrow> gobytes \<Rightarrow> CodeBlock" where "NewCodeBlock p c = \<lparr>pv_p = p, Val = c\<rparr>"
definition NewGrammar :: "Pos \<Rightarrow> Grammar" where "NewGrammar p = \<lparr>g_p = p, g_Init = None, g_Rules = []\<rparr>"
definition NewRule :: "Pos \<Rightarrow> Identifier \<Rightarrow> Rule" where
  "NewRule p name = \<lparr>r_p = p, r_Name = Some name, r_DisplayName = None, r_Expr = NilExpr\<rparr>"
definition NewLitMatcher :: "Pos \<Rightarrow> gobytes \<Rightarrow> Expression" where "NewLitMatcher p v = LitMatcher p v False"
definition NewAnyMatcher :: "Pos \<Rightarrow> gobytes \<Rightarrow> Expression" where "NewAnyMatcher p v = AnyMatcher p v"

fun Expression_Pos :: "Expression \<Rightarrow> Pos option" where
  "Expression_Pos (ChoiceExpr p _) = Some p"
| "Expression_Pos (ActionExpr p _ _ _) = Some p"
| "Expression_Pos (SeqExpr p _) = Some p"
| "Expression_Pos (LabeledExpr p _ _) = Some p"
| "Expression_Pos (AndExpr p _) = Some p"
| "Expression_Pos (NotExpr p _) = Some p"
| "Expression_Pos (ZeroOrOneExpr p _) = Some p"
| "Expression_Pos (ZeroOrMoreExpr p _) = Some p"
| "Expression_Pos (OneOrMoreExpr p _) = Some p"
| "Expression_Pos (RuleRefExpr p _) = Some p"
| "Expression_Pos (AndCodeExpr p _ _) = Some p"
| "Expression_Pos (NotCodeExpr p _ _) = Some p"
| "Expression_Pos (LitMatcher p _ _) = Some p"
| "Expression_Pos (ClassMatcher c) = Some (cm_p c)"
| "Expression_Pos (AnyMatcher p _) = Some p"
| "Expression_Pos NilExpr = None"

section \<open>Parsing a character class\<close>

text \<open>A \<^verbatim>\<open>strings.Reader\<close> is the list of runes left; at the end \<^verbatim>\<open>ReadRune\<close> returns the rune 0.\<close>

fun readRune :: "rune list \<Rightarrow> rune \<times> rune list" where
  "readRune [] = (0, [])"
| "readRune (x # xs) = (x, xs)"

fun readRunes :: "nat \<Rightarrow> rune list \<Rightarrow> rune list \<times> rune list" where
  "readRunes 0 xs = ([], xs)"
| "readRunes (Suc n) xs = (let (r, ys) = readRune xs; (rs, zs) = readRunes n ys in (r # rs, zs))"

text \<open>
  The loop that reads the name of a Unicode class up to the closing brace. It does not look at the
  error of \<^verbatim>\<open>ReadRune\<close>: at the end of the reader it goes on with the rune 0 forever, which is None.
\<close>

fun className :: "gobytes \<Rightarrow> rune list \<Rightarrow> (gobytes \<times> rune list) option" where
  "className buf [] = None"
| "className buf (rn # r) = (if rn = 0x7D then Some (buf, r) else className (buf @ encodeRune rn) r)"

definition consumeN :: "rune \<Rightarrow> nat" where
  "consumeN rn =
     (if rn = 0x78 then 2 else if rn = 0x75 then 4 else if rn = 0x55 then 8
      else if 0x30 \<le> rn \<and> rn \<le> 0x37 then 2 else 0)"

definition unescape :: "rune \<Rightarrow> rune list \<Rightarrow> rune" where
  "unescape rn extra =
     (case UnquoteChar (CHR 0x5C # encodeRune rn @ string_of_runes extra) 0 of
        Some (v, _, _) \<Rightarrow> v
      | None \<Rightarrow> 0)"

lemma readRune_shorter: "readRune xs = (r, ys) \<Longrightarrow> length ys \<le> length xs"
  by (cases xs) auto

lemma readRunes_shorter: "readRunes n xs = (rs, ys) \<Longrightarrow> length ys \<le> length xs"
proof (induction n arbitrary: xs rs ys)
  case (Suc n)
  then show ?case by (force split: prod.splits dest: readRune_shorter)
qed simp

lemma className_shorter: "className buf xs = Some (nm, ys) \<Longrightarrow> length ys < length xs"
  by (induction buf xs rule: className.induct) (auto split: if_splits)

function classItems :: "rune list \<Rightarrow> gobytes list \<Rightarrow> rune list \<Rightarrow> (rune list \<times> gobytes list) option" where
  "classItems chars ucs [] = Some (chars, ucs)"
| "classItems chars ucs (rn # r) =
     (if rn = 0x5C then
        (case readRune r of (e, r1) \<Rightarrow>
           if e = 0x5D then classItems (chars @ [e]) ucs r1
           else if e = 0x70 then
             (case readRune r1 of (b, r2) \<Rightarrow>
                if b = 0x7B then
                  (case className [] r2 of
                     None \<Rightarrow> None
                   | Some (nm, r3) \<Rightarrow> classItems chars (ucs @ [nm]) r3)
                else classItems chars (ucs @ [encodeRune b]) r2)
           else
             (case readRunes (consumeN e) r1 of (extra, r2) \<Rightarrow>
                classItems (chars @ [unescape e extra]) ucs r2))
      else classItems (chars @ [rn]) ucs r)"
  by pat_completeness auto
termination
  by (relation "measure (\<lambda>(c, u, r). length r)")
    (auto dest!: readRune_shorter readRunes_shorter className_shorter sym [of _ "readRune _"] sym [of _ "readRunes _ _"])

fun classRanges :: "bool \<Rightarrow> bool \<Rightarrow> rune list \<Rightarrow> rune list \<Rightarrow> rune list \<Rightarrow> rune list \<times> rune list" where
  "classRanges inRange wasRange cs rs [] = (cs, rs)"
| "classRanges inRange wasRange cs rs (r # rest) =
     (if inRange then classRanges False True cs (rs @ [r]) rest
      else if r = 0x2D \<and> \<not> wasRange \<and> length cs > 0 \<and> rest \<noteq> []
        then classRanges True False (butlast cs) (rs @ [last cs]) rest
      else classRanges False False (cs @ [r]) rs rest)"

definition slicePanic :: panicval where
  "slicePanic = PanicError ''runtime error: slice bounds out of range''"

definition CharClassMatcher_parse :: "CharClassMatcher \<Rightarrow> (CharClassMatcher, unit) result" where
  "CharClassMatcher_parse c =
     (let ic = (cm_Val c \<noteq> [] \<and> last (cm_Val c) = CHR ''i'');
          c1 = c\<lparr>IgnoreCase := ic\<rparr>;
          raw = (if ic then butlast (cm_Val c) else cm_Val c)
      in if length raw < 2 then Panic slicePanic c1
         else let raw1 = butlast (tl raw)
         in if raw1 = [] then Ret () c1
            else let inv = (hd raw1 = CHR ''^''); c2 = c1\<lparr>Inverted := inv\<rparr>; raw2 = (if inv then tl raw1 else raw1)
            in if raw2 = [] then Ret () c2
               else case classItems [] [] (runes_of raw2) of
                 None \<Rightarrow> OutOfFuel
               | Some (chs, ucs) \<Rightarrow>
                   (case classRanges False False (Chars c2) (Ranges c2) chs of (cs, rs) \<Rightarrow>
                      Ret () (c2\<lparr>Chars := cs, Ranges := rs, UnicodeClasses := UnicodeClasses c2 @ ucs\<rparr>)))"

definition NewCharClassMatcher :: "Pos \<Rightarrow> gobytes \<Rightarrow> (CharClassMatcher, unit) result" where
  "NewCharClassMatcher p raw =
     CharClassMatcher_parse
       \<lparr>cm_p = p, cm_Val = raw, IgnoreCase = False, Inverted = False, Chars = [], Ranges = [], UnicodeClasses = []\<rparr>"

end
