(* ===== verification/Peg_Builder.thy ===== *)
theory Peg_Builder
  imports Fmt Peg_Ast Peg_Scanner
begin

text \<open>
  The generator of parsers, \<^verbatim>\<open>peg/builder/builder.go\<close>. The output is kept as the sequence of the
  calls of \<^verbatim>\<open>fmt.Fprintf\<close>, format and arguments, that the writer accepted; the writer is a function
  that gives the error of its k-th call, if any. A node of the tree is never a nil pointer inside
  the interface: a missing expression is \<open>NilExpr\<close>. The text of \<^verbatim>\<open>static_code.go\<close> is an argument.
\<close>

section \<open>Templates\<close>

definition nl :: "string \<Rightarrow> string" where "nl s = s @ [CHR 0x0A]"
definition tab :: "string \<Rightarrow> string" where "tab s = CHR 0x09 # s"

definition onFuncTemplate :: string where
  "onFuncTemplate = nl ''func (%s *current) %s(%s) (interface{}, error) {'' @ nl ''%s'' @ nl ''}''"

definition onPredFuncTemplate :: string where
  "onPredFuncTemplate = nl ''func (%s *current) %s(%s) (bool, error) {'' @ nl ''%s'' @ nl ''}''"

definition callFuncTemplate :: string where
  "callFuncTemplate = nl ''func (p *parser) call%s() (interface{}, error) {'' @
     nl (tab ''stack := p.vstack[len(p.vstack)-1]'') @ nl (tab ''_ = stack'') @
     nl (tab ''return p.cur.%[1]s(%s)'') @ nl ''}''"

definition callPredFuncTemplate :: string where
  "callPredFuncTemplate = nl ''func (p *parser) call%s() (bool, error) {'' @
     nl (tab ''stack := p.vstack[len(p.vstack)-1]'') @ nl (tab ''_ = stack'') @
     nl (tab ''return p.cur.%[1]s(%s)'') @ nl ''}''"

section \<open>State and writing\<close>

record builder =
  wlog :: "fcall list"
  wfail :: "nat \<Rightarrow> string option"
  b_err :: "string option"
  curRecvName :: gobytes
  b_ruleName :: gobytes
  exprIndex :: int
  argsStack :: "gobytes list list"

definition writef :: "string \<Rightarrow> farg list \<Rightarrow> builder \<Rightarrow> builder" where
  "writef f args b =
     (if b_err b = None then
        (case wfail b (length (wlog b)) of
           None \<Rightarrow> b\<lparr>wlog := wlog b @ [(f, args)]\<rparr>
         | Some e \<Rightarrow> b\<lparr>b_err := Some e\<rparr>)
      else b)"

definition writelnf :: "string \<Rightarrow> farg list \<Rightarrow> builder \<Rightarrow> builder" where
  "writelnf f args b = writef (nl f) args b"

definition funcName :: "int \<Rightarrow> builder \<Rightarrow> gobytes" where
  "funcName ix b = ''on'' @ b_ruleName b @ itoa ix"

definition writePos :: "Pos \<Rightarrow> builder \<Rightarrow> builder" where
  "writePos pos b =
     writelnf (tab ''pos: position{line: %d, col: %d, offset: %d},'') [AInt (Line pos), AInt (Col pos), AInt (int (Off pos))] b"

section \<open>The grammar literal\<close>

type_synonym exprWriter = "Expression \<Rightarrow> builder \<Rightarrow> builder \<times> Expression"

definition writeActionExpr :: "exprWriter \<Rightarrow> Pos \<Rightarrow> Expression \<Rightarrow> CodeBlock option \<Rightarrow> builder \<Rightarrow> builder \<times> Expression" where
  "writeActionExpr rec p e c b =
     (let ix = exprIndex b;
          b1 = writePos p (writelnf ''&actionExpr{'' [] b);
          b2 = writelnf (tab ''run: (*parser).call%s,'') [AStr (funcName ix b1)] b1;
          (b3, e1) = rec e (writef (tab ''expr: '') [] b2)
      in (writelnf ''},'' [] b3, ActionExpr p e1 c ix))"

definition writeAndCodeExpr :: "Pos \<Rightarrow> CodeBlock option \<Rightarrow> builder \<Rightarrow> builder \<times> Expression" where
  "writeAndCodeExpr p c b =
     (let ix = exprIndex b;
          b1 = writePos p (writelnf ''&andCodeExpr{'' [] b);
          b2 = writelnf (tab ''run: (*parser).call%s,'') [AStr (funcName ix b1)] b1
      in (writelnf ''},'' [] b2, AndCodeExpr p c ix))"

definition writeAndExpr :: "exprWriter \<Rightarrow> Pos \<Rightarrow> Expression \<Rightarrow> builder \<Rightarrow> builder \<times> Expression" where
  "writeAndExpr rec p e b =
     (let b1 = writePos p (writelnf ''&andExpr{'' [] b);
          (b2, e1) = rec e (writef (tab ''expr: '') [] b1)
      in (writelnf ''},'' [] b2, AndExpr p e1))"

definition writeAnyMatcher :: "Pos \<Rightarrow> builder \<Rightarrow> builder" where
  "writeAnyMatcher p b =
     writelnf ''},'' [] (writelnf (tab ''line: %d, col: %d, offset: %d,'') [AInt (Line p), AInt (Col p), AInt (int (Off p))]
       (writelnf ''&anyMatcher{'' [] b))"

definition writeRunes :: "unicode_env \<Rightarrow> bool \<Rightarrow> string \<Rightarrow> rune list \<Rightarrow> builder \<Rightarrow> builder" where
  "writeRunes U ic hdr rs b =
     (if length rs > 0 then
        writelnf ''},'' [] (fold (\<lambda>rn. writef ''%q,'' [ARune (if ic then uToLower U rn else rn)]) rs (writef (tab hdr) [] b))
      else b)"

definition writeCharClassMatcher :: "unicode_env \<Rightarrow> CharClassMatcher \<Rightarrow> builder \<Rightarrow> builder" where
  "writeCharClassMatcher U ch b =
     (let b1 = writelnf (tab ''val: %q,'') [AStr (cm_Val ch)] (writePos (cm_p ch) (writelnf ''&charClassMatcher{'' [] b));
          b2 = writeRunes U (IgnoreCase ch) ''chars: []rune{'' (Chars ch) b1;
          b3 = writeRunes U (IgnoreCase ch) ''ranges: []rune{'' (Ranges ch) b2;
          b4 = (if length (UnicodeClasses ch) > 0 then
                  writelnf ''},'' [] (fold (\<lambda>cl. writef ''rangeTable(%q),'' [AStr cl]) (UnicodeClasses ch)
                    (writef (tab ''classes: []*unicode.RangeTable{'') [] b3))
                else b3);
          b5 = writelnf (tab ''ignoreCase: %t,'') [ABool (IgnoreCase ch)] b4;
          b6 = writelnf (tab ''inverted: %t,'') [ABool (Inverted ch)] b5
      in writelnf ''},'' [] b6)"

fun writeAll :: "exprWriter \<Rightarrow> Expression list \<Rightarrow> builder \<Rightarrow> builder \<times> Expression list" where
  "writeAll rec [] b = (b, [])"
| "writeAll rec (e # es) b =
     (let (b1, e1) = rec e b; (b2, es1) = writeAll rec es b1 in (b2, e1 # es1))"

definition writeChoiceExpr :: "exprWriter \<Rightarrow> Pos \<Rightarrow> Expression list \<Rightarrow> builder \<Rightarrow> builder \<times> Expression" where
  "writeChoiceExpr rec p alts b =
     (let b1 = writePos p (writelnf ''&choiceExpr{'' [] b);
          (b2, alts1) =
            (if length alts > 0 then
               (let (b3, as) = writeAll rec alts (writelnf (tab ''alternatives: []interface{}{'') [] b1)
                in (writelnf (tab ''},'') [] b3, as))
             else (b1, alts))
      in (writelnf ''},'' [] b2, ChoiceExpr p alts1))"

definition writeLabeledExpr :: "exprWriter \<Rightarrow> Pos \<Rightarrow> Identifier option \<Rightarrow> Expression \<Rightarrow> builder \<Rightarrow> builder \<times> Expression" where
  "writeLabeledExpr rec p l e b =
     (let b1 = writePos p (writelnf ''&labeledExpr{'' [] b);
          b2 = (case l of
                  Some i \<Rightarrow> if Val i \<noteq> [] then writelnf (tab ''label: %q,'') [AStr (Val i)] b1 else b1
                | None \<Rightarrow> b1);
          (b3, e1) = rec e (writef (tab ''expr: '') [] b2)
      in (writelnf ''},'' [] b3, LabeledExpr p l e1))"

definition toLowerString :: "unicode_env \<Rightarrow> gobytes \<Rightarrow> gobytes" where
  "toLowerString U s = string_of_runes (map (uToLower U) (runes_of s))"

definition writeLitMatcher :: "unicode_env \<Rightarrow> Pos \<Rightarrow> gobytes \<Rightarrow> bool \<Rightarrow> builder \<Rightarrow> builder" where
  "writeLitMatcher U p v ic b =
     (let b1 = writePos p (writelnf ''&litMatcher{'' [] b);
          b2 = writelnf (tab ''val: %q,'') [AStr (if ic then toLowerString U v else v)] b1;
          b3 = writelnf (tab ''ignoreCase: %t,'') [ABool ic] b2
      in writelnf ''},'' [] b3)"

definition writeNotCodeExpr :: "Pos \<Rightarrow> CodeBlock option \<Rightarrow> builder \<Rightarrow> builder \<times> Expression" where
  "writeNotCodeExpr p c b =
     (let ix = exprIndex b;
          b1 = writePos p (writelnf ''&notCodeExpr{'' [] b);
          b2 = writelnf (tab ''run: (*parser).call%s,'') [AStr (funcName ix b1)] b1
      in (writelnf ''},'' [] b2, NotCodeExpr p c ix))"

definition writeNotExpr :: "exprWriter \<Rightarrow> Pos \<Rightarrow> Expression \<Rightarrow> builder \<Rightarrow> builder \<times> Expression" where
  "writeNotExpr rec p e b =
     (let b1 = writePos p (writelnf ''&notExpr{'' [] b);
          (b2, e1) = rec e (writef (tab ''expr: '') [] b1)
      in (writelnf ''},'' [] b2, NotExpr p e1))"

definition writeOneOrMoreExpr :: "exprWriter \<Rightarrow> Pos \<Rightarrow> Expression \<Rightarrow> builder \<Rightarrow> builder \<times> Expression" where
  "writeOneOrMoreExpr rec p e b =
     (let b1 = writePos p (writelnf ''&oneOrMoreExpr{'' [] b);
          (b2, e1) = rec e (writef (tab ''expr: '') [] b1)
      in (writelnf ''},'' [] b2, OneOrMoreExpr p e1))"

definition writeRuleRefExpr :: "Pos \<Rightarrow> Identifier option \<Rightarrow> builder \<Rightarrow> builder" where
  "writeRuleRefExpr p n b =
     (let b1 = writePos p (writelnf ''&ruleRefExpr{'' [] b);
          b2 = (case n of
                  Some i \<Rightarrow> if Val i \<noteq> [] then writelnf (tab ''name: %q,'') [AStr (Val i)] b1 else b1
                | None \<Rightarrow> b1)
      in writelnf ''},'' [] b2)"

definition writeSeqExpr :: "exprWriter \<Rightarrow> Pos \<Rightarrow> Expression list \<Rightarrow> builder \<Rightarrow> builder \<times> Expression" where
  "writeSeqExpr rec p es b =
     (let b1 = writePos p (writelnf ''&seqExpr{'' [] b);
          (b2, es1) =
            (if length es > 0 then
               (let (b3, xs) = writeAll rec es (writelnf (tab ''exprs: []interface{}{'') [] b1)
                in (writelnf (tab ''},'') [] b3, xs))
             else (b1, es))
      in (writelnf ''},'' [] b2, SeqExpr p es1))"

definition writeZeroOrMoreExpr :: "exprWriter \<Rightarrow> Pos \<Rightarrow> Expression \<Rightarrow> builder \<Rightarrow> builder \<times> Expression" where
  "writeZeroOrMoreExpr rec p e b =
     (let b1 = writePos p (writelnf ''&zeroOrMoreExpr{'' [] b);
          (b2, e1) = rec e (writef (tab ''expr: '') [] b1)
      in (writelnf ''},'' [] b2, ZeroOrMoreExpr p e1))"

definition writeZeroOrOneExpr :: "exprWriter \<Rightarrow> Pos \<Rightarrow> Expression \<Rightarrow> builder \<Rightarrow> builder \<times> Expression" where
  "writeZeroOrOneExpr rec p e b =
     (let b1 = writePos p (writelnf ''&zeroOrOneExpr{'' [] b);
          (b2, e1) = rec e (writef (tab ''expr: '') [] b1)
      in (writelnf ''},'' [] b2, ZeroOrOneExpr p e1))"

lemma writeAll_cong [fundef_cong]:
  "es = es' \<Longrightarrow> b = b' \<Longrightarrow> (\<And>e c. e \<in> set es' \<Longrightarrow> rec e c = rec' e c) \<Longrightarrow> writeAll rec es b = writeAll rec' es' b'"
  by (induction es' arbitrary: b b' es) (auto simp: Let_def split: prod.split)

lemmas one_writers = writeActionExpr_def writeAndExpr_def writeLabeledExpr_def writeNotExpr_def
  writeOneOrMoreExpr_def writeZeroOrMoreExpr_def writeZeroOrOneExpr_def

lemma one_writer_congs [fundef_cong]:
  "e = e' \<Longrightarrow> (\<And>c. rec e' c = rec' e' c) \<Longrightarrow> writeActionExpr rec p e c b = writeActionExpr rec' p e' c b"
  "e = e' \<Longrightarrow> (\<And>c. rec e' c = rec' e' c) \<Longrightarrow> writeAndExpr rec p e b = writeAndExpr rec' p e' b"
  "e = e' \<Longrightarrow> (\<And>c. rec e' c = rec' e' c) \<Longrightarrow> writeLabeledExpr rec p l e b = writeLabeledExpr rec' p l e' b"
  "e = e' \<Longrightarrow> (\<And>c. rec e' c = rec' e' c) \<Longrightarrow> writeNotExpr rec p e b = writeNotExpr rec' p e' b"
  "e = e' \<Longrightarrow> (\<And>c. rec e' c = rec' e' c) \<Longrightarrow> writeOneOrMoreExpr rec p e b = writeOneOrMoreExpr rec' p e' b"
  "e = e' \<Longrightarrow> (\<And>c. rec e' c = rec' e' c) \<Longrightarrow> writeZeroOrMoreExpr rec p e b = writeZeroOrMoreExpr rec' p e' b"
  "e = e' \<Longrightarrow> (\<And>c. rec e' c = rec' e' c) \<Longrightarrow> writeZeroOrOneExpr rec p e b = writeZeroOrOneExpr rec' p e' b"
  by (simp_all add: one_writers)

lemma many_writer_congs [fundef_cong]:
  "es = es' \<Longrightarrow> (\<And>e c. e \<in> set es' \<Longrightarrow> rec e c = rec' e c) \<Longrightarrow> writeChoiceExpr rec p es b = writeChoiceExpr rec' p es' b"
  "es = es' \<Longrightarrow> (\<And>e c. e \<in> set es' \<Longrightarrow> rec e c = rec' e c) \<Longrightarrow> writeSeqExpr rec p es b = writeSeqExpr rec' p es' b"
  by (simp_all add: writeChoiceExpr_def writeSeqExpr_def Let_def cong: writeAll_cong)

definition nextIndex :: "builder \<Rightarrow> builder" where
  "nextIndex b = b\<lparr>exprIndex := exprIndex b + 1\<rparr>"

fun writeExpr :: "unicode_env \<Rightarrow> exprWriter" where
  "writeExpr U (ActionExpr p e c _) b = writeActionExpr (writeExpr U) p e c (nextIndex b)"
| "writeExpr U (AndCodeExpr p c _) b = writeAndCodeExpr p c (nextIndex b)"
| "writeExpr U (AndExpr p e) b = writeAndExpr (writeExpr U) p e (nextIndex b)"
| "writeExpr U (AnyMatcher p v) b = (writeAnyMatcher p (nextIndex b), AnyMatcher p v)"
| "writeExpr U (ClassMatcher c) b = (writeCharClassMatcher U c (nextIndex b), ClassMatcher c)"
| "writeExpr U (ChoiceExpr p alts) b = writeChoiceExpr (writeExpr U) p alts (nextIndex b)"
| "writeExpr U (LabeledExpr p l e) b = writeLabeledExpr (writeExpr U) p l e (nextIndex b)"
| "writeExpr U (LitMatcher p v ic) b = (writeLitMatcher U p v ic (nextIndex b), LitMatcher p v ic)"
| "writeExpr U (NotCodeExpr p c _) b = writeNotCodeExpr p c (nextIndex b)"
| "writeExpr U (NotExpr p e) b = writeNotExpr (writeExpr U) p e (nextIndex b)"
| "writeExpr U (OneOrMoreExpr p e) b = writeOneOrMoreExpr (writeExpr U) p e (nextIndex b)"
| "writeExpr U (RuleRefExpr p n) b = (writeRuleRefExpr p n (nextIndex b), RuleRefExpr p n)"
| "writeExpr U (SeqExpr p es) b = writeSeqExpr (writeExpr U) p es (nextIndex b)"
| "writeExpr U (ZeroOrMoreExpr p e) b = writeZeroOrMoreExpr (writeExpr U) p e (nextIndex b)"
| "writeExpr U (ZeroOrOneExpr p e) b = writeZeroOrOneExpr (writeExpr U) p e (nextIndex b)"
| "writeExpr U NilExpr b = ((nextIndex b)\<lparr>b_err := Some ''builder: unknown expression type <nil>''\<rparr>, NilExpr)"

definition writeRule :: "unicode_env \<Rightarrow> Rule \<Rightarrow> builder \<Rightarrow> builder \<times> Rule" where
  "writeRule U r b =
     (case r_Name r of
        None \<Rightarrow> (b, r)
      | Some name \<Rightarrow>
          let b1 = b\<lparr>exprIndex := 0, b_ruleName := Val name\<rparr>;
              b2 = writelnf (tab ''name: %q,'') [AStr (Val name)] (writelnf ''{'' [] b1);
              b3 = (case r_DisplayName r of
                      Some d \<Rightarrow> if Val d \<noteq> [] then writelnf (tab ''displayName: %q,'') [AStr (Val d)] b2 else b2
                    | None \<Rightarrow> b2);
              (b4, e) = writeExpr U (r_Expr r) (writef (tab ''expr: '') [] (writePos (r_p r) b3))
          in (writelnf ''},'' [] b4, r\<lparr>r_Expr := e\<rparr>))"

fun writeRules :: "unicode_env \<Rightarrow> Rule list \<Rightarrow> builder \<Rightarrow> builder \<times> Rule list" where
  "writeRules U [] b = (b, [])"
| "writeRules U (r # rs) b =
     (let (b1, r1) = writeRule U r b; (b2, rs1) = writeRules U rs b1 in (b2, r1 # rs1))"

definition writeGrammar :: "unicode_env \<Rightarrow> Grammar \<Rightarrow> builder \<Rightarrow> builder \<times> Grammar" where
  "writeGrammar U g b =
     (let b1 = writelnf (tab ''rules: []*rule{'') [] (writelnf ''var g = &grammar {'' [] b);
          (b2, rs) = writeRules U (g_Rules g) b1
      in (writelnf ''}'' [] (writelnf (tab ''},'') [] b2), g\<lparr>g_Rules := rs\<rparr>))"

section \<open>The code of the actions and predicates\<close>

type_synonym codeWriter = "builder \<Rightarrow> (builder, unit) result"

definition pushArgsSet :: "builder \<Rightarrow> builder" where
  "pushArgsSet b = b\<lparr>argsStack := argsStack b @ [[]]\<rparr>"

definition popArgsSet :: codeWriter where
  "popArgsSet b = (if argsStack b = [] then Panic slicePanic b else Ret () (b\<lparr>argsStack := butlast (argsStack b)\<rparr>))"

definition addArg :: "Identifier option \<Rightarrow> codeWriter" where
  "addArg arg b =
     (case arg of
        None \<Rightarrow> Ret () b
      | Some i \<Rightarrow>
          if argsStack b = [] then Panic (PanicError ''runtime error: index out of range'') b
          else Ret () (b\<lparr>argsStack := butlast (argsStack b) @ [last (argsStack b) @ [Val i]]\<rparr>))"

definition isSpace :: "unicode_env \<Rightarrow> rune \<Rightarrow> bool" where
  "isSpace U r =
     (if 0 \<le> r \<and> r \<le> 0xFF then r \<in> {9, 10, 11, 12, 13, 0x20, 0x85, 0xA0}
      else case map_of (uProperties U) ''White_Space'' of Some rt \<Rightarrow> unicodeIs rt r | None \<Rightarrow> False)"

definition trimLeft :: "unicode_env \<Rightarrow> gobytes \<Rightarrow> gobytes" where
  "trimLeft U s = drop (sum_list (map snd (takeWhile (\<lambda>(r, w). isSpace U r) (runeReader s)))) s"

definition trimRight :: "unicode_env \<Rightarrow> gobytes \<Rightarrow> gobytes" where
  "trimRight U s = take (sum_list (map snd (dropWhile (\<lambda>(r, w). isSpace U r) (rev (runeReader s))))) s"

definition TrimSpace :: "unicode_env \<Rightarrow> gobytes \<Rightarrow> gobytes" where
  "TrimSpace U s = trimRight U (trimLeft U s)"

text \<open>The body of a code block: the slice of the trimmed text is bounded by the length of the text before trimming.\<close>

definition funcBody :: "unicode_env \<Rightarrow> gobytes \<Rightarrow> gobytes option" where
  "funcBody U v =
     (let t = TrimSpace U v
      in if length v < 2 \<or> length t < length v - 1 then None
         else let val = take (length v - 2) (drop 1 t);
                  val1 = (if val \<noteq> [] \<and> hd val = CHR 0x0A then tl val else val)
              in Some (if val1 \<noteq> [] \<and> last val1 = CHR 0x0A then butlast val1 else val1))"

fun commaSep :: "string list \<Rightarrow> string" where
  "commaSep [] = []"
| "commaSep [x] = x"
| "commaSep (x # y # ys) = x @ '', '' @ commaSep (y # ys)"

definition stackRef :: "(rune \<Rightarrow> bool) \<Rightarrow> gobytes \<Rightarrow> string" where
  "stackRef isPrint arg = ''stack['' @ Quote isPrint arg @ '']''"

definition topArgs :: "builder \<Rightarrow> gobytes list" where
  "topArgs b = (if argsStack b = [] then [] else last (argsStack b))"

definition writeFunc :: "unicode_env \<Rightarrow> (rune \<Rightarrow> bool) \<Rightarrow> int \<Rightarrow> CodeBlock option \<Rightarrow> string \<Rightarrow> string \<Rightarrow> codeWriter" where
  "writeFunc U isPrint funcIx c callTpl funcTpl b =
     (case c of
        None \<Rightarrow> Ret () b
      | Some cb \<Rightarrow>
          (case funcBody U (Val cb) of
             None \<Rightarrow> Panic slicePanic b
           | Some val \<Rightarrow>
               let args = commaSep (topArgs b);
                   args1 = (if length args > 0 then args @ '' interface{}'' else args);
                   fnNm = funcName funcIx b;
                   b1 = writelnf funcTpl [AStr (curRecvName b), AStr fnNm, AStr args1, AStr val] b
               in Ret () (writelnf callTpl [AStr fnNm, AStr (commaSep (map (stackRef isPrint) (topArgs b)))] b1)))"

definition writeActionExprCode :: "unicode_env \<Rightarrow> (rune \<Rightarrow> bool) \<Rightarrow> int \<Rightarrow> CodeBlock option \<Rightarrow> codeWriter" where
  "writeActionExprCode U isPrint ix c = writeFunc U isPrint ix c callFuncTemplate onFuncTemplate"

definition writeAndCodeExprCode :: "unicode_env \<Rightarrow> (rune \<Rightarrow> bool) \<Rightarrow> int \<Rightarrow> CodeBlock option \<Rightarrow> codeWriter" where
  "writeAndCodeExprCode U isPrint ix c = writeFunc U isPrint ix c callPredFuncTemplate onPredFuncTemplate"

definition writeNotCodeExprCode :: "unicode_env \<Rightarrow> (rune \<Rightarrow> bool) \<Rightarrow> int \<Rightarrow> CodeBlock option \<Rightarrow> codeWriter" where
  "writeNotCodeExprCode U isPrint ix c = writeFunc U isPrint ix c callPredFuncTemplate onPredFuncTemplate"

definition scoped :: "codeWriter \<Rightarrow> codeWriter" where
  "scoped f b = bindR (f (pushArgsSet b)) (\<lambda>_ b1. popArgsSet b1)"

fun writeExprCode :: "unicode_env \<Rightarrow> (rune \<Rightarrow> bool) \<Rightarrow> Expression \<Rightarrow> codeWriter"
  and writeAlternatives :: "unicode_env \<Rightarrow> (rune \<Rightarrow> bool) \<Rightarrow> Expression list \<Rightarrow> codeWriter"
  and writeSubs :: "unicode_env \<Rightarrow> (rune \<Rightarrow> bool) \<Rightarrow> Expression list \<Rightarrow> codeWriter" where
  "writeExprCode U P (ActionExpr p e c ix) b = bindR (writeExprCode U P e b) (\<lambda>_ b1. writeActionExprCode U P ix c b1)"
| "writeExprCode U P (AndCodeExpr p c ix) b = writeAndCodeExprCode U P ix c b"
| "writeExprCode U P (LabeledExpr p l e) b = bindR (addArg l b) (\<lambda>_ b1. scoped (writeExprCode U P e) b1)"
| "writeExprCode U P (NotCodeExpr p c ix) b = writeNotCodeExprCode U P ix c b"
| "writeExprCode U P (AndExpr p e) b = writeExprCode U P e b"
| "writeExprCode U P (ChoiceExpr p alts) b = writeAlternatives U P alts b"
| "writeExprCode U P (NotExpr p e) b = writeExprCode U P e b"
| "writeExprCode U P (OneOrMoreExpr p e) b = writeExprCode U P e b"
| "writeExprCode U P (SeqExpr p es) b = writeSubs U P es b"
| "writeExprCode U P (ZeroOrMoreExpr p e) b = writeExprCode U P e b"
| "writeExprCode U P (ZeroOrOneExpr p e) b = writeExprCode U P e b"
| "writeExprCode U P e b = Ret () b"
| "writeAlternatives U P [] b = Ret () b"
| "writeAlternatives U P (alt # alts) b = bindR (scoped (writeExprCode U P alt) b) (\<lambda>_ b1. writeAlternatives U P alts b1)"
| "writeSubs U P [] b = Ret () b"
| "writeSubs U P (e # es) b = bindR (writeExprCode U P e b) (\<lambda>_ b1. writeSubs U P es b1)"

definition writeRuleCode :: "unicode_env \<Rightarrow> (rune \<Rightarrow> bool) \<Rightarrow> Rule \<Rightarrow> codeWriter" where
  "writeRuleCode U isPrint r b =
     (case r_Name r of
        None \<Rightarrow> Ret () b
      | Some name \<Rightarrow> scoped (writeExprCode U isPrint (r_Expr r)) (b\<lparr>b_ruleName := Val name\<rparr>))"

fun writeRulesCode :: "unicode_env \<Rightarrow> (rune \<Rightarrow> bool) \<Rightarrow> Rule list \<Rightarrow> codeWriter" where
  "writeRulesCode U isPrint [] b = Ret () b"
| "writeRulesCode U isPrint (r # rs) b = bindR (writeRuleCode U isPrint r b) (\<lambda>_ b1. writeRulesCode U isPrint rs b1)"

section \<open>The whole parser\<close>

definition writeInit :: "CodeBlock option \<Rightarrow> codeWriter" where
  "writeInit init b =
     (case init of
        None \<Rightarrow> Ret () b
      | Some c \<Rightarrow>
          if length (Val c) < 2 then Panic slicePanic b
          else Ret () (writelnf ''%s'' [AStr (butlast (tl (Val c)))] b))"

definition writeStaticCode :: "string \<Rightarrow> builder \<Rightarrow> builder" where
  "writeStaticCode static b = writelnf static [] b"

definition buildParser :: "unicode_env \<Rightarrow> (rune \<Rightarrow> bool) \<Rightarrow> string \<Rightarrow> Grammar \<Rightarrow> builder \<Rightarrow> (builder, string option) result" where
  "buildParser U isPrint static g b =
     bindR (writeInit (g_Init g) b) (\<lambda>_ b1.
       let (b2, g1) = writeGrammar U g b1
       in bindR (writeRulesCode U isPrint (g_Rules g1) b2) (\<lambda>_ b3.
            let b4 = writeStaticCode static b3 in Ret (b_err b4) b4))"

text \<open>An option sets a field of the builder and returns the option that sets it back.\<close>

definition CurrentReceiverName :: "gobytes \<Rightarrow> builder \<Rightarrow> gobytes \<times> builder" where
  "CurrentReceiverName nm b = (curRecvName b, b\<lparr>curRecvName := nm\<rparr>)"

definition setOptions :: "gobytes list \<Rightarrow> builder \<Rightarrow> builder" where
  "setOptions opts b = fold (\<lambda>nm b. snd (CurrentReceiverName nm b)) opts b"

definition newBuilder :: "(nat \<Rightarrow> string option) \<Rightarrow> builder" where
  "newBuilder w =
     \<lparr>wlog = [], wfail = w, b_err = None, curRecvName = ''c'', b_ruleName = [], exprIndex = 0, argsStack = []\<rparr>"

definition BuildParser :: "unicode_env \<Rightarrow> (rune \<Rightarrow> bool) \<Rightarrow> string \<Rightarrow> (nat \<Rightarrow> string option) \<Rightarrow> Grammar \<Rightarrow>
    gobytes list \<Rightarrow> (builder, string option) result" where
  "BuildParser U isPrint static w g opts = buildParser U isPrint static g (setOptions opts (newBuilder w))"

end
