(* ===== verification/Peg_Bootstrap.thy ===== *)
theory Peg_Bootstrap
  imports Peg_Ast Peg_Scanner
begin

text \<open>
  The recursive-descent parser of the grammar language, \<^verbatim>\<open>peg/bootstrap/parser.go\<close>. The scanner's error
  handler is the \<^verbatim>\<open>add\<close> method of the parser's error list: the errors of each call of \<open>Scan\<close> are moved to
  the end of that list, so it holds the errors of both in the order in which they are reported.
  Debug tracing is left out. The recursion through parentheses and the loops take fuel.
\<close>

section \<open>State\<close>

record bparser =
  sc :: scanner
  tok :: token
  perrs :: "(Pos \<times> scanErr) list"
  pk :: token

type_synonym 'r bp = "bparser \<Rightarrow> (bparser, 'r) result"

definition zeroPos :: Pos where
  "zeroPos = \<lparr>Filename = [], Line = 0, Col = 0, Off = 0\<rparr>"

definition zeroTok :: token where
  "zeroTok = \<lparr>id_of = eof, lit = [], tok_pos = zeroPos\<rparr>"

definition p_add :: "Pos \<Rightarrow> string \<Rightarrow> bparser \<Rightarrow> bparser" where
  "p_add pos msg p = p\<lparr>perrs := perrs p @ [(pos, Msg msg)]\<rparr>"

definition addHere :: "string \<Rightarrow> bparser \<Rightarrow> bparser" where
  "addHere msg p = p_add (tok_pos (tok p)) msg p"

definition p_scan :: "unicode_env \<Rightarrow> token bp" where
  "p_scan U p =
     (case Scan U (sc p) of
        None \<Rightarrow> OutOfFuel
      | Some (t, s) \<Rightarrow> Ret t (p\<lparr>sc := s\<lparr>serrs := []\<rparr>, perrs := perrs p @ serrs s\<rparr>))"

definition p_read :: "unicode_env \<Rightarrow> unit bp" where
  "p_read U p =
     (if Line (tok_pos (pk p)) \<noteq> 0 then Ret () (p\<lparr>tok := pk p, pk := zeroTok\<rparr>)
      else bindR (p_scan U p) (\<lambda>t p1. Ret () (p1\<lparr>tok := t\<rparr>)))"

definition p_peek :: "unicode_env \<Rightarrow> token bp" where
  "p_peek U p =
     (if Line (tok_pos (pk p)) = 0 then bindR (p_scan U p) (\<lambda>t p1. Ret t (p1\<lparr>pk := t\<rparr>))
      else Ret (pk p) p)"

fun p_skip :: "unicode_env \<Rightarrow> nat \<Rightarrow> tid list \<Rightarrow> unit bp" where
  "p_skip U 0 ids p = OutOfFuel"
| "p_skip U (Suc n) ids p =
     (if id_of (tok p) \<in> set ids then bindR (p_read U p) (\<lambda>_ p1. p_skip U n ids p1) else Ret () p)"

fun join_with :: "string \<Rightarrow> string list \<Rightarrow> string" where
  "join_with sep [] = []"
| "join_with sep [x] = x"
| "join_with sep (x # y # ys) = x @ sep @ join_with sep (y # ys)"

definition p_expect :: "tid list \<Rightarrow> bparser \<Rightarrow> bool \<times> bparser" where
  "p_expect ids p =
     (if length ids = 0 then (True, p)
      else if id_of (tok p) \<in> set ids then (True, p)
      else if length ids = 1 then
        (False, addHere (''expected '' @ tid_String (hd ids) @ '', got '' @ tid_String (id_of (tok p))) p)
      else
        (False, addHere (''expected any of ['' @ join_with '' '' (map tid_String ids) @ ''], got '' @
           tid_String (id_of (tok p))) p))"

section \<open>Expressions\<close>

definition hasSuffix_i :: "gobytes \<Rightarrow> bool" where
  "hasSuffix_i s \<longleftrightarrow> s \<noteq> [] \<and> last s = CHR ''i''"

definition p_ruleRefExpr :: "unicode_env \<Rightarrow> Expression option bp" where
  "p_ruleRefExpr U p =
     (case p_expect [ident] p of
        (False, p1) \<Rightarrow> Ret None p1
      | (True, p1) \<Rightarrow>
          let e = RuleRefExpr (tok_pos (tok p1)) (Some (NewIdentifier (tok_pos (tok p1)) (lit (tok p1))))
          in bindR (p_read U p1) (\<lambda>_ p2. Ret (Some e) p2))"

definition p_literal :: "unicode_env \<Rightarrow> Expression option bp" where
  "p_literal U p =
     (let ignore = hasSuffix_i (lit (tok p));
          p1 = (if ignore then p\<lparr>tok := (tok p)\<lparr>lit := butlast (lit (tok p))\<rparr>\<rparr> else p);
          (s, p2) = (case Unquote (lit (tok p1)) of
                       Some s \<Rightarrow> (s, p1)
                     | None \<Rightarrow> ([], addHere ''invalid syntax'' p1))
      in bindR (p_read U p2) (\<lambda>_ p3. Ret (Some (LitMatcher (tok_pos (tok p2)) s ignore)) p3))"

definition p_class :: "unicode_env \<Rightarrow> Expression option bp" where
  "p_class U p =
     (case NewCharClassMatcher (tok_pos (tok p)) (lit (tok p)) of
        Ret _ c \<Rightarrow> bindR (p_read U p) (\<lambda>_ p1. Ret (Some (ClassMatcher c)) p1)
      | Panic e _ \<Rightarrow> Panic e p
      | OutOfFuel \<Rightarrow> OutOfFuel)"

definition p_paren :: "unicode_env \<Rightarrow> Expression option bp \<Rightarrow> Expression option bp" where
  "p_paren U rec p =
     bindR (p_read U p) (\<lambda>_ p1. bindR (rec p1) (\<lambda>e p2.
       case e of
         None \<Rightarrow> Ret None (addHere ''missing expression inside parenthesis'' p2)
       | Some _ \<Rightarrow>
           (case p_expect [rparen] p2 of
              (False, p3) \<Rightarrow> Ret None p3
            | (True, p3) \<Rightarrow> bindR (p_read U p3) (\<lambda>_ p4. Ret e p4))))"

definition p_primaryExpr :: "unicode_env \<Rightarrow> Expression option bp \<Rightarrow> Expression option bp" where
  "p_primaryExpr U rec p =
     (case id_of (tok p) of
        str \<Rightarrow> p_literal U p
      | rstr \<Rightarrow> p_literal U p
      | char_tok \<Rightarrow> p_literal U p
      | cls \<Rightarrow> p_class U p
      | dot \<Rightarrow> (let e = NewAnyMatcher (tok_pos (tok p)) (lit (tok p)) in bindR (p_read U p) (\<lambda>_ p1. Ret (Some e) p1))
      | ident \<Rightarrow> p_ruleRefExpr U p
      | lparen \<Rightarrow> p_paren U rec p
      | _ \<Rightarrow> Ret None p)"

definition suffixed :: "unicode_env \<Rightarrow> (Pos \<Rightarrow> Expression \<Rightarrow> Expression) \<Rightarrow> Expression \<Rightarrow> Expression option bp" where
  "suffixed U mk e p =
     (case Expression_Pos e of
        None \<Rightarrow> Panic (PanicError ''runtime error: invalid memory address or nil pointer dereference'') p
      | Some pos \<Rightarrow> bindR (p_read U p) (\<lambda>_ p1. Ret (Some (mk pos e)) p1))"

definition p_suffixedExpr :: "unicode_env \<Rightarrow> Expression option bp \<Rightarrow> Expression option bp" where
  "p_suffixedExpr U rec p =
     bindR (p_primaryExpr U rec p) (\<lambda>e p1.
       case e of
         None \<Rightarrow>
           (if id_of (tok p1) = question \<or> id_of (tok p1) = star \<or> id_of (tok p1) = plus_tok
            then Ret None (addHere ''suffix operator without expression'' p1)
            else Ret None p1)
       | Some x \<Rightarrow>
           (case id_of (tok p1) of
              question \<Rightarrow> suffixed U ZeroOrOneExpr x p1
            | star \<Rightarrow> suffixed U ZeroOrMoreExpr x p1
            | plus_tok \<Rightarrow> suffixed U OneOrMoreExpr x p1
            | _ \<Rightarrow> Ret e p1))"

definition p_prefixedExpr :: "unicode_env \<Rightarrow> Expression option bp \<Rightarrow> Expression option bp" where
  "p_prefixedExpr U rec p =
     (let pref = (case id_of (tok p) of
                    ampersand \<Rightarrow> Some AndExpr
                  | exclamation \<Rightarrow> Some NotExpr
                  | _ \<Rightarrow> None);
          pos = tok_pos (tok p)
      in bindR (case pref of None \<Rightarrow> Ret () p | Some _ \<Rightarrow> p_read U p) (\<lambda>_ p1.
           bindR (p_suffixedExpr U rec p1) (\<lambda>e p2.
             case e of
               None \<Rightarrow>
                 (case pref of
                    Some _ \<Rightarrow> Ret None (addHere ''prefix operator without expression'' p2)
                  | None \<Rightarrow> Ret None p2)
             | Some x \<Rightarrow> (case pref of Some mk \<Rightarrow> Ret (Some (mk pos x)) p2 | None \<Rightarrow> Ret e p2))))"

definition p_label :: "unicode_env \<Rightarrow> (Identifier option \<times> bool) bp" where
  "p_label U p =
     (if id_of (tok p) = ident then
        bindR (p_peek U p) (\<lambda>peek p1.
          if id_of peek = colon then
            let label = NewIdentifier (tok_pos (tok p1)) (lit (tok p1))
            in bindR (p_read U p1) (\<lambda>_ p2.
                 case p_expect [colon] p2 of
                   (False, p3) \<Rightarrow> Ret (Some label, False) p3
                 | (True, p3) \<Rightarrow> bindR (p_read U p3) (\<lambda>_ p4. Ret (Some label, True) p4))
          else Ret (None, True) p1)
      else Ret (None, True) p)"

definition p_labeledExpr :: "unicode_env \<Rightarrow> Expression option bp \<Rightarrow> Expression option bp" where
  "p_labeledExpr U rec p =
     (let pos = tok_pos (tok p)
      in bindR (p_label U p) (\<lambda>(label, ok) p1.
           if \<not> ok then Ret None p1
           else bindR (p_prefixedExpr U rec p1) (\<lambda>e p2.
             case e of
               None \<Rightarrow>
                 (if label \<noteq> None then Ret None (addHere ''label without expression'' p2) else Ret None p2)
             | Some x \<Rightarrow> (case label of Some l \<Rightarrow> Ret (Some (LabeledExpr pos (Some l) x)) p2 | None \<Rightarrow> Ret e p2))))"

fun seqLoop :: "unicode_env \<Rightarrow> Expression option bp \<Rightarrow> nat \<Rightarrow> Pos \<Rightarrow> Expression list \<Rightarrow> Expression option bp" where
  "seqLoop U rec 0 pos es p = OutOfFuel"
| "seqLoop U rec (Suc n) pos es p =
     bindR (p_labeledExpr U rec p) (\<lambda>e p1.
       case e of
         None \<Rightarrow>
           (case es of
              [] \<Rightarrow> Ret None (addHere ''no expression in sequence'' p1)
            | [x] \<Rightarrow> Ret (Some x) p1
            | _ \<Rightarrow> Ret (Some (SeqExpr pos es)) p1)
       | Some x \<Rightarrow> seqLoop U rec n pos (es @ [x]) p1)"

definition p_seqExpr :: "unicode_env \<Rightarrow> Expression option bp \<Rightarrow> nat \<Rightarrow> Expression option bp" where
  "p_seqExpr U rec n p = seqLoop U rec n (tok_pos (tok p)) [] p"

definition p_actionExpr :: "unicode_env \<Rightarrow> Expression option bp \<Rightarrow> nat \<Rightarrow> Expression option bp" where
  "p_actionExpr U rec n p =
     (let pos = tok_pos (tok p)
      in bindR (p_seqExpr U rec n p) (\<lambda>e p1.
           case e of
             None \<Rightarrow> Ret None p1
           | Some x \<Rightarrow>
               if id_of (tok p1) = code then
                 let c = NewCodeBlock (tok_pos (tok p1)) (lit (tok p1))
                 in bindR (p_read U p1) (\<lambda>_ p2. Ret (Some (ActionExpr pos x (Some c) 0)) p2)
               else Ret e p1))"

fun exprLoop :: "unicode_env \<Rightarrow> Expression option bp \<Rightarrow> nat \<Rightarrow> nat \<Rightarrow> Pos \<Rightarrow> Expression list \<Rightarrow> Expression option bp" where
  "exprLoop U rec m 0 pos alts p = OutOfFuel"
| "exprLoop U rec m (Suc n) pos alts p =
     bindR (p_actionExpr U rec m p) (\<lambda>e p1.
       let alts1 = (case e of Some x \<Rightarrow> alts @ [x] | None \<Rightarrow> alts)
       in if id_of (tok p1) \<noteq> slash then
            (case alts1 of
               [] \<Rightarrow> Ret None (addHere ''no expression in choice'' p1)
             | [x] \<Rightarrow> Ret (Some x) p1
             | _ \<Rightarrow> Ret (Some (ChoiceExpr pos alts1)) p1)
          else bindR (p_read U p1) (\<lambda>_ p2. exprLoop U rec m n pos alts1 p2))"

fun p_expression :: "unicode_env \<Rightarrow> nat \<Rightarrow> Expression option bp" where
  "p_expression U 0 p = OutOfFuel"
| "p_expression U (Suc n) p = exprLoop U (p_expression U n) n n (tok_pos (tok p)) [] p"

section \<open>Rules and grammars\<close>

definition p_displayName :: "unicode_env \<Rightarrow> (StringLit option \<times> bool) bp" where
  "p_displayName U p =
     (if id_of (tok p) = str \<or> id_of (tok p) = rstr \<or> id_of (tok p) = char_tok then
        if hasSuffix_i (lit (tok p)) then Ret (None, False) (addHere (''invalid suffix '' @ [CHR 0x27, CHR ''i'', CHR 0x27]) p)
        else case Unquote (lit (tok p)) of
          None \<Rightarrow> Ret (None, False) (addHere ''invalid syntax'' p)
        | Some s \<Rightarrow> bindR (p_read U p) (\<lambda>_ p1. Ret (Some (NewStringLit (tok_pos (tok p)) s), True) p1)
      else Ret (None, True) p)"

definition p_ruleExpr :: "unicode_env \<Rightarrow> nat \<Rightarrow> Rule \<Rightarrow> Rule option bp" where
  "p_ruleExpr U n r p =
     bindR (p_expression U n p) (\<lambda>e p1.
       case e of
         None \<Rightarrow> Ret None (addHere ''missing expression'' p1)
       | Some x \<Rightarrow>
           (case p_expect [eol, eof, semicolon] p1 of
              (False, p2) \<Rightarrow> Ret None (addHere ''rule not terminated'' p2)
            | (True, p2) \<Rightarrow> Ret (Some (r\<lparr>r_Expr := x\<rparr>)) p2))"

definition p_rule :: "unicode_env \<Rightarrow> nat \<Rightarrow> Rule option bp" where
  "p_rule U n p =
     (case p_expect [ident] p of
        (False, p1) \<Rightarrow> Ret None p1
      | (True, p1) \<Rightarrow>
          let r = NewRule (tok_pos (tok p1)) (NewIdentifier (tok_pos (tok p1)) (lit (tok p1)))
          in bindR (p_read U p1) (\<lambda>_ p2. bindR (p_displayName U p2) (\<lambda>(dn, ok) p3.
               if \<not> ok then Ret None p3
               else case p_expect [ruledef] p3 of
                 (False, p4) \<Rightarrow> Ret None p4
               | (True, p4) \<Rightarrow>
                   bindR (p_read U p4) (\<lambda>_ p5. bindR (p_skip U n [eol] p5) (\<lambda>_ p6.
                     p_ruleExpr U n (r\<lparr>r_DisplayName := dn\<rparr>) p6)))))"

fun rulesLoop :: "unicode_env \<Rightarrow> nat \<Rightarrow> nat \<Rightarrow> Grammar \<Rightarrow> Grammar bp" where
  "rulesLoop U m 0 g p = OutOfFuel"
| "rulesLoop U m (Suc n) g p =
     (if id_of (tok p) = eof then Ret g p
      else bindR (p_rule U m p) (\<lambda>r p1.
        let g1 = (case r of Some x \<Rightarrow> g\<lparr>g_Rules := g_Rules g @ [x]\<rparr> | None \<Rightarrow> g)
        in bindR (p_read U p1) (\<lambda>_ p2. bindR (p_skip U m [eol, semicolon] p2) (\<lambda>_ p3.
             rulesLoop U m n g1 p3))))"

definition p_grammar :: "unicode_env \<Rightarrow> nat \<Rightarrow> Grammar bp" where
  "p_grammar U n p =
     bindR (p_read U p) (\<lambda>_ p1.
       let g = NewGrammar (tok_pos (tok p1))
       in bindR (p_skip U n [eol, semicolon] p1) (\<lambda>_ p2.
            if id_of (tok p2) = code then
              let g1 = g\<lparr>g_Init := Some (NewCodeBlock (tok_pos (tok p2)) (lit (tok p2)))\<rparr>
              in bindR (p_read U p2) (\<lambda>_ p3. bindR (p_skip U n [eol, semicolon] p3) (\<lambda>_ p4. rulesLoop U n n g1 p4))
            else rulesLoop U n n g p2))"

definition NewParser :: bparser where
  "NewParser = \<lparr>sc = Init [] [] None, tok = zeroTok, perrs = [], pk = zeroTok\<rparr>"

definition Parse :: "unicode_env \<Rightarrow> nat \<Rightarrow> string \<Rightarrow> gobytes \<Rightarrow> string option \<Rightarrow> Grammar bp" where
  "Parse U n fname b rderr p = p_grammar U n (p\<lparr>perrs := [], sc := Init fname b rderr\<rparr>)"

definition parse_string :: "unicode_env \<Rightarrow> nat \<Rightarrow> gobytes \<Rightarrow> (Grammar \<times> (Pos \<times> scanErr) list) option" where
  "parse_string U n b =
     (case Parse U n [] b None NewParser of Ret g p \<Rightarrow> Some (g, perrs p) | _ \<Rightarrow> None)"

end
