(* ===== verification/Peg_Class.thy ===== *)
theory Peg_Class
  imports Peg_Ast
begin

text \<open>
  What the class parser of \<^verbatim>\<open>peg/ast/ast.go\<close> guarantees to the engine, and where it does not return.
\<close>

section \<open>Ranges come in pairs\<close>

lemma classRanges_even:
  assumes "classRanges inR wasR cs rs xs = (cs', rs')" "odd (length rs) = inR" "inR \<longrightarrow> xs \<noteq> []"
  shows "even (length rs')"
  using assms
proof (induction inR wasR cs rs xs rule: classRanges.induct)
  case (2 inR wasR cs rs r rest)
  then show ?case by (auto split: if_splits)
qed auto

lemma parse_ranges_even:
  assumes "CharClassMatcher_parse c = Ret u c'" "even (length (Ranges c))"
  shows "even (length (Ranges c'))"
  using assms classRanges_even [of False False "Chars c" "Ranges c"]
  by (auto simp: CharClassMatcher_parse_def Let_def split: if_splits option.splits prod.splits)

section \<open>A class and its text\<close>

datatype classItem = One rune | Span rune rune

fun item_runes :: "classItem \<Rightarrow> rune list" where
  "item_runes (One r) = [r]"
| "item_runes (Span a b) = [a, 0x2D, b]"

fun item_bounds :: "classItem \<Rightarrow> rune list" where
  "item_bounds (One r) = [r]"
| "item_bounds (Span a b) = [a, b]"

definition ones :: "classItem list \<Rightarrow> rune list" where
  "ones its = concat (map (\<lambda>i. case i of One r \<Rightarrow> [r] | Span a b \<Rightarrow> []) its)"

definition spans :: "classItem list \<Rightarrow> rune list" where
  "spans its = concat (map (\<lambda>i. case i of One r \<Rightarrow> [] | Span a b \<Rightarrow> [a, b]) its)"

definition ordinary :: "rune \<Rightarrow> bool" where
  "ordinary r \<longleftrightarrow> validRune r \<and> r \<noteq> 0x2D \<and> r \<noteq> 0x5C"

definition class_text :: "bool \<Rightarrow> bool \<Rightarrow> classItem list \<Rightarrow> gobytes" where
  "class_text neg ic its =
     [CHR ''[''] @ (if neg then [CHR ''^''] else []) @ string_of_runes (concat (map item_runes its)) @ [CHR '']''] @
     (if ic then [CHR ''i''] else [])"

lemma classItems_plain: "0x5C \<notin> set xs \<Longrightarrow> classItems chars ucs xs = Some (chars @ xs, ucs)"
  by (induction xs arbitrary: chars) auto

lemma classRanges_items:
  assumes "\<forall>i\<in>set its. \<forall>r\<in>set (item_bounds i). r \<noteq> 0x2D"
  shows "classRanges False w cs rs (concat (map item_runes its)) = (cs @ ones its, rs @ spans its)"
  using assms
proof (induction its arbitrary: w cs rs)
  case (Cons i its)
  then show ?case by (cases i) (auto simp: ones_def spans_def)
qed (simp add: ones_def spans_def)

lemma item_runes_ordinary:
  assumes "\<forall>i\<in>set its. list_all ordinary (item_bounds i)"
  shows "list_all validRune (concat (map item_runes its))" "0x5C \<notin> set (concat (map item_runes its))"
    "\<forall>i\<in>set its. \<forall>r\<in>set (item_bounds i). r \<noteq> 0x2D"
proof -
  have i: "list_all validRune (item_runes i) \<and> 0x5C \<notin> set (item_runes i) \<and> (\<forall>r\<in>set (item_bounds i). r \<noteq> 0x2D)"
    if "list_all ordinary (item_bounds i)" for i
    using that by (cases i) (auto simp: ordinary_def validRune_def)
  then show "0x5C \<notin> set (concat (map item_runes its))" "\<forall>i\<in>set its. \<forall>r\<in>set (item_bounds i). r \<noteq> 0x2D"
    using assms by fastforce+
  show "list_all validRune (concat (map item_runes its))"
    using assms i by (fastforce simp: list_all_iff)
qed

lemma parse_bracketed:
  assumes "cm_Val c = [x] @ body @ [y] @ (if ic then [CHR ''i''] else [])" "y \<noteq> CHR ''i''" "body \<noteq> []"
  shows "CharClassMatcher_parse c =
     (let neg = (hd body = CHR ''^''); c2 = c\<lparr>IgnoreCase := ic, Inverted := neg\<rparr>; raw2 = (if neg then tl body else body)
      in if raw2 = [] then Ret () c2
         else case classItems [] [] (runes_of raw2) of
           None \<Rightarrow> OutOfFuel
         | Some (chs, ucs) \<Rightarrow>
             (case classRanges False False (Chars c2) (Ranges c2) chs of (cs, rs) \<Rightarrow>
                Ret () (c2\<lparr>Chars := cs, Ranges := rs, UnicodeClasses := UnicodeClasses c2 @ ucs\<rparr>)))"
proof -
  have "last (cm_Val c) = CHR ''i'' \<longleftrightarrow> ic" "cm_Val c \<noteq> []" using assms(1,2) by auto
  moreover have "(if ic then butlast (cm_Val c) else cm_Val c) = x # body @ [y]"
    using assms(1) by (simp add: butlast_append)
  ultimately show ?thesis
    using assms(3) by (simp add: CharClassMatcher_parse_def Let_def butlast_append)
qed

lemma hd_string_of_runes:
  assumes "validRune r" "string_of_runes (r # rs) = CHR ''^'' # t"
  shows "r = 0x5E"
proof -
  have "decodeRune (encodeRune r @ string_of_runes rs) = (r, length (encodeRune r))"
    using decodeRune_encodeRune assms(1) by simp
  moreover have "encodeRune r @ string_of_runes rs = CHR ''^'' # t" using assms(2) by (simp add: string_of_runes_def)
  moreover have "decodeRune (CHR ''^'' # t) = (0x5E, 1)" by (simp add: decodeRune_def)
  ultimately show ?thesis by simp
qed

lemma string_of_runes_nonempty: "validRune r \<Longrightarrow> string_of_runes (r # rs) \<noteq> []"
  by (auto simp: string_of_runes_def encodeRune_def encodeValid_def)

text \<open>
  C13. A character class written out from single runes and ranges (none of them a dash or a
  backslash) is parsed back to exactly these runes and range bounds, with the flags for
  inversion and case, in order; the list of bounds is one of pairs.
\<close>

theorem class_round_trip:
  assumes "its \<noteq> []" "\<forall>i\<in>set its. list_all ordinary (item_bounds i)"
    and "neg \<or> hd (item_bounds (hd its)) \<noteq> 0x5E"
  shows "NewCharClassMatcher p (class_text neg ic its) = Ret ()
    \<lparr>cm_p = p, cm_Val = class_text neg ic its, IgnoreCase = ic, Inverted = neg,
     Chars = ones its, Ranges = spans its, UnicodeClasses = []\<rparr> \<and> even (length (spans its))"
proof -
  let ?rs = "concat (map item_runes its)"
  note o = item_runes_ordinary [OF assms(2)]
  obtain r rest where rs: "?rs = r # rest" and r: "r = hd (item_bounds (hd its))"
  proof (cases its)
    case (Cons i its')
    then show ?thesis using that by (cases i) auto
  qed (use assms(1) in simp)
  have v: "validRune r" using o(1) rs by simp
  have ne: "string_of_runes ?rs \<noteq> []" using string_of_runes_nonempty [OF v] rs by simp
  have h: "hd (string_of_runes ?rs) \<noteq> CHR ''^''" if "\<not> neg"
    using hd_string_of_runes [OF v] ne assms(3) that r rs by (metis list.collapse)
  have runes: "runes_of (string_of_runes ?rs) = ?rs" by (rule runes_of_string_of_runes [OF o(1)])
  have items: "classItems [] [] ?rs = Some (?rs, [])" using classItems_plain [OF o(2)] by simp
  have ranges: "classRanges False False [] [] ?rs = (ones its, spans its)" using classRanges_items [OF o(3)] by simp
  let ?c = "\<lparr>cm_p = p, cm_Val = class_text neg ic its, IgnoreCase = False, Inverted = False,
    Chars = [], Ranges = [], UnicodeClasses = []\<rparr>"
  have b: "cm_Val ?c = [CHR ''['']  @ ((if neg then [CHR ''^''] else []) @ string_of_runes ?rs) @ [CHR '']''] @
      (if ic then [CHR ''i''] else [])"
    by (simp add: class_text_def)
  have "even (length (spans its))" using classRanges_even [OF ranges] by simp
  then show ?thesis
    unfolding NewCharClassMatcher_def
    by (subst parse_bracketed [OF b]) (use ne h runes items ranges in \<open>cases neg; simp\<close>)+
qed

theorem class_round_trip_witness:
  "NewCharClassMatcher \<lparr>Filename = [], Line = 1, Col = 1, Off = 0\<rparr> ''[^a-z_]i'' = Ret ()
    \<lparr>cm_p = \<lparr>Filename = [], Line = 1, Col = 1, Off = 0\<rparr>, cm_Val = ''[^a-z_]i'', IgnoreCase = True, Inverted = True,
     Chars = [0x5F], Ranges = [0x61, 0x7A], UnicodeClasses = []\<rparr>"
proof -
  have t: "class_text True True [Span 0x61 0x7A, One 0x5F] = ''[^a-z_]i''" by code_simp
  have o: "ones [Span 0x61 0x7A, One 0x5F] = [0x5F]" "spans [Span 0x61 0x7A, One 0x5F] = [0x61, 0x7A]"
    by (simp_all add: ones_def spans_def)
  from class_round_trip [of "[Span 0x61 0x7A, One 0x5F]" True "\<lparr>Filename = [], Line = 1, Col = 1, Off = 0\<rparr>" True] t o
  show ?thesis by (simp add: ordinary_def validRune_def)
qed

section \<open>Where the class parser does not return\<close>

lemma className_open: "0x7D \<notin> set v \<Longrightarrow> className buf v = None"
  by (induction v arbitrary: buf) auto

lemma runes_of_strip_last:
  assumes "list_all validRune rs"
  shows "runes_of (string_of_runes ([0x5C, 0x70, 0x7B] @ rs)) = [0x5C, 0x70, 0x7B] @ rs"
  by (rule runes_of_string_of_runes) (use assms in \<open>simp add: validRune_def\<close>)

text \<open>
  C14. The class parser panics on a text shorter than its two brackets, and never returns on the
  text of a class with an unclosed Unicode class name: both are literals the scanner hands on
  after it has reported an unterminated class.
\<close>

theorem class_parser_fails:
  assumes "list_all validRune v" "0x7D \<notin> set v" "c \<noteq> CHR ''i''"
  shows "NewCharClassMatcher p ''['' = Panic slicePanic
      \<lparr>cm_p = p, cm_Val = ''['', IgnoreCase = False, Inverted = False, Chars = [], Ranges = [], UnicodeClasses = []\<rparr> \<and>
    NewCharClassMatcher p ([CHR ''[''] @ string_of_runes ([0x5C, 0x70, 0x7B] @ v) @ [c]) = OutOfFuel"
proof -
  have e: "string_of_runes ([0x5C, 0x70, 0x7B] @ v) = CHR 0x5C # ''p{'' @ string_of_runes v"
    by (simp add: string_of_runes_def encodeRune_def encodeValid_def validRune_def) code_simp
  have i: "classItems [] [] ([0x5C, 0x70, 0x7B] @ v) = None" using className_open [OF assms(2)] by simp
  let ?raw = "[CHR ''[''] @ string_of_runes ([0x5C, 0x70, 0x7B] @ v) @ [c]"
  let ?c = "\<lparr>cm_p = p, cm_Val = ?raw, IgnoreCase = False, Inverted = False,
    Chars = [], Ranges = [], UnicodeClasses = []\<rparr>"
  have b: "cm_Val ?c = [CHR ''[''] @ string_of_runes ([0x5C, 0x70, 0x7B] @ v) @ [c] @ (if False then [CHR ''i''] else [])"
    by simp
  have "CharClassMatcher_parse ?c = OutOfFuel"
    by (subst parse_bracketed [OF b assms(3)]) (use e i runes_of_strip_last [OF assms(1)] in simp_all)
  then show ?thesis by (simp add: NewCharClassMatcher_def CharClassMatcher_parse_def)
qed

theorem class_parser_fails_witness:
  "NewCharClassMatcher \<lparr>Filename = [], Line = 1, Col = 1, Off = 0\<rparr> ([CHR ''['', CHR 0x5C] @ ''p{Lx'') = OutOfFuel"
proof -
  have "string_of_runes ([0x5C, 0x70, 0x7B] @ [0x4C]) = CHR 0x5C # ''p{L''" by code_simp
  with class_parser_fails [of "[0x4C]" "CHR ''x''" "\<lparr>Filename = [], Line = 1, Col = 1, Off = 0\<rparr>"] show ?thesis by (simp add: validRune_def)
qed

end
