(* ===== verification/Peg_Scan_Proofs.thy ===== *)
theory Peg_Scan_Proofs
  imports Peg_Scanner
begin

text \<open>
  The scanner ends on every input, makes progress on every token, and loses nothing: as long as it
  reports no error, the runes it consumes for a token are the ones of the token's text.
\<close>

section \<open>Well-formed scanner states\<close>

definition wf_s :: "scanner \<Rightarrow> bool" where
  "wf_s s \<longleftrightarrow> (s_eof s \<longrightarrow> s_cur s = -1) \<and> -1 \<le> s_cur s \<and> (\<forall>x\<in>set (src s). 0 \<le> fst x)"

definition pend :: "scanner \<Rightarrow> rune list" where
  "pend s = (if s_eof s then [] else s_cur s # map fst (src s))"

lemma write_frame [simp]:
  "src (writeRune r s) = src s" "s_eof (writeRune r s) = s_eof s" "cpos (writeRune r s) = cpos s"
  "s_cur (writeRune r s) = s_cur s" "s_cw (writeRune r s) = s_cw s" "serrs (writeRune r s) = serrs s"
  "tokb (writeRune r s) = tokb s @ encodeRune r"
  "src (writeCur s) = src s" "s_eof (writeCur s) = s_eof s" "cpos (writeCur s) = cpos s"
  "s_cur (writeCur s) = s_cur s" "s_cw (writeCur s) = s_cw s" "serrs (writeCur s) = serrs s"
  "tokb (writeCur s) = tokb s @ encodeRune (s_cur s)"
  "src (resetTok s) = src s" "s_eof (resetTok s) = s_eof s" "cpos (resetTok s) = cpos s"
  "s_cur (resetTok s) = s_cur s" "s_cw (resetTok s) = s_cw s" "serrs (resetTok s) = serrs s"
  "tokb (resetTok s) = []"
  by (simp_all add: writeRune_def writeCur_def resetTok_def)

lemma error_frame [simp]:
  "src (errorpf p e s) = src s" "s_eof (errorpf p e s) = s_eof s" "cpos (errorpf p e s) = cpos s"
  "s_cur (errorpf p e s) = s_cur s" "s_cw (errorpf p e s) = s_cw s" "tokb (errorpf p e s) = tokb s"
  "serrs (errorpf p e s) = serrs s @ [(p, e)]"
  by (simp_all add: errorpf_def)

lemma read_tokb [simp]: "tokb (s_read s) = tokb s"
  by (auto simp: s_read_def fatalError_def Let_def split: list.splits option.splits)

lemma read_errs: "length (serrs s) \<le> length (serrs (s_read s))"
  by (auto simp: s_read_def fatalError_def Let_def split: list.splits option.splits)

lemma wf_write [simp]:
  "wf_s (writeRune r s) = wf_s s" "wf_s (writeCur s) = wf_s s" "wf_s (resetTok s) = wf_s s"
  "wf_s (errorpf p e s) = wf_s s" "wf_s (errorf e s) = wf_s s"
  by (simp_all add: wf_s_def errorf_def)

lemma remaining_write [simp]:
  "remaining (writeRune r s) = remaining s" "remaining (writeCur s) = remaining s"
  "remaining (resetTok s) = remaining s" "remaining (errorpf p e s) = remaining s"
  "remaining (errorf e s) = remaining s"
  by (simp_all add: remaining_def errorf_def)

lemma wf_read [simp, intro]: "wf_s s \<Longrightarrow> wf_s (s_read s)"
  by (auto simp: s_read_def fatalError_def wf_s_def Let_def split: list.splits option.splits)

lemma remaining_read: "\<not> s_eof s \<Longrightarrow> remaining (s_read s) < remaining s"
  by (auto simp: s_read_def fatalError_def remaining_def Let_def split: list.splits option.splits)

lemma remaining_read_le [simp]: "remaining (s_read s) \<le> remaining s"
  by (cases "s_eof s") (simp add: s_read_def, simp add: remaining_read less_imp_le)

lemma read_strict:
  "\<not> s_eof s0 \<Longrightarrow> remaining s \<le> remaining s0 \<Longrightarrow> remaining (s_read s) < remaining s0"
  using remaining_read [of s] by (cases "s_eof s") (auto simp: s_read_def remaining_def)

lemma cur_not_eof: "wf_s s \<Longrightarrow> s_cur s \<noteq> -1 \<Longrightarrow> \<not> s_eof s"
  by (auto simp: wf_s_def)

lemma read_pend:
  assumes "wf_s s" "\<not> s_eof s" "length (serrs (s_read s)) = length (serrs s)"
  shows "pend s = s_cur s # pend (s_read s)"
  using assms by (auto simp: pend_def s_read_def fatalError_def Let_def split: list.splits option.splits)

lemma read_cur: "wf_s s \<Longrightarrow> s_cur (s_read s) = -1 \<Longrightarrow> s_eof (s_read s)"
  by (cases "s_eof s") (auto simp: wf_s_def s_read_def fatalError_def Let_def split: list.splits option.splits)

section \<open>Consumed and written\<close>

text \<open>
  \<open>okA s0 s\<close>: from \<open>s0\<close> on, what has been written is what has been read. \<open>okB s0 s\<close>: the current
  rune has been written and is still to be read over. Both say so for states without a new error.
\<close>

definition okA :: "scanner \<Rightarrow> scanner \<Rightarrow> bool" where
  "okA s0 s \<longleftrightarrow> wf_s s \<and> remaining s < remaining s0 \<and> length (serrs s0) \<le> length (serrs s) \<and>
     (length (serrs s) = length (serrs s0) \<longrightarrow> (\<exists>xs. pend s0 = xs @ pend s \<and> tokb s = string_of_runes xs))"

definition okB :: "scanner \<Rightarrow> scanner \<Rightarrow> bool" where
  "okB s0 s \<longleftrightarrow> wf_s s \<and> remaining s \<le> remaining s0 \<and> length (serrs s0) \<le> length (serrs s) \<and>
     (length (serrs s) = length (serrs s0) \<longrightarrow> s_cur s \<noteq> -1 \<and>
        (\<exists>xs. pend s0 = xs @ pend s \<and> tokb s = string_of_runes (xs @ [s_cur s])))"

lemma string_of_runes_snoc [simp]: "string_of_runes (xs @ [r]) = string_of_runes xs @ encodeRune r"
  by (simp add: string_of_runes_def)

lemma string_of_runes_Nil [simp]: "string_of_runes [] = []"
  by (simp add: string_of_runes_def)

lemma okB_read [intro]:
  assumes "\<not> s_eof s0" "okB s0 s"
  shows "okA s0 (s_read s)"
proof -
  have "\<exists>xs. pend s0 = xs @ pend (s_read s) \<and> tokb (s_read s) = string_of_runes xs"
    if l: "length (serrs (s_read s)) = length (serrs s0)"
  proof -
    have e: "length (serrs s) = length (serrs s0)" "length (serrs (s_read s)) = length (serrs s)"
      using assms(2) l read_errs [of s] by (auto simp: okB_def)
    then obtain xs where xs: "pend s0 = xs @ pend s" "tokb s = string_of_runes (xs @ [s_cur s])"
        and ne: "\<not> s_eof s" and wf: "wf_s s"
      using assms(2) cur_not_eof by (auto simp: okB_def)
    have "pend s = s_cur s # pend (s_read s)" by (rule read_pend [OF wf ne e(2)])
    with xs show ?thesis by (intro exI [of _ "xs @ [s_cur s]"]) simp
  qed
  moreover have "length (serrs s0) \<le> length (serrs (s_read s))"
    using assms(2) read_errs [of s] by (simp add: okB_def)
  ultimately show ?thesis
    using assms read_strict [OF assms(1), of s] by (simp add: okA_def okB_def)
qed

lemma okA_write [intro]: "okA s0 s \<Longrightarrow> s_cur s \<noteq> -1 \<Longrightarrow> okB s0 (writeCur s)"
  by (auto simp: okA_def okB_def pend_def)

lemma okB_start: "wf_s s0 \<Longrightarrow> s_cur s0 \<noteq> -1 \<Longrightarrow> okB s0 (writeCur (resetTok s0))"
  using cur_not_eof by (auto simp: okB_def pend_def)

lemma okA_error:
  assumes "wf_s s" "remaining s < remaining s0" "length (serrs s0) \<le> length (serrs s)"
  shows "okA s0 (errorf e s)"
  using assms by (simp add: okA_def errorf_def)

lemma okA_errorf [intro]: "okA s0 s \<Longrightarrow> okA s0 (errorf e s)"
  by (rule okA_error) (simp_all add: okA_def)

lemma okA_errorf_write [intro]: "okA s0 s \<Longrightarrow> okA s0 (errorf e (writeCur s))"
  by (rule okA_error) (simp_all add: okA_def)

lemma okA_errorpf: "okA s0 s \<Longrightarrow> okA s0 (errorpf p e s)"
  by (simp add: okA_def)

lemma okA_error_read:
  assumes "okA s0 s" "length (serrs s0) < length (serrs s)"
  shows "okA s0 (s_read s)"
proof -
  have "length (serrs s0) < length (serrs (s_read s))" "remaining (s_read s) < remaining s0"
    using assms read_errs [of s] remaining_read_le [of s] unfolding okA_def by linarith+
  with assms show ?thesis by (simp add: okA_def)
qed

lemma errorf_longer: "okA s0 s \<Longrightarrow> length (serrs s0) < length (serrs (errorf e s))"
  by (simp add: okA_def errorf_def)

lemma okA_step: "\<not> s_eof s0 \<Longrightarrow> okA s0 s \<Longrightarrow> s_cur s \<noteq> -1 \<Longrightarrow> okA s0 (s_read (writeCur s))"
  by (rule okB_read [OF _ okA_write])

lemma okA_suffix [intro]: "\<not> s_eof s0 \<Longrightarrow> okA s0 s \<Longrightarrow> okA s0 (ignoreCaseSuffix s)"
  using okB_read [OF _ okA_write] by (simp add: ignoreCaseSuffix_def)

section \<open>Escapes\<close>

lemma digitVal_neg [simp]: "digitVal (-1) = 16"
  by (simp add: digitVal_def)

definition okE :: "scanner \<Rightarrow> scanner \<Rightarrow> bool" where
  "okE s0 s \<longleftrightarrow> wf_s s \<and> remaining s < remaining s0 \<and> length (serrs s0) < length (serrs s)"

lemma okE_okA: "okE s0 s \<Longrightarrow> okA s0 s"
  by (simp add: okE_def okA_def)

lemma okE_errorf [intro]: "okA s0 s \<Longrightarrow> okE s0 (errorf e s)" "okA s0 s \<Longrightarrow> okE s0 (errorf e (writeCur s))"
  "okE s0 s \<Longrightarrow> okE s0 (errorf e s)"
  by (auto simp: okE_def okA_def errorf_def)

lemma okE_read [intro]: "okE s0 s \<Longrightarrow> okE s0 (s_read s)"
  using read_errs [of s] remaining_read_le [of s] unfolding okE_def by (metis le_less_trans less_le_trans wf_read)

lemma okE_okB: "okE s0 s \<Longrightarrow> okB s0 s"
  by (simp add: okE_def okB_def)

lemma okE_write [simp]: "okE s0 (writeCur s) = okE s0 s"
  by (simp add: okE_def)

definition okEsc :: "scanner \<Rightarrow> bool \<Rightarrow> scanner \<Rightarrow> bool" where
  "okEsc s0 ok s \<longleftrightarrow> (if ok then okB s0 s else okE s0 s)"

lemma escDigits_ok:
  assumes "\<not> s_eof s0" "okA s0 s" "base \<le> 16" "escDigits (Suc n) base x s = (r, s')"
  shows "okEsc s0 (r \<noteq> None) s'"
  using assms(2,4)
proof (induction n arbitrary: x s)
  case 0
  have "s_cur s \<noteq> -1" if "\<not> base \<le> digitVal (s_cur s)" using that assms(3) by auto
  with 0 show ?case
    by (auto simp: Let_def okEsc_def okA_write okE_read okE_errorf split: if_splits)
next
  case (Suc n)
  show ?case
  proof (cases "base \<le> digitVal (s_cur s)")
    case True
    with Suc.prems show ?thesis
      by (auto simp: Let_def okEsc_def okE_read okE_errorf split: if_splits)
  next
    case False
    with assms(3) have "s_cur s \<noteq> -1" by auto
    then have "okA s0 (s_read (writeCur s))" using Suc.prems(1) assms(1) by blast
    then show ?thesis by (rule Suc.IH) (use False Suc.prems(2) in \<open>simp add: Let_def\<close>)
  qed
qed

lemma escNumber_ok:
  assumes "\<not> s_eof s0" "okA s0 s" "base \<le> 16" "0 < n"
  shows "okEsc s0 (fst (escNumber n base mx s)) (snd (escNumber n base mx s))"
proof -
  obtain r s' where e: "escDigits n base 0 s = (r, s')" by fastforce
  obtain m where "n = Suc m" using assms(4) by (cases n) auto
  with e assms escDigits_ok have ok: "okEsc s0 (r \<noteq> None) s'" by blast
  have "okE s0 (s_read (errorf e s'))" if "okB s0 s'" for e
    using that okB_read [OF assms(1) that] read_strict [OF assms(1), of s'] read_errs [of "errorf e s'"]
      read_strict [OF assms(1), of "errorf e s'"]
    by (auto simp: okE_def okB_def errorf_def)
  with ok e show ?thesis
    by (auto simp: escNumber_def okEsc_def split: option.splits)
qed

interpretation className: variant_loop classNameBody "\<lambda>(cnt, s). wf_s s \<and> s_cur s \<noteq> -1" "\<lambda>(cnt, s). remaining s"
proof
  fix x y
  assume "case x of (cnt, s) \<Rightarrow> wf_s s \<and> s_cur s \<noteq> -1" "classNameBody x = Inl y"
  then show "(case y of (cnt, s) \<Rightarrow> wf_s s \<and> s_cur s \<noteq> -1) \<and>
      (case y of (cnt, s) \<Rightarrow> remaining s) < (case x of (cnt, s) \<Rightarrow> remaining s)"
    using remaining_read [of "writeCur (snd x)"] cur_not_eof [of "snd x"]
    by (auto simp: classNameBody_def Let_def split: if_splits)
qed

lemma classNameBody_ok:
  assumes "\<not> s_eof s0" "okA s0 s" "s_cur s \<noteq> -1"
  shows "case classNameBody (cnt, s) of
      Inl (cnt', s') \<Rightarrow> okA s0 s' \<and> s_cur s' \<noteq> -1 | Inr (ok, s') \<Rightarrow> okEsc s0 ok s'"
proof -
  define t where "t = s_read (writeCur s)"
  have a: "okA s0 t" using assms unfolding t_def by blast
  consider "s_cur t = 10 \<or> s_cur t = -1" | "s_cur t = 0x7D" "cnt + 1 < 2" | "s_cur t = 0x7D" "\<not> cnt + 1 < 2"
    | "s_cur t \<noteq> 10" "s_cur t \<noteq> -1" "s_cur t \<noteq> 0x7D" by blast
  then show ?thesis
  proof cases
    case 1
    then show ?thesis using okE_errorf(1) [OF a]
      by (auto simp: classNameBody_def okEsc_def Let_def simp flip: t_def)
  next
    case 2
    then show ?thesis
      by (simp add: classNameBody_def okEsc_def okE_okB okE_errorf(1) [OF a] flip: t_def)
  next
    case 3
    then show ?thesis using okA_write [OF a]
      by (simp add: classNameBody_def okEsc_def flip: t_def)
  next
    case 4
    then show ?thesis using a
      by (simp add: classNameBody_def okEsc_def flip: t_def)
  qed
qed

lemma escClass_ok:
  assumes "\<not> s_eof s0" "okA s0 s"
  obtains ok s' where "escClass s = Some (ok, s')" "okEsc s0 ok s'"
proof (cases "s_cur s = 0x7B")
  case True
  have wf: "wf_s s" using assms(2) by (simp add: okA_def)
  obtain r where r: "iter (Suc (remaining s)) classNameBody (0, s) = Some r"
    using className.ends [of "(0, s)" "Suc (remaining s)"] wf True by auto
  have "case r of (ok, s') \<Rightarrow> okEsc s0 ok s'"
  proof (rule iter_rule [OF r, of "\<lambda>(cnt, s). okA s0 s \<and> s_cur s \<noteq> -1"])
    fix y :: "nat \<times> scanner"
    assume "case y of (cnt, s) \<Rightarrow> okA s0 s \<and> s_cur s \<noteq> -1"
    then show "case classNameBody y of Inl (cnt, s) \<Rightarrow> okA s0 s \<and> s_cur s \<noteq> -1 | Inr (ok, s') \<Rightarrow> okEsc s0 ok s'"
      using classNameBody_ok [OF assms(1)] by (cases y) simp
  qed (use assms True in simp)
  with r True that show ?thesis by (cases r) (auto simp: escClass_def)
next
  case False
  show ?thesis
  proof (cases "s_cur s = 0x0A \<or> s_cur s = -1")
    case True
    show ?thesis
      by (rule that [of False "errorf escNotTerminated s"])
        (use True assms(2) in \<open>auto simp: escClass_def okEsc_def\<close>)
  next
    case no: False
    show ?thesis
      by (rule that [of True "writeCur s"])
        (use False no assms(2) in \<open>auto simp: escClass_def okEsc_def\<close>)
  qed
qed

lemma escDigits_remaining: "remaining (snd (escDigits n base x s)) \<le> remaining s"
proof (induction n arbitrary: x s)
  case (Suc n)
  have "remaining (snd (escDigits n base y (s_read (writeCur s)))) \<le> remaining s" for y
    using Suc [of y "s_read (writeCur s)"] remaining_read_le [of "writeCur s"] by simp
  moreover have "remaining (s_read (errorf e (writeCur s))) \<le> remaining s" for e
    using remaining_read_le [of "errorf e (writeCur s)"] by simp
  ultimately show ?case using Suc [of _ "writeCur s"] by (simp add: Let_def)
qed simp

lemma escNumber_remaining: "remaining (snd (escNumber n base mx s)) \<le> remaining s"
proof -
  obtain r s' where e: "escDigits n base 0 s = (r, s')" by fastforce
  have "remaining s' \<le> remaining s" using escDigits_remaining [of n base 0 s] e by simp
  moreover from this have "remaining (s_read (errorf x s')) \<le> remaining s" for x
    using remaining_read_le [of "errorf x s'"] by simp
  ultimately show ?thesis using e by (auto simp: escNumber_def split: option.split)
qed

lemma classNameBody_remaining:
  "case classNameBody (cnt, s) of Inl (cnt', s') \<Rightarrow> remaining s' \<le> remaining s | Inr (ok, s') \<Rightarrow> remaining s' \<le> remaining s"
  using remaining_read_le [of "writeCur s"] by (simp add: classNameBody_def Let_def)

lemma escClass_remaining: "escClass s = Some (ok, s') \<Longrightarrow> remaining s' \<le> remaining s"
proof (cases "s_cur s = 0x7B")
  case True
  assume "escClass s = Some (ok, s')"
  then have i: "iter (Suc (remaining s)) classNameBody (0, s) = Some (ok, s')"
    using True by (simp add: escClass_def)
  have "case (ok, s') of (ok, s') \<Rightarrow> remaining s' \<le> remaining s"
  proof (rule iter_rule [OF i, of "\<lambda>(cnt, t). remaining t \<le> remaining s"])
    fix y :: "nat \<times> scanner"
    assume "case y of (cnt, t) \<Rightarrow> remaining t \<le> remaining s"
    then show "case classNameBody y of Inl (cnt, t) \<Rightarrow> remaining t \<le> remaining s | Inr (ok, t) \<Rightarrow> remaining t \<le> remaining s"
      using classNameBody_remaining [where cnt = "fst y" and s = "snd y"] by (cases y) (auto split: sum.splits prod.splits)
  qed simp
  then show ?thesis by simp
qed (auto simp: escClass_def split: if_splits)

lemma escNumber_some:
  assumes "\<not> s_eof s0" "okA s0 t" "base \<le> 16" "0 < n" "remaining t < k"
  shows "\<exists>ok s'. Some (escNumber n base mx t) = Some (ok, s') \<and> okEsc s0 ok s' \<and> remaining s' < k"
  using escNumber_ok [OF assms(1-4), of mx] escNumber_remaining [of n base mx t] assms(5)
  by (cases "escNumber n base mx t") auto

lemma scanEscape_ok:
  assumes "\<not> s_eof s0" "okA s0 s" "s_cur s = 0x5C" "q \<noteq> -1"
  shows "\<exists>ok s'. scanEscape q s = Some (ok, s') \<and> okEsc s0 ok s' \<and> remaining s' < remaining s"
proof -
  define t where "t = s_read (writeCur s)"
  have wf: "wf_s s" using assms(2) by (simp add: okA_def)
  have t: "okA s0 t" "remaining t < remaining s"
    using assms remaining_read [of "writeCur s"] cur_not_eof [OF wf] okA_step unfolding t_def by auto
  define u where "u = s_read (writeCur t)"
  have u: "okA s0 u" "remaining u < remaining s" if "s_cur t \<noteq> -1"
    using that t assms(1) remaining_read_le [of "writeCur t"] okA_step unfolding u_def
    by (auto simp del: remaining_read_le)
  have rd: "remaining (s_read (errorf e (writeCur t))) < remaining s" for e
    using t(2) remaining_read_le [of "errorf e (writeCur t)"] by simp
  have w: "okEsc s0 True (writeCur t)" if "s_cur t \<noteq> -1"
    using okA_write [OF t(1) that] by (simp add: okEsc_def)
  have e: "okEsc s0 False (errorf x (writeCur t))" "okEsc s0 False (s_read (errorf x (writeCur t)))" for x
    using t(1) by (auto simp: okEsc_def)
  have c: "\<exists>ok s'. escClass u = Some (ok, s') \<and> okEsc s0 ok s' \<and> remaining s' < remaining s" if "s_cur t \<noteq> -1"
    by (rule escClass_ok [OF assms(1) u(1) [OF that]])
      (use escClass_remaining [of u] u(2) [OF that] in fastforce)
  consider "s_cur t \<in> {0x61, 0x62, 0x66, 0x6E, 0x72, 0x74, 0x76, 0x5C} \<or> s_cur t = q"
    | "0x30 \<le> s_cur t" "s_cur t \<le> 0x37" "\<not> (s_cur t \<in> {0x61, 0x62, 0x66, 0x6E, 0x72, 0x74, 0x76, 0x5C} \<or> s_cur t = q)"
    | "s_cur t = 0x78 \<or> s_cur t = 0x75 \<or> s_cur t = 0x55" "s_cur t \<noteq> q"
    | "s_cur t = 0x70" "q = 0x5D"
    | "\<not> (s_cur t \<in> {0x61, 0x62, 0x66, 0x6E, 0x72, 0x74, 0x76, 0x5C} \<or> s_cur t = q)"
      "\<not> (0x30 \<le> s_cur t \<and> s_cur t \<le> 0x37)" "s_cur t \<noteq> 0x78" "s_cur t \<noteq> 0x75" "s_cur t \<noteq> 0x55"
      "\<not> (s_cur t = 0x70 \<and> q = 0x5D)"
    by blast
  then show ?thesis
  proof cases
    case 1
    then have "scanEscape q s = Some (True, writeCur t)"
      unfolding scanEscape_def Let_def t_def [symmetric] by (simp only: if_True)
    moreover have "s_cur t \<noteq> -1" using 1 assms(4) by auto
    ultimately show ?thesis using w t(2) by auto
  next
    case 2
    then show ?thesis using escNumber_some [OF assms(1) t(1) _ _ t(2)]
      by (simp add: scanEscape_def Let_def flip: t_def)
  next
    case 3
    then have "s_cur t \<noteq> -1" by auto
    then show ?thesis using 3 escNumber_some [OF assms(1) u(1) _ _ u(2)]
      by (auto simp: scanEscape_def Let_def simp flip: t_def u_def)
  next
    case 4
    then show ?thesis using c by (simp add: scanEscape_def Let_def flip: t_def u_def)
  next
    case 5
    then have "scanEscape q s = (if s_cur t = -1 \<or> s_cur t = 0x0A then Some (False, errorf escNotTerminated (writeCur t))
         else Some (False, s_read (errorf (Msg ''unknown escape sequence'') (writeCur t))))"
      unfolding scanEscape_def Let_def t_def [symmetric] by (simp only: if_False simp_thms)
    then show ?thesis using e rd t(2) by auto
  qed
qed

section \<open>Quoted tokens\<close>

text \<open>
  String literals, rune literals and classes are read by the same kind of loop: a round reads the
  next rune unless an escape has already done so, and the loop ends at the closing quote or with
  an error.
\<close>

definition lit_inv :: "scanner \<Rightarrow> bool \<Rightarrow> scanner \<Rightarrow> bool" where
  "lit_inv s0 noread s \<longleftrightarrow> (if noread then okA s0 s else okB s0 s)"

definition lit_size :: "bool \<Rightarrow> scanner \<Rightarrow> nat" where
  "lit_size noread s = 2 * remaining s + (if noread then 1 else 0)"

locale quoted_loop =
  fixes body :: "'a \<Rightarrow> 'a + scanner option" and nr :: "'a \<Rightarrow> bool" and st :: "'a \<Rightarrow> scanner"
  assumes quoted_round: "\<not> s_eof s0 \<Longrightarrow> lit_inv s0 (nr x) (st x) \<Longrightarrow>
    case body x of
      Inl y \<Rightarrow> lit_inv s0 (nr y) (st y) \<and> lit_size (nr y) (st y) < lit_size (nr x) (st x)
    | Inr r \<Rightarrow> \<exists>s'. r = Some s' \<and> okA s0 s'"
begin

lemma quoted_variant:
  assumes "\<not> s_eof s0"
  shows "variant_loop body (\<lambda>x. lit_inv s0 (nr x) (st x)) (\<lambda>x. lit_size (nr x) (st x))"
  by unfold_locales (use quoted_round [OF assms] in \<open>fastforce split: sum.splits\<close>)

lemma quoted_ends:
  assumes "\<not> s_eof s0" "wf_s s0" "s_cur s0 \<noteq> -1" "\<not> nr x" "st x = writeCur (resetTok s0)"
  shows "\<exists>s'. iter (rounds s0) body x = Some (Some s') \<and> okA s0 s'"
proof -
  have i: "lit_inv s0 (nr x) (st x)" using assms okB_start by (simp add: lit_inv_def)
  moreover have "lit_size (nr x) (st x) < rounds s0" using assms(4,5) by (simp add: lit_size_def rounds_def)
  ultimately obtain r where r: "iter (rounds s0) body x = Some r"
    using variant_loop.ends [OF quoted_variant [OF assms(1)]] by blast
  have "\<exists>s'. r = Some s' \<and> okA s0 s'"
  proof (rule iter_rule [where Inv = "\<lambda>x. lit_inv s0 (nr x) (st x)", OF r i])
    fix y
    assume "lit_inv s0 (nr y) (st y)"
    from quoted_round [OF assms(1) this]
    show "case body y of Inl z \<Rightarrow> lit_inv s0 (nr z) (st z) | Inr q \<Rightarrow> \<exists>s'. q = Some s' \<and> okA s0 s'"
      by (cases "body y") simp_all
  qed
  with r show ?thesis by blast
qed

end

lemma lit_read:
  assumes "\<not> s_eof s0" "lit_inv s0 noread s"
  defines "s1 \<equiv> (if \<not> noread then s_read s else s)"
  shows "okA s0 s1" and "s_cur s1 \<noteq> -1 \<Longrightarrow> lit_size False (writeCur s1) < lit_size noread s"
    and "s_cur s1 \<noteq> -1 \<Longrightarrow> remaining s' < remaining s1 \<Longrightarrow> lit_size nr s' < lit_size noread s"
proof -
  show a: "okA s0 s1" using assms by (auto simp: lit_inv_def)
  have "remaining (s_read s) < remaining s" if "s_cur (s_read s) \<noteq> -1"
    using that remaining_read [of s] cur_not_eof [of s] assms(1,2) wf_read
    by (cases "s_eof s") (auto simp: lit_inv_def okA_def okB_def wf_s_def s_read_def split: if_splits)
  then show "s_cur s1 \<noteq> -1 \<Longrightarrow> lit_size False (writeCur s1) < lit_size noread s"
    and "s_cur s1 \<noteq> -1 \<Longrightarrow> remaining s' < remaining s1 \<Longrightarrow> lit_size nr s' < lit_size noread s"
    by (auto simp: s1_def lit_size_def)
qed

lemma lit_escape:
  assumes "\<not> s_eof s0" "lit_inv s0 noread s"
  defines "s1 \<equiv> (if \<not> noread then s_read s else s)"
  assumes "s_cur s1 = 0x5C" "q \<noteq> -1"
  obtains ok s2 where "scanEscape q s1 = Some (ok, s2)" "lit_inv s0 (\<not> ok) s2" "lit_size (\<not> ok) s2 < lit_size noread s"
proof -
  note r = lit_read [OF assms(1,2), folded s1_def]
  obtain ok s2 where e: "scanEscape q s1 = Some (ok, s2)" "okEsc s0 ok s2" "remaining s2 < remaining s1"
    using scanEscape_ok [OF assms(1) r(1) assms(4,5)] by blast
  have "lit_inv s0 (\<not> ok) s2" using e(2) okE_okA by (auto simp: lit_inv_def okEsc_def split: if_splits)
  moreover have "lit_size (\<not> ok) s2 < lit_size noread s"
    using r(3) [of s2 "\<not> ok"] e(3) assms(4) by simp
  ultimately show ?thesis using that e(1) by blast
qed

lemma okA_close: "\<not> s_eof s0 \<Longrightarrow> okA s0 s \<Longrightarrow> s_cur s \<noteq> -1 \<Longrightarrow> okA s0 (ignoreCaseSuffix (s_read (writeCur s)))"
  using okA_step by blast

interpretation classLoop: quoted_loop classBody fst snd
proof
  fix s0 and x :: "bool \<times> scanner"
  assume a: "\<not> s_eof s0" "lit_inv s0 (fst x) (snd x)"
  define t where "t = (if \<not> fst x then s_read (snd x) else snd x)"
  note r = lit_read [OF a, folded t_def]
  show "case classBody x of
      Inl y \<Rightarrow> lit_inv s0 (fst y) (snd y) \<and> lit_size (fst y) (snd y) < lit_size (fst x) (snd x)
    | Inr r \<Rightarrow> \<exists>s'. r = Some s' \<and> okA s0 s'"
  proof (cases "s_cur t = 0x5C")
    case True
    then obtain ok s2 where "scanEscape 0x5D t = Some (ok, s2)" "lit_inv s0 (\<not> ok) s2"
        "lit_size (\<not> ok) s2 < lit_size (fst x) (snd x)"
      using lit_escape [OF a, folded t_def, of "0x5D"] by auto
    with True show ?thesis by (simp add: classBody_def Let_def split_beta flip: t_def)
  next
    case False
    with r okA_close [OF a(1) r(1)] okA_write [OF r(1)] show ?thesis
      by (auto simp: classBody_def Let_def split_beta lit_inv_def simp flip: t_def)
  qed
qed

interpretation stringLoop: quoted_loop stringBody fst snd
proof
  fix s0 and x :: "bool \<times> scanner"
  assume a: "\<not> s_eof s0" "lit_inv s0 (fst x) (snd x)"
  define t where "t = (if \<not> fst x then s_read (snd x) else snd x)"
  note r = lit_read [OF a, folded t_def]
  show "case stringBody x of
      Inl y \<Rightarrow> lit_inv s0 (fst y) (snd y) \<and> lit_size (fst y) (snd y) < lit_size (fst x) (snd x)
    | Inr r \<Rightarrow> \<exists>s'. r = Some s' \<and> okA s0 s'"
  proof (cases "s_cur t = 0x5C")
    case True
    then obtain ok s2 where "scanEscape 0x22 t = Some (ok, s2)" "lit_inv s0 (\<not> ok) s2"
        "lit_size (\<not> ok) s2 < lit_size (fst x) (snd x)"
      using lit_escape [OF a, folded t_def, of "0x22"] by auto
    with True show ?thesis by (simp add: stringBody_def Let_def split_beta flip: t_def)
  next
    case False
    with r okA_close [OF a(1) r(1)] okA_write [OF r(1)] show ?thesis
      by (auto simp: stringBody_def Let_def split_beta lit_inv_def simp flip: t_def)
  qed
qed

interpretation charLoop: quoted_loop charBody "\<lambda>x. fst (snd x)" "\<lambda>x. snd (snd x)"
proof
  fix s0 and x :: "nat \<times> bool \<times> scanner"
  assume a: "\<not> s_eof s0" "lit_inv s0 (fst (snd x)) (snd (snd x))"
  define t where "t = (if \<not> fst (snd x) then s_read (snd (snd x)) else snd (snd x))"
  note r = lit_read [OF a, folded t_def]
  show "case charBody x of
      Inl y \<Rightarrow> lit_inv s0 (fst (snd y)) (snd (snd y)) \<and>
        lit_size (fst (snd y)) (snd (snd y)) < lit_size (fst (snd x)) (snd (snd x))
    | Inr r \<Rightarrow> \<exists>s'. r = Some s' \<and> okA s0 s'"
  proof (cases "s_cur t = 0x5C")
    case True
    then obtain ok s2 where "scanEscape 0x27 t = Some (ok, s2)" "lit_inv s0 (\<not> ok) s2"
        "lit_size (\<not> ok) s2 < lit_size (fst (snd x)) (snd (snd x))"
      using lit_escape [OF a, folded t_def, of "0x27"] by auto
    with True show ?thesis by (simp add: charBody_def Let_def split_beta flip: t_def)
  next
    case False
    have "okA s0 (ignoreCaseSuffix (errorf e (s_read (writeCur t))))" if "s_cur t = 0x27" for e
      using okA_suffix [OF a(1) okA_errorf [OF okA_step [OF a(1) r(1)]]] that by simp
    with False r okA_close [OF a(1) r(1)] okA_write [OF r(1)] show ?thesis
      by (auto simp: charBody_def Let_def split_beta lit_inv_def simp flip: t_def)
  qed
qed

section \<open>The other loops\<close>

interpretation whitespace: variant_loop whitespaceBody wf_s remaining
  using remaining_read cur_not_eof
  by unfold_locales (auto simp: whitespaceBody_def split: if_splits)

interpretation identLoop: variant_loop "identBody U" wf_s remaining for U
proof
  fix x y
  assume a: "wf_s x" "identBody U x = Inl y"
  then have "s_cur x \<noteq> -1" by (auto simp: identBody_def isLetter_def isDigit_def split: if_splits)
  with a show "wf_s y \<and> remaining y < remaining x"
    using remaining_read [of "writeCur x"] cur_not_eof [of x] by (auto simp: identBody_def split: if_splits)
qed

interpretation commentLoop: variant_loop "commentBody ml" "\<lambda>(c, s). wf_s s \<and> s_cur s \<noteq> -1" "\<lambda>(c, s). remaining s" for ml
proof
  fix x y
  assume "case x of (c, s) \<Rightarrow> wf_s s \<and> s_cur s \<noteq> -1" "commentBody ml x = Inl y"
  then show "(case y of (c, s) \<Rightarrow> wf_s s \<and> s_cur s \<noteq> -1) \<and>
      (case y of (c, s) \<Rightarrow> remaining s) < (case x of (c, s) \<Rightarrow> remaining s)"
    using remaining_read [of "writeCur (snd x)"] cur_not_eof [of "snd x"]
    by (auto simp: commentBody_def Let_def split: if_splits)
qed

lemma read_less: "wf_s s \<Longrightarrow> s_cur (s_read s) \<noteq> -1 \<Longrightarrow> remaining (s_read s) < remaining s"
  using remaining_read [of s] by (cases "s_eof s") (auto simp: s_read_def wf_s_def)

interpretation codeLoop: variant_loop codeBody "\<lambda>(d, s). wf_s s" "\<lambda>(d, s). remaining s"
proof
  fix x y
  assume "case x of (d, s) \<Rightarrow> wf_s s" "codeBody x = Inl y"
  then show "(case y of (d, s) \<Rightarrow> wf_s s) \<and>
      (case y of (d, s) \<Rightarrow> remaining s) < (case x of (d, s) \<Rightarrow> remaining s)"
    using read_less [of "snd x"] by (auto simp: codeBody_def Let_def split: if_splits)
qed

interpretation rawLoop: variant_loop rawBody "\<lambda>(c, s). wf_s s" "\<lambda>(c, s). remaining s"
proof
  fix x y
  assume "case x of (c, s) \<Rightarrow> wf_s s" "rawBody x = Inl y"
  then show "(case y of (c, s) \<Rightarrow> wf_s s) \<and>
      (case y of (c, s) \<Rightarrow> remaining s) < (case x of (c, s) \<Rightarrow> remaining s)"
    using read_less [of "snd x"] by (auto simp: rawBody_def Let_def split: if_splits)
qed

lemma char_of_not_CR: "(x::int) \<noteq> 0x0D \<Longrightarrow> 0 \<le> x \<Longrightarrow> x < 256 \<Longrightarrow> CHR 0x0D \<noteq> char_of x"
proof
  assume x: "x \<noteq> 0x0D" "0 \<le> x" "x < 256" and "CHR 0x0D = char_of x"
  then have "(of_char (CHR 0x0D) :: int) = of_char (char_of x :: char)" by simp
  then have "(13 :: int) = x mod 256" by (simp only: of_char_of) simp
  with x show False by simp
qed

lemma tail_byte_not_CR: "CHR 0x0D \<noteq> char_of (128 + (y::int) mod 64)"
proof (rule char_of_not_CR)
  have "0 \<le> y mod 64" "y mod 64 < 64" by simp_all
  then show "128 + y mod 64 \<noteq> 0x0D" "0 \<le> 128 + y mod 64" "128 + y mod 64 < 256" by linarith+
qed

lemma head_byte_not_CR: "0 \<le> (y::int) \<Longrightarrow> 64 \<le> b \<Longrightarrow> b + y < 256 \<Longrightarrow> CHR 0x0D \<noteq> char_of (b + y)"
  by (rule char_of_not_CR) linarith+

lemma encodeValid_no_CR: "validRune r \<Longrightarrow> r \<noteq> 0x0D \<Longrightarrow> CHR 0x0D \<notin> set (encodeValid r)"
proof -
  assume r: "validRune r" "r \<noteq> 0x0D"
  then have b: "0 \<le> r" "r \<le> 1114111" by (auto simp: validRune_def)
  have "CHR 0x0D \<noteq> char_of (240 + r div 262144)"
    by (rule head_byte_not_CR) (use b in linarith)+
  moreover have "CHR 0x0D \<noteq> char_of (224 + r div 4096)" if "r < 65536"
    by (rule head_byte_not_CR) (use b that in linarith)+
  moreover have "CHR 0x0D \<noteq> char_of (192 + r div 64)" if "r < 2048"
    by (rule head_byte_not_CR) (use b that in linarith)+
  moreover have "CHR 0x0D \<noteq> char_of r" if "r < 128"
    by (rule char_of_not_CR) (use b r(2) that in auto)
  ultimately show ?thesis
    using tail_byte_not_CR unfolding encodeValid_def by (simp del: char_of_eq_iff)
qed

lemma encodeRune_no_CR: "r \<noteq> 0x0D \<Longrightarrow> CHR 0x0D \<notin> set (encodeRune r)"
  unfolding encodeRune_def by (intro encodeValid_no_CR) (auto simp: validRune_def)

section \<open>Tokens\<close>

definition text_of :: "tid \<Rightarrow> rune list \<Rightarrow> gobytes" where
  "text_of t xs = (if t = rstr then stripCR (string_of_runes xs) else string_of_runes xs)"

definition good_tok :: "scanner \<Rightarrow> (token \<times> scanner) option \<Rightarrow> bool" where
  "good_tok s0 r \<longleftrightarrow> (\<exists>t s'. r = Some (t, s') \<and> id_of t \<noteq> eof \<and> tok_pos t = cpos s0 \<and> wf_s s' \<and>
     remaining s' < remaining s0 \<and> length (serrs s0) \<le> length (serrs s') \<and>
     (length (serrs s') = length (serrs s0) \<longrightarrow> (\<exists>xs. pend s0 = xs @ pend s' \<and> lit t = text_of (id_of t) xs)))"

lemma good_tokI:
  assumes "okA s0 s'" "t \<noteq> eof" "t \<noteq> rstr"
  shows "good_tok s0 (Some (\<lparr>id_of = t, lit = tokb s', tok_pos = cpos s0\<rparr>, s'))"
  using assms by (auto simp: good_tok_def okA_def text_of_def)

lemma quoted_tok:
  assumes "\<exists>s'. iter (rounds s) body x = Some (Some s') \<and> okA s s'" "t \<noteq> eof" "t \<noteq> rstr"
  shows "good_tok s (withId t (cpos s) (map_option (\<lambda>s1. (tokb s1, s1)) (Option.bind (iter (rounds s) body x) id)))"
  using assms good_tokI by (auto simp: withId_def)

lemma ident_tok:
  assumes "wf_s s" "isLetter U (s_cur s)"
  shows "\<exists>s'. scanIdentifier U s = Some (tokb s', s') \<and> okA s s'"
proof -
  have c: "s_cur s \<noteq> -1" using assms(2) by (auto simp: isLetter_def)
  then have ne: "\<not> s_eof s" by (rule cur_not_eof [OF assms(1)])
  let ?u = "s_read (writeCur (resetTok s))"
  have u: "okA s ?u" using okB_read [OF ne okB_start [OF assms(1) c]] .
  then have "wf_s ?u" "remaining ?u < remaining s" by (simp_all add: okA_def)
  then obtain s' where i: "iter (remaining s) (identBody U) ?u = Some s'"
    using identLoop.ends by blast
  have "okA s s'"
  proof (rule iter_rule [where Inv = "okA s", OF i u])
    fix y assume y: "okA s y"
    show "case identBody U y of Inl z \<Rightarrow> okA s z | Inr q \<Rightarrow> okA s q"
    proof (cases "isLetter U (s_cur y) \<or> isDigit U (s_cur y)")
      case True
      then have "s_cur y \<noteq> -1" by (auto simp: isLetter_def isDigit_def)
      with True y okA_step [OF ne] show ?thesis by (simp add: identBody_def)
    qed (use y in \<open>simp add: identBody_def\<close>)
  qed
  moreover have "iter (Suc (remaining s)) (identBody U) (resetTok s) = Some s'"
    using i assms(2) by (simp add: identBody_def)
  ultimately show ?thesis by (auto simp: scanIdentifier_def)
qed

lemma code_tok:
  assumes "wf_s s" "s_cur s \<noteq> -1"
  shows "\<exists>s'. scanCode s = Some (tokb s', s') \<and> okA s s'"
proof -
  have ne: "\<not> s_eof s" by (rule cur_not_eof [OF assms])
  have b: "okB s (writeCur (resetTok s))" by (rule okB_start [OF assms])
  obtain s' where i: "iter (Suc (remaining s)) codeBody (1, writeCur (resetTok s)) = Some s'"
    using codeLoop.ends [of "(1, writeCur (resetTok s))" "Suc (remaining s)"] assms(1) by auto
  have "okA s s'"
  proof (rule iter_rule [where Inv = "\<lambda>(d, t). okB s t", OF i])
    fix y :: "int \<times> scanner"
    assume "case y of (d, t) \<Rightarrow> okB s t"
    then have t: "okA s (s_read (snd y))" using okB_read [OF ne] by (cases y) auto
    then have "okA s (s_read (writeCur (s_read (snd y))))" "okB s (writeCur (s_read (snd y)))"
      if "s_cur (s_read (snd y)) \<noteq> -1" using that okA_step [OF ne] okA_write by auto
    with t okA_errorf_write [OF t] show "case codeBody y of Inl (d, t) \<Rightarrow> okB s t | Inr q \<Rightarrow> okA s q"
      by (auto simp: codeBody_def Let_def split_beta)
  qed (use b in simp)
  with i show ?thesis by (auto simp: scanCode_def)
qed

lemma raw_tok:
  assumes "wf_s s" "s_cur s \<noteq> -1" "s_cur s \<noteq> 0x0D"
  shows "good_tok s (withId rstr (cpos s) (scanRawString s))"
proof -
  have ne: "\<not> s_eof s" by (rule cur_not_eof [OF assms(1,2)])
  have b: "okB s (writeCur (resetTok s))" by (rule okB_start [OF assms(1,2)])
  define noCR where "noCR = (\<lambda>c (t :: scanner). \<not> c \<longrightarrow> CHR 0x0D \<notin> set (tokb t))"
  have w: "noCR c (writeCur t)" if "noCR c t" "s_cur t \<noteq> 0x0D" for c t
    using that encodeRune_no_CR by (auto simp: noCR_def)
  have r: "noCR c (s_read t) = noCR c t" "noCR c (errorf e t) = noCR c t" for c t e
    by (simp_all add: noCR_def errorf_def)
  have sf: "noCR c (ignoreCaseSuffix t)" if "noCR c t" for c t
    using that w [of c t] r by (simp add: ignoreCaseSuffix_def)
  obtain q where i: "iter (Suc (remaining s)) rawBody (False, writeCur (resetTok s)) = Some q"
    using rawLoop.ends [of "(False, writeCur (resetTok s))" "Suc (remaining s)"] assms(1) by auto
  have "case q of (c, t) \<Rightarrow> okA s t \<and> noCR c t"
  proof (rule iter_rule [where Inv = "\<lambda>(c, t). okB s t \<and> noCR c t", OF i])
    show "case (False, writeCur (resetTok s)) of (c, t) \<Rightarrow> okB s t \<and> noCR c t"
      using b w [of False "resetTok s"] assms(3) by (simp add: noCR_def)
    fix y :: "bool \<times> scanner"
    assume y: "case y of (c, t) \<Rightarrow> okB s t \<and> noCR c t"
    define u where "u = s_read (snd y)"
    have a: "okA s u" and n: "noCR (fst y) u" using y okB_read [OF ne] r unfolding u_def by (cases y; auto)+
    have "noCR (fst y) (ignoreCaseSuffix (s_read (writeCur u)))" if "s_cur u = 0x60"
      using sf r w [OF n] that by simp
    moreover have "noCR True t" for t by (simp add: noCR_def)
    ultimately show "case rawBody y of Inl (c, t) \<Rightarrow> okB s t \<and> noCR c t | Inr (c, t) \<Rightarrow> okA s t \<and> noCR c t"
      using a n okA_errorf [OF a] okA_close [OF ne a] okA_write [OF a] w [OF n] r
      by (auto simp: rawBody_def Let_def split_beta simp flip: u_def)
  qed
  moreover have "(if c then stripCR (tokb t) else tokb t) = stripCR (tokb t)" if "noCR c t" for c t
    using that by (auto simp: noCR_def stripCR_def intro!: filter_True [symmetric])
  ultimately show ?thesis using i
    by (auto simp: scanRawString_def withId_def good_tok_def okA_def text_of_def)
qed

lemma comment_tok:
  assumes "wf_s s" "s_cur s = 0x2F" "s_cur (s_read s) = 0x2A \<or> s_cur (s_read s) = 0x2F"
  shows "\<exists>t s'. scanComment (s_read s) = Some (t, tokb s', s') \<and> t \<in> {lcomment, mlcomment} \<and> okA s s'"
proof -
  have ne: "\<not> s_eof s" using cur_not_eof [OF assms(1)] assms(2) by simp
  define s1 where "s1 = writeRune 0x2F (resetTok (s_read s))"
  have b: "okB s (writeCur (resetTok s))" using okB_start [OF assms(1)] assms(2) by simp
  have "pend s1 = pend (s_read s)" "serrs s1 = serrs (s_read s)" "remaining s1 = remaining (s_read s)" "wf_s s1"
    using assms(1) by (simp_all add: s1_def pend_def)
  moreover have "tokb s1 = string_of_runes [0x2F]" by (simp add: s1_def string_of_runes_def)
  ultimately have a: "okA s s1"
    using read_pend [OF assms(1) ne] remaining_read [OF ne] read_errs [of s] assms(2) unfolding okA_def by auto
  have c: "s_cur s1 \<noteq> -1" "s_cur s1 \<noteq> 0x0A" using assms(3) by (auto simp: s1_def)
  obtain q where i: "iter (Suc (remaining s1)) (commentBody (s_cur s1 = 0x2A)) (False, s1) = Some q"
    using commentLoop.ends [of "(False, s1)" "Suc (remaining s1)" "s_cur s1 = 0x2A"] a c(1)
    by (auto simp: okA_def simp del: iter.simps)
  have "case q of (t, u) \<Rightarrow> t \<in> {lcomment, mlcomment} \<and> okA s u"
  proof (rule iter_rule [where Inv = "\<lambda>(c, t). okA s t \<and> s_cur t \<noteq> -1", OF i])
    fix y :: "bool \<times> scanner"
    assume y: "case y of (c, t) \<Rightarrow> okA s t \<and> s_cur t \<noteq> -1"
    define u where "u = s_read (writeCur (snd y))"
    have u: "okA s u" using y okA_step [OF ne] unfolding u_def by (cases y) auto
    show "case commentBody (s_cur s1 = 0x2A) y of Inl (c, t) \<Rightarrow> okA s t \<and> s_cur t \<noteq> -1
        | Inr (t, u) \<Rightarrow> t \<in> {lcomment, mlcomment} \<and> okA s u"
      using u okA_errorf [OF u] okA_step [OF ne u] by (auto simp: commentBody_def Let_def split_beta simp flip: u_def)
  qed (use a c in simp)
  with i c show ?thesis by (auto simp: scanComment_def Let_def simp flip: s1_def)
qed

lemma ruledef_tok:
  assumes "wf_s s" "s_cur s \<noteq> -1"
  shows "okA s (snd (scanRuleDef s))" "fst (scanRuleDef s) = tokb (snd (scanRuleDef s))"
proof -
  have ne: "\<not> s_eof s" by (rule cur_not_eof [OF assms])
  define s2 where "s2 = s_read (writeCur (resetTok s))"
  have a: "okA s s2" unfolding s2_def by (rule okB_read [OF ne okB_start [OF assms]])
  have e: "okA s (s_read (errorf x s2))" "okA s (s_read (errorf x (writeCur s2)))" for x
    using okE_okA [OF okE_read [OF okE_errorf(1) [OF a]]] okE_okA [OF okE_read [OF okE_errorf(2) [OF a]]] by auto
  show "okA s (snd (scanRuleDef s))"
    using a e okA_step [OF ne a] by (auto simp: scanRuleDef_def Let_def simp flip: s2_def)
  show "fst (scanRuleDef s) = tokb (snd (scanRuleDef s))" by (simp add: scanRuleDef_def Let_def)
qed

lemma operator_tok:
  assumes "wf_s s" "s_cur s \<noteq> -1"
  shows "good_tok s (scanOperator (cpos s) s)"
proof -
  have ne: "\<not> s_eof s" by (rule cur_not_eof [OF assms])
  have r: "remaining (s_read s) < remaining s" "wf_s (s_read s)" using remaining_read [OF ne] assms(1) by auto
  have p: "pend s = [s_cur s] @ pend (s_read s)" if "length (serrs (s_read s)) = length (serrs s)"
    using read_pend [OF assms(1) ne that] by simp
  have o: "map_of operators c = Some t \<Longrightarrow> t \<noteq> eof \<and> t \<noteq> rstr" for c t
    by (auto simp: operators_def split: if_splits)
  show ?thesis
  proof (cases "s_cur s = 0x2F \<and> (s_cur (s_read s) = 0x2A \<or> s_cur (s_read s) = 0x2F)")
    case True
    then obtain t s' where "scanComment (s_read s) = Some (t, tokb s', s')" "t \<in> {lcomment, mlcomment}" "okA s s'"
      using comment_tok [OF assms(1)] by blast
    with True good_tokI [of s s' t] show ?thesis by (auto simp: scanOperator_def Let_def)
  next
    case False
    have t: "text_of t [s_cur s] = encodeRune (s_cur s)" if "t \<noteq> rstr" for t
      using that by (simp add: text_of_def string_of_runes_def)
    have "good_tok s (Some (\<lparr>id_of = t, lit = encodeRune (s_cur s), tok_pos = cpos s\<rparr>, s_read s))"
      if "t \<noteq> eof" "t \<noteq> rstr" for t
      using that r p t [of t] read_errs [of s] unfolding good_tok_def by fastforce
    moreover have "good_tok s (Some (\<lparr>id_of = invalid, lit = encodeRune (s_cur s), tok_pos = cpos s\<rparr>, errorf e (s_read s)))" for e
      using r read_errs [of s] by (simp add: good_tok_def errorf_def)
    ultimately show ?thesis using False o by (auto simp: scanOperator_def Let_def split: option.split)
  qed
qed

lemma scanToken_good:
  assumes "wf_s s" "\<not> s_eof s" "s_cur s \<noteq> -1"
  shows "good_tok s (scanToken U s)"
proof -
  note start = assms(2,1,3)
  have q: "good_tok s (withId char_tok (cpos s) (scanChar s))" "good_tok s (withId str (cpos s) (scanString s))"
      "good_tok s (withId cls (cpos s) (scanClass s))"
    unfolding scanChar_def scanString_def scanClass_def
    by (intro quoted_tok charLoop.quoted_ends stringLoop.quoted_ends classLoop.quoted_ends start; simp)+
  have c: "good_tok s (withId code (cpos s) (scanCode s))"
    using code_tok [OF assms(1,3)] good_tokI [of s _ code] by (auto simp: withId_def)
  have d: "good_tok s (withId ruledef (cpos s) (Some (scanRuleDef s)))"
    using ruledef_tok [OF assms(1,3)] good_tokI [of s _ ruledef] by (auto simp: withId_def split_beta)
  have i: "good_tok s (scanIdentToken U (cpos s) s)" if l: "isLetter U (s_cur s)"
  proof -
    obtain s' where s': "scanIdentifier U s = Some (tokb s', s')" "okA s s'" using ident_tok [OF assms(1) l] by blast
    have "good_tok s (Some (\<lparr>id_of = ident, lit = tokb s', tok_pos = cpos s\<rparr>, errorpf p e s'))" for p e
      using s'(2) by (simp add: good_tok_def okA_def)
    with s' good_tokI [of s s' ident] show ?thesis by (simp add: scanIdentToken_def withId_def)
  qed
  show ?thesis
    unfolding scanToken_def Let_def
    using assms(2) q c d i raw_tok [OF assms(1,3)] operator_tok [OF assms(1,3)] by simp
qed

definition text_left :: "scanner \<Rightarrow> rune list" where
  "text_left s = (if s_eof s then [] else (if s_cur s = -1 then [] else [s_cur s]) @ map fst (src s))"

definition blanks :: "rune list \<Rightarrow> bool" where
  "blanks ws \<longleftrightarrow> set ws \<subseteq> {0x20, 0x09, 0x0D}"

definition same_text :: "scanner \<Rightarrow> scanner \<Rightarrow> bool" where
  "same_text s s' \<longleftrightarrow> wf_s s' \<and> remaining s' \<le> remaining s \<and> length (serrs s) \<le> length (serrs s') \<and>
     (length (serrs s') = length (serrs s) \<longrightarrow> (\<exists>ws. blanks ws \<and> text_left s = ws @ text_left s'))"

lemma skip_ok:
  assumes "wf_s s"
  obtains s' where "skipWhitespace s = Some s'" "same_text s s'" "s_eof s \<or> s_cur s \<noteq> -1 \<longrightarrow> s_eof s' \<or> s_cur s' \<noteq> -1"
proof -
  obtain s' where i: "iter (Suc (remaining s)) whitespaceBody s = Some s'"
    using whitespace.ends [OF assms, of "Suc (remaining s)"] by auto
  have "same_text s s' \<and> (s_eof s \<or> s_cur s \<noteq> -1 \<longrightarrow> s_eof s' \<or> s_cur s' \<noteq> -1)"
  proof (rule iter_rule [where Inv = "\<lambda>t. same_text s t \<and> (s_eof s \<or> s_cur s \<noteq> -1 \<longrightarrow> s_eof t \<or> s_cur t \<noteq> -1)", OF i])
    show "same_text s s \<and> (s_eof s \<or> s_cur s \<noteq> -1 \<longrightarrow> s_eof s \<or> s_cur s \<noteq> -1)"
      using assms by (auto simp: same_text_def blanks_def)
    fix y assume y: "same_text s y \<and> (s_eof s \<or> s_cur s \<noteq> -1 \<longrightarrow> s_eof y \<or> s_cur y \<noteq> -1)"
    have "same_text s (s_read y) \<and> (s_eof (s_read y) \<or> s_cur (s_read y) \<noteq> -1)"
      if w: "s_cur y \<in> {0x20, 0x09, 0x0D}"
    proof -
      have wf: "wf_s y" using y by (simp add: same_text_def)
      have ne: "\<not> s_eof y" using cur_not_eof [OF wf] w by auto
      have l: "text_left y = s_cur y # text_left (s_read y)" if "length (serrs (s_read y)) = length (serrs y)"
        using read_pend [OF wf ne that] read_cur [OF wf] ne w by (auto simp: text_left_def pend_def split: if_splits)
      have "\<exists>ws. blanks ws \<and> text_left s = ws @ text_left (s_read y)"
        if e: "length (serrs (s_read y)) = length (serrs s)"
      proof -
        have "length (serrs y) = length (serrs s)" using y e read_errs [of y] by (simp add: same_text_def)
        moreover from this obtain ws where "blanks ws" "text_left s = ws @ text_left y"
          using y by (auto simp: same_text_def)
        ultimately show ?thesis using l e w by (intro exI [of _ "ws @ [s_cur y]"]) (auto simp: blanks_def)
      qed
      moreover have "remaining (s_read y) \<le> remaining s" "length (serrs s) \<le> length (serrs (s_read y))"
        using y read_errs [of y] remaining_read_le [of y] unfolding same_text_def by linarith+
      ultimately show ?thesis using wf read_cur [OF wf] by (auto simp: same_text_def)
    qed
    with y show "case whitespaceBody y of
        Inl z \<Rightarrow> same_text s z \<and> (s_eof s \<or> s_cur s \<noteq> -1 \<longrightarrow> s_eof z \<or> s_cur z \<noteq> -1)
      | Inr q \<Rightarrow> same_text s q \<and> (s_eof s \<or> s_cur s \<noteq> -1 \<longrightarrow> s_eof q \<or> s_cur q \<noteq> -1)"
      by (auto simp: whitespaceBody_def)
  qed
  with i that show ?thesis by (auto simp: skipWhitespace_def)
qed

end
