(* ===== verification/Peg_Scan_Properties.thy ===== *)
theory Peg_Scan_Properties
  imports Peg_Scan_Proofs
begin

text \<open>
  What the bootstrap parser relies on: \<open>Scan\<close> always returns, makes progress, keeps positions in
  step with the input and loses no text; and the two places where it departs from Go's own scanner.
\<close>

section \<open>Properties every scanner operation keeps\<close>

locale scan_invariant =
  fixes P :: "scanner \<Rightarrow> bool"
  assumes inv_read: "P s \<Longrightarrow> P (s_read s)"
    and inv_write: "P (s\<lparr>tokb := b\<rparr>) = P s"
    and inv_error: "P s \<Longrightarrow> P (errorpf p e s)"
begin

lemma inv_basic [simp]: "P (writeRune r s) = P s" "P (writeCur s) = P s" "P (resetTok s) = P s"
  by (simp_all add: writeRune_def writeCur_def resetTok_def inv_write)

lemma inv_errorf: "P s \<Longrightarrow> P (errorf e s)"
  by (simp add: errorf_def inv_error)

lemma inv_iter:
  assumes "iter n body x = Some r" "P (st x)" "\<And>y. P (st y) \<Longrightarrow> case body y of Inl z \<Rightarrow> P (st z) | Inr q \<Rightarrow> P (fin q)"
  shows "P (fin r)"
  using iter_rule [of n body x r "\<lambda>x. P (st x)" "\<lambda>q. P (fin q)"] assms by blast

lemma inv_escDigits: "P s \<Longrightarrow> P (snd (escDigits n base x s))"
proof (induction n arbitrary: x s)
  case (Suc n)
  then show ?case
    using Suc.IH [of "writeCur s"] Suc.IH [of "s_read (writeCur s)"] inv_read [of "writeCur s"]
      inv_errorf [of "writeCur s"] inv_read [OF inv_errorf [of "writeCur s"]]
    by (simp add: Let_def)
qed simp

lemma inv_escNumber: "P s \<Longrightarrow> P (snd (escNumber n base mx s))"
  using inv_escDigits [of s n base 0] inv_read inv_errorf
  by (auto simp: escNumber_def split: prod.split option.split)

lemma inv_escClass: "P s \<Longrightarrow> escClass s = Some r \<Longrightarrow> P (snd r)"
proof (cases "s_cur s = 0x7B")
  case True
  assume s: "P s" and "escClass s = Some r"
  then have "iter (Suc (remaining s)) classNameBody (0, s) = Some r" using True by (simp add: escClass_def)
  then show "P (snd r)"
    by (rule inv_iter [where st = snd])
      (use s inv_read [of "writeCur _"] in \<open>simp_all add: classNameBody_def Let_def split_beta inv_errorf\<close>)
qed (auto simp: escClass_def inv_errorf split: if_splits)

lemma inv_scanEscape: "P s \<Longrightarrow> scanEscape q s = Some r \<Longrightarrow> P (snd r)"
proof -
  assume s: "P s" and r: "scanEscape q s = Some r"
  define t where "t = s_read (writeCur s)"
  have t: "P t" using s inv_read [of "writeCur s"] by (simp add: t_def)
  define u where "u = s_read (writeCur t)"
  have u: "P u" using t inv_read [of "writeCur t"] by (simp add: u_def)
  have e: "P (errorf x (writeCur t))" "P (s_read (errorf x (writeCur t)))" for x
    using t inv_errorf [of "writeCur t"] inv_read by auto
  show "P (snd r)"
    using r t u e inv_escNumber [OF t] inv_escNumber [OF u] inv_escClass [OF u]
    unfolding scanEscape_def Let_def t_def [symmetric] u_def [symmetric]
    by (auto split: if_splits)
qed

lemma inv_quoted:
  assumes "iter n body x = Some (Some s')" "P (st x)"
    and "\<And>y. P (st y) \<Longrightarrow> case body y of Inl z \<Rightarrow> P (st z) | Inr q \<Rightarrow> q = None \<or> (\<exists>s'. q = Some s' \<and> P s')"
  shows "P s'"
  using iter_rule [of n body x "Some s'" "\<lambda>x. P (st x)" "\<lambda>q. q = None \<or> (\<exists>s'. q = Some s' \<and> P s')"] assms by auto

lemma inv_suffix: "P s \<Longrightarrow> P (ignoreCaseSuffix s)"
  using inv_read [of "writeCur s"] by (simp add: ignoreCaseSuffix_def)

lemma inv_escape_round:
  "P s \<Longrightarrow> case (case scanEscape q s of None \<Rightarrow> Inr None | Some (ok, s2) \<Rightarrow> Inl (f ok s2)) of
     Inl z \<Rightarrow> \<exists>ok s2. z = f ok s2 \<and> P s2 | Inr r \<Rightarrow> r = None"
  using inv_scanEscape by (fastforce split: option.split)

lemma inv_literals:
  "P s \<Longrightarrow> scanClass s = Some (l, s') \<Longrightarrow> P s'" "P s \<Longrightarrow> scanString s = Some (l, s') \<Longrightarrow> P s'"
  "P s \<Longrightarrow> scanChar s = Some (l, s') \<Longrightarrow> P s'"
proof -
  have close: "P (ignoreCaseSuffix (s_read (writeCur t)))" if "P t" for t
    using that inv_read [of "writeCur t"] inv_suffix by simp
  have first: "P (if \<not> nr then s_read t else t)" if "P t" for nr t using that inv_read by simp
  have q: "case classBody y of Inl z \<Rightarrow> P (snd z) | Inr q \<Rightarrow> q = None \<or> (\<exists>s'. q = Some s' \<and> P s')"
      "case stringBody y of Inl z \<Rightarrow> P (snd z) | Inr q \<Rightarrow> q = None \<or> (\<exists>s'. q = Some s' \<and> P s')" if y: "P (snd y)" for y
  proof -
    define t where "t = (if \<not> fst y then s_read (snd y) else snd y)"
    have t: "P t" using first [OF y, of "fst y"] by (simp add: t_def)
    show "case classBody y of Inl z \<Rightarrow> P (snd z) | Inr q \<Rightarrow> q = None \<or> (\<exists>s'. q = Some s' \<and> P s')"
      "case stringBody y of Inl z \<Rightarrow> P (snd z) | Inr q \<Rightarrow> q = None \<or> (\<exists>s'. q = Some s' \<and> P s')"
      using t close [OF t] inv_errorf [OF t] inv_scanEscape [OF t]
      by (auto simp: classBody_def stringBody_def Let_def split_beta simp flip: t_def split: option.split)
  qed
  have c: "case charBody y of Inl z \<Rightarrow> P (snd (snd z)) | Inr q \<Rightarrow> q = None \<or> (\<exists>s'. q = Some s' \<and> P s')"
    if y: "P (snd (snd y))" for y
  proof -
    define t where "t = (if \<not> fst (snd y) then s_read (snd (snd y)) else snd (snd y))"
    have t: "P t" using first [OF y, of "fst (snd y)"] by (simp add: t_def)
    have "P (ignoreCaseSuffix (errorf e (s_read (writeCur t))))" for e
      using t inv_read [of "writeCur t"] inv_suffix inv_errorf by simp
    then show ?thesis using t close [OF t] inv_errorf [OF t] inv_scanEscape [OF t]
      by (auto simp: charBody_def Let_def split_beta simp flip: t_def split: option.split)
  qed
  show "P s \<Longrightarrow> scanClass s = Some (l, s') \<Longrightarrow> P s'" "P s \<Longrightarrow> scanString s = Some (l, s') \<Longrightarrow> P s'"
    by (auto simp: scanClass_def scanString_def bind_eq_Some_conv simp del: iter.simps intro: inv_quoted [where st = snd, OF _ _ q(1)]
        inv_quoted [where st = snd, OF _ _ q(2)] split: option.splits)
  show "P s \<Longrightarrow> scanChar s = Some (l, s') \<Longrightarrow> P s'"
    by (auto simp: scanChar_def bind_eq_Some_conv simp del: iter.simps intro: inv_quoted [where st = "\<lambda>x. snd (snd x)", OF _ _ c]
        split: option.splits)
qed

lemma inv_loops:
  "P s \<Longrightarrow> skipWhitespace s = Some s' \<Longrightarrow> P s'" "P s \<Longrightarrow> scanIdentifier U s = Some (l, s') \<Longrightarrow> P s'"
  "P s \<Longrightarrow> scanCode s = Some (l, s') \<Longrightarrow> P s'" "P s \<Longrightarrow> scanRawString s = Some (l, s') \<Longrightarrow> P s'"
  "P s \<Longrightarrow> scanComment s = Some (t, l, s') \<Longrightarrow> P s'"
proof -
  have rw: "P (s_read (writeCur t))" if "P t" for t using that inv_read [of "writeCur t"] by simp
  have w: "case whitespaceBody y of Inl z \<Rightarrow> P z | Inr q \<Rightarrow> P q"
      "case identBody U y of Inl z \<Rightarrow> P z | Inr q \<Rightarrow> P q" if "P y" for y
    using that rw inv_read by (simp_all add: whitespaceBody_def identBody_def)
  have c: "case codeBody y of Inl z \<Rightarrow> P (snd z) | Inr q \<Rightarrow> P q" if "P (snd y)" for y
  proof -
    have "P (s_read (snd y))" using that by (rule inv_read)
    with rw [OF this] inv_errorf [of "writeCur (s_read (snd y))"] show ?thesis
      by (simp add: codeBody_def Let_def split_beta)
  qed
  have r: "case rawBody y of Inl z \<Rightarrow> P (snd z) | Inr q \<Rightarrow> P (snd q)" if "P (snd y)" for y
  proof -
    have "P (s_read (snd y))" using that by (rule inv_read)
    with inv_suffix [OF rw [OF this]] inv_errorf [OF this] show ?thesis
      by (simp add: rawBody_def Let_def split_beta)
  qed
  have m: "case commentBody ml y of Inl z \<Rightarrow> P (snd z) | Inr q \<Rightarrow> P (snd q)" if "P (snd y)" for ml y
    using rw [OF that] rw [OF rw [OF that]] inv_errorf [OF rw [OF that]]
    by (simp add: commentBody_def Let_def split_beta)
  show "P s \<Longrightarrow> skipWhitespace s = Some s' \<Longrightarrow> P s'"
    using iter_rule [of _ whitespaceBody s s' P P] w(1) by (auto simp: skipWhitespace_def simp del: iter.simps)
  show "P s \<Longrightarrow> scanIdentifier U s = Some (l, s') \<Longrightarrow> P s'"
    using iter_rule [of _ "identBody U" "resetTok s" s' P P] w(2) by (auto simp: scanIdentifier_def simp del: iter.simps)
  show "P s \<Longrightarrow> scanCode s = Some (l, s') \<Longrightarrow> P s'"
    using iter_rule [of _ codeBody "(1, writeCur (resetTok s))" s' "\<lambda>y. P (snd y)" P] c by (auto simp: scanCode_def simp del: iter.simps)
  show "P s \<Longrightarrow> scanRawString s = Some (l, s') \<Longrightarrow> P s'"
    using inv_iter [where st = snd and fin = snd, of _ rawBody] r by (fastforce simp: scanRawString_def simp del: iter.simps)
  show "P s \<Longrightarrow> scanComment s = Some (t, l, s') \<Longrightarrow> P s'"
    using inv_iter [where st = snd and fin = snd, of _ "commentBody _"] m inv_errorf
    by (fastforce simp: scanComment_def Let_def simp del: iter.simps split: if_splits)
qed

lemma inv_ruleDef: "P s \<Longrightarrow> P (snd (scanRuleDef s))"
proof -
  assume "P s"
  then have "P (s_read (writeCur (resetTok s)))" using inv_read [of "writeCur (resetTok s)"] by simp
  then show ?thesis using inv_read inv_errorf by (simp add: scanRuleDef_def Let_def)
qed

lemma inv_scanToken:
  assumes "P s" "scanToken U s = Some (t, s')"
  shows "P s'"
proof -
  have i: "P s'" if "scanIdentToken U (cpos s) s = Some (t, s')"
    using that inv_loops(2) [OF assms(1)] inv_error by (auto simp: scanIdentToken_def withId_def split: if_splits)
  have o: "P s'" if "scanOperator (cpos s) s = Some (t, s')"
    using that inv_loops(5) [OF inv_read [OF assms(1)]] inv_read [OF assms(1)] inv_errorf
    by (auto simp: scanOperator_def Let_def split: if_splits option.splits)
  show ?thesis
    using assms i o inv_literals [OF assms(1)] inv_loops [OF assms(1)] inv_ruleDef [OF assms(1)]
    by (auto simp: scanToken_def Let_def withId_def split: if_splits prod.splits)
qed

lemma inv_Scan:
  assumes "P s" "Scan U s = Some (t, s')"
  shows "P s'"
proof -
  define s1 where "s1 = (if \<not> s_eof s \<and> s_cur s = -1 then s_read s else s)"
  have "P s1" using assms(1) inv_read by (simp add: s1_def)
  moreover obtain s2 where "skipWhitespace s1 = Some s2" "scanToken U s2 = Some (t, s')"
    using assms(2) by (auto simp: Scan_def simp flip: s1_def split: Option.bind_splits)
  ultimately show ?thesis using inv_loops(1) inv_scanToken by blast
qed

end

section \<open>Positions\<close>

definition located :: "gobytes \<Rightarrow> scanner \<Rightarrow> bool" where
  "located b s \<longleftrightarrow> Off (cpos s) + s_cw s \<le> length b \<and>
     (\<not> s_eof s \<longrightarrow> src s = runeReader (drop (Off (cpos s) + s_cw s) b)) \<and>
     (s_cur s \<noteq> -1 \<longrightarrow> decodeRune (drop (Off (cpos s)) b) = (s_cur s, s_cw s) \<and> 0 < s_cw s)"

lemma runeReader_fst: "map fst (runeReader b) = runes_of b"
proof (induction b rule: runeReader.induct)
  case (1 b)
  then show ?case by (subst runeReader.simps, subst runes_of.simps) simp
qed

lemma runeReader_Cons:
  assumes "runeReader b = (r, w) # rest"
  shows "decodeRune b = (r, w)" "rest = runeReader (drop w b)" "w \<le> length b" "0 < w"
proof -
  have b: "b \<noteq> []" using assms by (auto simp: runeReader.simps [of b])
  with assms show d: "decodeRune b = (r, w)" and "rest = runeReader (drop w b)"
    by (auto simp: runeReader.simps [of b])
  from decodeRune_width [OF d] b show "w \<le> length b" "0 < w" by auto
qed

lemma located_read:
  assumes "located b s"
  shows "located b (s_read s)"
proof (cases "s_eof s")
  case False
  show ?thesis
  proof (cases "src s")
    case Nil
    with False assms show ?thesis
      by (auto simp: located_def s_read_def fatalError_def Let_def split: option.split)
  next
    case (Cons x rest)
    obtain r w where x: "x = (r, w)" by (cases x)
    have rr: "runeReader (drop (Off (cpos s) + s_cw s) b) = (r, w) # rest"
      using assms False Cons x by (simp add: located_def)
    note c = runeReader_Cons [OF rr]
    have "Off (cpos s) + s_cw s \<le> length b" using assms by (simp add: located_def)
    then have "Off (cpos s) + s_cw s + w \<le> length b" using c(3) by simp
    with c x Cons False show ?thesis by (simp add: located_def s_read_def Let_def add.commute)
  qed
qed (use assms in \<open>simp add: s_read_def\<close>)

interpretation loc: scan_invariant "located b" for b
  by unfold_locales (erule located_read, simp_all add: located_def)

lemma Init_wf: "wf_s (Init f b e)" "located b (Init f b e)"
proof -
  have "0 \<le> fst (decodeRune c)" for c
    using encode_decodeRune(1) [of c "fst (decodeRune c)" "snd (decodeRune c)"]
    by (cases "fst (decodeRune c) = RuneError") (auto simp: validRune_def)
  then have "\<forall>x\<in>set (runeReader c). 0 \<le> fst x" for c
    by (induction c rule: runeReader.induct) (subst runeReader.simps, simp)
  then show "wf_s (Init f b e)" by (simp add: wf_s_def Init_def)
  show "located b (Init f b e)" by (simp add: located_def Init_def)
qed

section \<open>Scan\<close>

lemma located_text:
  assumes "located b s" "s_cur s \<noteq> -1" "\<not> s_eof s"
  shows "text_left s = runes_of (drop (Off (cpos s)) b)"
proof -
  have d: "decodeRune (drop (Off (cpos s)) b) = (s_cur s, s_cw s)" "0 < s_cw s"
      and r: "src s = runeReader (drop (Off (cpos s) + s_cw s) b)"
    using assms by (auto simp: located_def)
  have "drop (Off (cpos s)) b \<noteq> []" using decodeRune_width [OF d(1)] d(2) by auto
  then show ?thesis
    using assms(2,3) d r by (subst runes_of.simps) (simp add: text_left_def runeReader_fst add.commute)
qed

definition settled :: "scanner \<Rightarrow> bool" where
  "settled s \<longleftrightarrow> wf_s s \<and> (s_eof s \<or> s_cur s \<noteq> -1)"

lemma settled_pend: "settled s \<Longrightarrow> pend s = text_left s"
  by (auto simp: settled_def pend_def text_left_def)

text \<open>The first call reads the first rune.\<close>

lemma Scan_first:
  assumes "wf_s s"
  defines "s1 \<equiv> (if \<not> s_eof s \<and> s_cur s = -1 then s_read s else s)"
  shows "settled s1" "remaining s1 \<le> remaining s" "length (serrs s) \<le> length (serrs s1)"
    "length (serrs s1) = length (serrs s) \<Longrightarrow> text_left s = text_left s1"
proof -
  show "settled s1" using assms(1) read_cur [OF assms(1)] by (auto simp: settled_def s1_def)
  show "remaining s1 \<le> remaining s" "length (serrs s) \<le> length (serrs s1)"
    using read_errs by (simp_all add: s1_def)
  assume e: "length (serrs s1) = length (serrs s)"
  show "text_left s = text_left s1"
  proof (cases "\<not> s_eof s \<and> s_cur s = -1")
    case True
    with e have "pend s = s_cur s # pend s1"
      using read_pend [OF assms(1)] by (simp add: s1_def)
    with True settled_pend [OF \<open>settled s1\<close>] show ?thesis by (simp add: pend_def text_left_def)
  next
    case False
    then have "s1 = s" by (auto simp: s1_def)
    then show ?thesis by simp
  qed
qed

lemma token_settled: "good_tok s r \<Longrightarrow> \<exists>t s'. r = Some (t, s')"
  by (auto simp: good_tok_def)

lemma Scan_cases:
  assumes "wf_s s"
  obtains s2 where "same_text s s2" "settled s2" "\<forall>b. located b s \<longrightarrow> located b s2" "Scan U s = scanToken U s2"
    "scanToken U s2 = Some (\<lparr>id_of = eof, lit = [], tok_pos = cpos s2\<rparr>, s2) \<and> s_eof s2
     \<or> good_tok s2 (scanToken U s2) \<and> \<not> s_eof s2"
proof -
  define s1 where "s1 = (if \<not> s_eof s \<and> s_cur s = -1 then s_read s else s)"
  note f = Scan_first [OF assms, folded s1_def]
  obtain s2 where s2: "skipWhitespace s1 = Some s2" "same_text s1 s2" "settled s2"
    using skip_ok [of s1] f(1) unfolding settled_def same_text_def by metis
  have "same_text s s2" using s2(2) f by (auto simp: same_text_def)
  moreover have "Scan U s = scanToken U s2" using s2(1) by (simp add: Scan_def flip: s1_def)
  moreover have "located b s2" if "located b s" for b
    using loc.inv_loops(1) [OF _ s2(1), of b] loc.inv_read [OF that] that by (auto simp: s1_def)
  ultimately show ?thesis
    using that [of s2] s2(3) scanToken_good [of s2 U] by (cases "s_eof s2") (auto simp: settled_def scanToken_def)
qed

lemma Scan_returns:
  assumes "wf_s s"
  shows "\<exists>t s'. Scan U s = Some (t, s') \<and> wf_s s' \<and> (id_of t \<noteq> eof \<longrightarrow> remaining s' < remaining s) \<and>
    (id_of t = eof \<longrightarrow> s_eof s' \<and> lit t = [])"
proof (rule Scan_cases [OF assms, of U])
  fix s2
  assume "same_text s s2" "settled s2" "\<forall>b. located b s \<longrightarrow> located b s2" "Scan U s = scanToken U s2"
    "scanToken U s2 = Some (\<lparr>id_of = eof, lit = [], tok_pos = cpos s2\<rparr>, s2) \<and> s_eof s2
     \<or> good_tok s2 (scanToken U s2) \<and> \<not> s_eof s2"
  then show ?thesis by (fastforce simp: good_tok_def same_text_def settled_def)
qed

lemma Scan_errs:
  assumes "wf_s s" "Scan U s = Some (t, s')"
  shows "length (serrs s) \<le> length (serrs s')"
proof (rule Scan_cases [OF assms(1), of U])
  fix s2
  assume "same_text s s2" "Scan U s = scanToken U s2"
    "scanToken U s2 = Some (\<lparr>id_of = eof, lit = [], tok_pos = cpos s2\<rparr>, s2) \<and> s_eof s2
     \<or> good_tok s2 (scanToken U s2) \<and> \<not> s_eof s2"
  then show ?thesis using assms(2) by (auto simp: good_tok_def same_text_def)
qed

text \<open>
  C12. \<open>Scan\<close> always returns, on every state and whatever the input: none of its loops runs forever.
  Every token other than the end-of-file token consumes input, and the end-of-file token is
  returned only at the end of the input.
\<close>

theorem scan_total_progress:
  assumes "wf_s s"
  shows "\<exists>t s'. Scan U s = Some (t, s') \<and> wf_s s' \<and> (id_of t \<noteq> eof \<longrightarrow> remaining s' < remaining s) \<and>
    (id_of t = eof \<longrightarrow> s_eof s' \<and> lit t = [])"
  using assms by (rule Scan_returns)

theorem scan_total_progress_witness:
  "\<exists>t s'. Scan ascii_env (Init ''f'' ''A = b'' None) = Some (t, s') \<and> id_of t = ident \<and> remaining s' < 6"
proof -
  have "map_option (\<lambda>(t, s'). (id_of t, remaining (Init ''f'' ''A = b'' None)))
      (Scan ascii_env (Init ''f'' ''A = b'' None)) = Some (ident, 6)"
    by code_simp
  then show ?thesis
    using scan_total_progress [OF Init_wf(1), of ascii_env "''f''" "''A = b''" None] by auto
qed

interpretation stl: scan_invariant settled
proof
  fix s assume "settled s"
  then show "settled (s_read s)" using read_cur [of s] by (auto simp: settled_def)
qed (auto simp: settled_def wf_s_def)

lemmas settled_token = stl.inv_scanToken

lemma Scan_text:
  assumes "wf_s s" "Scan U s = Some (t, s')" "length (serrs s') = length (serrs s)"
  obtains ws xs s2 where "blanks ws" "text_left s = ws @ xs @ text_left s'" "lit t = text_of (id_of t) xs"
    "tok_pos t = cpos s2" "same_text s s2" "settled s2" "text_left s2 = xs @ text_left s'"
    "id_of t \<noteq> eof \<Longrightarrow> \<not> s_eof s2" "\<forall>b. located b s \<longrightarrow> located b s2"
proof (rule Scan_cases [OF assms(1), of U])
  fix s2
  assume s2: "same_text s s2" "settled s2" "Scan U s = scanToken U s2"
    and loc: "\<forall>b. located b s \<longrightarrow> located b s2"
    and s2': "scanToken U s2 = Some (\<lparr>id_of = eof, lit = [], tok_pos = cpos s2\<rparr>, s2) \<and> s_eof s2
     \<or> good_tok s2 (scanToken U s2) \<and> \<not> s_eof s2"
  have sc: "scanToken U s2 = Some (t, s')" using s2(3) assms(2) by simp
  have l: "length (serrs s) \<le> length (serrs s2)" "length (serrs s2) \<le> length (serrs s')"
    using s2(1) s2' sc by (auto simp: same_text_def good_tok_def)
  with assms(3) have e: "length (serrs s2) = length (serrs s)" "length (serrs s') = length (serrs s2)" by simp_all
  obtain ws where ws: "blanks ws" "text_left s = ws @ text_left s2" using s2(1) e(1) by (auto simp: same_text_def)
  have st: "settled s'" using s2 sc settled_token by blast
  obtain xs where xs: "text_left s2 = xs @ text_left s'" "lit t = text_of (id_of t) xs" "tok_pos t = cpos s2"
      "id_of t \<noteq> eof \<Longrightarrow> \<not> s_eof s2"
  proof (cases "s_eof s2")
    case True
    with s2' sc show ?thesis by (intro that [of "[]"]) (auto simp: text_of_def)
  next
    case False
    with s2' sc have "good_tok s2 (Some (t, s'))" by auto
    then show ?thesis
      using e(2) settled_pend [OF s2(2)] settled_pend [OF st] False that by (auto simp: good_tok_def)
  qed
  with that ws s2(1,2) loc show ?thesis by auto
qed

text \<open>
  As long as the scanner reports no error it loses no text and its positions are right: the
  text it consumes for a token is blanks followed by the token's literal (for raw strings with
  the carriage returns removed), and the input at the token's byte offset starts with that literal,
  followed by the text left for the next call.
\<close>

lemma scan_lossless:
  assumes "wf_s s" "located b s" "Scan U s = Some (t, s')" "serrs s' = serrs s"
  shows "\<exists>ws xs. blanks ws \<and> text_left s = ws @ xs @ text_left s' \<and> lit t = text_of (id_of t) xs \<and>
    (id_of t \<noteq> eof \<longrightarrow> runes_of (drop (Off (tok_pos t)) b) = xs @ text_left s') \<and> located b s'"
proof -
  obtain ws xs s2 where x: "blanks ws" "text_left s = ws @ xs @ text_left s'" "lit t = text_of (id_of t) xs"
      "tok_pos t = cpos s2" "settled s2" "text_left s2 = xs @ text_left s'" "id_of t \<noteq> eof \<Longrightarrow> \<not> s_eof s2"
      and l2: "located b s2"
    using Scan_text [OF assms(1,3)] assms(2,4) by metis
  have "runes_of (drop (Off (tok_pos t)) b) = xs @ text_left s'" if "id_of t \<noteq> eof"
    using located_text [OF l2] x that by (auto simp: settled_def)
  moreover have "located b s'" by (rule loc.inv_Scan [OF assms(2,3)])
  ultimately show ?thesis using x by blast
qed

section \<open>Scanning a whole file\<close>

text \<open>The loop of the command \<^verbatim>\<open>pegscan\<close>, which prints every token up to and including the last.\<close>

definition pegscanBody :: "unicode_env \<Rightarrow> token list \<times> scanner \<Rightarrow> (token list \<times> scanner) + (token list \<times> scanner) option" where
  "pegscanBody U st =
     (let (toks, s) = st
      in case Scan U s of
           None \<Rightarrow> Inr None
         | Some (tok, s1) \<Rightarrow>
             if id_of tok \<noteq> eof then Inl (toks @ [tok], s1) else Inr (Some (toks @ [tok], s1)))"

definition pegscan :: "unicode_env \<Rightarrow> string \<Rightarrow> gobytes \<Rightarrow> (token list \<times> scanner) option" where
  "pegscan U nm b =
     (let s = Init nm b None
      in Option.bind (iter (Suc (remaining s)) (pegscanBody U) ([], s)) id)"

fun tiles :: "rune list \<Rightarrow> token list \<Rightarrow> rune list \<Rightarrow> bool" where
  "tiles rs [] rest \<longleftrightarrow> rs = rest"
| "tiles rs (t # ts) rest \<longleftrightarrow>
     (\<exists>ws xs rs'. rs = ws @ xs @ rs' \<and> blanks ws \<and> lit t = text_of (id_of t) xs \<and> tiles rs' ts rest)"

lemma tiles_snoc:
  "tiles rs ts mid \<Longrightarrow> mid = ws @ xs @ rest \<Longrightarrow> blanks ws \<Longrightarrow> lit t = text_of (id_of t) xs \<Longrightarrow> tiles rs (ts @ [t]) rest"
proof (induction ts arbitrary: rs)
  case Nil
  then show ?case by auto
next
  case (Cons u ts)
  then show ?case by (simp, blast)
qed

interpretation fileLoop: variant_loop "pegscanBody U" "\<lambda>(ts, s). wf_s s" "\<lambda>(ts, s). remaining s" for U
proof
  fix x y
  assume "case x of (ts, s) \<Rightarrow> wf_s s" "pegscanBody U x = Inl y"
  then show "(case y of (ts, s) \<Rightarrow> wf_s s) \<and> (case y of (ts, s) \<Rightarrow> remaining s) < (case x of (ts, s) \<Rightarrow> remaining s)"
    using Scan_returns [of "snd x" U] by (auto simp: pegscanBody_def split: option.splits if_splits)
qed

lemma pegscan_round:
  assumes "wf_s s" "serrs s = [] \<longrightarrow> tiles rs ts (text_left s)" "list_all (\<lambda>t. id_of t \<noteq> eof) ts"
  shows "case pegscanBody U (ts, s) of
      Inl (ts', s') \<Rightarrow> wf_s s' \<and> (serrs s' = [] \<longrightarrow> tiles rs ts' (text_left s')) \<and> list_all (\<lambda>t. id_of t \<noteq> eof) ts'
    | Inr r \<Rightarrow> \<exists>us e s'. r = Some (us @ [e], s') \<and> list_all (\<lambda>t. id_of t \<noteq> eof) us \<and> id_of e = eof \<and>
        (serrs s' = [] \<longrightarrow> tiles rs (us @ [e]) [])"
proof -
  obtain t s' where t: "Scan U s = Some (t, s')" "wf_s s'" "id_of t = eof \<longrightarrow> s_eof s' \<and> lit t = []"
    using Scan_returns [OF assms(1)] by blast
  have "tiles rs (ts @ [t]) (text_left s')" if e: "serrs s' = []"
  proof -
    have "length (serrs s) \<le> length (serrs s')" using Scan_errs [OF assms(1) t(1)] .
    with e have s: "serrs s = []" by simp
    with e have l: "length (serrs s') = length (serrs s)" by simp
    obtain ws xs where "blanks ws" "text_left s = ws @ xs @ text_left s'" "lit t = text_of (id_of t) xs"
      by (rule Scan_text [OF assms(1) t(1) l])
    with tiles_snoc assms(2) s show ?thesis by blast
  qed
  moreover have "text_left s' = []" if "id_of t = eof" using t(3) that by (simp add: text_left_def)
  ultimately show ?thesis using t(1,2) assms(3) by (auto simp: pegscanBody_def)
qed

text \<open>
  C11. Scanning a file always ends, with exactly one end-of-file token, the last; and when no error
  was reported, the tokens tile the file: its text is the literals of the tokens in order with
  blanks between them and nothing else.
\<close>

theorem pegscan_tiles_file:
  "\<exists>toks e s. pegscan U nm b = Some (toks @ [e], s) \<and> id_of e = eof \<and> list_all (\<lambda>t. id_of t \<noteq> eof) toks \<and>
     (serrs s = [] \<longrightarrow> tiles (runes_of b) (toks @ [e]) [])"
proof -
  let ?i = "Init nm b None"
  have wf: "wf_s ?i" by (rule Init_wf)
  have l: "text_left ?i = runes_of b" by (simp add: text_left_def Init_def runeReader_fst)
  obtain r where r: "iter (Suc (remaining ?i)) (pegscanBody U) ([], ?i) = Some r"
    using fileLoop.ends [of "([], ?i)" "Suc (remaining ?i)" U] wf by (auto simp del: iter.simps)
  have "\<exists>us e s'. r = Some (us @ [e], s') \<and> list_all (\<lambda>t. id_of t \<noteq> eof) us \<and> id_of e = eof \<and>
      (serrs s' = [] \<longrightarrow> tiles (runes_of b) (us @ [e]) [])"
  proof (rule iter_rule [OF r, where Inv = "\<lambda>(ts, s). wf_s s \<and> (serrs s = [] \<longrightarrow> tiles (runes_of b) ts (text_left s)) \<and>
      list_all (\<lambda>t. id_of t \<noteq> eof) ts"])
    fix y :: "token list \<times> scanner"
    assume "case y of (ts, s) \<Rightarrow> wf_s s \<and> (serrs s = [] \<longrightarrow> tiles (runes_of b) ts (text_left s)) \<and>
      list_all (\<lambda>t. id_of t \<noteq> eof) ts"
    then show "case pegscanBody U y of
        Inl (ts, s) \<Rightarrow> wf_s s \<and> (serrs s = [] \<longrightarrow> tiles (runes_of b) ts (text_left s)) \<and> list_all (\<lambda>t. id_of t \<noteq> eof) ts
      | Inr r \<Rightarrow> \<exists>us e s'. r = Some (us @ [e], s') \<and> list_all (\<lambda>t. id_of t \<noteq> eof) us \<and> id_of e = eof \<and>
          (serrs s' = [] \<longrightarrow> tiles (runes_of b) (us @ [e]) [])"
      using pegscan_round [of "snd y" "runes_of b" "fst y" U] by (cases y) simp
  qed (use wf l in simp)
  with r show ?thesis by (auto simp: pegscan_def Let_def simp del: iter.simps)
qed

theorem pegscan_tiles_file_witness:
  "\<exists>toks e s. pegscan ascii_env ''f'' ''A <- 'x'i'' = Some (toks @ [e], s) \<and>
     map lit toks = [''A'', ''<-'', [CHR 0x27, CHR ''x'', CHR 0x27, CHR ''i'']] \<and>
     tiles (runes_of ''A <- 'x'i'') (toks @ [e]) []"
proof -
  have "map_option (\<lambda>(ts, s). (map lit ts, length (serrs s))) (pegscan ascii_env ''f'' ''A <- 'x'i'') =
      Some ([''A'', ''<-'', [CHR 0x27, CHR ''x'', CHR 0x27, CHR ''i''], ''''], 0)"
    by code_simp
  then show ?thesis
    using pegscan_tiles_file [of ascii_env "''f''" "''A <- 'x'i''"] by auto
qed

section \<open>Where the scanner departs from Go's\<close>

lemma read_next:
  assumes "\<not> s_eof s" "map fst (src s) = r # rs"
  shows "s_cur (s_read s) = r" "map fst (src (s_read s)) = rs" "\<not> s_eof (s_read s)" "serrs (s_read s) = serrs s"
  using assms by (cases "src s"; auto simp: s_read_def Let_def)+

lemma comment_closing:
  assumes "\<not> s_eof s" "map fst (src s) = v @ 0x2F # w" "0x2F \<notin> set v" "\<forall>r\<in>set v. 0 \<le> r" "length v < n"
  shows "\<exists>s'. iter n (commentBody True) (True, s) = Some (mlcomment, s') \<and>
    tokb s' = tokb s @ string_of_runes (s_cur s # v @ [0x2F])"
  using assms
proof (induction v arbitrary: s n)
  case Nil
  obtain m where "n = Suc m" using Nil.prems(5) by (cases n) auto
  moreover have "s_cur (s_read (writeCur s)) = 0x2F"
    using read_next(1) [of "writeCur s" "0x2F" w] Nil.prems(1,2) by simp
  ultimately show ?case by (simp add: commentBody_def Let_def string_of_runes_def)
next
  case (Cons r v)
  obtain m where m: "n = Suc m" "length v < m" using Cons.prems(5) by (cases n) auto
  let ?t = "s_read (writeCur s)"
  have t: "s_cur ?t = r" "map fst (src ?t) = v @ 0x2F # w" "\<not> s_eof ?t"
    using read_next [of "writeCur s" r "v @ 0x2F # w"] Cons.prems(1,2) by simp_all
  have "0 \<le> r" using Cons.prems(4) by simp
  then have "commentBody True (True, s) = Inl (True, ?t)"
    using t(1) Cons.prems(3) by (auto simp: commentBody_def Let_def)
  moreover have "\<exists>s'. iter m (commentBody True) (True, ?t) = Some (mlcomment, s') \<and>
      tokb s' = tokb ?t @ string_of_runes (s_cur ?t # v @ [0x2F])"
    using Cons.IH [OF t(3,2) _ _ m(2)] Cons.prems(3,4) by simp
  ultimately show ?case using m(1) t(1) by (auto simp: string_of_runes_def)
qed

lemma comment_opening:
  assumes "\<not> s_eof s" "map fst (src s) = u @ 0x2A # v @ 0x2F # w" "0x2A \<notin> set u" "0x2F \<notin> set v"
    and "\<forall>r\<in>set (u @ v). 0 \<le> r" "length u + length v + 1 < n"
  shows "\<exists>s'. iter n (commentBody True) (False, s) = Some (mlcomment, s') \<and>
    tokb s' = tokb s @ string_of_runes (s_cur s # u @ [0x2A] @ v @ [0x2F])"
  using assms
proof (induction u arbitrary: s n)
  case Nil
  obtain m where m: "n = Suc m" "length v < m" using Nil.prems(6) by (cases n) auto
  let ?t = "s_read (writeCur s)"
  have t: "s_cur ?t = 0x2A" "map fst (src ?t) = v @ 0x2F # w" "\<not> s_eof ?t"
    using read_next [of "writeCur s" "0x2A" "v @ 0x2F # w"] Nil.prems(1,2) by simp_all
  have "\<exists>s'. iter m (commentBody True) (True, ?t) = Some (mlcomment, s') \<and>
      tokb s' = tokb ?t @ string_of_runes (s_cur ?t # v @ [0x2F])"
    by (rule comment_closing [OF t(3,2) Nil.prems(4) _ m(2)]) (use Nil.prems(5) in simp)
  moreover have "commentBody True (False, s) = Inl (True, ?t)" using t(1) by (simp add: commentBody_def Let_def)
  ultimately show ?case using m(1) t(1) by (auto simp: string_of_runes_def)
next
  case (Cons r u)
  obtain m where m: "n = Suc m" "length u + length v + 1 < m" using Cons.prems(6) by (cases n) auto
  let ?t = "s_read (writeCur s)"
  have t: "s_cur ?t = r" "map fst (src ?t) = u @ 0x2A # v @ 0x2F # w" "\<not> s_eof ?t"
    using read_next [of "writeCur s" r "u @ 0x2A # v @ 0x2F # w"] Cons.prems(1,2) by simp_all
  have "0 \<le> r" using Cons.prems(5) by simp
  then have "commentBody True (False, s) = Inl (False, ?t)"
    using t(1) Cons.prems(3) by (auto simp: commentBody_def Let_def)
  moreover have "\<exists>s'. iter m (commentBody True) (False, ?t) = Some (mlcomment, s') \<and>
      tokb s' = tokb ?t @ string_of_runes (s_cur ?t # u @ [0x2A] @ v @ [0x2F])"
    using Cons.IH [OF t(3,2) _ Cons.prems(4) _ m(2)] Cons.prems(3,5) by simp
  ultimately show ?case using m(1) t(1) by (auto simp: string_of_runes_def)
qed

text \<open>
  A block comment does not end at the first star followed at once by a slash: it ends at the first
  slash after the first star of its text, whatever stands between the two.
\<close>

lemma block_comment_ends_early:
  assumes "\<not> s_eof s" "s_cur s = 0x2A" "map fst (src s) = u @ 0x2A # v @ 0x2F # w"
    and "0x2A \<notin> set u" "0x2F \<notin> set v" "\<forall>r\<in>set (u @ v). 0 \<le> r"
  shows "\<exists>s'. scanComment s = Some (mlcomment, string_of_runes ([0x2F, 0x2A] @ u @ [0x2A] @ v @ [0x2F]), s')"
proof -
  define s1 where "s1 = writeRune 0x2F (resetTok s)"
  have "length (map fst (src s)) = length u + length v + length w + 2" using assms(3) by simp
  then have r: "length u + length v + 1 < Suc (remaining s1)" using assms(1) by (simp add: s1_def remaining_def)
  have "\<exists>s'. iter (Suc (remaining s1)) (commentBody True) (False, s1) = Some (mlcomment, s') \<and>
      tokb s' = tokb s1 @ string_of_runes (s_cur s1 # u @ [0x2A] @ v @ [0x2F])"
    by (rule comment_opening [OF _ _ assms(4,5,6) r]) (use assms(1,3) in \<open>simp_all add: s1_def\<close>)
  then show ?thesis using assms(2)
    by (auto simp: scanComment_def Let_def s1_def string_of_runes_def simp del: iter.simps)
qed

text \<open>The escape of the valid code point U+E000 is rejected: the test for surrogates includes its bound.\<close>

lemma escape_E000_rejected:
  "validRune 0xE000 \<and>
   map_option (\<lambda>(toks, s). map snd (serrs s))
     (pegscan ascii_env ''f'' ([CHR 0x22, CHR 0x5C] @ ''ue000'' @ [CHR 0x22])) =
     Some [Msg ''escape sequence is invalid Unicode code point'']"
  by code_simp

end
