(* ===== verification/Peg_Bootstrap_Proofs.thy ===== *)
theory Peg_Bootstrap_Proofs
  imports Peg_Bootstrap Peg_Class Peg_Scan_Properties
begin

text \<open>
  The parser of grammars returns on every input whose classes parse, within a number of rounds
  bounded by the input, and every rule it returns is complete: no missing operand, name or code.
\<close>

section \<open>What the scanner gives the parser\<close>

inductive comes :: "unicode_env \<Rightarrow> scanner \<Rightarrow> token \<Rightarrow> bool" for U where
  here: "Scan U s = Some (t, s') \<Longrightarrow> comes U s t"
| later: "Scan U s = Some (t', s') \<Longrightarrow> comes U (s'\<lparr>serrs := []\<rparr>) t \<Longrightarrow> comes U s t"

interpretation lined: scan_invariant "\<lambda>s. 1 \<le> Line (cpos s)"
  by unfold_locales (auto simp: s_read_def fatalError_def Let_def split: list.split option.split)

lemma Scan_state:
  assumes "wf_s s" "Scan U s = Some (t, s')"
  obtains s2 where "settled s2" "scanToken U s2 = Some (t, s')" "1 \<le> Line (cpos s) \<Longrightarrow> 1 \<le> Line (cpos s2)"
proof -
  define s1 where "s1 = (if \<not> s_eof s \<and> s_cur s = -1 then s_read s else s)"
  obtain s2 where s2: "skipWhitespace s1 = Some s2" "scanToken U s2 = Some (t, s')"
    using assms(2) by (auto simp: Scan_def simp flip: s1_def split: Option.bind_splits)
  have "settled s1" using Scan_first(1) [OF assms(1)] by (simp add: s1_def)
  then have "settled s2" using stl.inv_loops(1) s2(1) by blast
  moreover have "1 \<le> Line (cpos s2)" if "1 \<le> Line (cpos s)"
  proof -
    have "1 \<le> Line (cpos s1)" using that lined.inv_read [OF that] by (simp add: s1_def)
    then show ?thesis by (rule lined.inv_loops(1) [OF _ s2(1)])
  qed
  ultimately show ?thesis using that s2(2) by blast
qed

lemma scanToken_pos:
  assumes "settled s" "scanToken U s = Some (t, s')"
  shows "tok_pos t = cpos s"
proof (cases "s_eof s")
  case False
  then have "good_tok s (Some (t, s'))" using scanToken_good [of s U] assms by (auto simp: settled_def)
  then show ?thesis by (auto simp: good_tok_def)
qed (use assms(2) in \<open>auto simp: scanToken_def\<close>)

lemma ident_grows: "iter n (identBody U) s = Some s' \<Longrightarrow> Sublist.prefix (tokb s) (tokb s')"
proof (induction n arbitrary: s)
  case (Suc n)
  show ?case
  proof (cases "isLetter U (s_cur s) \<or> isDigit U (s_cur s)")
    case True
    with Suc.prems have "iter n (identBody U) (s_read (writeCur s)) = Some s'" by (simp add: identBody_def [of U s])
    from Suc.IH [OF this] have "Sublist.prefix (tokb s @ encodeRune (s_cur s)) (tokb s')" by simp
    then show ?thesis by (rule append_prefixD)
  qed (use Suc.prems in \<open>simp add: identBody_def\<close>)
qed simp

lemma encodeRune_nonempty: "encodeRune r \<noteq> []"
  by (simp add: encodeRune_def encodeValid_def)

lemma ident_nonempty:
  assumes "scanIdentifier U s = Some (l, s')" "isLetter U (s_cur s)"
  shows "l \<noteq> []"
proof -
  have "iter (remaining s) (identBody U) (s_read (writeCur (resetTok s))) = Some s'" "l = tokb s'"
    using assms by (auto simp: scanIdentifier_def identBody_def)
  with ident_grows encodeRune_nonempty show ?thesis by fastforce
qed

definition named :: "token \<Rightarrow> bool" where
  "named t \<longleftrightarrow> (id_of t = ident \<longrightarrow> lit t \<noteq> [])"

lemma scanToken_named:
  assumes "settled s" "scanToken U s = Some (t, s')"
  shows "named t"
proof (cases "isLetter U (s_cur s) \<and> \<not> s_eof s")
  case True
  then show ?thesis using assms(2) ident_nonempty
    by (fastforce simp: scanToken_def scanIdentToken_def withId_def named_def Let_def)
next
  case False
  have o: "map_of operators r = Some x \<Longrightarrow> x \<noteq> ident" for r x by (auto simp: operators_def split: if_splits)
  have "id_of t \<noteq> ident" if "scanOperator (cpos s) s = Some (t, s')"
  proof (cases "s_cur s = 0x2F \<and> (s_cur (s_read s) = 0x2A \<or> s_cur (s_read s) = 0x2F)")
    case True
    then obtain x u where "scanComment (s_read s) = Some (x, tokb u, u)" "x \<in> {lcomment, mlcomment}"
      using comment_tok [of s] assms(1) by (auto simp: settled_def)
    with that True show ?thesis by (auto simp: scanOperator_def)
  next
    case False
    then have "\<not> (s_cur s = 0x2F \<and> (s_cur (s_read s) = 0x2A \<or> s_cur (s_read s) = 0x2F))" .
    with that o show ?thesis
      by (auto simp: scanOperator_def Let_def split: if_splits option.splits)
  qed
  then show ?thesis using assms(2) False
    by (auto simp: scanToken_def withId_def named_def Let_def split: if_splits prod.splits)
qed

section \<open>Parser states\<close>

definition pending :: "bparser \<Rightarrow> bool" where
  "pending p \<longleftrightarrow> Line (tok_pos (pk p)) \<noteq> 0"

definition ahead :: "unicode_env \<Rightarrow> bparser \<Rightarrow> token set" where
  "ahead U p = (if pending p then {pk p} else {}) \<union> {t. comes U (sc p) t}"

definition upcoming :: "unicode_env \<Rightarrow> bparser \<Rightarrow> token set" where
  "upcoming U p = insert (tok p) (ahead U p)"

definition left :: "bparser \<Rightarrow> nat" where
  "left p = remaining (sc p) + (if pending p \<and> id_of (pk p) \<noteq> eof then 1 else 0) + (if id_of (tok p) \<noteq> eof then 1 else 0)"

definition wf_scan :: "bparser \<Rightarrow> bool" where
  "wf_scan p \<longleftrightarrow> wf_s (sc p) \<and> 1 \<le> Line (cpos (sc p)) \<and> (pending p \<longrightarrow> named (pk p) \<and> (id_of (pk p) = eof \<longrightarrow> s_eof (sc p)))"

definition wf_p :: "bparser \<Rightarrow> bool" where
  "wf_p p \<longleftrightarrow> wf_scan p \<and> named (tok p) \<and> (id_of (tok p) = eof \<longrightarrow> s_eof (sc p) \<and> (pending p \<longrightarrow> id_of (pk p) = eof))"

definition moved :: "unicode_env \<Rightarrow> bparser \<Rightarrow> bparser \<Rightarrow> bool" where
  "moved U p q \<longleftrightarrow> wf_p q \<and> left q \<le> left p \<and> upcoming U q \<subseteq> upcoming U p \<and> Sublist.prefix (perrs p) (perrs q)"

lemma moved_refl [simp, intro]: "wf_p p \<Longrightarrow> moved U p p"
  by (simp add: moved_def)

lemma moved_trans [trans]: "moved U p q \<Longrightarrow> moved U q r \<Longrightarrow> moved U p r"
  by (auto simp: moved_def)

lemma moved_wf: "moved U p q \<Longrightarrow> wf_p q"
  by (simp add: moved_def)

definition scanned :: "unicode_env \<Rightarrow> bparser \<Rightarrow> token \<Rightarrow> bparser \<Rightarrow> bool" where
  "scanned U p t q \<longleftrightarrow> wf_s (sc q) \<and> 1 \<le> Line (cpos (sc q)) \<and> 1 \<le> Line (tok_pos t) \<and> named t \<and>
    (id_of t \<noteq> eof \<longrightarrow> remaining (sc q) < remaining (sc p)) \<and> (id_of t = eof \<longrightarrow> s_eof (sc q)) \<and>
    remaining (sc q) \<le> remaining (sc p) \<and> Sublist.prefix (perrs p) (perrs q) \<and>
    {u. comes U (sc p) u} = insert t {u. comes U (sc q) u} \<and> tok q = tok p \<and> pk q = pk p"

lemma clear_errs [simp]: "wf_s (s\<lparr>serrs := es\<rparr>) = wf_s s" "remaining (s\<lparr>serrs := es\<rparr>) = remaining s"
  by (simp_all add: wf_s_def remaining_def)

lemma scan_facts:
  assumes "wf_scan p"
  obtains t q where "p_scan U p = Ret t q" "scanned U p t q"
proof -
  let ?s = "sc p"
  have w: "wf_s ?s" "1 \<le> Line (cpos ?s)" using assms by (simp_all add: wf_scan_def)
  obtain t s' where t: "Scan U ?s = Some (t, s')" "wf_s s'" "id_of t \<noteq> eof \<longrightarrow> remaining s' < remaining ?s"
      "id_of t = eof \<longrightarrow> s_eof s'"
    using Scan_returns [OF w(1)] by blast
  obtain s2 where s2: "settled s2" "scanToken U s2 = Some (t, s')" "1 \<le> Line (cpos s2)"
    using Scan_state [OF w(1) t(1)] w(2) by blast
  let ?q = "p\<lparr>sc := s'\<lparr>serrs := []\<rparr>, perrs := perrs p @ serrs s'\<rparr>"
  have "comes U ?s u \<longleftrightarrow> u = t \<or> comes U (s'\<lparr>serrs := []\<rparr>) u" for u
    using t(1) by (subst comes.simps) (auto intro: comes.intros)
  then have "{u. comes U ?s u} = insert t {u. comes U (s'\<lparr>serrs := []\<rparr>) u}" by blast
  moreover have "1 \<le> Line (tok_pos t)" "named t"
    using scanToken_pos [OF s2(1,2)] s2(3) scanToken_named [OF s2(1,2)] by simp_all
  moreover have "remaining s' \<le> remaining ?s" using t(3,4) by (cases "id_of t = eof") (auto simp: remaining_def)
  moreover have "1 \<le> Line (cpos s')" by (rule lined.inv_Scan [OF w(2) t(1)])
  ultimately have "scanned U p t ?q" using t by (simp add: scanned_def)
  then show ?thesis using that [of t ?q] t(1) by (simp add: p_scan_def)
qed

lemma zeroTok_simps [simp]: "Line (tok_pos zeroTok) = 0" "id_of zeroTok = eof" "lit zeroTok = []"
  by (simp_all add: zeroTok_def zeroPos_def)

text \<open>The first call of \<open>p_read\<close> makes the state well formed; later calls keep it so and make progress.\<close>

lemma read_cases:
  assumes "wf_scan p"
  obtains q where "p_read U p = Ret () q" "wf_p q" "upcoming U q \<subseteq> ahead U p" "Sublist.prefix (perrs p) (perrs q)"
    "left q \<le> left p + 1" "wf_p p \<Longrightarrow> left q \<le> left p" "wf_p p \<Longrightarrow> id_of (tok p) \<noteq> eof \<Longrightarrow> left q < left p"
proof (cases "pending p")
  case True
  let ?q = "p\<lparr>tok := pk p, pk := zeroTok\<rparr>"
  have "p_read U p = Ret () ?q" using True by (simp add: p_read_def pending_def)
  moreover have "wf_p ?q" using assms True by (simp add: wf_p_def wf_scan_def pending_def)
  moreover have "upcoming U ?q \<subseteq> ahead U p" using True by (auto simp: upcoming_def ahead_def pending_def)
  moreover have "left ?q \<le> left p + 1" using True by (auto simp: left_def pending_def)
  moreover have "left ?q \<le> left p" "id_of (tok p) \<noteq> eof \<Longrightarrow> left ?q < left p"  if "wf_p p"
    using True that by (auto simp: left_def pending_def wf_p_def)
  ultimately show ?thesis using that by simp
next
  case False
  obtain t q where t: "p_scan U p = Ret t q" and sd: "scanned U p t q"
    using scan_facts [OF assms] by blast
  let ?q = "q\<lparr>tok := t\<rparr>"
  have np: "\<not> pending ?q" using False sd by (simp add: pending_def scanned_def)
  have "p_read U p = Ret () ?q" using False t by (simp add: p_read_def pending_def)
  moreover have "wf_p ?q" using sd np by (simp add: wf_p_def wf_scan_def scanned_def)
  moreover have "upcoming U ?q \<subseteq> ahead U p" using sd np False by (auto simp: upcoming_def ahead_def scanned_def)
  moreover have "left ?q \<le> left p + 1"
    using sd np False by (cases "id_of t = eof") (simp_all add: left_def scanned_def)
  moreover have "left ?q \<le> left p \<and> (id_of (tok p) \<noteq> eof \<longrightarrow> left ?q < left p)" if "wf_p p"
  proof (cases "id_of (tok p) = eof")
    case True
    then have "remaining (sc p) = 0" using that by (simp add: wf_p_def remaining_def)
    then have "id_of t = eof" "remaining (sc q) = 0" using sd by (auto simp: scanned_def)
    with True np False show ?thesis by (simp add: left_def)
  next
    case no: False
    with sd np False show ?thesis by (cases "id_of t = eof") (simp_all add: left_def scanned_def)
  qed
  moreover have "Sublist.prefix (perrs p) (perrs ?q)" using sd by (simp add: scanned_def)
  ultimately show ?thesis using that by simp
qed

lemma read_moves:
  assumes "wf_p p"
  obtains q where "p_read U p = Ret () q" "moved U p q" "id_of (tok p) \<noteq> eof \<Longrightarrow> left q < left p" "upcoming U q \<subseteq> ahead U p"
proof -
  have w: "wf_scan p" using assms by (simp add: wf_p_def)
  show ?thesis
  proof (rule read_cases [OF w, of U])
    fix q
    assume q: "p_read U p = Ret () q" "wf_p q" "upcoming U q \<subseteq> ahead U p" "Sublist.prefix (perrs p) (perrs q)"
      "wf_p p \<Longrightarrow> left q \<le> left p" "wf_p p \<Longrightarrow> id_of (tok p) \<noteq> eof \<Longrightarrow> left q < left p"
    have "moved U p q" using q(2-4) q(5) [OF assms] by (auto simp: moved_def upcoming_def)
    then show ?thesis using q(1,3) q(6) [OF assms] by (intro that [of q])
  qed
qed

lemma peek_moves:
  assumes "wf_p p"
  obtains q t where "p_peek U p = Ret t q" "moved U p q" "tok q = tok p" "pending q" "pk q = t"
proof (cases "pending p")
  case True
  then show ?thesis using that [of "pk p" p] assms by (simp add: p_peek_def pending_def)
next
  case False
  obtain t q where t: "p_scan U p = Ret t q" and sd: "scanned U p t q"
    using scan_facts [of p U] assms by (auto simp: wf_p_def)
  let ?q = "q\<lparr>pk := t\<rparr>"
  have np: "pending ?q" using sd by (simp add: pending_def scanned_def)
  have "p_peek U p = Ret t ?q" using False t by (simp add: p_peek_def pending_def)
  moreover have "id_of t = eof \<and> s_eof (sc q)" if "id_of (tok p) = eof"
  proof -
    have "remaining (sc p) = 0" using assms that by (simp add: wf_p_def remaining_def)
    with sd show ?thesis by (auto simp: scanned_def)
  qed
  then have "wf_p ?q" using assms sd np by (auto simp: wf_p_def wf_scan_def scanned_def)
  moreover have "upcoming U ?q \<subseteq> upcoming U p" using sd np False by (auto simp: upcoming_def ahead_def scanned_def)
  moreover have "left ?q \<le> left p" using sd np False by (cases "id_of t = eof") (simp_all add: left_def scanned_def)
  moreover have "tok ?q = tok p" "Sublist.prefix (perrs p) (perrs ?q)" using sd by (simp_all add: scanned_def)
  ultimately show ?thesis using that [of t ?q] np by (simp add: moved_def)
qed

section \<open>The contract of the parsing functions\<close>

fun wf_expr :: "Expression \<Rightarrow> bool" where
  "wf_expr (ChoiceExpr _ es) \<longleftrightarrow> 2 \<le> length es \<and> (\<forall>e\<in>set es. wf_expr e)"
| "wf_expr (ActionExpr _ e c ix) \<longleftrightarrow> wf_expr e \<and> c \<noteq> None \<and> ix = 0"
| "wf_expr (SeqExpr _ es) \<longleftrightarrow> 2 \<le> length es \<and> (\<forall>e\<in>set es. wf_expr e)"
| "wf_expr (LabeledExpr _ l e) \<longleftrightarrow> (\<exists>i. l = Some i \<and> Val i \<noteq> []) \<and> wf_expr e"
| "wf_expr (AndExpr _ e) \<longleftrightarrow> wf_expr e"
| "wf_expr (NotExpr _ e) \<longleftrightarrow> wf_expr e"
| "wf_expr (ZeroOrOneExpr _ e) \<longleftrightarrow> wf_expr e"
| "wf_expr (ZeroOrMoreExpr _ e) \<longleftrightarrow> wf_expr e"
| "wf_expr (OneOrMoreExpr _ e) \<longleftrightarrow> wf_expr e"
| "wf_expr (RuleRefExpr _ n) \<longleftrightarrow> (\<exists>i. n = Some i \<and> Val i \<noteq> [])"
| "wf_expr (AndCodeExpr _ _ _) \<longleftrightarrow> False"
| "wf_expr (NotCodeExpr _ _ _) \<longleftrightarrow> False"
| "wf_expr (LitMatcher _ _ _) \<longleftrightarrow> True"
| "wf_expr (ClassMatcher c) \<longleftrightarrow> even (length (Ranges c))"
| "wf_expr (AnyMatcher _ _) \<longleftrightarrow> True"
| "wf_expr NilExpr \<longleftrightarrow> False"

definition tame :: "unicode_env \<Rightarrow> bparser \<Rightarrow> bool" where
  "tame U p \<longleftrightarrow> (\<forall>t\<in>upcoming U p. id_of t = cls \<longrightarrow> (\<exists>c. NewCharClassMatcher (tok_pos t) (lit t) = Ret () c))"

definition fine :: "unicode_env \<Rightarrow> nat \<Rightarrow> bparser \<Rightarrow> ('v \<Rightarrow> bparser \<Rightarrow> bool) \<Rightarrow> (bparser, 'v) result \<Rightarrow> bool" where
  "fine U k p V r \<longleftrightarrow>
     (case r of
        Ret v q \<Rightarrow> moved U p q \<and> V v q
      | Panic _ _ \<Rightarrow> \<not> tame U p
      | OutOfFuel \<Rightarrow> \<not> (tame U p \<and> left p < k))"

lemma fine_simps [simp]:
  "fine U k p V (Ret v q) \<longleftrightarrow> moved U p q \<and> V v q" "fine U k p V (Panic x q) \<longleftrightarrow> \<not> tame U p"
  "fine U k p V OutOfFuel \<longleftrightarrow> \<not> (tame U p \<and> left p < k)"
  by (simp_all add: fine_def)

definition exprV :: "bparser \<Rightarrow> Expression option \<Rightarrow> bparser \<Rightarrow> bool" where
  "exprV p v q \<longleftrightarrow> (\<forall>e. v = Some e \<longrightarrow> wf_expr e \<and> left q < left p)"

lemma exprV_simps [simp]: "exprV p None q" "exprV p (Some e) q \<longleftrightarrow> wf_expr e \<and> left q < left p"
  by (simp_all add: exprV_def)

lemma tame_moved: "tame U p \<Longrightarrow> moved U p q \<Longrightarrow> tame U q"
  by (auto simp: tame_def moved_def)

lemma fine_from:
  assumes "fine U k q W r" "moved U p q" "left p < k' \<Longrightarrow> left q < k" "\<And>v s. moved U q s \<Longrightarrow> W v s \<Longrightarrow> V v s"
  shows "fine U k' p V r"
  using assms tame_moved [of U p q] by (cases r) (auto dest: moved_trans)

lemma fine_bound: "fine U k p V r \<Longrightarrow> (left p < k' \<Longrightarrow> left p < k) \<Longrightarrow> fine U k' p V r"
  by (cases r) auto

lemma fine_Ret: "fine U k p V r \<Longrightarrow> tame U p \<Longrightarrow> left p < k \<Longrightarrow> \<exists>v q. r = Ret v q \<and> V v q"
  by (cases r) auto

lemma fine_bind:
  assumes "fine U k p V m" "\<And>v q. moved U p q \<Longrightarrow> V v q \<Longrightarrow> fine U k p W (f v q)"
  shows "fine U k p W (bindR m f)"
  using assms by (cases m) auto

lemma fine_read:
  assumes "wf_p p"
    and "\<And>q. moved U p q \<Longrightarrow> (id_of (tok p) \<noteq> eof \<Longrightarrow> left q < left p) \<Longrightarrow> fine U k p W (f () q)"
  shows "fine U k p W (bindR (p_read U p) f)"
proof (rule read_moves [OF assms(1), of U])
  fix q
  assume q: "p_read U p = Ret () q" "moved U p q" "id_of (tok p) \<noteq> eof \<Longrightarrow> left q < left p"
  from assms(2) [OF q(2,3)] q(1) show ?thesis by simp
qed

lemma fine_read_from:
  assumes "moved U p q"
    and "\<And>q'. moved U p q' \<Longrightarrow> left q' \<le> left q \<Longrightarrow> (id_of (tok q) \<noteq> eof \<Longrightarrow> left q' < left q) \<Longrightarrow> fine U k p W (f () q')"
  shows "fine U k p W (bindR (p_read U q) f)"
proof (rule read_moves [OF moved_wf [OF assms(1)], of U])
  fix q'
  assume q: "p_read U q = Ret () q'" "moved U q q'" "id_of (tok q) \<noteq> eof \<Longrightarrow> left q' < left q"
  from q(2) have "left q' \<le> left q" by (simp add: moved_def)
  from assms(2) [OF moved_trans [OF assms(1) q(2)] this q(3)] q(1) show ?thesis by simp
qed

lemma add_frame [simp]:
  "wf_p (addHere m p) = wf_p p" "left (addHere m p) = left p" "tok (addHere m p) = tok p"
  "upcoming U (addHere m p) = upcoming U p" "ahead U (addHere m p) = ahead U p" "perrs (addHere m p) = perrs p @ [(tok_pos (tok p), Msg m)]"
  by (simp_all add: addHere_def p_add_def wf_p_def wf_scan_def left_def upcoming_def ahead_def pending_def)

lemma moved_addI [intro]: "moved U p q \<Longrightarrow> moved U p (addHere m q)"
  by (auto simp: moved_def)

lemma expect_cases:
  obtains (hit) "p_expect ids p = (True, p)" "ids = [] \<or> id_of (tok p) \<in> set ids"
    | (miss) m where "p_expect ids p = (False, addHere m p)"
proof -
  have "p_expect ids p = (True, p) \<and> (ids = [] \<or> id_of (tok p) \<in> set ids) \<or> (\<exists>m. p_expect ids p = (False, addHere m p))"
    by (auto simp: p_expect_def)
  with hit miss show ?thesis by blast
qed

locale rec_contract =
  fixes rec :: "Expression option bp" and U :: unicode_env and k :: nat
  assumes rec_fine: "wf_p p \<Longrightarrow> fine U k p (exprV p) (rec p)"
begin

lemma rec_later: "moved U p q \<Longrightarrow> left q < left p \<Longrightarrow> fine U (Suc k) p (exprV p) (rec q)"
  by (rule fine_from [OF rec_fine [of q]]) (auto simp: moved_wf exprV_def)

end

lemma ruleRef_fine:
  assumes "wf_p p" "id_of (tok p) = ident"
  shows "fine U k p (exprV p) (p_ruleRefExpr U p)"
proof -
  have "p_expect [ident] p = (True, p)" using assms(2) by (simp add: p_expect_def)
  moreover have "lit (tok p) \<noteq> []" using assms by (simp add: wf_p_def named_def)
  ultimately show ?thesis
    using assms by (auto simp: p_ruleRefExpr_def Let_def NewIdentifier_def intro!: fine_read)
qed

lemma literal_fine:
  assumes "wf_p p" "id_of (tok p) \<in> {str, rstr, char_tok}"
  shows "fine U k p (exprV p) (p_literal U p)"
proof -
  define p1 where "p1 = (if hasSuffix_i (lit (tok p)) then p\<lparr>tok := (tok p)\<lparr>lit := butlast (lit (tok p))\<rparr>\<rparr> else p)"
  define p2 where "p2 = (case Unquote (lit (tok p1)) of Some s \<Rightarrow> p1 | None \<Rightarrow> addHere ''invalid syntax'' p1)"
  have a: "wf_p p1 \<and> left p1 = left p \<and> ahead U p1 = ahead U p \<and> perrs p1 = perrs p \<and> id_of (tok p1) = id_of (tok p)"
    using assms by (auto simp: p1_def wf_p_def wf_scan_def left_def ahead_def pending_def named_def)
  have b: "wf_p p2" "left p2 = left p" "ahead U p2 = ahead U p" "id_of (tok p2) = id_of (tok p)"
      "Sublist.prefix (perrs p) (perrs p2)"
    using a by (auto simp: p2_def split: option.split)
  have ne: "id_of (tok p2) \<noteq> eof" using assms(2) b(4) by auto
  obtain q where q: "p_read U p2 = Ret () q" "moved U p2 q" "left q < left p2" "upcoming U q \<subseteq> ahead U p2"
    using read_moves [OF b(1), of U] ne by metis
  have "moved U p q" using q b by (auto simp: moved_def upcoming_def)
  moreover have "\<exists>s ig. p_literal U p = bindR (p_read U p2) (\<lambda>_ p3. Ret (Some (LitMatcher (tok_pos (tok p2)) s ig)) p3)"
    unfolding p_literal_def Let_def p1_def [symmetric] by (cases "Unquote (lit (tok p1))") (auto simp: p2_def)
  ultimately show ?thesis using q b(2) by auto
qed

lemma class_fine:
  assumes "wf_p p" "id_of (tok p) = cls"
  shows "fine U k p (exprV p) (p_class U p)"
proof (cases "NewCharClassMatcher (tok_pos (tok p)) (lit (tok p))")
  case (Ret u c)
  then have "even (length (Ranges c))"
    by (auto simp: NewCharClassMatcher_def dest: parse_ranges_even)
  with Ret assms show ?thesis by (auto simp: p_class_def intro!: fine_read)
next
  case OutOfFuel
  then have "\<not> tame U p" using assms(2) by (auto simp: tame_def upcoming_def)
  with OutOfFuel show ?thesis by (simp add: p_class_def)
next
  case (Panic x c)
  then have "\<not> tame U p" using assms(2) by (auto simp: tame_def upcoming_def)
  with Panic show ?thesis by (simp add: p_class_def)
qed

lemma wf_expr_pos: "wf_expr e \<Longrightarrow> \<exists>ps. Expression_Pos e = Some ps"
  by (cases e) auto

lemma suffixed_fine:
  assumes "moved U p q" "wf_expr e" "left q < left p" "\<And>ps x. wf_expr x \<Longrightarrow> wf_expr (mk ps x)"
  shows "fine U k p (exprV p) (suffixed U mk e q)"
proof -
  obtain ps where ps: "Expression_Pos e = Some ps" using wf_expr_pos [OF assms(2)] by blast
  show ?thesis
    unfolding suffixed_def ps option.case
    by (rule fine_read_from [OF assms(1)]) (use assms in auto)
qed

context rec_contract
begin

lemma paren_fine:
  assumes "wf_p p" "id_of (tok p) = lparen"
  shows "fine U (Suc k) p (exprV p) (p_paren U rec p)"
  unfolding p_paren_def
proof (rule fine_read [OF assms(1)])
  fix q1
  assume q1: "moved U p q1" "id_of (tok p) \<noteq> eof \<Longrightarrow> left q1 < left p"
  have l1: "left q1 < left p" using q1(2) assms(2) by simp
  show "fine U (Suc k) p (exprV p) (bindR (rec q1) (\<lambda>e p2.
       case e of
         None \<Rightarrow> Ret None (addHere ''missing expression inside parenthesis'' p2)
       | Some _ \<Rightarrow>
           (case p_expect [rparen] p2 of
              (False, p3) \<Rightarrow> Ret None p3
            | (True, p3) \<Rightarrow> bindR (p_read U p3) (\<lambda>_ p4. Ret e p4))))"
  proof (rule fine_bind [OF rec_later [OF q1(1) l1]])
    fix v q2
    assume q2: "moved U p q2" "exprV p v q2"
    show "fine U (Suc k) p (exprV p) (case v of
         None \<Rightarrow> Ret None (addHere ''missing expression inside parenthesis'' q2)
       | Some _ \<Rightarrow>
           (case p_expect [rparen] q2 of
              (False, p3) \<Rightarrow> Ret None p3
            | (True, p3) \<Rightarrow> bindR (p_read U p3) (\<lambda>_ p4. Ret v p4)))"
    proof (cases v)
      case None
      with q2 show ?thesis by auto
    next
      case (Some e)
      have r: "fine U (Suc k) p (exprV p) (bindR (p_read U q2) (\<lambda>_ p4. Ret (Some e) p4))"
        by (rule fine_read_from [OF q2(1)]) (use q2 Some in auto)
      show ?thesis
        by (cases rule: expect_cases [of "[rparen]" q2]) (use r q2 Some in auto)
    qed
  qed
qed

lemma primary_fine:
  assumes "wf_p p"
  shows "fine U (Suc k) p (exprV p) (p_primaryExpr U rec p)"
proof -
  have d: "fine U (Suc k) p (exprV p) (bindR (p_read U p) (\<lambda>_ p1. Ret (Some (AnyMatcher ps l)) p1))"
    if "id_of (tok p) = dot" for ps l
    by (rule fine_read [OF assms]) (use that in auto)
  show ?thesis
    using d literal_fine [OF assms] class_fine [OF assms] ruleRef_fine [OF assms] paren_fine [OF assms] assms
    by (cases "id_of (tok p)") (auto simp: p_primaryExpr_def NewAnyMatcher_def Let_def)
qed

lemma suffixedExpr_fine:
  assumes "wf_p p"
  shows "fine U (Suc k) p (exprV p) (p_suffixedExpr U rec p)"
  unfolding p_suffixedExpr_def
proof (rule fine_bind [OF primary_fine [OF assms]])
  fix v q
  assume q: "moved U p q" "exprV p v q"
  show "fine U (Suc k) p (exprV p) (case v of
         None \<Rightarrow>
           (if id_of (tok q) = question \<or> id_of (tok q) = star \<or> id_of (tok q) = plus_tok
            then Ret None (addHere ''suffix operator without expression'' q)
            else Ret None q)
       | Some x \<Rightarrow>
           (case id_of (tok q) of
              question \<Rightarrow> suffixed U ZeroOrOneExpr x q
            | star \<Rightarrow> suffixed U ZeroOrMoreExpr x q
            | plus_tok \<Rightarrow> suffixed U OneOrMoreExpr x q
            | _ \<Rightarrow> Ret v q))"
  proof (cases v)
    case None
    with q show ?thesis by auto
  next
    case (Some e)
    with q have "fine U (Suc k) p (exprV p) (suffixed U ZeroOrOneExpr e q)"
        "fine U (Suc k) p (exprV p) (suffixed U ZeroOrMoreExpr e q)"
        "fine U (Suc k) p (exprV p) (suffixed U OneOrMoreExpr e q)"
      by (auto intro: suffixed_fine)
    with Some q show ?thesis by (cases "id_of (tok q)") auto
  qed
qed

lemma prefixed_inner:
  assumes "moved U p q" "\<And>ps x. wf_expr x \<Longrightarrow> wf_expr (mk ps x)"
  shows "fine U (Suc k) p (exprV p) (bindR (p_suffixedExpr U rec q) (\<lambda>e p2.
      case e of None \<Rightarrow> Ret None (addHere m p2) | Some x \<Rightarrow> Ret (Some (mk ps x)) p2))"
proof (rule fine_from [OF _ assms(1), where k = "Suc k" and W = "exprV q"])
  show "fine U (Suc k) q (exprV q) (bindR (p_suffixedExpr U rec q) (\<lambda>e p2.
      case e of None \<Rightarrow> Ret None (addHere m p2) | Some x \<Rightarrow> Ret (Some (mk ps x)) p2))"
    by (rule fine_bind [OF suffixedExpr_fine [OF moved_wf [OF assms(1)]]])
      (use assms(2) in \<open>auto split: option.splits\<close>)
qed (use assms(1) in \<open>auto simp: exprV_def moved_def\<close>)

lemma prefixed_fine:
  assumes "wf_p p"
  shows "fine U (Suc k) p (exprV p) (p_prefixedExpr U rec p)"
proof -
  have one: "fine U (Suc k) p (exprV p) (bindR (p_read U p) (\<lambda>_ q. bindR (p_suffixedExpr U rec q) (\<lambda>e p2.
      case e of None \<Rightarrow> Ret None (addHere m p2) | Some x \<Rightarrow> Ret (Some (mk ps x)) p2)))"
    if "\<And>ps x. wf_expr x \<Longrightarrow> wf_expr (mk ps x)" for mk ps m
    by (rule fine_read [OF assms]) (rule prefixed_inner [OF _ that])
  have two: "fine U (Suc k) p (exprV p) (bindR (p_suffixedExpr U rec p) (\<lambda>e p2.
      case e of None \<Rightarrow> Ret None p2 | Some x \<Rightarrow> Ret e p2))"
    by (rule fine_bind [OF suffixedExpr_fine [OF assms]]) (auto split: option.splits)
  show ?thesis using one [of AndExpr] one [of NotExpr] two
    by (cases "id_of (tok p)") (simp_all add: p_prefixedExpr_def Let_def cong: option.case_cong)
qed

end

definition labelV :: "Identifier option \<times> bool \<Rightarrow> bparser \<Rightarrow> bool" where
  "labelV v q \<longleftrightarrow> (\<forall>i. fst v = Some i \<longrightarrow> Val i \<noteq> [])"

lemma label_fine:
  assumes "wf_p p"
  shows "fine U k p labelV (p_label U p)"
proof (cases "id_of (tok p) = ident")
  case True
  have l: "lit (tok p) \<noteq> []" using assms True by (simp add: wf_p_def named_def)
  obtain p1 t where p1: "p_peek U p = Ret t p1" "moved U p p1" "tok p1 = tok p" using peek_moves [OF assms] by metis
  let ?i = "NewIdentifier (tok_pos (tok p)) (lit (tok p))"
  have i: "labelV (Some ?i, ok) q" for ok q using l by (simp add: labelV_def NewIdentifier_def)
  have "fine U k p labelV (bindR (p_read U p1) (\<lambda>_ q.
      case p_expect [colon] q of (False, p3) \<Rightarrow> Ret (Some ?i, False) p3
       | (True, p3) \<Rightarrow> bindR (p_read U p3) (\<lambda>_ p4. Ret (Some ?i, True) p4)))"
  proof (rule fine_read_from [OF p1(2)])
    fix q
    assume q: "moved U p q"
    have "fine U k p labelV (bindR (p_read U q) (\<lambda>_ p4. Ret (Some ?i, True) p4))"
      by (rule fine_read_from [OF q]) (simp add: i)
    then show "fine U k p labelV (case p_expect [colon] q of (False, p3) \<Rightarrow> Ret (Some ?i, False) p3
       | (True, p3) \<Rightarrow> bindR (p_read U p3) (\<lambda>_ p4. Ret (Some ?i, True) p4))"
      by (cases rule: expect_cases [of "[colon]" q]) (use q i in auto)
  qed
  then show ?thesis using True p1 by (simp add: p_label_def labelV_def Let_def)
qed (use assms in \<open>simp add: p_label_def labelV_def\<close>)

context rec_contract
begin

lemma labeled_fine:
  assumes "wf_p p"
  shows "fine U (Suc k) p (exprV p) (p_labeledExpr U rec p)"
  unfolding p_labeledExpr_def Let_def
proof (rule fine_bind [OF label_fine [OF assms]], goal_cases)
  case (1 v q)
  obtain l ok where v: "v = (l, ok)" by (cases v)
  have f: "fine U (Suc k) p (exprV p) (p_prefixedExpr U rec q)"
    by (rule fine_from [OF prefixed_fine [OF moved_wf [OF 1(1)]] 1(1)]) (use 1 in \<open>auto simp: moved_def exprV_def\<close>)
  have "fine U (Suc k) p (exprV p) (bindR (p_prefixedExpr U rec q) (\<lambda>e p2. case e of
      None \<Rightarrow> if l \<noteq> None then Ret None (addHere ''label without expression'' p2) else Ret None p2
    | Some x \<Rightarrow> (case l of None \<Rightarrow> Ret e p2 | Some i \<Rightarrow> Ret (Some (LabeledExpr (tok_pos (tok p)) (Some i) x)) p2)))"
    by (rule fine_bind [OF f]) (use 1(2) v in \<open>auto simp: labelV_def split: option.split\<close>)
  with 1(1) v show ?case by simp
qed

lemma seqLoop_fine:
  assumes "moved U p q" "es \<noteq> [] \<Longrightarrow> left q < left p" "\<forall>e\<in>set es. wf_expr e"
  shows "fine U (min (Suc k) (n + (left p - left q))) p (exprV p) (seqLoop U rec n ps es q)"
  using assms
proof (induction n arbitrary: es q)
  case 0
  then show ?case by (auto simp: moved_def)
next
  case (Suc n)
  let ?K = "min (Suc k) (Suc n + (left p - left q))"
  have f: "fine U ?K p (\<lambda>v s. left s \<le> left q \<and> exprV q v s) (p_labeledExpr U rec q)"
    by (rule fine_from [OF labeled_fine [OF moved_wf [OF Suc.prems(1)]] Suc.prems(1)])
      (use Suc.prems in \<open>auto simp: moved_def exprV_def\<close>)
  show ?case
    unfolding seqLoop.simps
  proof (rule fine_bind [OF f], goal_cases)
    case (1 v s)
    show ?case
    proof (cases v)
      case None
      with 1 Suc.prems show ?thesis by (cases es rule: remdups_adj.cases) (auto simp: moved_def)
    next
      case (Some e)
      have l: "left s < left q" "left q \<le> left p" using 1 Some Suc.prems(1) by (auto simp: moved_def)
      have "fine U (min (Suc k) (n + (left p - left s))) p (exprV p) (seqLoop U rec n ps (es @ [e]) s)"
        by (rule Suc.IH) (use 1 Some Suc.prems l in auto)
      then have "fine U ?K p (exprV p) (seqLoop U rec n ps (es @ [e]) s)"
        by (rule fine_bound) (use 1 l Suc.prems in \<open>auto simp: moved_def\<close>)
      with Some show ?thesis by simp
    qed
  qed
qed

lemma seqExpr_fine: "wf_p p \<Longrightarrow> fine U (min (Suc k) n) p (exprV p) (p_seqExpr U rec n p)"
  using seqLoop_fine [of p p "[]" n] by (simp add: p_seqExpr_def)

lemma action_fine:
  assumes "wf_p p"
  shows "fine U (min (Suc k) n) p (exprV p) (p_actionExpr U rec n p)"
  unfolding p_actionExpr_def Let_def
proof (rule fine_bind [OF seqExpr_fine [OF assms]], goal_cases)
  case (1 v q)
  show ?case
  proof (cases v)
    case (Some e)
    have "fine U (min (Suc k) n) p (exprV p) (bindR (p_read U q) (\<lambda>_ p2. Ret (Some (ActionExpr a e (Some c) 0)) p2))" for a c
      by (rule fine_read_from [OF 1(1)]) (use 1 Some in auto)
    with Some 1 show ?thesis by simp
  qed (use 1 in simp)
qed

lemma exprLoop_fine:
  assumes "moved U p q" "alts \<noteq> [] \<Longrightarrow> left q < left p" "\<forall>e\<in>set alts. wf_expr e"
  shows "fine U (min (min (Suc k) m) (n + (left p - left q))) p (exprV p) (exprLoop U rec m n ps alts q)"
  using assms
proof (induction n arbitrary: alts q)
  case 0
  then show ?case by (auto simp: moved_def)
next
  case (Suc n)
  let ?K = "min (min (Suc k) m) (Suc n + (left p - left q))"
  have f: "fine U ?K p (\<lambda>v s. left s \<le> left q \<and> exprV q v s) (p_actionExpr U rec m q)"
    by (rule fine_from [OF action_fine [OF moved_wf [OF Suc.prems(1)]] Suc.prems(1)])
      (use Suc.prems in \<open>auto simp: moved_def exprV_def\<close>)
  show ?case
    unfolding exprLoop.simps
  proof (rule fine_bind [OF f], goal_cases)
    case (1 v s)
    define as where "as = (case v of Some x \<Rightarrow> alts @ [x] | None \<Rightarrow> alts)"
    have as: "\<forall>e\<in>set as. wf_expr e" "as \<noteq> [] \<Longrightarrow> left s < left p"
      using 1 Suc.prems by (auto simp: as_def moved_def split: option.splits)
    have "fine U ?K p (exprV p) (bindR (p_read U s) (\<lambda>_ p2. exprLoop U rec m n ps as p2))" if "id_of (tok s) = slash"
    proof (rule fine_read_from [OF 1(1)])
      fix s'
      assume s': "moved U p s'" "left s' \<le> left s" "id_of (tok s) \<noteq> eof \<Longrightarrow> left s' < left s"
      then have l: "left s' < left q" using that 1(2) by simp
      have "fine U (min (min (Suc k) m) (n + (left p - left s'))) p (exprV p) (exprLoop U rec m n ps as s')"
        by (rule Suc.IH [OF s'(1)]) (use as s'(2) in auto)
      then show "fine U ?K p (exprV p) (exprLoop U rec m n ps as s')"
        by (rule fine_bound) (use s' l Suc.prems in \<open>auto simp: moved_def\<close>)
    qed
    moreover have "fine U ?K p (exprV p) (case as of [] \<Rightarrow> Ret None (addHere ''no expression in choice'' s)
        | [x] \<Rightarrow> Ret (Some x) s | _ \<Rightarrow> Ret (Some (ChoiceExpr ps as)) s)"
      using as 1(1) by (cases as rule: remdups_adj.cases) auto
    ultimately show ?case by (simp add: Let_def flip: as_def)
  qed
qed

end

lemma expression_contract: "rec_contract (p_expression U n) U (n - 1)"
proof (induction n)
  case 0
  show ?case by unfold_locales simp
next
  case (Suc n)
  note loop = rec_contract.exprLoop_fine [OF Suc.IH]
  show ?case
    by unfold_locales (use loop [where n = n and m = n and alts = "[]"] in \<open>force intro: fine_from\<close>)
qed

interpretation expression: rec_contract "p_expression U n" U "n - 1" for U n
  by (rule expression_contract)

section \<open>Rules and grammars\<close>

lemma fine_later:
  assumes "moved U p q" "fine U k q V r"
  shows "fine U k p V r"
  using fine_from [OF assms(2,1), of k V] assms(1) by (auto simp: moved_def)

lemma skip_fine:
  assumes "wf_p p" "eof \<notin> set ids"
  shows "fine U n p (\<lambda>_ _. True) (p_skip U n ids p)"
  using assms(1)
proof (induction n arbitrary: p)
  case (Suc n)
  have "fine U (Suc n) p (\<lambda>_ _. True) (bindR (p_read U p) (\<lambda>_ p1. p_skip U n ids p1))" if "id_of (tok p) \<in> set ids"
  proof (rule fine_read [OF Suc.prems])
    fix q
    assume q: "moved U p q" "id_of (tok p) \<noteq> eof \<Longrightarrow> left q < left p"
    have "left q < left p" using q(2) that assms(2) by metis
    then show "fine U (Suc n) p (\<lambda>_ _. True) (p_skip U n ids q)"
      by (intro fine_from [OF Suc.IH [OF moved_wf [OF q(1)]] q(1)]) auto
  qed
  with Suc.prems show ?case by simp
qed simp

definition wf_rule :: "Rule \<Rightarrow> bool" where
  "wf_rule r \<longleftrightarrow> (\<exists>i. r_Name r = Some i \<and> Val i \<noteq> []) \<and> wf_expr (r_Expr r)"

definition ruleV :: "bparser \<Rightarrow> Rule option \<Rightarrow> bparser \<Rightarrow> bool" where
  "ruleV p v q \<longleftrightarrow> (case v of None \<Rightarrow> length (perrs p) < length (perrs q) | Some r \<Rightarrow> wf_rule r)"

lemma ruleV_simps [simp]:
  "ruleV p None q \<longleftrightarrow> length (perrs p) < length (perrs q)" "ruleV p (Some r) q \<longleftrightarrow> wf_rule r"
  by (simp_all add: ruleV_def)

lemma drop_fine: "moved U p q \<Longrightarrow> fine U k p (ruleV p) (Ret None (addHere m q))"
  by (auto simp: moved_def dest!: prefix_length_le)

lemma displayName_fine:
  assumes "wf_p p"
  shows "fine U k p (\<lambda>v q. \<not> snd v \<longrightarrow> length (perrs p) < length (perrs q)) (p_displayName U p)"
proof -
  have "fine U k p (\<lambda>v q. \<not> snd v \<longrightarrow> length (perrs p) < length (perrs q))
      (bindR (p_read U p) (\<lambda>_ p1. Ret (Some s, True) p1))" for s
    by (rule fine_read [OF assms]) simp
  with assms show ?thesis by (auto simp: p_displayName_def split: option.split)
qed

lemma ruleExpr_fine:
  assumes "moved U p q" "\<exists>i. r_Name r = Some i \<and> Val i \<noteq> []"
  shows "fine U (n - 1) p (ruleV p) (p_ruleExpr U n r q)"
  unfolding p_ruleExpr_def
proof (rule fine_bind [OF fine_later [OF assms(1) expression.rec_fine [OF moved_wf [OF assms(1)]]]], goal_cases)
  case (1 v s)
  then show ?case
  proof (cases v)
    case (Some e)
    then have e: "wf_rule (r\<lparr>r_Expr := e\<rparr>)" using 1(2) assms(2) by (simp add: wf_rule_def)
    show ?thesis
      by (cases rule: expect_cases [of "[eol, eof, semicolon]" s])
        (use Some e 1(1) drop_fine [OF moved_addI [OF 1(1)]] in simp_all)
  qed (use drop_fine [OF 1(1)] in simp)
qed

lemma rule_fine:
  assumes "wf_p p"
  shows "fine U (n - 1) p (ruleV p) (p_rule U n p)"
proof (cases rule: expect_cases [of "[ident]" p])
  case (miss m)
  then show ?thesis using drop_fine [of U p p] assms by (simp add: p_rule_def)
next
  case hit
  define r where "r = NewRule (tok_pos (tok p)) (NewIdentifier (tok_pos (tok p)) (lit (tok p)))"
  have n: "\<exists>i. r_Name r = Some i \<and> Val i \<noteq> []"
    using assms hit(2) by (simp add: r_def NewRule_def NewIdentifier_def wf_p_def named_def)
  have body: "fine U (n - 1) p (ruleV p) (bindR (p_read U q) (\<lambda>_ p5. bindR (p_skip U n [eol] p5) (\<lambda>_ p6.
      p_ruleExpr U n (r\<lparr>r_DisplayName := dn\<rparr>) p6)))" if q: "moved U p q" for q dn
  proof (rule fine_read_from [OF q], rule fine_bind [where V = "\<lambda>_ _. True"], goal_cases)
    case (1 s)
    then show ?case
      by (intro fine_later [OF 1(1)] fine_bound [OF skip_fine]) (auto simp: moved_def)
  next
    case (2 s v u)
    show ?case by (rule ruleExpr_fine [OF 2(4)]) (use n in simp)
  qed
  have "fine U (n - 1) p (ruleV p) (bindR (p_displayName U q) (\<lambda>(dn, ok) p3.
       if \<not> ok then Ret None p3
       else case p_expect [ruledef] p3 of
         (False, p4) \<Rightarrow> Ret None p4
       | (True, p4) \<Rightarrow> bindR (p_read U p4) (\<lambda>_ p5. bindR (p_skip U n [eol] p5) (\<lambda>_ p6.
           p_ruleExpr U n (r\<lparr>r_DisplayName := dn\<rparr>) p6))))" if q: "moved U p q" for q
  proof (rule fine_bind [OF fine_later [OF q displayName_fine [OF moved_wf [OF q]]]], goal_cases)
    case (1 v s)
    obtain dn ok where v: "v = (dn, ok)" by (cases v)
    show ?case
    proof (cases ok)
      case True
      show ?thesis
        by (cases rule: expect_cases [of "[ruledef]" s]) (use v True body [OF 1(1)] drop_fine [OF 1(1)] in simp_all)
    next
      case False
      with 1 v q show ?thesis by (auto simp: moved_def dest!: prefix_length_le)
    qed
  qed
  then have "fine U (n - 1) p (ruleV p) (bindR (p_read U p) (\<lambda>_ p2. bindR (p_displayName U p2) (\<lambda>(dn, ok) p3.
       if \<not> ok then Ret None p3
       else case p_expect [ruledef] p3 of
         (False, p4) \<Rightarrow> Ret None p4
       | (True, p4) \<Rightarrow> bindR (p_read U p4) (\<lambda>_ p5. bindR (p_skip U n [eol] p5) (\<lambda>_ p6.
           p_ruleExpr U n (r\<lparr>r_DisplayName := dn\<rparr>) p6)))))"
    by (intro fine_read [OF assms])
  then show ?thesis using hit unfolding p_rule_def r_def Let_def by simp
qed

lemma eof_left: "wf_p p \<Longrightarrow> id_of (tok p) = eof \<Longrightarrow> left p = 0"
  by (auto simp: wf_p_def left_def remaining_def)

lemma rulesLoop_fine:
  assumes "wf_p p" "\<forall>r\<in>set (g_Rules g). wf_rule r"
  shows "fine U (min n (m - 1)) p (\<lambda>g' q. \<forall>r\<in>set (g_Rules g'). wf_rule r) (rulesLoop U m n g p)"
  using assms
proof (induction n arbitrary: p g)
  case (Suc n)
  let ?V = "\<lambda>g' (q :: bparser). \<forall>r\<in>set (g_Rules g'). wf_rule r"
  let ?K = "min (Suc n) (m - 1)"
  have "fine U ?K p ?V (bindR (p_rule U m p) (\<lambda>r p1.
        let g1 = (case r of Some x \<Rightarrow> g\<lparr>g_Rules := g_Rules g @ [x]\<rparr> | None \<Rightarrow> g)
        in bindR (p_read U p1) (\<lambda>_ p2. bindR (p_skip U m [eol, semicolon] p2) (\<lambda>_ p3. rulesLoop U m n g1 p3))))"
    if ne: "id_of (tok p) \<noteq> eof"
  proof (rule fine_bind [OF fine_bound [OF rule_fine [OF Suc.prems(1)], of ?K]], goal_cases)
    case (2 v q)
    define g1 where "g1 = (case v of Some x \<Rightarrow> g\<lparr>g_Rules := g_Rules g @ [x]\<rparr> | None \<Rightarrow> g)"
    have g1: "\<forall>r\<in>set (g_Rules g1). wf_rule r" using Suc.prems(2) 2(2) by (auto simp: g1_def split: option.split)
    have pos: "0 < left p" using ne by (simp add: left_def)
    have "fine U ?K p ?V (bindR (p_read U q) (\<lambda>_ p2. bindR (p_skip U m [eol, semicolon] p2) (\<lambda>_ p3. rulesLoop U m n g1 p3)))"
    proof (rule fine_read_from [OF 2(1)], rule fine_bind [where V = "\<lambda>_ u. left u < left p"], goal_cases)
      case (1 s)
      have l: "left s < left p"
        using 1 2(1) pos eof_left [OF moved_wf [OF 2(1)]] by (cases "id_of (tok q) = eof") (auto simp: moved_def)
      then show ?case
        by (intro fine_from [OF skip_fine [OF moved_wf [OF 1(1)]] 1(1)]) (auto simp: moved_def)
    next
      case (2 s w u)
      then show ?case by (intro fine_from [OF Suc.IH [OF moved_wf [OF 2(4)] g1] 2(4)]) auto
    qed
    then show ?case by (simp add: Let_def flip: g1_def)
  qed simp
  with Suc.prems show ?case by simp
qed simp

lemma grammar_fine:
  assumes "wf_scan p" "\<And>t. t \<in> ahead U p \<Longrightarrow> id_of t = cls \<Longrightarrow> \<exists>c. NewCharClassMatcher (tok_pos t) (lit t) = Ret () c"
    and "left p + 3 \<le> n"
  shows "\<exists>g q. p_grammar U n p = Ret g q \<and> (\<forall>r\<in>set (g_Rules g). wf_rule r)"
proof (rule read_cases [OF assms(1), of U])
  fix q
  assume q: "p_read U p = Ret () q" "wf_p q" "upcoming U q \<subseteq> ahead U p" "left q \<le> left p + 1"
  let ?V = "\<lambda>g (q :: bparser). \<forall>r\<in>set (g_Rules g). wf_rule r"
  define g where "g = NewGrammar (tok_pos (tok q))"
  have loop: "fine U (n - 1) q ?V (rulesLoop U n n h u)" if "moved U q u" "g_Rules h = []" for u h
    by (rule fine_later [OF that(1) fine_bound [OF rulesLoop_fine [OF moved_wf [OF that(1)]]]]) (use that in auto)
  have skip: "fine U (n - 1) q (\<lambda>_ _. True) (p_skip U n [eol, semicolon] u)" if "moved U q u" for u
    by (rule fine_later [OF that fine_bound [OF skip_fine [OF moved_wf [OF that]]]]) auto
  have g: "g_Rules g = []" by (simp add: g_def NewGrammar_def)
  have "fine U (n - 1) q ?V (bindR (p_skip U n [eol, semicolon] q) (\<lambda>_ p2.
        if id_of (tok p2) = code then
          let g1 = g\<lparr>g_Init := Some (NewCodeBlock (tok_pos (tok p2)) (lit (tok p2)))\<rparr>
          in bindR (p_read U p2) (\<lambda>_ p3. bindR (p_skip U n [eol, semicolon] p3) (\<lambda>_ p4. rulesLoop U n n g1 p4))
        else rulesLoop U n n g p2))"
  proof (rule fine_bind [OF skip [OF moved_refl [OF q(2)]]], goal_cases)
    case (1 v u)
    have "fine U (n - 1) q ?V (bindR (p_read U u) (\<lambda>_ p3. bindR (p_skip U n [eol, semicolon] p3) (\<lambda>_ p4.
        rulesLoop U n n (g\<lparr>g_Init := i\<rparr>) p4)))" for i
    proof (rule fine_read_from [OF 1(1)])
      fix s
      assume s: "moved U q s"
      show "fine U (n - 1) q ?V (bindR (p_skip U n [eol, semicolon] s) (\<lambda>_ p4. rulesLoop U n n (g\<lparr>g_Init := i\<rparr>) p4))"
        by (rule fine_bind [OF skip [OF s]]) (rule loop, use g in simp_all)
    qed
    with loop [OF 1(1) g] show ?case by (simp add: Let_def)
  qed
  note f = fine_Ret [OF this]
  have "tame U q" "left q < n - 1" using q(3,4) assms(2,3) by (auto simp: tame_def)
  from f [OF this] q(1) show ?thesis unfolding p_grammar_def g_def Let_def by simp
qed

end
