(* ===== verification/Peg_Builder_Proofs.thy ===== *)
theory Peg_Builder_Proofs
  imports Peg_Builder Peg_Bootstrap_Proofs
begin

text \<open>
  Facts about the generator: what two runs that differ only in their writers have in common, and
  what the run with a writer that never fails puts out.
\<close>

section \<open>Runs in step\<close>

fun nonil :: "Expression \<Rightarrow> bool" where
  "nonil (ChoiceExpr _ es) \<longleftrightarrow> (\<forall>e\<in>set es. nonil e)"
| "nonil (ActionExpr _ e _ _) \<longleftrightarrow> nonil e"
| "nonil (SeqExpr _ es) \<longleftrightarrow> (\<forall>e\<in>set es. nonil e)"
| "nonil (LabeledExpr _ _ e) \<longleftrightarrow> nonil e"
| "nonil (AndExpr _ e) \<longleftrightarrow> nonil e"
| "nonil (NotExpr _ e) \<longleftrightarrow> nonil e"
| "nonil (ZeroOrOneExpr _ e) \<longleftrightarrow> nonil e"
| "nonil (ZeroOrMoreExpr _ e) \<longleftrightarrow> nonil e"
| "nonil (OneOrMoreExpr _ e) \<longleftrightarrow> nonil e"
| "nonil NilExpr \<longleftrightarrow> False"
| "nonil _ \<longleftrightarrow> True"

fun inStep :: "(builder \<Rightarrow> builder \<Rightarrow> bool) \<Rightarrow> (builder, 'v) result \<Rightarrow> (builder, 'v) result \<Rightarrow> bool" where
  "inStep R (Ret v b) (Ret v' c) \<longleftrightarrow> v = v' \<and> R b c"
| "inStep R (Panic x b) (Panic x' c) \<longleftrightarrow> x = x' \<and> R b c"
| "inStep R _ _ \<longleftrightarrow> False"

lemma inStep_bind:
  "inStep R m m' \<Longrightarrow> (\<And>v b c. R b c \<Longrightarrow> inStep R' (f v b) (f' v c)) \<Longrightarrow> (\<And>b c. R b c \<Longrightarrow> R' b c) \<Longrightarrow>
    inStep R' (bindR m f) (bindR m' f')"
  by (cases m; cases m') auto

lemma bindR_assoc: "bindR (bindR m f) g = bindR m (\<lambda>v b. bindR (f v b) g)"
  by (cases m) auto

definition pairStep :: "(builder \<Rightarrow> builder \<Rightarrow> bool) \<Rightarrow> builder \<times> 'v \<Rightarrow> builder \<times> 'v \<Rightarrow> bool" where
  "pairStep R x y \<longleftrightarrow> R (fst x) (fst y) \<and> snd x = snd y"

locale builder_steps =
  fixes R :: "builder \<Rightarrow> builder \<Rightarrow> bool"
  assumes R_write: "R b c \<Longrightarrow> R (writef f a b) (writef f a c)"
    and R_fields: "R b c \<Longrightarrow> exprIndex b = exprIndex c" "R b c \<Longrightarrow> b_ruleName b = b_ruleName c"
      "R b c \<Longrightarrow> argsStack b = argsStack c" "R b c \<Longrightarrow> curRecvName b = curRecvName c"
    and R_index: "R b c \<Longrightarrow> R (b\<lparr>exprIndex := i\<rparr>) (c\<lparr>exprIndex := i\<rparr>)"
    and R_rule: "R b c \<Longrightarrow> R (b\<lparr>b_ruleName := n\<rparr>) (c\<lparr>b_ruleName := n\<rparr>)"
    and R_args: "R b c \<Longrightarrow> R (b\<lparr>argsStack := as\<rparr>) (c\<lparr>argsStack := as\<rparr>)"
begin

lemma R_writeln: "R b c \<Longrightarrow> R (writelnf f a b) (writelnf f a c)"
  by (simp add: writelnf_def R_write)

lemma R_pos: "R b c \<Longrightarrow> R (writePos p b) (writePos p c)"
  by (simp add: writePos_def R_writeln)

lemma R_name: "R b c \<Longrightarrow> funcName i b = funcName i c"
  by (simp add: funcName_def R_fields(2) [of b c])

lemma R_next: "R b c \<Longrightarrow> R (nextIndex b) (nextIndex c)"
  using R_index [of b c "exprIndex c + 1"] by (simp add: nextIndex_def R_fields(1) [of b c])

lemma R_fold: "R b c \<Longrightarrow> R (fold (\<lambda>x. writef (f x) (a x)) xs b) (fold (\<lambda>x. writef (f x) (a x)) xs c)"
  by (induction xs arbitrary: b c) (auto simp: R_write)

lemmas R_intros = R_writeln R_write R_pos R_next R_fold

lemma R_leaves:
  assumes "R b c"
  shows "R (writeAnyMatcher p b) (writeAnyMatcher p c)" "R (writeRunes U ic h rs b) (writeRunes U ic h rs c)"
    "R (writeLitMatcher U p v ic b) (writeLitMatcher U p v ic c)" "R (writeRuleRefExpr p n b) (writeRuleRefExpr p n c)"
  using assms by (auto simp: writeAnyMatcher_def writeRunes_def writeLitMatcher_def writeRuleRefExpr_def Let_def
      intro!: R_intros split: option.split)

lemma R_class: "R b c \<Longrightarrow> R (writeCharClassMatcher U ch b) (writeCharClassMatcher U ch c)"
  by (auto simp: writeCharClassMatcher_def Let_def intro!: R_intros R_leaves)

lemma R_code:
  assumes "R b c"
  shows "pairStep R (writeAndCodeExpr p k b) (writeAndCodeExpr p k c)" "pairStep R (writeNotCodeExpr p k b) (writeNotCodeExpr p k c)"
proof -
  have n: "funcName i (writePos p (writelnf f a b)) = funcName i (writePos p (writelnf f a c))" for i f a
    using assms by (intro R_name R_intros)
  show "pairStep R (writeAndCodeExpr p k b) (writeAndCodeExpr p k c)" "pairStep R (writeNotCodeExpr p k b) (writeNotCodeExpr p k c)"
    using assms by (auto simp: pairStep_def writeAndCodeExpr_def writeNotCodeExpr_def Let_def n R_fields(1) [of b c] intro!: R_intros)
qed

lemma R_all:
  assumes "\<And>e b c. e \<in> set es \<Longrightarrow> R b c \<Longrightarrow> pairStep R (rec e b) (rec e c)" "R b c"
  shows "pairStep R (writeAll rec es b) (writeAll rec es c)"
  using assms
proof (induction es arbitrary: b c)
  case (Cons e es)
  have "pairStep R (rec e b) (rec e c)" using Cons.prems by simp
  moreover from this have "pairStep R (writeAll rec es (fst (rec e b))) (writeAll rec es (fst (rec e c)))"
    using Cons.prems(1) by (intro Cons.IH) (auto simp: pairStep_def)
  ultimately show ?case by (simp add: pairStep_def case_prod_beta)
qed (simp add: pairStep_def)

lemma R_ones:
  assumes "R b c" "\<And>b c. R b c \<Longrightarrow> pairStep R (rec e b) (rec e c)"
  shows "pairStep R (writeActionExpr rec p e k b) (writeActionExpr rec p e k c)"
    "pairStep R (writeAndExpr rec p e b) (writeAndExpr rec p e c)"
    "pairStep R (writeLabeledExpr rec p l e b) (writeLabeledExpr rec p l e c)"
    "pairStep R (writeNotExpr rec p e b) (writeNotExpr rec p e c)"
    "pairStep R (writeOneOrMoreExpr rec p e b) (writeOneOrMoreExpr rec p e c)"
    "pairStep R (writeZeroOrMoreExpr rec p e b) (writeZeroOrMoreExpr rec p e c)"
    "pairStep R (writeZeroOrOneExpr rec p e b) (writeZeroOrOneExpr rec p e c)"
proof -
  have s: "R x y \<Longrightarrow> pairStep R (writelnf f a (fst (rec e x)), g (snd (rec e x))) (writelnf f a (fst (rec e y)), g (snd (rec e y)))" for x y f a and g :: "Expression \<Rightarrow> Expression"
    using assms(2) [of x y] by (auto simp: pairStep_def intro: R_intros)
  have n: "funcName i (writePos p (writelnf f a b)) = funcName i (writePos p (writelnf f a c))" for i f a
    using assms by (intro R_name R_intros)
  show "pairStep R (writeActionExpr rec p e k b) (writeActionExpr rec p e k c)"
    unfolding writeActionExpr_def Let_def case_prod_beta n R_fields(1) [OF assms(1)]
    using assms(1) by (intro s R_intros)
  show "pairStep R (writeLabeledExpr rec p l e b) (writeLabeledExpr rec p l e c)"
    using assms(1) by (cases l) (auto simp: writeLabeledExpr_def Let_def case_prod_beta intro!: s R_intros)
  show "pairStep R (writeAndExpr rec p e b) (writeAndExpr rec p e c)"
    "pairStep R (writeNotExpr rec p e b) (writeNotExpr rec p e c)"
    "pairStep R (writeOneOrMoreExpr rec p e b) (writeOneOrMoreExpr rec p e c)"
    "pairStep R (writeZeroOrMoreExpr rec p e b) (writeZeroOrMoreExpr rec p e c)"
    "pairStep R (writeZeroOrOneExpr rec p e b) (writeZeroOrOneExpr rec p e c)"
    unfolding one_writers Let_def case_prod_beta using assms(1) by (intro s R_intros; assumption)+
qed

lemma R_manys:
  assumes "R b c" "\<And>e b c. e \<in> set es \<Longrightarrow> R b c \<Longrightarrow> pairStep R (rec e b) (rec e c)"
  shows "pairStep R (writeChoiceExpr rec p es b) (writeChoiceExpr rec p es c)"
    "pairStep R (writeSeqExpr rec p es b) (writeSeqExpr rec p es c)"
proof -
  have s: "R x y \<Longrightarrow> pairStep R (writelnf f' a' (writelnf f a (fst (writeAll rec es x))), g (snd (writeAll rec es x)))
      (writelnf f' a' (writelnf f a (fst (writeAll rec es y))), g (snd (writeAll rec es y)))" for x y f a f' a' and g :: "Expression list \<Rightarrow> Expression"
    using R_all [of es rec x y] assms(2) by (auto simp: pairStep_def intro: R_intros)
  have "pairStep R (writeChoiceExpr rec p es b) (writeChoiceExpr rec p es c) \<and>
    pairStep R (writeSeqExpr rec p es b) (writeSeqExpr rec p es c)"
  proof (cases "es = []")
    case True
    then have "R (writelnf f a (writePos p (writelnf f' a' b))) (writelnf f a (writePos p (writelnf f' a' c)))" for f a f' a'
      using assms(1) by (intro R_intros)
    with True show ?thesis
      by (simp_all add: writeChoiceExpr_def writeSeqExpr_def pairStep_def)
  next
    case False
    then have l: "(0 < length es) = True" by simp
    show ?thesis
      unfolding writeChoiceExpr_def writeSeqExpr_def Let_def case_prod_beta l if_True fst_conv snd_conv
      using assms(1) by (intro conjI s R_intros; assumption)
  qed
  then show "pairStep R (writeChoiceExpr rec p es b) (writeChoiceExpr rec p es c)"
    "pairStep R (writeSeqExpr rec p es b) (writeSeqExpr rec p es c)"
    by simp_all
qed

lemma R_leaf: "R b c \<Longrightarrow> pairStep R (b, x) (c, x)"
  by (simp add: pairStep_def)

lemma R_expr: "nonil e \<Longrightarrow> R b c \<Longrightarrow> pairStep R (writeExpr U e b) (writeExpr U e c)"
  by (induction e arbitrary: b c) (auto intro!: R_ones R_manys R_code R_next R_leaf R_leaves R_class)

lemma R_ruleStep:
  assumes "R b c" "r_Name r \<noteq> None \<longrightarrow> nonil (r_Expr r)"
  shows "pairStep R (writeRule U r b) (writeRule U r c)"
proof (cases "r_Name r")
  case (Some name)
  let ?f = "\<lambda>b. writef (tab ''expr: '') [] (writePos (r_p r) (case r_DisplayName r of
      Some d \<Rightarrow> if Val d \<noteq> [] then writelnf (tab ''displayName: %q,'') [AStr (Val d)]
          (writelnf (tab ''name: %q,'') [AStr (Val name)] (writelnf ''{'' [] (b\<lparr>exprIndex := 0, b_ruleName := Val name\<rparr>)))
        else writelnf (tab ''name: %q,'') [AStr (Val name)] (writelnf ''{'' [] (b\<lparr>exprIndex := 0, b_ruleName := Val name\<rparr>))
    | None \<Rightarrow> writelnf (tab ''name: %q,'') [AStr (Val name)] (writelnf ''{'' [] (b\<lparr>exprIndex := 0, b_ruleName := Val name\<rparr>))))"
  have "R (?f b) (?f c)" using assms(1) by (auto intro!: R_intros R_rule R_index split: option.split)
  with R_expr [of "r_Expr r" "?f b" "?f c" U] assms(2) Some show ?thesis
    by (auto simp: writeRule_def Let_def pairStep_def case_prod_beta intro: R_intros)
qed (use assms in \<open>simp add: writeRule_def pairStep_def\<close>)

lemma R_rules: "R b c \<Longrightarrow> \<forall>r\<in>set rs. r_Name r \<noteq> None \<longrightarrow> nonil (r_Expr r) \<Longrightarrow> pairStep R (writeRules U rs b) (writeRules U rs c)"
proof (induction rs arbitrary: b c)
  case (Cons r rs)
  have "pairStep R (writeRule U r b) (writeRule U r c)" using R_ruleStep Cons.prems by simp
  moreover from this have "pairStep R (writeRules U rs (fst (writeRule U r b))) (writeRules U rs (fst (writeRule U r c)))"
    using Cons.prems by (intro Cons.IH) (auto simp: pairStep_def)
  ultimately show ?case by (simp add: pairStep_def case_prod_beta)
qed (simp add: pairStep_def)

lemma R_grammar:
  assumes "R b c" "\<forall>r\<in>set (g_Rules g). r_Name r \<noteq> None \<longrightarrow> nonil (r_Expr r)"
  shows "pairStep R (writeGrammar U g b) (writeGrammar U g c)"
proof -
  have "R (writelnf f a (writelnf f' a' b)) (writelnf f a (writelnf f' a' c))" for f a f' a' using assms(1) by (intro R_intros)
  note s = R_rules [OF this assms(2), unfolded pairStep_def]
  show ?thesis
    using s [THEN conjunct2] by (auto simp: writeGrammar_def Let_def case_prod_beta pairStep_def intro!: R_writeln s [THEN conjunct1])
qed

lemma R_pushArgs: "R b c \<Longrightarrow> R (pushArgsSet b) (pushArgsSet c)"
  using R_args [of b c "argsStack c @ [[]]"] by (simp add: pushArgsSet_def R_fields(3) [of b c])

lemma R_popArgs: "R b c \<Longrightarrow> inStep R (popArgsSet b) (popArgsSet c)"
  using R_args [of b c "butlast (argsStack c)"] by (simp add: popArgsSet_def R_fields(3) [of b c])

lemma R_addArg: "R b c \<Longrightarrow> inStep R (addArg l b) (addArg l c)"
  using R_args [of b c "butlast (argsStack c) @ [last (argsStack c) @ [Val (the l)]]"]
  by (cases l) (simp_all add: addArg_def R_fields(3) [of b c])

lemma R_func: "R b c \<Longrightarrow> inStep R (writeFunc U P ix k t t' b) (writeFunc U P ix k t t' c)"
  by (auto simp: writeFunc_def Let_def topArgs_def R_fields(3,4) [of b c] R_name [of b c] intro!: R_intros split: option.split)

lemma R_scoped: "(\<And>b c. R b c \<Longrightarrow> inStep R (f b) (f c)) \<Longrightarrow> R b c \<Longrightarrow> inStep R (scoped f b) (scoped f c)"
  unfolding scoped_def by (rule inStep_bind [where R = R]) (auto intro: R_pushArgs R_popArgs)

lemma R_exprCode:
  "R b c \<Longrightarrow> inStep R (writeExprCode U P e b) (writeExprCode U P e c)"
  "R b c \<Longrightarrow> inStep R (writeAlternatives U P es b) (writeAlternatives U P es c)"
  "R b c \<Longrightarrow> inStep R (writeSubs U P es b) (writeSubs U P es c)"
  by (induction U P e b and U P es b and U P es b arbitrary: c and c and c
      rule: writeExprCode_writeAlternatives_writeSubs.induct)
    (auto simp: writeActionExprCode_def writeAndCodeExprCode_def writeNotCodeExprCode_def
      intro!: R_func inStep_bind [where R = R] R_scoped R_addArg)

lemma R_rulesCode: "R b c \<Longrightarrow> inStep R (writeRulesCode U P rs b) (writeRulesCode U P rs c)"
  by (induction rs arbitrary: b c)
    (auto simp: writeRuleCode_def intro!: inStep_bind [where R = R] R_scoped R_exprCode R_rule split: option.split)

lemma R_init: "R b c \<Longrightarrow> inStep R (writeInit i b) (writeInit i c)"
  by (auto simp: writeInit_def intro: R_intros split: option.split)

lemma R_build:
  assumes "R b c" "\<forall>r\<in>set (g_Rules g). r_Name r \<noteq> None \<longrightarrow> nonil (r_Expr r)"
  shows "case (buildParser U P static g b, buildParser U P static g c) of
      (Ret v b', Ret v' c') \<Rightarrow> R b' c' \<and> v = b_err b' \<and> v' = b_err c'
    | (Panic x b', Panic x' c') \<Rightarrow> x = x' \<and> R b' c'
    | _ \<Rightarrow> False"
proof -
  define tail where "tail = (\<lambda>b. let (b2, g1) = writeGrammar U g b
       in bindR (writeRulesCode U P (g_Rules g1) b2) (\<lambda>_ b3. Ret () (writeStaticCode static b3)))"
  have w: "R b c \<Longrightarrow> R (writeStaticCode static b) (writeStaticCode static c)" for b c
    by (simp add: writeStaticCode_def R_writeln)
  have t: "inStep R (tail b) (tail c)" if "R b c" for b c
    using R_grammar [OF that assms(2), of U]
    by (auto simp: tail_def pairStep_def case_prod_beta intro!: inStep_bind [where R = R] R_rulesCode w)
  have b: "buildParser U P static g b = bindR (bindR (writeInit (g_Init g) b) (\<lambda>_. tail)) (\<lambda>_ b. Ret (b_err b) b)" for b
    by (simp add: buildParser_def tail_def case_prod_beta Let_def bindR_assoc)
  have "inStep R (bindR (writeInit (g_Init g) b) (\<lambda>_. tail)) (bindR (writeInit (g_Init g) c) (\<lambda>_. tail))"
    by (rule inStep_bind [OF R_init [OF assms(1)]]) (auto intro: t)
  then show ?thesis
    by (cases "bindR (writeInit (g_Init g) b) (\<lambda>_. tail)"; cases "bindR (writeInit (g_Init g) c) (\<lambda>_. tail)") (auto simp: b)
qed

end

end
