(* ===== verification/Peg_Builder_Properties.thy ===== *)
theory Peg_Builder_Properties
  imports Peg_Builder_Proofs "HOL-Library.Multiset"
begin

text \<open>
  What the generator guarantees: a failing writer stops it at the first failure, the functions the
  grammar literal refers to are the functions it emits, with the labels in scope as parameters, and
  no two of them share a name unless a rule's name ends in a digit.
\<close>

section \<open>A writer that fails\<close>

definition twin :: "nat \<Rightarrow> string \<Rightarrow> builder \<Rightarrow> builder \<Rightarrow> bool" where
  "twin k e b c \<longleftrightarrow>
     b_err c = None \<and> wfail c = (\<lambda>_. None) \<and> wfail b k = Some e \<and> (\<forall>i<k. wfail b i = None) \<and>
     exprIndex b = exprIndex c \<and> b_ruleName b = b_ruleName c \<and> argsStack b = argsStack c \<and> curRecvName b = curRecvName c \<and>
     (if length (wlog c) \<le> k then wlog b = wlog c \<and> b_err b = None else wlog b = take k (wlog c) \<and> b_err b = Some e)"

lemma twin_write:
  assumes "twin k e b c"
  shows "twin k e (writef f a b) (writef f a c)"
proof (cases "length (wlog c) < k")
  case True
  with assms show ?thesis by (auto simp: twin_def writef_def)
next
  case False
  show ?thesis
  proof (cases "length (wlog c) = k")
    case True
    with assms show ?thesis by (auto simp: twin_def writef_def)
  next
    case no: False
    with False assms show ?thesis by (auto simp: twin_def writef_def)
  qed
qed

interpretation fails: builder_steps "twin k e" for k e
  by (unfold_locales, erule twin_write) (auto simp: twin_def split: if_splits)

definition quiet :: "builder \<Rightarrow> bool" where
  "quiet b \<longleftrightarrow> b_err b = None \<and> wfail b = (\<lambda>_. None)"

interpretation same: builder_steps "\<lambda>b c. b = c \<and> quiet c"
  by unfold_locales (auto simp: quiet_def writef_def)

lemma setOptions_fields: "setOptions opts (newBuilder w) = newBuilder w\<lparr>curRecvName := last (''c'' # opts)\<rparr>"
proof -
  have "setOptions opts b = b\<lparr>curRecvName := last (curRecvName b # opts)\<rparr>" for b
    by (induction opts arbitrary: b) (auto simp: setOptions_def CurrentReceiverName_def)
  then show ?thesis by (simp add: newBuilder_def)
qed

text \<open>
  C19. On a grammar without missing expressions a writer that fails for the first time in its k-th call makes
  the generator return that error, with exactly the first k calls of the undisturbed run written;
  when the undisturbed run makes no k-th call, the two runs write the same and return no error.
\<close>

theorem build_first_error:
  assumes "\<forall>r\<in>set (g_Rules g). r_Name r \<noteq> None \<longrightarrow> nonil (r_Expr r)"
    and "w k = Some e" "\<forall>i<k. w i = None"
    and "BuildParser U P static (\<lambda>_. None) g opts = Ret v c"
  shows "v = None \<and> (\<exists>b. BuildParser U P static w g opts = Ret (if k < length (wlog c) then Some e else None) b \<and>
    wlog b = take k (wlog c))"
proof -
  let ?b = "setOptions opts (newBuilder w)" and ?c = "setOptions opts (newBuilder (\<lambda>_. None))"
  have "twin k e ?b ?c" using assms(2,3) unfolding setOptions_fields by (simp add: twin_def newBuilder_def)
  from fails.R_build [OF this assms(1), of U P static] assms(4)
  obtain b where b: "BuildParser U P static w g opts = Ret (b_err b) b" "twin k e b c" "v = b_err c"
    by (auto simp: BuildParser_def split: result.splits)
  then show ?thesis by (auto simp: twin_def split: if_splits)
qed

section \<open>The undisturbed run\<close>

lemma quiet_write [simp]: "quiet b \<Longrightarrow> writef f a b = b\<lparr>wlog := wlog b @ [(f, a)]\<rparr>"
  by (simp add: writef_def quiet_def)

lemma quiet_upd [simp]:
  "quiet (b\<lparr>wlog := l\<rparr>) = quiet b" "quiet (b\<lparr>exprIndex := i\<rparr>) = quiet b" "quiet (b\<lparr>b_ruleName := n\<rparr>) = quiet b"
  "quiet (b\<lparr>argsStack := as\<rparr>) = quiet b" "quiet (b\<lparr>curRecvName := nm\<rparr>) = quiet b"
  by (simp_all add: quiet_def)

lemma quiet_writeln [simp]: "quiet b \<Longrightarrow> writelnf f a b = b\<lparr>wlog := wlog b @ [(nl f, a)]\<rparr>"
  by (simp add: writelnf_def)

lemma quiet_pos [simp]: "quiet b \<Longrightarrow> writePos p b =
    b\<lparr>wlog := wlog b @ [(nl (tab ''pos: position{line: %d, col: %d, offset: %d},''), [AInt (Line p), AInt (Col p), AInt (int (Off p))])]\<rparr>"
  by (simp add: writePos_def)

lemma quiet_fold [simp]: "quiet b \<Longrightarrow> fold (\<lambda>x. writef (f x) (a x)) xs b = b\<lparr>wlog := wlog b @ map (\<lambda>x. (f x, a x)) xs\<rparr>"
  by (induction xs arbitrary: b) auto

subsection \<open>The functions of a rule\<close>

text \<open>The labels an expression binds in the frame it runs in: those below a label or an alternative are not among them.\<close>

fun labels :: "Expression \<Rightarrow> gobytes list" where
  "labels (ActionExpr _ e _ _) = labels e"
| "labels (LabeledExpr _ l _) = (case l of None \<Rightarrow> [] | Some i \<Rightarrow> [Val i])"
| "labels (AndExpr _ e) = labels e"
| "labels (NotExpr _ e) = labels e"
| "labels (OneOrMoreExpr _ e) = labels e"
| "labels (ZeroOrMoreExpr _ e) = labels e"
| "labels (ZeroOrOneExpr _ e) = labels e"
| "labels (SeqExpr _ es) = concat (map labels es)"
| "labels _ = []"

datatype genFunc = GenFunc (gf_ix: int) (gf_body: gobytes) (gf_pred: bool) (gf_params: "gobytes list")

definition codeFunc :: "unicode_env \<Rightarrow> int \<Rightarrow> CodeBlock option \<Rightarrow> bool \<Rightarrow> gobytes list \<Rightarrow> genFunc list" where
  "codeFunc U ix c pr A = (case c of None \<Rightarrow> [] | Some cb \<Rightarrow> [GenFunc ix (the (funcBody U (Val cb))) pr A])"

fun funcs :: "unicode_env \<Rightarrow> gobytes list \<Rightarrow> Expression \<Rightarrow> genFunc list"
  and funcsSeq :: "unicode_env \<Rightarrow> gobytes list \<Rightarrow> Expression list \<Rightarrow> genFunc list" where
  "funcs U A (ActionExpr _ e c ix) = funcs U A e @ codeFunc U ix c False (A @ labels e)"
| "funcs U A (AndCodeExpr _ c ix) = codeFunc U ix c True A"
| "funcs U A (NotCodeExpr _ c ix) = codeFunc U ix c True A"
| "funcs U A (LabeledExpr _ _ e) = funcs U [] e"
| "funcs U A (ChoiceExpr _ es) = concat (map (funcs U []) es)"
| "funcs U A (AndExpr _ e) = funcs U A e"
| "funcs U A (NotExpr _ e) = funcs U A e"
| "funcs U A (OneOrMoreExpr _ e) = funcs U A e"
| "funcs U A (ZeroOrMoreExpr _ e) = funcs U A e"
| "funcs U A (ZeroOrOneExpr _ e) = funcs U A e"
| "funcs U A (SeqExpr _ es) = funcsSeq U A es"
| "funcs U A _ = []"
| "funcsSeq U A [] = []"
| "funcsSeq U A (e # es) = funcs U A e @ funcsSeq U (A @ labels e) es"

definition emitFunc :: "(rune \<Rightarrow> bool) \<Rightarrow> gobytes \<Rightarrow> gobytes \<Rightarrow> genFunc \<Rightarrow> fcall list" where
  "emitFunc P recv rule f =
     (let nm = ''on'' @ rule @ itoa (gf_ix f); ps = commaSep (gf_params f)
      in [(nl (if gf_pred f then onPredFuncTemplate else onFuncTemplate),
           [AStr recv, AStr nm, AStr (if ps = [] then [] else ps @ '' interface{}''), AStr (gf_body f)]),
          (nl (if gf_pred f then callPredFuncTemplate else callFuncTemplate),
           [AStr nm, AStr (commaSep (map (stackRef P) (gf_params f)))])])"

fun sliceable :: "unicode_env \<Rightarrow> Expression \<Rightarrow> bool" where
  "sliceable U (ActionExpr _ e c _) \<longleftrightarrow> sliceable U e \<and> (\<forall>cb. c = Some cb \<longrightarrow> funcBody U (Val cb) \<noteq> None)"
| "sliceable U (AndCodeExpr _ c _) \<longleftrightarrow> (\<forall>cb. c = Some cb \<longrightarrow> funcBody U (Val cb) \<noteq> None)"
| "sliceable U (NotCodeExpr _ c _) \<longleftrightarrow> (\<forall>cb. c = Some cb \<longrightarrow> funcBody U (Val cb) \<noteq> None)"
| "sliceable U (LabeledExpr _ _ e) \<longleftrightarrow> sliceable U e"
| "sliceable U (ChoiceExpr _ es) \<longleftrightarrow> (\<forall>e\<in>set es. sliceable U e)"
| "sliceable U (SeqExpr _ es) \<longleftrightarrow> (\<forall>e\<in>set es. sliceable U e)"
| "sliceable U (AndExpr _ e) \<longleftrightarrow> sliceable U e"
| "sliceable U (NotExpr _ e) \<longleftrightarrow> sliceable U e"
| "sliceable U (OneOrMoreExpr _ e) \<longleftrightarrow> sliceable U e"
| "sliceable U (ZeroOrMoreExpr _ e) \<longleftrightarrow> sliceable U e"
| "sliceable U (ZeroOrOneExpr _ e) \<longleftrightarrow> sliceable U e"
| "sliceable U _ \<longleftrightarrow> True"

definition emits :: "(rune \<Rightarrow> bool) \<Rightarrow> genFunc list \<Rightarrow> builder \<Rightarrow> builder" where
  "emits P fs b = b\<lparr>wlog := wlog b @ concat (map (emitFunc P (curRecvName b) (b_ruleName b)) fs)\<rparr>"

lemma emits_simps [simp]:
  "emits P [] b = b" "emits P gs (emits P fs b) = emits P (fs @ gs) b" "quiet (emits P fs b) = quiet b"
  "argsStack (emits P fs b) = argsStack b" "(emits P fs b)\<lparr>argsStack := as\<rparr> = emits P fs (b\<lparr>argsStack := as\<rparr>)"
  by (simp_all add: emits_def)

lemma writeFunc_emits:
  assumes "quiet b" "argsStack b = S @ [A]" "\<forall>cb. c = Some cb \<longrightarrow> funcBody U (Val cb) \<noteq> None"
  shows "writeActionExprCode U P ix c b = Ret () (emits P (codeFunc U ix c False A) b)"
    "writeAndCodeExprCode U P ix c b = Ret () (emits P (codeFunc U ix c True A) b)"
    "writeNotCodeExprCode U P ix c b = Ret () (emits P (codeFunc U ix c True A) b)"
  using assms by (auto simp: writeActionExprCode_def writeAndCodeExprCode_def writeNotCodeExprCode_def writeFunc_def codeFunc_def
      emits_def emitFunc_def topArgs_def funcName_def Let_def split: option.split)

lemma scoped_emits:
  assumes "\<And>b. quiet b \<Longrightarrow> argsStack b = S @ [[]] \<Longrightarrow> f b = Ret () (emits P fs (b\<lparr>argsStack := S @ [A]\<rparr>))"
    and "quiet b" "argsStack b = S"
  shows "scoped f b = Ret () (emits P fs b)"
  using assms by (simp add: scoped_def pushArgsSet_def popArgsSet_def emits_def)

lemma same_args: "argsStack b = as \<Longrightarrow> b\<lparr>argsStack := as\<rparr> = b"
  by (cases b) simp

lemma exprCode_emits:
  "quiet b \<Longrightarrow> argsStack b = S @ [A] \<Longrightarrow> sliceable U e \<Longrightarrow>
     writeExprCode U P e b = Ret () (emits P (funcs U A e) (b\<lparr>argsStack := S @ [A @ labels e]\<rparr>))"
  "quiet b \<Longrightarrow> argsStack b = S @ [A] \<Longrightarrow> \<forall>e\<in>set es. sliceable U e \<Longrightarrow>
     writeAlternatives U P es b = Ret () (emits P (concat (map (funcs U []) es)) b)"
  "quiet b \<Longrightarrow> argsStack b = S @ [A] \<Longrightarrow> \<forall>e\<in>set es. sliceable U e \<Longrightarrow>
     writeSubs U P es b = Ret () (emits P (funcsSeq U A es) (b\<lparr>argsStack := S @ [A @ concat (map labels es)]\<rparr>))"
proof (induction U P e b and U P es b and U P es b arbitrary: S A and S A and S A
    rule: writeExprCode_writeAlternatives_writeSubs.induct)
  case (3 U P p l e b)
  have "scoped (writeExprCode U P e) (b\<lparr>argsStack := S @ [A @ labels (LabeledExpr p l e)]\<rparr>) =
      Ret () (emits P (funcs U [] e) (b\<lparr>argsStack := S @ [A @ labels (LabeledExpr p l e)]\<rparr>))"
    by (rule scoped_emits [where S = "S @ [A @ labels (LabeledExpr p l e)]" and A = "labels e"]) (use 3 in simp_all)
  then show ?case using "3.prems"(2) by (cases l) (auto simp: addArg_def same_args [of b])
next
  case (14 U P alt alts b)
  have "scoped (writeExprCode U P alt) b = Ret () (emits P (funcs U [] alt) b)"
    by (rule scoped_emits [where S = "S @ [A]" and A = "labels alt"]) (use 14 in simp_all)
  with 14 show ?case by simp
qed (simp_all add: writeFunc_emits same_args)

subsection \<open>References and definitions\<close>

definition runFormat :: string where
  "runFormat = nl (tab ''run: (*parser).call%s,'')"

definition refOf :: "fcall \<Rightarrow> gobytes list" where
  "refOf c = (case c of (f, [AStr n]) \<Rightarrow> if f = runFormat then [n] else [] | _ \<Rightarrow> [])"

definition defOf :: "fcall \<Rightarrow> gobytes list" where
  "defOf c = (case c of (f, [AStr n, AStr a]) \<Rightarrow> if f = nl callFuncTemplate \<or> f = nl callPredFuncTemplate then [n] else [] | _ \<Rightarrow> [])"

definition refs :: "builder \<Rightarrow> gobytes list" where
  "refs b = concat (map refOf (wlog b))"

definition defs :: "builder \<Rightarrow> gobytes list" where
  "defs b = concat (map defOf (wlog b))"

text \<open>The indexes of the nodes with code, in the order in which the literal is written.\<close>

fun codeIxs :: "Expression \<Rightarrow> int list" where
  "codeIxs (ActionExpr _ e _ ix) = ix # codeIxs e"
| "codeIxs (AndCodeExpr _ _ ix) = [ix]"
| "codeIxs (NotCodeExpr _ _ ix) = [ix]"
| "codeIxs (LabeledExpr _ _ e) = codeIxs e"
| "codeIxs (ChoiceExpr _ es) = concat (map codeIxs es)"
| "codeIxs (SeqExpr _ es) = concat (map codeIxs es)"
| "codeIxs (AndExpr _ e) = codeIxs e"
| "codeIxs (NotExpr _ e) = codeIxs e"
| "codeIxs (OneOrMoreExpr _ e) = codeIxs e"
| "codeIxs (ZeroOrMoreExpr _ e) = codeIxs e"
| "codeIxs (ZeroOrOneExpr _ e) = codeIxs e"
| "codeIxs _ = []"

text \<open>What writing a node does: it appends references for its code nodes, whose indexes are new and increasing.\<close>

definition wrote :: "builder \<Rightarrow> builder \<Rightarrow> int list \<Rightarrow> bool" where
  "wrote b b' ixs \<longleftrightarrow> quiet b' \<and> b_ruleName b' = b_ruleName b \<and> argsStack b' = argsStack b \<and> curRecvName b' = curRecvName b \<and>
     exprIndex b \<le> exprIndex b' \<and> sorted_wrt (<) ixs \<and> (\<forall>i\<in>set ixs. exprIndex b < i \<and> i \<le> exprIndex b') \<and>
     refs b' = refs b @ map (\<lambda>i. ''on'' @ b_ruleName b @ itoa i) ixs \<and> defs b' = defs b"

lemma wrote_trans: "wrote b c xs \<Longrightarrow> wrote c d ys \<Longrightarrow> wrote b d (xs @ ys)"
  unfolding wrote_def sorted_wrt_append by fastforce

lemma wrote_call:
  assumes "quiet b" "refOf (f, a) = []" "defOf (f, a) = []"
  shows "wrote b (b\<lparr>wlog := wlog b @ [(f, a)]\<rparr>) []"
  using assms by (simp add: wrote_def refs_def defs_def)

lemma wrote_calls:
  assumes "quiet b" "\<forall>c\<in>set cs. refOf c = [] \<and> defOf c = []"
  shows "wrote b (b\<lparr>wlog := wlog b @ cs\<rparr>) []"
  using assms by (auto simp: wrote_def refs_def defs_def)

lemma refOf_simps [simp]:
  "refOf (f, []) = []" "refOf (f, AInt i # a) = []" "refOf (f, ABool t # a) = []" "refOf (f, ARune r # a) = []"
  "refOf (f, [AStr n]) = (if f = runFormat then [n] else [])" "refOf (f, x # y # a) = []"
  by (simp_all add: refOf_def split: farg.split list.split)

lemma defOf_simps [simp]:
  "defOf (f, []) = []" "defOf (f, [x]) = []" "defOf (f, AInt i # a) = []" "defOf (f, x # y # z # a) = []"
  "defOf (f, [AStr n, AStr a']) = (if f = nl callFuncTemplate \<or> f = nl callPredFuncTemplate then [n] else [])"
  by (simp_all add: defOf_def split: farg.split)

lemma not_run [simp]:
  "nl (tab ''label: %q,'') \<noteq> runFormat" "nl (tab ''name: %q,'') \<noteq> runFormat" "nl (tab ''val: %q,'') \<noteq> runFormat"
  "nl (tab ''displayName: %q,'') \<noteq> runFormat" "''rangeTable(%q),'' \<noteq> runFormat" "nl ''%s'' \<noteq> runFormat"
  "nl (tab ''run: (*parser).call%s,'') = runFormat"
  by (simp_all add: runFormat_def nl_def tab_def)

lemma wrote_open:
  assumes "quiet b" "\<forall>c\<in>set cs. refOf c = [] \<and> defOf c = []"
  shows "wrote b (b\<lparr>exprIndex := exprIndex b + 1, wlog := wlog b @ cs\<rparr>) []"
  using assms by (auto simp: wrote_def refs_def defs_def)

lemma wrote_openCode:
  assumes "quiet b" "\<forall>c\<in>set (cs @ ds). refOf c = [] \<and> defOf c = []" "n = ''on'' @ b_ruleName b @ itoa (exprIndex b + 1)"
  shows "wrote b (b\<lparr>exprIndex := exprIndex b + 1, wlog := wlog b @ cs @ [(runFormat, [AStr n])] @ ds\<rparr>) [exprIndex b + 1]"
proof -
  have "concat (map refOf cs) = []" "concat (map refOf ds) = []" "concat (map defOf cs) = []" "concat (map defOf ds) = []"
    using assms(2) by auto
  with assms(1,3) show ?thesis by (simp add: wrote_def refs_def defs_def del: concat_eq_Nil_conv)
qed

lemma wrote_refl [simp]: "wrote b b [] \<longleftrightarrow> quiet b"
  by (auto simp: wrote_def)

lemma wrote_quiet: "wrote b c xs \<Longrightarrow> quiet c"
  by (simp add: wrote_def)

lemma wrote_close:
  assumes "wrote b c xs" "wrote c d ys" "\<forall>c\<in>set cs. refOf c = [] \<and> defOf c = []"
  shows "wrote b (d\<lparr>wlog := wlog d @ cs\<rparr>) (xs @ ys)"
  using wrote_trans [OF assms(1) wrote_trans [OF assms(2) wrote_calls [OF wrote_quiet [OF assms(2)] assms(3)]]] by simp

definition writesOK :: "unicode_env \<Rightarrow> Expression \<Rightarrow> bool" where
  "writesOK U e \<longleftrightarrow> (\<forall>b. quiet b \<longrightarrow> wrote b (fst (writeExpr U e b)) (codeIxs (snd (writeExpr U e b))))"

lemma writeAll_wrote:
  assumes "\<And>e. e \<in> set es \<Longrightarrow> writesOK U e" "quiet b"
  shows "wrote b (fst (writeAll (writeExpr U) es b)) (concat (map codeIxs (snd (writeAll (writeExpr U) es b))))"
  using assms
proof (induction es arbitrary: b)
  case (Cons e es)
  have "wrote b (fst (writeExpr U e b)) (codeIxs (snd (writeExpr U e b)))"
    using Cons.prems by (simp add: writesOK_def)
  from wrote_trans [OF this Cons.IH] wrote_quiet [OF this] Cons.prems(1) show ?case
    by (simp add: case_prod_beta)
qed simp

lemma unary_wrote:
  assumes "writesOK U e" "quiet b"
  shows "wrote b (fst (writeAndExpr (writeExpr U) p e (nextIndex b))) (codeIxs (snd (writeAndExpr (writeExpr U) p e (nextIndex b))))"
    "wrote b (fst (writeNotExpr (writeExpr U) p e (nextIndex b))) (codeIxs (snd (writeNotExpr (writeExpr U) p e (nextIndex b))))"
    "wrote b (fst (writeOneOrMoreExpr (writeExpr U) p e (nextIndex b))) (codeIxs (snd (writeOneOrMoreExpr (writeExpr U) p e (nextIndex b))))"
    "wrote b (fst (writeZeroOrMoreExpr (writeExpr U) p e (nextIndex b))) (codeIxs (snd (writeZeroOrMoreExpr (writeExpr U) p e (nextIndex b))))"
    "wrote b (fst (writeZeroOrOneExpr (writeExpr U) p e (nextIndex b))) (codeIxs (snd (writeZeroOrOneExpr (writeExpr U) p e (nextIndex b))))"
proof -
  let ?open = "\<lambda>cs. b\<lparr>exprIndex := exprIndex b + 1, wlog := wlog b @ cs\<rparr>"
  have step: "wrote b (writelnf ''},'' [] (fst (writeExpr U e (?open cs)))) (codeIxs (snd (writeExpr U e (?open cs))))"
    if "\<forall>c\<in>set cs. refOf c = [] \<and> defOf c = []" for cs
  proof -
    have o: "wrote b (?open cs) []" by (rule wrote_open [OF assms(2) that])
    have r: "wrote (?open cs) (fst (writeExpr U e (?open cs))) (codeIxs (snd (writeExpr U e (?open cs))))"
      using assms by (simp add: writesOK_def)
    from wrote_close [OF o r, of "[(nl ''},'', [])]"] wrote_quiet [OF r] show ?thesis by simp
  qed
  note s = step [of "[(f, []), (f', [AInt i, AInt j, AInt k]), (f'', [])]" for f f' f'' i j k]
  show "wrote b (fst (writeAndExpr (writeExpr U) p e (nextIndex b))) (codeIxs (snd (writeAndExpr (writeExpr U) p e (nextIndex b))))"
    using s assms(2) by (simp add: writeAndExpr_def nextIndex_def Let_def case_prod_beta)
  show "wrote b (fst (writeNotExpr (writeExpr U) p e (nextIndex b))) (codeIxs (snd (writeNotExpr (writeExpr U) p e (nextIndex b))))"
    using s assms(2) by (simp add: writeNotExpr_def nextIndex_def Let_def case_prod_beta)
  show "wrote b (fst (writeOneOrMoreExpr (writeExpr U) p e (nextIndex b))) (codeIxs (snd (writeOneOrMoreExpr (writeExpr U) p e (nextIndex b))))"
    using s assms(2) by (simp add: writeOneOrMoreExpr_def nextIndex_def Let_def case_prod_beta)
  show "wrote b (fst (writeZeroOrMoreExpr (writeExpr U) p e (nextIndex b))) (codeIxs (snd (writeZeroOrMoreExpr (writeExpr U) p e (nextIndex b))))"
    using s assms(2) by (simp add: writeZeroOrMoreExpr_def nextIndex_def Let_def case_prod_beta)
  show "wrote b (fst (writeZeroOrOneExpr (writeExpr U) p e (nextIndex b))) (codeIxs (snd (writeZeroOrOneExpr (writeExpr U) p e (nextIndex b))))"
    using s assms(2) by (simp add: writeZeroOrOneExpr_def nextIndex_def Let_def case_prod_beta)
qed

lemma leaf_wrote:
  assumes "quiet b"
  shows "wrote b (writeAnyMatcher p (nextIndex b)) []" "wrote b (writeLitMatcher U p v ic (nextIndex b)) []"
    "wrote b (writeRuleRefExpr p n (nextIndex b)) []"
  using assms by (auto simp: writeAnyMatcher_def writeLitMatcher_def writeRuleRefExpr_def nextIndex_def Let_def
      intro!: wrote_open split: option.split)

lemma runes_wrote: "quiet b \<Longrightarrow> wrote b (writeRunes U ic h rs b) []"
  by (auto simp: writeRunes_def intro!: wrote_calls)

lemma class_wrote:
  assumes "quiet b"
  shows "wrote b (writeCharClassMatcher U c (nextIndex b)) []"
proof -
  let ?b1 = "b\<lparr>exprIndex := exprIndex b + 1, wlog := wlog b @ [(nl ''&charClassMatcher{'', []),
    (nl (tab ''pos: position{line: %d, col: %d, offset: %d},''), [AInt (Line (cm_p c)), AInt (Col (cm_p c)), AInt (int (Off (cm_p c)))]),
    (nl (tab ''val: %q,''), [AStr (cm_Val c)])]\<rparr>"
  let ?b2 = "writeRunes U (IgnoreCase c) ''chars: []rune{'' (Chars c) ?b1"
  let ?b3 = "writeRunes U (IgnoreCase c) ''ranges: []rune{'' (Ranges c) ?b2"
  have w1: "wrote b ?b1 []" by (rule wrote_open) (use assms in simp_all)
  have w2: "wrote ?b1 ?b2 []" by (rule runes_wrote) (use assms in simp)
  have w3: "wrote ?b2 ?b3 []" by (rule runes_wrote [OF wrote_quiet [OF w2]])
  have w: "wrote b ?b3 []" using wrote_trans [OF w1 wrote_trans [OF w2 w3]] by simp
  have q: "quiet ?b3" by (rule wrote_quiet [OF w])
  have e: "writeCharClassMatcher U c (nextIndex b) = ?b3\<lparr>wlog := wlog ?b3 @
      (if UnicodeClasses c = [] then [] else (tab ''classes: []*unicode.RangeTable{'', []) #
         map (\<lambda>cl. (''rangeTable(%q),'', [AStr cl])) (UnicodeClasses c) @ [(nl ''},'', [])]) @
      [(nl (tab ''ignoreCase: %t,''), [ABool (IgnoreCase c)]), (nl (tab ''inverted: %t,''), [ABool (Inverted c)]), (nl ''},'', [])]\<rparr>"
    using assms q by (simp add: writeCharClassMatcher_def nextIndex_def Let_def)
  show ?thesis unfolding e
    by (rule wrote_trans [OF w wrote_calls [OF q], simplified]) auto
qed

lemma code_wrote:
  assumes "quiet b"
  shows "wrote b (fst (writeAndCodeExpr p k (nextIndex b))) [exprIndex b + 1]"
    "wrote b (fst (writeNotCodeExpr p k (nextIndex b))) [exprIndex b + 1]"
proof -
  note o = wrote_openCode [OF assms, of "[(f, []), (f', [AInt i, AInt j, AInt h])]" "[(f'', [])]" for f f' i j h f'']
  show "wrote b (fst (writeAndCodeExpr p k (nextIndex b))) [exprIndex b + 1]"
    "wrote b (fst (writeNotCodeExpr p k (nextIndex b))) [exprIndex b + 1]"
    using o assms by (simp_all add: writeAndCodeExpr_def writeNotCodeExpr_def nextIndex_def funcName_def Let_def)
qed

lemma action_wrote:
  assumes "writesOK U e" "quiet b"
  shows "wrote b (fst (writeActionExpr (writeExpr U) p e c (nextIndex b))) (codeIxs (snd (writeActionExpr (writeExpr U) p e c (nextIndex b))))"
proof -
  let ?b = "b\<lparr>exprIndex := exprIndex b + 1, wlog := wlog b @ [(nl ''&actionExpr{'', []),
    (nl (tab ''pos: position{line: %d, col: %d, offset: %d},''), [AInt (Line p), AInt (Col p), AInt (int (Off p))])] @
    [(runFormat, [AStr (''on'' @ b_ruleName b @ itoa (exprIndex b + 1))])] @ [(tab ''expr: '', [])]\<rparr>"
  have o: "wrote b ?b [exprIndex b + 1]" by (rule wrote_openCode [OF assms(2)]) simp_all
  have r: "wrote ?b (fst (writeExpr U e ?b)) (codeIxs (snd (writeExpr U e ?b)))" using assms by (simp add: writesOK_def)
  show ?thesis
    using wrote_close [OF o r, of "[(nl ''},'', [])]"] wrote_quiet [OF r] assms(2)
    by (simp add: writeActionExpr_def nextIndex_def funcName_def Let_def case_prod_beta)
qed

lemma labeled_wrote:
  assumes "writesOK U e" "quiet b"
  shows "wrote b (fst (writeLabeledExpr (writeExpr U) p l e (nextIndex b))) (codeIxs (snd (writeLabeledExpr (writeExpr U) p l e (nextIndex b))))"
proof -
  define cs where "cs = (case l of Some i \<Rightarrow> if Val i \<noteq> [] then [(nl (tab ''label: %q,''), [AStr (Val i)])] else [] | None \<Rightarrow> [])"
  let ?b = "b\<lparr>exprIndex := exprIndex b + 1, wlog := wlog b @ [(nl ''&labeledExpr{'', []),
    (nl (tab ''pos: position{line: %d, col: %d, offset: %d},''), [AInt (Line p), AInt (Col p), AInt (int (Off p))])] @ cs @ [(tab ''expr: '', [])]\<rparr>"
  have o: "wrote b ?b []" by (rule wrote_open [OF assms(2)]) (auto simp: cs_def split: option.split)
  have r: "wrote ?b (fst (writeExpr U e ?b)) (codeIxs (snd (writeExpr U e ?b)))" using assms by (simp add: writesOK_def)
  have "writeLabeledExpr (writeExpr U) p l e (nextIndex b) =
      (writelnf ''},'' [] (fst (writeExpr U e ?b)), LabeledExpr p l (snd (writeExpr U e ?b)))"
    using assms(2) by (simp add: writeLabeledExpr_def nextIndex_def cs_def Let_def case_prod_beta split: option.split)
  then show ?thesis using wrote_close [OF o r, of "[(nl ''},'', [])]"] wrote_quiet [OF r] by simp
qed

lemma many_wrote:
  assumes "\<And>e. e \<in> set es \<Longrightarrow> writesOK U e" "quiet b"
  shows "wrote b (fst (writeChoiceExpr (writeExpr U) p es (nextIndex b))) (codeIxs (snd (writeChoiceExpr (writeExpr U) p es (nextIndex b))))"
    "wrote b (fst (writeSeqExpr (writeExpr U) p es (nextIndex b))) (codeIxs (snd (writeSeqExpr (writeExpr U) p es (nextIndex b))))"
proof -
  let ?open = "\<lambda>cs. b\<lparr>exprIndex := exprIndex b + 1, wlog := wlog b @ cs\<rparr>"
  have step: "wrote b (let d = fst (writeAll (writeExpr U) es (?open cs)) in d\<lparr>wlog := wlog d @ [(nl (tab ''},''), []), (nl ''},'', [])]\<rparr>)
      (concat (map codeIxs (snd (writeAll (writeExpr U) es (?open cs)))))" (is "?P cs")
    if "\<forall>c\<in>set cs. refOf c = [] \<and> defOf c = []" for cs
  proof -
    have o: "wrote b (?open cs) []" by (rule wrote_open [OF assms(2) that])
    have r: "wrote (?open cs) (fst (writeAll (writeExpr U) es (?open cs))) (concat (map codeIxs (snd (writeAll (writeExpr U) es (?open cs)))))"
      using assms by (intro writeAll_wrote) auto
    from wrote_close [OF o r, of "[(nl (tab ''},''), []), (nl ''},'', [])]"] show ?thesis by (simp add: Let_def)
  qed
  note s = step [of "[(f, []), (f', [AInt i, AInt j, AInt k]), (f'', [])]" for f f' f'' i j k]
  have q: "quiet (fst (writeAll (writeExpr U) es (?open cs)))" for cs
    by (rule wrote_quiet [OF writeAll_wrote]) (use assms in simp_all)
  have n: "wrote b (?open [(f, []), (f', [AInt i, AInt j, AInt k]), (f'', [])]) []" for f f' f'' i j k
    by (rule wrote_open [OF assms(2)]) simp
  show "wrote b (fst (writeChoiceExpr (writeExpr U) p es (nextIndex b))) (codeIxs (snd (writeChoiceExpr (writeExpr U) p es (nextIndex b))))"
    using s n assms(2) q by (cases "es = []") (simp_all add: writeChoiceExpr_def nextIndex_def Let_def case_prod_beta)
  show "wrote b (fst (writeSeqExpr (writeExpr U) p es (nextIndex b))) (codeIxs (snd (writeSeqExpr (writeExpr U) p es (nextIndex b))))"
    using s n assms(2) q by (cases "es = []") (simp_all add: writeSeqExpr_def nextIndex_def Let_def case_prod_beta)
qed

lemma writeExpr_wrote: "nonil e \<Longrightarrow> writesOK U e"
proof (induction e)
  case (AndCodeExpr p c ix)
  then show ?case using code_wrote by (simp add: writesOK_def) (simp add: writeAndCodeExpr_def Let_def nextIndex_def)
next
  case (NotCodeExpr p c ix)
  then show ?case using code_wrote by (simp add: writesOK_def) (simp add: writeNotCodeExpr_def Let_def nextIndex_def)
qed (simp_all add: writesOK_def [of _ "_ :: Expression"] unary_wrote action_wrote labeled_wrote many_wrote leaf_wrote class_wrote)

fun coded :: "Expression \<Rightarrow> bool" where
  "coded (ActionExpr _ e c _) \<longleftrightarrow> coded e \<and> c \<noteq> None"
| "coded (AndCodeExpr _ c _) \<longleftrightarrow> c \<noteq> None"
| "coded (NotCodeExpr _ c _) \<longleftrightarrow> c \<noteq> None"
| "coded (LabeledExpr _ _ e) \<longleftrightarrow> coded e"
| "coded (ChoiceExpr _ es) \<longleftrightarrow> (\<forall>e\<in>set es. coded e)"
| "coded (SeqExpr _ es) \<longleftrightarrow> (\<forall>e\<in>set es. coded e)"
| "coded (AndExpr _ e) \<longleftrightarrow> coded e"
| "coded (NotExpr _ e) \<longleftrightarrow> coded e"
| "coded (OneOrMoreExpr _ e) \<longleftrightarrow> coded e"
| "coded (ZeroOrMoreExpr _ e) \<longleftrightarrow> coded e"
| "coded (ZeroOrOneExpr _ e) \<longleftrightarrow> coded e"
| "coded _ \<longleftrightarrow> True"

lemma funcs_ixs:
  "coded e \<Longrightarrow> mset (map gf_ix (funcs U A e)) = mset (codeIxs e)"
  "\<forall>e\<in>set es. coded e \<Longrightarrow> mset (map gf_ix (funcsSeq U A es)) = mset (concat (map codeIxs es))"
proof (induction U A e and U A es rule: funcs_funcsSeq.induct)
  case (5 U A p es)
  then show ?case by (induction es) auto
qed (auto simp: codeFunc_def)

text \<open>Writing the literal changes nothing of a node but the index of its function.\<close>

definition keeps :: "unicode_env \<Rightarrow> Expression \<Rightarrow> bool" where
  "keeps U e \<longleftrightarrow> (\<forall>b. coded (snd (writeExpr U e b)) = coded e \<and> sliceable U (snd (writeExpr U e b)) = sliceable U e)"

lemma writeAll_keeps:
  assumes "\<And>e. e \<in> set es \<Longrightarrow> keeps U e"
  shows "(\<forall>e\<in>set (snd (writeAll (writeExpr U) es b)). coded e) = (\<forall>e\<in>set es. coded e)"
    "(\<forall>e\<in>set (snd (writeAll (writeExpr U) es b)). sliceable U e) = (\<forall>e\<in>set es. sliceable U e)"
  using assms by (induction es arbitrary: b) (auto simp: case_prod_beta keeps_def)

lemma writeExpr_keeps: "keeps U e"
proof (induction e)
  case (ChoiceExpr p es)
  from writeAll_keeps [of es U, OF ChoiceExpr] show ?case
    by (auto simp: keeps_def writeChoiceExpr_def Let_def case_prod_beta)
next
  case (SeqExpr p es)
  from writeAll_keeps [of es U, OF SeqExpr] show ?case
    by (auto simp: keeps_def writeSeqExpr_def Let_def case_prod_beta)
qed (simp_all add: keeps_def one_writers writeAndCodeExpr_def writeNotCodeExpr_def Let_def case_prod_beta)

lemma emits_defs:
  "defs (emits P fs b) = defs b @ map (\<lambda>f. ''on'' @ b_ruleName b @ itoa (gf_ix f)) fs" "refs (emits P fs b) = refs b"
proof -
  have d: "concat (map defOf (emitFunc P r n f)) = [''on'' @ n @ itoa (gf_ix f)]" "concat (map refOf (emitFunc P r n f)) = []" for r n f
    by (simp_all add: emitFunc_def Let_def)
  show "defs (emits P fs b) = defs b @ map (\<lambda>f. ''on'' @ b_ruleName b @ itoa (gf_ix f)) fs"
    by (induction fs arbitrary: b) (auto simp: emits_def defs_def d)
  show "refs (emits P fs b) = refs b"
    by (induction fs arbitrary: b) (auto simp: emits_def refs_def d simp del: concat_eq_Nil_conv)
qed

text \<open>The names of the functions of a list of rules.\<close>

definition ruleNames :: "Rule \<Rightarrow> gobytes list" where
  "ruleNames r = map (\<lambda>i. ''on'' @ Val (the (r_Name r)) @ itoa i) (codeIxs (r_Expr r))"

definition complete_rule :: "unicode_env \<Rightarrow> Rule \<Rightarrow> bool" where
  "complete_rule U r \<longleftrightarrow> r_Name r \<noteq> None \<and> nonil (r_Expr r) \<and> coded (r_Expr r) \<and> sliceable U (r_Expr r)"

lemma refs_other [simp]:
  "refs (b\<lparr>exprIndex := i\<rparr>) = refs b" "refs (b\<lparr>b_ruleName := n\<rparr>) = refs b" "defs (b\<lparr>exprIndex := i\<rparr>) = defs b" "defs (b\<lparr>b_ruleName := n\<rparr>) = defs b"
  "refs (b\<lparr>argsStack := as\<rparr>) = refs b" "defs (b\<lparr>argsStack := as\<rparr>) = defs b"
  by (simp_all add: refs_def defs_def)

definition ruleWrote :: "Rule \<Rightarrow> Rule \<Rightarrow> builder \<Rightarrow> builder \<Rightarrow> bool" where
  "ruleWrote r r' b b' \<longleftrightarrow> quiet b' \<and> argsStack b' = argsStack b \<and> curRecvName b' = curRecvName b \<and> r_Name r' = r_Name r \<and>
     sorted_wrt (<) (codeIxs (r_Expr r')) \<and> (\<forall>i\<in>set (codeIxs (r_Expr r')). 0 < i) \<and>
     refs b' = refs b @ ruleNames r' \<and> defs b' = defs b"

lemma writeRule_wrote:
  assumes "complete_rule U r" "quiet b"
  shows "ruleWrote r (snd (writeRule U r b)) b (fst (writeRule U r b)) \<and>
    coded (r_Expr (snd (writeRule U r b))) \<and> sliceable U (r_Expr (snd (writeRule U r b)))"
proof -
  obtain n where n: "r_Name r = Some n" using assms(1) by (auto simp: complete_rule_def)
  define cs where "cs = [(nl ''{'', []), (nl (tab ''name: %q,''), [AStr (Val n)])] @
    (case r_DisplayName r of Some d \<Rightarrow> if Val d \<noteq> [] then [(nl (tab ''displayName: %q,''), [AStr (Val d)])] else [] | None \<Rightarrow> []) @
    [(nl (tab ''pos: position{line: %d, col: %d, offset: %d},''), [AInt (Line (r_p r)), AInt (Col (r_p r)), AInt (int (Off (r_p r)))]), (tab ''expr: '', [])]"
  let ?st = "b\<lparr>exprIndex := 0, b_ruleName := Val n\<rparr>"
  let ?b = "?st\<lparr>wlog := wlog ?st @ cs\<rparr>"
  have o: "wrote ?st ?b []" by (rule wrote_calls) (use assms in \<open>auto simp: cs_def split: option.split\<close>)
  have r: "wrote ?b (fst (writeExpr U (r_Expr r) ?b)) (codeIxs (snd (writeExpr U (r_Expr r) ?b)))"
    using writeExpr_wrote [of "r_Expr r" U] assms by (simp add: writesOK_def complete_rule_def)
  have w: "writeRule U r b = (writelnf ''},'' [] (fst (writeExpr U (r_Expr r) ?b)), r\<lparr>r_Expr := snd (writeExpr U (r_Expr r) ?b)\<rparr>)"
    using n assms(2) by (simp add: writeRule_def Let_def case_prod_beta cs_def split: option.split)
  have "ruleWrote r (snd (writeRule U r b)) b (fst (writeRule U r b))"
    using wrote_close [OF o r, of "[(nl ''},'', [])]"] wrote_quiet [OF r] n
    by (auto simp: w wrote_def ruleWrote_def ruleNames_def)
  then show ?thesis using writeExpr_keeps [of U "r_Expr r"] assms(1) by (simp add: w keeps_def complete_rule_def)
qed

definition written :: "unicode_env \<Rightarrow> Rule \<Rightarrow> bool" where
  "written U r \<longleftrightarrow> r_Name r \<noteq> None \<and> coded (r_Expr r) \<and> sliceable U (r_Expr r) \<and>
     sorted_wrt (<) (codeIxs (r_Expr r)) \<and> (\<forall>i\<in>set (codeIxs (r_Expr r)). 0 < i)"

lemma writeRules_wrote:
  assumes "\<forall>r\<in>set rs. complete_rule U r" "quiet b" "writeRules U rs b = (b', rs')"
  shows "quiet b'" "argsStack b' = argsStack b" "curRecvName b' = curRecvName b" "map r_Name rs' = map r_Name rs"
    "refs b' = refs b @ concat (map ruleNames rs')" "defs b' = defs b" "\<forall>r\<in>set rs'. written U r"
proof -
  have "quiet b' \<and> argsStack b' = argsStack b \<and> curRecvName b' = curRecvName b \<and> map r_Name rs' = map r_Name rs \<and>
      refs b' = refs b @ concat (map ruleNames rs') \<and> defs b' = defs b \<and> (\<forall>r\<in>set rs'. written U r)"
    using assms
  proof (induction rs arbitrary: b b' rs')
    case (Cons r rs)
    define b1 r1 where "b1 = fst (writeRule U r b)" and "r1 = snd (writeRule U r b)"
    define b2 rs1 where "b2 = fst (writeRules U rs b1)" and "rs1 = snd (writeRules U rs b1)"
    have w: "ruleWrote r r1 b b1 \<and> coded (r_Expr r1) \<and> sliceable U (r_Expr r1)"
      using writeRule_wrote [of U r b] Cons.prems by (simp add: b1_def r1_def)
    have e: "b' = b2" "rs' = r1 # rs1" using Cons.prems(3) by (simp_all add: b1_def r1_def b2_def rs1_def case_prod_beta)
    have wr: "writeRules U rs b1 = (b2, rs1)" by (simp add: b2_def rs1_def)
    have q: "quiet b1" using w by (simp add: ruleWrote_def)
    have i: "quiet b2 \<and> argsStack b2 = argsStack b1 \<and> curRecvName b2 = curRecvName b1 \<and> map r_Name rs1 = map r_Name rs \<and>
        refs b2 = refs b1 @ concat (map ruleNames rs1) \<and> defs b2 = defs b1 \<and> (\<forall>r\<in>set rs1. written U r)"
      by (rule Cons.IH [OF _ q wr]) (use Cons.prems(1) in simp)
    from w i Cons.prems(1) show ?case by (simp add: e ruleWrote_def written_def complete_rule_def)
  qed simp
  then show "quiet b'" "argsStack b' = argsStack b" "curRecvName b' = curRecvName b" "map r_Name rs' = map r_Name rs"
    "refs b' = refs b @ concat (map ruleNames rs')" "defs b' = defs b" "\<forall>r\<in>set rs'. written U r"
    by blast+
qed

lemma ruleCode_emits:
  assumes "quiet b" "r_Name r = Some n" "sliceable U (r_Expr r)"
  shows "writeRuleCode U P r b = Ret () (emits P (funcs U [] (r_Expr r)) (b\<lparr>b_ruleName := Val n\<rparr>))"
proof -
  have "scoped (writeExprCode U P (r_Expr r)) (b\<lparr>b_ruleName := Val n\<rparr>) = Ret () (emits P (funcs U [] (r_Expr r)) (b\<lparr>b_ruleName := Val n\<rparr>))"
    by (rule scoped_emits [where A = "labels (r_Expr r)", OF exprCode_emits(1) [where A = "[]", simplified]])
      (use assms in simp_all)
  with assms(2) show ?thesis by (simp add: writeRuleCode_def)
qed

text \<open>
  C17. The generator emits, for every code block of a rule, one method of \<^verbatim>\<open>current\<close> and one of \<^verbatim>\<open>parser\<close>, whose
  parameters are the labels bound so far in the innermost frame: that of the rule, of the alternative
  or of the label the code stands in, the frames the engine pushes. The stack of argument sets is left as it was.
\<close>

theorem rule_functions_scoped:
  assumes "b_err b = None" "wfail b = (\<lambda>_. None)" "r_Name r = Some n" "sliceable U (r_Expr r)"
  shows "writeRuleCode U P r b = Ret () (b\<lparr>b_ruleName := Val n,
    wlog := wlog b @ concat (map (emitFunc P (curRecvName b) (Val n)) (funcs U [] (r_Expr r)))\<rparr>)"
  using ruleCode_emits [of b r n U P] assms by (simp add: quiet_def emits_def)

lemma rulesCode_defs:
  assumes "\<forall>r\<in>set rs. written U r" "quiet b"
  shows "\<exists>b'. writeRulesCode U P rs b = Ret () b' \<and> quiet b' \<and> refs b' = refs b \<and>
    mset (defs b') = mset (defs b) + mset (concat (map ruleNames rs))"
  using assms
proof (induction rs arbitrary: b)
  case (Cons r rs)
  obtain n where n: "r_Name r = Some n" "sliceable U (r_Expr r)" "coded (r_Expr r)"
    using Cons.prems(1) by (auto simp: written_def)
  let ?b = "emits P (funcs U [] (r_Expr r)) (b\<lparr>b_ruleName := Val n\<rparr>)"
  have s: "writeRuleCode U P r b = Ret () ?b" by (rule ruleCode_emits) (use n Cons.prems in simp_all)
  have "mset (map (\<lambda>f. ''on'' @ Val n @ itoa (gf_ix f)) (funcs U [] (r_Expr r))) =
      image_mset (\<lambda>i. ''on'' @ Val n @ itoa i) (mset (map gf_ix (funcs U [] (r_Expr r))))"
    by (simp add: image_mset.compositionality comp_def)
  then have "mset (map (\<lambda>f. ''on'' @ Val n @ itoa (gf_ix f)) (funcs U [] (r_Expr r))) = mset (ruleNames r)"
    using funcs_ixs(1) [OF n(3), of U "[]"] n(1) by (simp add: ruleNames_def)
  then have "mset (defs ?b) = mset (defs b) + mset (ruleNames r)" by (simp add: emits_defs)
  moreover have "quiet ?b" "refs ?b = refs b" using Cons.prems(2) by (simp_all add: emits_defs)
  moreover obtain b' where "writeRulesCode U P rs ?b = Ret () b'" "quiet b'" "refs b' = refs ?b"
      "mset (defs b') = mset (defs ?b) + mset (concat (map ruleNames rs))"
    using Cons.IH [of ?b] Cons.prems by auto
  ultimately show ?case using s by auto
qed simp

lemma grammar_functions:
  assumes "\<forall>r\<in>set (g_Rules g). complete_rule U r" "\<forall>c. g_Init g = Some c \<longrightarrow> 2 \<le> length (Val c)"
  shows "\<exists>b rs. BuildParser U P static (\<lambda>_. None) g opts = Ret None b \<and> map r_Name rs = map r_Name (g_Rules g) \<and>
    (\<forall>r\<in>set rs. written U r) \<and> refs b = concat (map ruleNames rs) \<and> mset (defs b) = mset (concat (map ruleNames rs)) \<and>
    wlog b \<noteq> []"
proof -
  let ?b = "setOptions opts (newBuilder (\<lambda>_. None))"
  have q: "quiet ?b" "refs ?b = []" "defs ?b = []"
    unfolding setOptions_fields by (simp_all add: quiet_def newBuilder_def refs_def defs_def)
  obtain b1 where b1: "writeInit (g_Init g) ?b = Ret () b1" "quiet b1" "refs b1 = []" "defs b1 = []"
  proof (cases "g_Init g")
    case None
    with q show ?thesis by (intro that [of ?b]) (simp_all add: writeInit_def)
  next
    case (Some c)
    with q assms(2) show ?thesis
      by (intro that [of "writelnf ''%s'' [AStr (butlast (tl (Val c)))] ?b"]) (auto simp: writeInit_def refs_def defs_def)
  qed
  define b2 where "b2 = b1\<lparr>wlog := wlog b1 @ [(nl ''var g = &grammar {'', []), (nl (tab ''rules: []*rule{''), [])]\<rparr>"
  have b2: "quiet b2" "refs b2 = []" "defs b2 = []" using b1 by (simp_all add: b2_def refs_def defs_def)
  obtain b3 rs where w: "writeRules U (g_Rules g) b2 = (b3, rs)" by (cases "writeRules U (g_Rules g) b2")
  note f = writeRules_wrote [OF assms(1) b2(1) w]
  define b4 where "b4 = b3\<lparr>wlog := wlog b3 @ [(nl (tab ''},''), []), (nl ''}'', [])]\<rparr>"
  have b4: "quiet b4" "refs b4 = concat (map ruleNames rs)" "defs b4 = []"
    using f b2 by (simp_all add: b4_def refs_def defs_def)
  have g: "writeGrammar U g b1 = (b4, g\<lparr>g_Rules := rs\<rparr>)"
    using b1(2) f(1) w by (simp add: writeGrammar_def b2_def b4_def Let_def)
  from rulesCode_defs [OF f(7) b4(1), of P] obtain b5 where b5: "writeRulesCode U P rs b4 = Ret () b5" "quiet b5"
      "refs b5 = refs b4" "mset (defs b5) = mset (defs b4) + mset (concat (map ruleNames rs))" by blast
  let ?fin = "b5\<lparr>wlog := wlog b5 @ [(nl static, [])]\<rparr>"
  have "BuildParser U P static (\<lambda>_. None) g opts = Ret None ?fin"
    using b1(1) g b5(1,2) by (simp add: BuildParser_def buildParser_def writeStaticCode_def) (simp add: quiet_def)
  moreover have "refs ?fin = concat (map ruleNames rs)" "mset (defs ?fin) = mset (concat (map ruleNames rs))"
    using b5(3,4) b4 by (simp_all add: refs_def defs_def)
  moreover have "wlog ?fin \<noteq> []" by simp
  ultimately show ?thesis using f(4,7) by blast
qed

text \<open>
  C18. For a grammar whose rules are complete, the generator returns without error, and the functions the grammar
  literal refers to are exactly the functions it emits, each as often as the other.
\<close>

theorem functions_match_references:
  assumes "\<forall>r\<in>set (g_Rules g). complete_rule U r" "\<forall>c. g_Init g = Some c \<longrightarrow> 2 \<le> length (Val c)"
  shows "\<exists>b. BuildParser U P static (\<lambda>_. None) g opts = Ret None b \<and> mset (refs b) = mset (defs b)"
proof -
  from grammar_functions [OF assms, of P static opts] obtain b rs where
    "BuildParser U P static (\<lambda>_. None) g opts = Ret None b" "refs b = concat (map ruleNames rs)"
    "mset (defs b) = mset (concat (map ruleNames rs))" by blast
  then show ?thesis by auto
qed

subsection \<open>Names\<close>

lemma itoa_digits: "0 < i \<Longrightarrow> c \<in> set (itoa i) \<Longrightarrow> is_digit_char c"
  by (simp add: itoa_def nat_digits_are_digits)

lemma itoa_inj: "0 < i \<Longrightarrow> 0 < j \<Longrightarrow> itoa i = itoa j \<Longrightarrow> i = j"
  using itoa_nat_inj [of "nat i" "nat j"] by simp

lemma digit_char_small: "is_digit_char c \<Longrightarrow> (of_char c :: nat) < 58"
  by (auto simp: is_digit_char_def)

definition plainName :: "gobytes \<Rightarrow> bool" where
  "plainName n \<longleftrightarrow> n \<noteq> [] \<and> \<not> is_digit_char (last n)"

lemma strip_digits:
  assumes "plainName n" "\<forall>c\<in>set ds. is_digit_char c"
  shows "dropWhile is_digit_char (rev (n @ ds)) = rev n"
proof -
  have "dropWhile is_digit_char (rev ds @ rev n) = dropWhile is_digit_char (rev n)"
    using assms(2) by (intro dropWhile_append2) simp
  also have "\<dots> = rev n" using assms(1) by (cases n rule: rev_cases) (simp_all add: plainName_def)
  finally show ?thesis by simp
qed

lemma name_index_inj:
  assumes "plainName m" "plainName n" "0 < i" "0 < j" "m @ itoa i = n @ itoa j"
  shows "m = n \<and> i = j"
proof -
  have "rev m = rev n"
    using strip_digits [OF assms(1), of "itoa i"] strip_digits [OF assms(2), of "itoa j"] itoa_digits assms(3-5) by metis
  then show ?thesis using assms(3-5) itoa_inj by auto
qed

lemma ruleNames_distinct:
  assumes "\<forall>r\<in>set rs. written U r \<and> plainName (Val (the (r_Name r)))" "distinct (map (\<lambda>r. Val (the (r_Name r))) rs)"
  shows "distinct (concat (map ruleNames rs))"
  using assms
proof (induction rs)
  case (Cons r rs)
  have w: "written U r" "plainName (Val (the (r_Name r)))" using Cons.prems(1) by simp_all
  have "distinct (codeIxs (r_Expr r))" using w(1) by (auto simp: written_def strict_sorted_iff)
  then have "distinct (ruleNames r)"
    using w(1) itoa_inj by (auto simp: ruleNames_def distinct_map inj_on_def written_def)
  moreover have "set (ruleNames r) \<inter> set (ruleNames q) = {}" if q: "q \<in> set rs" for q
  proof -
    have "Val (the (r_Name r)) \<notin> (\<lambda>r. Val (the (r_Name r))) ` set rs" using Cons.prems(2) by simp
    then have "Val (the (r_Name q)) \<noteq> Val (the (r_Name r))" using imageI [OF q, of "\<lambda>r. Val (the (r_Name r))"] by metis
    moreover have "written U q" "plainName (Val (the (r_Name q)))" using q Cons.prems(1) by simp_all
    ultimately show ?thesis using w name_index_inj by (fastforce simp: ruleNames_def written_def)
  qed
  ultimately show ?case using Cons by auto
qed simp

text \<open>
  C20. When the rules of a complete grammar have different names, none of which ends in a digit, no two of the
  emitted functions have the same name.
\<close>

theorem function_names_unique:
  assumes "\<forall>r\<in>set (g_Rules g). complete_rule U r \<and> plainName (Val (the (r_Name r)))"
    and "\<forall>c. g_Init g = Some c \<longrightarrow> 2 \<le> length (Val c)" "distinct (map (\<lambda>r. Val (the (r_Name r))) (g_Rules g))"
  shows "\<exists>b. BuildParser U P static (\<lambda>_. None) g opts = Ret None b \<and> distinct (defs b)"
proof -
  have "\<forall>r\<in>set (g_Rules g). complete_rule U r" using assms(1) by simp
  from grammar_functions [OF this assms(2), of P static opts] obtain b rs where
    b: "BuildParser U P static (\<lambda>_. None) g opts = Ret None b" "map r_Name rs = map r_Name (g_Rules g)"
      "\<forall>r\<in>set rs. written U r" "mset (defs b) = mset (concat (map ruleNames rs))" by blast
  have n: "map (\<lambda>r. Val (the (r_Name r))) rs = map (\<lambda>r. Val (the (r_Name r))) (g_Rules g)"
    using arg_cong [OF b(2), of "map (\<lambda>x. Val (the x))"] by (simp add: comp_def)
  have "list_all plainName (map (\<lambda>r. Val (the (r_Name r))) rs)" unfolding n using assms(1) by (simp add: list_all_iff)
  then have "\<forall>r\<in>set rs. plainName (Val (the (r_Name r)))" by (simp add: list_all_iff)
  then have "distinct (concat (map ruleNames rs))" using b(3) n assms(3) by (intro ruleNames_distinct) auto
  then have "distinct (defs b)" using mset_eq_imp_distinct_iff [OF b(4)] by simp
  with b(1) show ?thesis by blast
qed

section \<open>Code bodies\<close>

definition strip_newlines :: "gobytes \<Rightarrow> gobytes" where
  "strip_newlines v =
     (let v1 = (if v \<noteq> [] \<and> hd v = CHR 0x0A then tl v else v)
      in if v1 \<noteq> [] \<and> last v1 = CHR 0x0A then butlast v1 else v1)"

lemma runeReader_runes:
  "list_all validRune rs \<Longrightarrow> runeReader (string_of_runes rs) = map (\<lambda>r. (r, length (encodeRune r))) rs"
proof (induction rs)
  case Nil
  show ?case by (simp add: string_of_runes_def runeReader.simps)
next
  case (Cons r rs)
  have "decodeRune (encodeRune r @ string_of_runes rs) = (r, length (encodeRune r))"
    using decodeRune_encodeRune Cons.prems by simp
  moreover have "encodeRune r \<noteq> []" by (rule encodeRune_nonempty)
  ultimately show ?case using Cons by (subst runeReader.simps) (simp add: string_of_runes_def)
qed

lemma string_of_runes_length: "length (string_of_runes rs) = sum_list (map (\<lambda>r. length (encodeRune r)) rs)"
  by (induction rs) (simp_all add: string_of_runes_def)

lemma TrimSpace_braces:
  assumes "list_all validRune rs"
  shows "TrimSpace U (string_of_runes (0x7B # rs @ [0x7D])) = string_of_runes (0x7B # rs @ [0x7D])"
proof -
  let ?s = "0x7B # rs @ [0x7D]"
  have v: "list_all validRune ?s" using assms by (simp add: validRune_def)
  have n: "\<not> isSpace U 0x7B" "\<not> isSpace U 0x7D" by (simp_all add: isSpace_def)
  have l: "trimLeft U (string_of_runes ?s) = string_of_runes ?s"
    by (simp add: trimLeft_def runeReader_runes [OF v] n)
  have "trimRight U (string_of_runes ?s) = take (length (string_of_runes ?s)) (string_of_runes ?s)"
    unfolding trimRight_def runeReader_runes [OF v] string_of_runes_length
    by (simp add: n rev_map [symmetric] comp_def sum_list.rev add.commute add.left_commute flip: rev_map)
  with l show ?thesis by (simp add: TrimSpace_def)
qed

text \<open>
  The body of a function is the text between the braces of its code block, less one newline at
  either end, for every block of valid runes in braces.
\<close>

lemma code_block_body:
  assumes "list_all validRune rs"
  shows "funcBody U (string_of_runes (0x7B # rs @ [0x7D])) = Some (strip_newlines (string_of_runes rs))"
proof -
  let ?s = "string_of_runes (0x7B # rs @ [0x7D])"
  have e: "encodeRune 0x7B = [CHR ''{'']" "encodeRune 0x7D = [CHR ''}'']" by code_simp+
  have s: "?s = CHR ''{'' # string_of_runes rs @ [CHR ''}'']" by (simp add: string_of_runes_def e)
  show ?thesis
    unfolding funcBody_def TrimSpace_braces [OF assms] unfolding s by (simp add: strip_newlines_def Let_def)
qed

section \<open>Concrete grammars\<close>

definition P0 :: Pos where "P0 = \<lparr>Filename = [], Line = 1, Col = 1, Off = 0\<rparr>"

definition demo :: Grammar where
  "demo = \<lparr>g_p = P0, g_Init = None, g_Rules = [\<lparr>r_p = P0, r_Name = Some (NewIdentifier P0 ''A''), r_DisplayName = None,
     r_Expr = ActionExpr P0 (SeqExpr P0 [LabeledExpr P0 (Some (NewIdentifier P0 ''x'')) (AnyMatcher P0 ''.''),
       LabeledExpr P0 (Some (NewIdentifier P0 ''y'')) (AnyMatcher P0 ''.'')]) (Some (NewCodeBlock P0 ''{return x, nil}'')) 0\<rparr>]\<rparr>"

lemma demo_complete: "\<forall>r\<in>set (g_Rules demo). complete_rule ascii_env r \<and> plainName (Val (the (r_Name r)))"
proof -
  have "funcBody ascii_env ''{return x, nil}'' \<noteq> None" by code_simp
  moreover have "\<not> is_digit_char (CHR ''A'')" using digit_char_small [of "CHR ''A''"] by auto
  ultimately show ?thesis
    by (simp add: demo_def complete_rule_def NewIdentifier_def NewCodeBlock_def plainName_def)
qed

theorem build_first_error_witness:
  "\<exists>b. BuildParser ascii_env ascii_print [] (\<lambda>k. if k = 0 then Some ''disk full'' else None) demo [] = Ret (Some ''disk full'') b \<and> wlog b = []"
proof -
  have n: "\<forall>r\<in>set (g_Rules demo). r_Name r \<noteq> None \<longrightarrow> nonil (r_Expr r)" by (simp add: demo_def)
  have "\<forall>r\<in>set (g_Rules demo). complete_rule ascii_env r" using demo_complete by blast
  moreover have "\<forall>c. g_Init demo = Some c \<longrightarrow> 2 \<le> length (Val c)" by (simp add: demo_def)
  ultimately obtain c where c: "BuildParser ascii_env ascii_print [] (\<lambda>_. None) demo [] = Ret None c" "wlog c \<noteq> []"
    using grammar_functions [of demo ascii_env ascii_print "[]" "[]"] by blast
  from build_first_error [OF n _ _ c(1), of "\<lambda>k. if k = 0 then Some ''disk full'' else None" 0 "''disk full''"] c(2)
  show ?thesis by auto
qed

theorem rule_functions_scoped_witness:
  "writeRuleCode ascii_env ascii_print (hd (g_Rules demo)) (newBuilder (\<lambda>_. None)) = Ret () ((newBuilder (\<lambda>_. None))\<lparr>b_ruleName := ''A'',
    wlog := emitFunc ascii_print ''c'' ''A'' (GenFunc 0 ''return x, nil'' False [''x'', ''y''])\<rparr>)"
proof -
  have b: "funcBody ascii_env ''{return x, nil}'' = Some ''return x, nil''" by code_simp
  from rule_functions_scoped [of "newBuilder (\<lambda>_. None)" "hd (g_Rules demo)" "NewIdentifier P0 ''A''" ascii_env ascii_print] b
  show ?thesis by (simp add: demo_def newBuilder_def NewIdentifier_def NewCodeBlock_def codeFunc_def)
qed

theorem functions_match_references_witness:
  "\<exists>b. BuildParser ascii_env ascii_print [] (\<lambda>_. None) demo [] = Ret None b \<and> mset (refs b) = mset (defs b)"
  by (rule functions_match_references) (use demo_complete in \<open>auto simp: demo_def\<close>)

theorem function_names_unique_witness:
  "\<exists>b. BuildParser ascii_env ascii_print [] (\<lambda>_. None) demo [] = Ret None b \<and> distinct (defs b)"
  by (rule function_names_unique [OF demo_complete]) (auto simp: demo_def)

text \<open>
  Two rules named A and A1 may get functions of the same name: the twelfth expression of the first
  and the second expression of the second. A code block with a space after its brace keeps the brace.
\<close>

definition clash :: Grammar where
  "clash = \<lparr>g_p = P0, g_Init = None, g_Rules =
     [\<lparr>r_p = P0, r_Name = Some (NewIdentifier P0 ''A''), r_DisplayName = None,
       r_Expr = SeqExpr P0 (replicate 10 (AnyMatcher P0 ''.'') @ [ActionExpr P0 (AnyMatcher P0 ''.'') (Some (NewCodeBlock P0 ''{}'')) 0])\<rparr>,
      \<lparr>r_p = P0, r_Name = Some (NewIdentifier P0 ''A1''), r_DisplayName = None,
       r_Expr = NotExpr P0 (ActionExpr P0 (AnyMatcher P0 ''.'') (Some (NewCodeBlock P0 ''{}'')) 0)\<rparr>]\<rparr>"

lemma function_names_clash: "refs (fst (writeRules ascii_env (g_Rules clash) (newBuilder (\<lambda>_. None)))) = [''onA12'', ''onA12'']"
  by code_simp

lemma code_block_outer_space: "funcBody ascii_env ''{x} '' = Some ''x}''" "funcBody ascii_env ''{x}  '' = None"
  by code_simp+

end
