(* ===== verification/Peg_Bootstrap_Properties.thy ===== *)
theory Peg_Bootstrap_Properties
  imports Peg_Bootstrap_Proofs
begin

text \<open>
  What the parser of grammars guarantees: it returns, with complete rules only, whenever the
  class literals of the input parse; it reports every rule it drops; and where a class literal
  does not parse, the failure of the class parser is that of the whole parser.
\<close>

section \<open>Parse returns\<close>

lemma Init_start: "wf_scan (p\<lparr>perrs := e, sc := Init f b r\<rparr>)" if "\<not> pending p"
  using Init_wf(1) that by (simp add: wf_scan_def pending_def Init_def)

lemma runeReader_length: "length (runeReader b) \<le> length b"
proof (induction b rule: runeReader.induct)
  case (1 b)
  have "b \<noteq> [] \<Longrightarrow> 1 \<le> snd (decodeRune b)" using decodeRune_width [of b] by (cases "decodeRune b") fastforce
  moreover have "Suc x \<le> length b" if "b \<noteq> []" "x \<le> length b - k" "1 \<le> k" for x k
    using that by (cases b) auto
  ultimately show ?case using 1 by (cases "b = []") (subst runeReader.simps, simp)+
qed

text \<open>
  C15. When every class literal the scanner meets parses, the parser returns within a number of rounds
  bounded by the length of the input, without panic; every rule of the grammar it returns has a name
  and a complete expression: no missing operand, label, code block or odd list of range bounds.
\<close>

theorem parse_grammar_returns:
  assumes "\<forall>t. comes U (Init fname b rderr) t \<and> id_of t = cls \<longrightarrow> (\<exists>c. NewCharClassMatcher (tok_pos t) (lit t) = Ret () c)"
    and "length b + 6 \<le> n" "Line (tok_pos (pk p)) = 0"
  shows "\<exists>g q. Parse U n fname b rderr p = Ret g q \<and> (\<forall>r\<in>set (g_Rules g). wf_rule r)"
proof -
  let ?p = "p\<lparr>perrs := [], sc := Init fname b rderr\<rparr>"
  have np: "\<not> pending p" "\<not> pending ?p" using assms(3) by (simp_all add: pending_def)
  have "left ?p \<le> length b + 3"
    using runeReader_length [of b] np by (simp add: left_def remaining_def Init_def)
  then show ?thesis unfolding Parse_def
    by (intro grammar_fine [OF Init_start [OF np(1)]]) (use assms np in \<open>auto simp: ahead_def\<close>)
qed

text \<open>A check of the class literals of a concrete input, token by token up to the end.\<close>

fun classes_ok :: "unicode_env \<Rightarrow> nat \<Rightarrow> scanner \<Rightarrow> bool" where
  "classes_ok U 0 s \<longleftrightarrow> False"
| "classes_ok U (Suc n) s \<longleftrightarrow>
     (case Scan U s of
        None \<Rightarrow> False
      | Some (t, s') \<Rightarrow>
          (id_of t = cls \<longrightarrow> (case NewCharClassMatcher (tok_pos t) (lit t) of Ret _ _ \<Rightarrow> True | _ \<Rightarrow> False)) \<and>
          (s_eof s' \<or> classes_ok U n (s'\<lparr>serrs := []\<rparr>)))"

lemma Scan_next:
  assumes "wf_s s" "Scan U s = Some (t, s')"
  shows "wf_s s'" "s_eof s \<Longrightarrow> id_of t = eof \<and> s_eof s'"
  using Scan_returns [OF assms(1), of U] assms(2) by (auto simp: remaining_def split: if_splits)

lemma comes_eof: "comes U s t \<Longrightarrow> wf_s s \<Longrightarrow> s_eof s \<Longrightarrow> id_of t = eof"
  by (induction rule: comes.induct) (auto dest: Scan_next)

lemma classes_ok_comes:
  assumes "comes U s t" "wf_s s" "classes_ok U n s" "id_of t = cls"
  shows "\<exists>c. NewCharClassMatcher (tok_pos t) (lit t) = Ret () c"
  using assms
proof (induction arbitrary: n rule: comes.induct)
  case (here s t s')
  then show ?case by (cases n) (auto split: result.splits)
next
  case (later s t' s' t)
  then obtain m where m: "n = Suc m" by (cases n) auto
  have "s_eof s' \<or> classes_ok U m (s'\<lparr>serrs := []\<rparr>)" using later.prems(2) later.hyps(1) m by simp
  moreover have "wf_s (s'\<lparr>serrs := []\<rparr>)" using Scan_next(1) [OF later.prems(1) later.hyps(1)] by simp
  ultimately show ?case using later.IH later.prems(3) comes_eof [OF later.hyps(2)] by fastforce
qed

theorem parse_grammar_returns_witness:
  "\<exists>g q. Parse ascii_env 40 ''f'' ''A = [a-c]+ B'' None NewParser = Ret g q \<and> (\<forall>r\<in>set (g_Rules g). wf_rule r)"
proof -
  have "classes_ok ascii_env 9 (Init ''f'' ''A = [a-c]+ B'' None)" by code_simp
  note ok = classes_ok_comes [OF _ Init_wf(1) this]
  show ?thesis
    by (rule parse_grammar_returns) (use ok in \<open>auto simp: NewParser_def\<close>)
qed

text \<open>
  C16. A rule that the parser drops is never dropped silently: the error list has grown.
\<close>

theorem dropped_rule_reported:
  assumes "wf_p p" "p_rule U n p = Ret None q"
  shows "length (perrs p) < length (perrs q) \<and> Sublist.prefix (perrs p) (perrs q)"
  using rule_fine [OF assms(1), of U n] assms(2) by (simp add: moved_def)

theorem dropped_rule_reported_witness:
  "\<exists>p q. p_read ascii_env (NewParser\<lparr>sc := Init ''f'' ''A = +'' None\<rparr>) = Ret () p \<and>
    p_rule ascii_env 9 p = Ret None q \<and> perrs q \<noteq> []"
proof -
  let ?p = "NewParser\<lparr>sc := Init ''f'' ''A = +'' None\<rparr>"
  have w: "wf_scan ?p" using Init_start [of NewParser "''f''" "''A = +''" None "[]"] by (simp add: NewParser_def pending_def)
  have r: "(case bindR (p_read ascii_env ?p) (\<lambda>_ p. p_rule ascii_env 9 p) of Ret None _ \<Rightarrow> True | _ \<Rightarrow> False)" by code_simp
  show ?thesis
  proof (rule read_cases [OF w, of ascii_env], goal_cases)
    case (1 p)
    with r obtain q where q: "p_rule ascii_env 9 p = Ret None q" by (auto split: result.splits option.splits)
    from dropped_rule_reported [OF 1(2) q] have "perrs q \<noteq> []" by auto
    with 1(1) q show ?case by auto
  qed
qed

text \<open>
  When the expression at hand starts with a class literal on which the class parser never returns,
  the parser never returns either, whatever the bound on its rounds; when the class parser panics,
  so does the parser as soon as it may run one round.
\<close>

lemma class_failure_spreads:
  assumes "id_of (tok p) = cls"
  shows "(NewCharClassMatcher (tok_pos (tok p)) (lit (tok p)) = OutOfFuel \<longrightarrow> (\<forall>n. p_expression U n p = OutOfFuel)) \<and>
    (NewCharClassMatcher (tok_pos (tok p)) (lit (tok p)) = Panic x c \<longrightarrow> (\<forall>n. p_expression U (n + 2) p = Panic x p))"
proof -
  have pre: "p_labeledExpr U rec p =
      (case NewCharClassMatcher (tok_pos (tok p)) (lit (tok p)) of
         Ret _ c \<Rightarrow> p_labeledExpr U rec p | Panic e _ \<Rightarrow> Panic e p | OutOfFuel \<Rightarrow> OutOfFuel)" for rec
    using assms by (simp add: p_labeledExpr_def p_label_def p_prefixedExpr_def p_suffixedExpr_def p_primaryExpr_def
      p_class_def Let_def split: result.split)
  have "p_expression U n p = OutOfFuel" if "NewCharClassMatcher (tok_pos (tok p)) (lit (tok p)) = OutOfFuel" for n
    using pre that by (cases n; cases "n - 1") (simp_all add: p_actionExpr_def p_seqExpr_def)
  moreover have "p_expression U (n + 2) p = Panic x p" if "NewCharClassMatcher (tok_pos (tok p)) (lit (tok p)) = Panic x c" for n
    using pre that by (simp add: p_actionExpr_def p_seqExpr_def)
  ultimately show ?thesis by simp
qed

text \<open>The two inputs of the scanner that bring the parser there: an unterminated class.\<close>

lemma parse_unterminated_class:
  "(case Parse ascii_env 30 ''f'' ''A = ['' None NewParser of Panic e _ \<Rightarrow> e = slicePanic | _ \<Rightarrow> False)"
  "(case Parse ascii_env 30 ''f'' (''A = ['' @ [CHR 0x5C] @ ''p{L'') None NewParser of OutOfFuel \<Rightarrow> True | _ \<Rightarrow> False)"
  by code_simp+

end
