(* ===== verification/Peg_Print.thy ===== *)
theory Peg_Print
  imports Peg_Ast Fmt
begin

text \<open>
  The constructors of the expression nodes and the textual representations: the \<^verbatim>\<open>String\<close> methods of
  \<^verbatim>\<open>peg/ast/ast.go\<close> and of the tokens in \<^verbatim>\<open>peg/bootstrap/token.go\<close>. The verb \<^verbatim>\<open>%v\<close> prints a nil
  pointer or a nil expression as \<^verbatim>\<open><nil>\<close>, the verb \<^verbatim>\<open>%s\<close> a nil expression as \<^verbatim>\<open>%!s(<nil>)\<close>. The table of
  printable runes is the first argument.
\<close>

section \<open>Constructors\<close>

definition NewChoiceExpr :: "Pos \<Rightarrow> Expression" where "NewChoiceExpr p = ChoiceExpr p []"
definition NewActionExpr :: "Pos \<Rightarrow> Expression" where "NewActionExpr p = ActionExpr p NilExpr None 0"
definition NewSeqExpr :: "Pos \<Rightarrow> Expression" where "NewSeqExpr p = SeqExpr p []"
definition NewLabeledExpr :: "Pos \<Rightarrow> Expression" where "NewLabeledExpr p = LabeledExpr p None NilExpr"
definition NewAndExpr :: "Pos \<Rightarrow> Expression" where "NewAndExpr p = AndExpr p NilExpr"
definition NewNotExpr :: "Pos \<Rightarrow> Expression" where "NewNotExpr p = NotExpr p NilExpr"
definition NewZeroOrOneExpr :: "Pos \<Rightarrow> Expression" where "NewZeroOrOneExpr p = ZeroOrOneExpr p NilExpr"
definition NewZeroOrMoreExpr :: "Pos \<Rightarrow> Expression" where "NewZeroOrMoreExpr p = ZeroOrMoreExpr p NilExpr"
definition NewOneOrMoreExpr :: "Pos \<Rightarrow> Expression" where "NewOneOrMoreExpr p = OneOrMoreExpr p NilExpr"
definition NewRuleRefExpr :: "Pos \<Rightarrow> Expression" where "NewRuleRefExpr p = RuleRefExpr p None"
definition NewAndCodeExpr :: "Pos \<Rightarrow> Expression" where "NewAndCodeExpr p = AndCodeExpr p None 0"
definition NewNotCodeExpr :: "Pos \<Rightarrow> Expression" where "NewNotCodeExpr p = NotCodeExpr p None 0"

section \<open>Leaves\<close>

definition nodeHead :: "Pos \<Rightarrow> string \<Rightarrow> string" where
  "nodeHead p t = Pos_String p @ '': *ast.'' @ t @ ''{''"

definition boolText :: "bool \<Rightarrow> string" where
  "boolText b = (if b then ''true'' else ''false'')"

definition CodeBlock_String :: "(rune \<Rightarrow> bool) \<Rightarrow> CodeBlock \<Rightarrow> string" where
  "CodeBlock_String P c = nodeHead (pv_p c) ''CodeBlock'' @ ''Val: '' @ Quote P (Val c) @ ''}''"

definition Identifier_String :: "(rune \<Rightarrow> bool) \<Rightarrow> Identifier \<Rightarrow> string" where
  "Identifier_String P i = nodeHead (pv_p i) ''Identifier'' @ ''Val: '' @ Quote P (Val i) @ ''}''"

definition StringLit_String :: "(rune \<Rightarrow> bool) \<Rightarrow> StringLit \<Rightarrow> string" where
  "StringLit_String P s = nodeHead (pv_p s) ''StringLit'' @ ''Val: '' @ Quote P (Val s) @ ''}''"

definition orNil :: "('a \<Rightarrow> string) \<Rightarrow> 'a option \<Rightarrow> string" where
  "orNil f x = (case x of None \<Rightarrow> ''<nil>'' | Some a \<Rightarrow> f a)"

definition LitMatcher_String :: "(rune \<Rightarrow> bool) \<Rightarrow> Pos \<Rightarrow> gobytes \<Rightarrow> bool \<Rightarrow> string" where
  "LitMatcher_String P p v ic = nodeHead p ''LitMatcher'' @ ''Val: '' @ Quote P v @ '', IgnoreCase: '' @ boolText ic @ ''}''"

definition CharClassMatcher_String :: "(rune \<Rightarrow> bool) \<Rightarrow> CharClassMatcher \<Rightarrow> string" where
  "CharClassMatcher_String P c = nodeHead (cm_p c) ''CharClassMatcher'' @ ''Val: '' @ Quote P (cm_Val c) @
     '', IgnoreCase: '' @ boolText (IgnoreCase c) @ '', Inverted: '' @ boolText (Inverted c) @ ''}''"

definition AnyMatcher_String :: "(rune \<Rightarrow> bool) \<Rightarrow> Pos \<Rightarrow> gobytes \<Rightarrow> string" where
  "AnyMatcher_String P p v = nodeHead p ''AnyMatcher'' @ ''Val: '' @ Quote P v @ ''}''"

definition RuleRefExpr_String :: "(rune \<Rightarrow> bool) \<Rightarrow> Pos \<Rightarrow> Identifier option \<Rightarrow> string" where
  "RuleRefExpr_String P p name = nodeHead p ''RuleRefExpr'' @ ''Name: '' @ orNil (Identifier_String P) name @ ''}''"

definition AndCodeExpr_String :: "(rune \<Rightarrow> bool) \<Rightarrow> Pos \<Rightarrow> CodeBlock option \<Rightarrow> string" where
  "AndCodeExpr_String P p c = nodeHead p ''AndCodeExpr'' @ ''Code: '' @ orNil (CodeBlock_String P) c @ ''}''"

definition NotCodeExpr_String :: "(rune \<Rightarrow> bool) \<Rightarrow> Pos \<Rightarrow> CodeBlock option \<Rightarrow> string" where
  "NotCodeExpr_String P p c = nodeHead p ''NotCodeExpr'' @ ''Code: '' @ orNil (CodeBlock_String P) c @ ''}''"

section \<open>Inner nodes, with the texts of their expressions\<close>

definition listText :: "string \<Rightarrow> string list \<Rightarrow> string" where
  "listText field ts = field @ '': ['' @ [CHR 0x0A] @ concat (map (\<lambda>t. t @ '','' @ [CHR 0x0A]) ts) @ '']}''"

definition ChoiceExpr_String :: "Pos \<Rightarrow> string list \<Rightarrow> string" where
  "ChoiceExpr_String p ts = nodeHead p ''ChoiceExpr'' @ listText ''Alternatives'' ts"

definition ActionExpr_String :: "(rune \<Rightarrow> bool) \<Rightarrow> Pos \<Rightarrow> string \<Rightarrow> CodeBlock option \<Rightarrow> string" where
  "ActionExpr_String P p t c = nodeHead p ''ActionExpr'' @ ''Expr: '' @ t @ '', Code: '' @ orNil (CodeBlock_String P) c @ ''}''"

definition SeqExpr_String :: "Pos \<Rightarrow> string list \<Rightarrow> string" where
  "SeqExpr_String p ts = nodeHead p ''SeqExpr'' @ listText ''Exprs'' ts"

definition LabeledExpr_String :: "(rune \<Rightarrow> bool) \<Rightarrow> Pos \<Rightarrow> Identifier option \<Rightarrow> string \<Rightarrow> string" where
  "LabeledExpr_String P p l t = nodeHead p ''LabeledExpr'' @ ''Label: '' @ orNil (Identifier_String P) l @ '', Expr: '' @ t @ ''}''"

definition AndExpr_String :: "Pos \<Rightarrow> string \<Rightarrow> string" where "AndExpr_String p t = nodeHead p ''AndExpr'' @ ''Expr: '' @ t @ ''}''"
definition NotExpr_String :: "Pos \<Rightarrow> string \<Rightarrow> string" where "NotExpr_String p t = nodeHead p ''NotExpr'' @ ''Expr: '' @ t @ ''}''"
definition ZeroOrOneExpr_String :: "Pos \<Rightarrow> string \<Rightarrow> string" where "ZeroOrOneExpr_String p t = nodeHead p ''ZeroOrOneExpr'' @ ''Expr: '' @ t @ ''}''"
definition ZeroOrMoreExpr_String :: "Pos \<Rightarrow> string \<Rightarrow> string" where "ZeroOrMoreExpr_String p t = nodeHead p ''ZeroOrMoreExpr'' @ ''Expr: '' @ t @ ''}''"
definition OneOrMoreExpr_String :: "Pos \<Rightarrow> string \<Rightarrow> string" where "OneOrMoreExpr_String p t = nodeHead p ''OneOrMoreExpr'' @ ''Expr: '' @ t @ ''}''"

section \<open>Expressions, rules and grammars\<close>

definition listed :: "Expression \<Rightarrow> string \<Rightarrow> string" where
  "listed e t = (if e = NilExpr then ''%!s(<nil>)'' else t)"

fun Expression_String :: "(rune \<Rightarrow> bool) \<Rightarrow> Expression \<Rightarrow> string" where
  "Expression_String P (ChoiceExpr p es) = ChoiceExpr_String p (map (\<lambda>e. listed e (Expression_String P e)) es)"
| "Expression_String P (ActionExpr p e c ix) = ActionExpr_String P p (Expression_String P e) c"
| "Expression_String P (SeqExpr p es) = SeqExpr_String p (map (\<lambda>e. listed e (Expression_String P e)) es)"
| "Expression_String P (LabeledExpr p l e) = LabeledExpr_String P p l (Expression_String P e)"
| "Expression_String P (AndExpr p e) = AndExpr_String p (Expression_String P e)"
| "Expression_String P (NotExpr p e) = NotExpr_String p (Expression_String P e)"
| "Expression_String P (ZeroOrOneExpr p e) = ZeroOrOneExpr_String p (Expression_String P e)"
| "Expression_String P (ZeroOrMoreExpr p e) = ZeroOrMoreExpr_String p (Expression_String P e)"
| "Expression_String P (OneOrMoreExpr p e) = OneOrMoreExpr_String p (Expression_String P e)"
| "Expression_String P (RuleRefExpr p n) = RuleRefExpr_String P p n"
| "Expression_String P (AndCodeExpr p c ix) = AndCodeExpr_String P p c"
| "Expression_String P (NotCodeExpr p c ix) = NotCodeExpr_String P p c"
| "Expression_String P (LitMatcher p v ic) = LitMatcher_String P p v ic"
| "Expression_String P (ClassMatcher c) = CharClassMatcher_String P c"
| "Expression_String P (AnyMatcher p v) = AnyMatcher_String P p v"
| "Expression_String P NilExpr = ''<nil>''"

definition Rule_String :: "(rune \<Rightarrow> bool) \<Rightarrow> Rule \<Rightarrow> string" where
  "Rule_String P r = nodeHead (r_p r) ''Rule'' @ ''Name: '' @ orNil (Identifier_String P) (r_Name r) @
     '', DisplayName: '' @ orNil (StringLit_String P) (r_DisplayName r) @ '', Expr: '' @ Expression_String P (r_Expr r) @ ''}''"

definition Grammar_String :: "(rune \<Rightarrow> bool) \<Rightarrow> Grammar \<Rightarrow> string" where
  "Grammar_String P g = nodeHead (g_p g) ''Grammar'' @ ''Init: '' @ orNil (CodeBlock_String P) (g_Init g) @ '', '' @
     listText ''Rules'' (map (Rule_String P) (g_Rules g))"

section \<open>Tokens\<close>

definition tokenStringLen :: nat where
  "tokenStringLen = 50"

definition shownLit :: "gobytes \<Rightarrow> gobytes" where
  "shownLit v =
     (if length v > tokenStringLen
      then take (tokenStringLen div 2) v @ ''[...]'' @ drop (length v - tokenStringLen div 2) v else v)"

definition token_String :: "(rune \<Rightarrow> bool) \<Rightarrow> token \<Rightarrow> string" where
  "token_String P t = Pos_String (tok_pos t) @ '': '' @ tid_String (id_of t) @ '' '' @ Quote P (shownLit (lit t))"

text \<open>A literal is shown in at most 55 bytes, and a short one as it is.\<close>

lemma shownLit_bound: "length (shownLit v) \<le> 55 \<and> (length v \<le> 50 \<longrightarrow> shownLit v = v)"
  by (simp add: shownLit_def tokenStringLen_def)

text \<open>A constructor makes a node at its position.\<close>

lemma constructors_at:
  "Expression_Pos (NewChoiceExpr p) = Some p" "Expression_Pos (NewActionExpr p) = Some p" "Expression_Pos (NewSeqExpr p) = Some p"
  "Expression_Pos (NewLabeledExpr p) = Some p" "Expression_Pos (NewRuleRefExpr p) = Some p" "Expression_Pos (NewAndCodeExpr p) = Some p"
  by (simp_all add: NewChoiceExpr_def NewActionExpr_def NewSeqExpr_def NewLabeledExpr_def NewRuleRefExpr_def NewAndCodeExpr_def)

end
