(* ===== verification/Lexer.thy ===== *)
theory Lexer
  imports Fmt Loops
begin

text \<open>
  The lexer driver, \<^verbatim>\<open>parser/lexer/lex.go\<close> and \<^verbatim>\<open>grammar.go\<close>. A state function is a value of a type \<open>'q\<close> of names
  with an argument that interprets them, since a lexer keeps state functions that take a lexer. The channel is the list of tokens
  sent, and what is printed to the standard error output is a list of lines. The reader gives its bytes and then an error, None for
  \<^verbatim>\<open>io.EOF\<close>.
\<close>

section \<open>Data\<close>

definition EOF_id :: int where "EOF_id = - 1"
definition Invalid_id :: int where "Invalid_id = - 2"

definition ErrInvalidBack :: string where
  "ErrInvalidBack = ''lexer: invalid call to back: no previous rune''"

record lexPos =
  lp_Name :: string
  lp_Line :: int
  lp_Col :: int
  lp_Off :: int

definition lexPos_String :: "lexPos \<Rightarrow> string" where
  "lexPos_String p =
     (if lp_Name p = [] then [] else lp_Name p @ '':'') @ itoa (lp_Line p) @ '':'' @ itoa (lp_Col p) @ '' ['' @ itoa (lp_Off p) @ '']''"

record lexToken =
  tk_ID :: int
  tk_Lit :: gobytes
  tk_Pos :: lexPos

definition lexToken_String :: "(rune \<Rightarrow> bool) \<Rightarrow> lexToken \<Rightarrow> string" where
  "lexToken_String P t = lexPos_String (tk_Pos t) @ '': ('' @ itoa (tk_ID t) @ '') '' @ Quote P (tk_Lit t)"

record 'q lexer =
  rest_in :: gobytes
  read_err :: "string option"
  at_eof :: bool
  chan :: "lexToken list"
  fn_stack :: "'q list"
  lit_buf :: gobytes
  intok :: bool
  tpos :: lexPos
  cpos :: lexPos
  ppos :: lexPos
  cur_rune :: rune
  prev_rune :: rune
  stderr :: "string list"

section \<open>Errors\<close>

definition lexer_error :: "string \<Rightarrow> 'q lexer \<Rightarrow> 'q lexer" where
  "lexer_error e l = l\<lparr>stderr := stderr l @ [lexPos_String (cpos l) @ '': '' @ e]\<rparr>"

definition lexer_fatalError :: "string option \<Rightarrow> 'q lexer \<Rightarrow> 'q lexer" where
  "lexer_fatalError err l =
     (let l1 = l\<lparr>cur_rune := - 1, at_eof := True\<rparr> in case err of None \<Rightarrow> l1 | Some e \<Rightarrow> lexer_error e l1)"

section \<open>Reading\<close>

definition moved :: "rune \<Rightarrow> nat \<Rightarrow> lexPos \<Rightarrow> lexPos" where
  "moved rn w p =
     (let p1 = p\<lparr>lp_Off := lp_Off p + int w\<rparr>
      in if rn = 0x0A then p1\<lparr>lp_Line := lp_Line p1 + 1, lp_Col := 0\<rparr>
         else if rn = 0x0D then p1
         else p1\<lparr>lp_Col := lp_Col p1 + 1\<rparr>)"

definition Next :: "'q lexer \<Rightarrow> (rune \<times> bool) \<times> 'q lexer" where
  "Next l =
     (if at_eof l then ((cur_rune l, False), l)
      else if rest_in l = [] then (let l1 = lexer_fatalError (read_err l) l in ((cur_rune l1, False), l1))
      else
        (let (rn, w) = decodeRune (rest_in l);
             l1 = l\<lparr>rest_in := drop w (rest_in l), prev_rune := cur_rune l, ppos := cpos l, cur_rune := rn, cpos := moved rn w (cpos l)\<rparr>;
             l2 = (if intok l1 then l1\<lparr>lit_buf := lit_buf l1 @ encodeRune (cur_rune l1)\<rparr> else l1)
         in ((cur_rune l2, True), l2)))"

text \<open>Truncating the buffer to a negative length panics.\<close>

definition Back :: "'q lexer \<Rightarrow> ('q lexer, unit) result" where
  "Back l =
     (let l1 = (if prev_rune l = - 1 then lexer_fatalError (Some ErrInvalidBack) l else l);
          l2 = l1\<lparr>cur_rune := prev_rune l1, cpos := ppos l1, prev_rune := - 1\<rparr>
      in if intok l2 then
           (if lit_buf l2 = [] then Panic (PanicValue ''bytes.Buffer: truncation out of range'') l2
            else Ret () (l2\<lparr>lit_buf := take (length (lit_buf l2) - 1) (lit_buf l2)\<rparr>))
         else Ret () l2)"

definition Lit :: "'q lexer \<Rightarrow> gobytes" where
  "Lit l = lit_buf l"

lemma Next_shorter: "Next l = ((r, True), l') \<Longrightarrow> length (rest_in l') < length (rest_in l)"
proof -
  assume n: "Next l = ((r, True), l')"
  then have e: "rest_in l \<noteq> []" "\<not> at_eof l" by (auto simp: Next_def Let_def split: if_splits)
  obtain rn w where d: "decodeRune (rest_in l) = (rn, w)" by (cases "decodeRune (rest_in l)")
  have "0 < w" using decodeRune_width [OF d] e by blast
  moreover have "rest_in l' = drop w (rest_in l)" using n e d by (auto simp: Next_def Let_def split: if_splits)
  ultimately show ?thesis using e by simp
qed

function SkipWhile :: "(rune \<Rightarrow> bool) \<Rightarrow> 'q lexer \<Rightarrow> (rune \<times> bool) \<times> 'q lexer" where
  "SkipWhile p l =
     (if p (cur_rune l) then
        (case Next l of
           ((r, False), l1) \<Rightarrow> ((cur_rune l1, False), l1)
         | ((r, True), l1) \<Rightarrow> SkipWhile p l1)
      else ((cur_rune l, True), l))"
  by pat_completeness auto
termination
  by (relation "measure (\<lambda>(p, l). length (rest_in l))") (auto intro: Next_shorter [OF sym])

declare SkipWhile.simps [simp del]

definition SkipUntil :: "(rune \<Rightarrow> bool) \<Rightarrow> 'q lexer \<Rightarrow> (rune \<times> bool) \<times> 'q lexer" where
  "SkipUntil p l = SkipWhile (\<lambda>r. \<not> p r) l"

definition StartToken :: "'q lexer \<Rightarrow> 'q lexer" where
  "StartToken l = l\<lparr>tpos := cpos l, lit_buf := lit_buf l @ encodeRune (cur_rune l), intok := True\<rparr>"

definition Errorf :: "string \<Rightarrow> 'q lexer \<Rightarrow> 'q lexer" where
  "Errorf e l = lexer_error e l"

fun expectRunes :: "rune list \<Rightarrow> 'q lexer \<Rightarrow> bool \<times> 'q lexer" where
  "expectRunes [] l = (True, l)"
| "expectRunes (want # wants) l =
     (case Next l of
        ((r, ok), l1) \<Rightarrow>
          if \<not> ok \<or> r \<noteq> want then (False, Errorf (''expected '' @ encodeRune want) l1) else expectRunes wants l1)"

definition Expect :: "gobytes \<Rightarrow> 'q lexer \<Rightarrow> bool \<times> 'q lexer" where
  "Expect s l = expectRunes (runes_of s) l"

definition runeIn :: "gobytes \<Rightarrow> rune \<Rightarrow> bool" where
  "runeIn valid r \<longleftrightarrow> r \<in> set (runes_of valid)"

definition acceptOneIn :: "gobytes \<Rightarrow> 'q lexer \<Rightarrow> ('q lexer, bool) result" where
  "acceptOneIn valid l =
     (case Next l of
        (_, l1) \<Rightarrow> if runeIn valid (cur_rune l1) then Ret True l1 else bindR (Back l1) (\<lambda>_ l2. Ret False l2))"

text \<open>The loop may stay at the end of the input, so it has fuel.\<close>

fun acceptManyIn :: "nat \<Rightarrow> gobytes \<Rightarrow> nat \<Rightarrow> 'q lexer \<Rightarrow> ('q lexer, nat) result" where
  "acceptManyIn 0 valid n l = OutOfFuel"
| "acceptManyIn (Suc k) valid n l =
     (case Next l of
        (_, l1) \<Rightarrow> if \<not> runeIn valid (cur_rune l1) then bindR (Back l1) (\<lambda>_ l2. Ret n l2) else acceptManyIn k valid (n + 1) l1)"

section \<open>Running\<close>

definition Emit :: "int \<Rightarrow> gobytes \<Rightarrow> 'q lexer \<Rightarrow> 'q lexer" where
  "Emit i lit l = l\<lparr>chan := chan l @ [\<lparr>tk_ID = i, tk_Lit = lit, tk_Pos = tpos l\<rparr>], lit_buf := [], intok := False\<rparr>"

definition Push :: "'q \<Rightarrow> 'q lexer \<Rightarrow> 'q lexer" where
  "Push fn l = l\<lparr>fn_stack := fn_stack l @ [fn]\<rparr>"

definition lexer_pop :: "'q lexer \<Rightarrow> 'q option \<times> 'q lexer" where
  "lexer_pop l = (if fn_stack l = [] then (None, l) else (Some (last (fn_stack l)), l\<lparr>fn_stack := butlast (fn_stack l)\<rparr>))"

definition runBody :: "('q \<Rightarrow> 'q lexer \<Rightarrow> 'q option \<times> 'q lexer) \<Rightarrow> 'q option \<times> 'q lexer \<Rightarrow> ('q option \<times> 'q lexer) + 'q lexer" where
  "runBody call x =
     (case x of (fn, l) \<Rightarrow>
        (case (if fn = None then lexer_pop l else (fn, l)) of
           (None, l1) \<Rightarrow> Inr (Emit EOF_id [] l1)
         | (Some f, l1) \<Rightarrow> Inl (call f l1)))"

definition Lexer_run :: "nat \<Rightarrow> ('q \<Rightarrow> 'q lexer \<Rightarrow> 'q option \<times> 'q lexer) \<Rightarrow> 'q \<Rightarrow> 'q lexer \<Rightarrow> 'q lexer option" where
  "Lexer_run n call startFn l = iter n (runBody call) (None, Push startFn l)"

definition zeroPos :: lexPos where
  "zeroPos = \<lparr>lp_Name = [], lp_Line = 0, lp_Col = 0, lp_Off = 0\<rparr>"

text \<open>\<^verbatim>\<open>Init\<close> leaves the stack of an earlier run as it is.\<close>

definition Lexer_Init :: "string \<Rightarrow> gobytes \<Rightarrow> string option \<Rightarrow> 'q lexer \<Rightarrow> 'q lexer" where
  "Lexer_Init name r err l =
     l\<lparr>rest_in := r, read_err := err, at_eof := False, cpos := \<lparr>lp_Name = name, lp_Line = 1, lp_Col = 0, lp_Off = - 1\<rparr>,
       tpos := zeroPos, ppos := zeroPos, cur_rune := - 1, prev_rune := - 1, lit_buf := [], intok := False, chan := []\<rparr>"

section \<open>The passthrough grammar and the predicates\<close>

datatype passState = StateRune

fun stateRune :: "passState \<Rightarrow> passState lexer \<Rightarrow> passState option \<times> passState lexer" where
  "stateRune StateRune l =
     (case Next l of
        ((r, False), l1) \<Rightarrow> (None, l1)
      | ((r, True), l1) \<Rightarrow> (Some StateRune, Emit r (encodeRune r) (StartToken l1)))"

type_synonym RunePredicate = "rune \<Rightarrow> bool"

definition EqPredicate :: "rune \<Rightarrow> RunePredicate" where "EqPredicate want r \<longleftrightarrow> r = want"
definition IsGoWhitespace :: RunePredicate where "IsGoWhitespace r \<longleftrightarrow> r = 0x20 \<or> r = 9 \<or> r = 13 \<or> r = 10"
definition IsAsciiWhitespace :: RunePredicate where "IsAsciiWhitespace r \<longleftrightarrow> r = 0x20 \<or> r = 9 \<or> r = 13 \<or> r = 10 \<or> r = 11 \<or> r = 12"
definition AndPredicate :: "RunePredicate list \<Rightarrow> RunePredicate" where "AndPredicate ps r \<longleftrightarrow> list_all (\<lambda>p. p r) ps"
definition OrPredicate :: "RunePredicate list \<Rightarrow> RunePredicate" where "OrPredicate ps r \<longleftrightarrow> list_ex (\<lambda>p. p r) ps"
definition SetPredicate :: "gobytes \<Rightarrow> RunePredicate" where "SetPredicate valid r \<longleftrightarrow> runeIn valid r"
definition NotPredicate :: "RunePredicate \<Rightarrow> RunePredicate" where "NotPredicate p r \<longleftrightarrow> \<not> p r"

section \<open>Properties\<close>

text \<open>The runes of a text with their widths, and the position after the first of them.\<close>

function decoded :: "gobytes \<Rightarrow> (rune \<times> nat) list" where
  "decoded s = (if s = [] then [] else decodeRune s # decoded (drop (snd (decodeRune s)) s))"
  by pat_completeness auto
termination
proof (relation "measure length", goal_cases)
  case (2 s)
  then show ?case using decodeRune_width [of s "fst (decodeRune s)" "snd (decodeRune s)"] by simp
qed simp

declare decoded.simps [simp del]

lemma decoded_Nil: "decoded s = [] \<longleftrightarrow> s = []"
  by (subst decoded.simps) simp

lemma decoded_width: "sum_list (map snd (decoded s)) = length s"
proof (induction s rule: decoded.induct)
  case (1 s)
  then show ?case
    using decodeRune_width [of s "fst (decodeRune s)" "snd (decodeRune s)"] by (subst decoded.simps) auto
qed

lemma decoded_runes: "map fst (decoded s) = runes_of s"
  by (induction s rule: decoded.induct) (subst decoded.simps, subst runes_of.simps, simp)

definition posAfter :: "string \<Rightarrow> (rune \<times> nat) list \<Rightarrow> lexPos" where
  "posAfter name ds = fold (\<lambda>(r, w). moved r w) ds \<lparr>lp_Name = name, lp_Line = 1, lp_Col = 0, lp_Off = - 1\<rparr>"

lemma fold_moved: "lp_Line (fold (\<lambda>(r, w). moved r w) ds p) = lp_Line p + int (length (filter (\<lambda>d. fst d = 10) ds)) \<and>
  lp_Off (fold (\<lambda>(r, w). moved r w) ds p) = lp_Off p + int (sum_list (map snd ds)) \<and> lp_Name (fold (\<lambda>(r, w). moved r w) ds p) = lp_Name p"
  by (induction ds arbitrary: p) (auto simp: moved_def Let_def)

text \<open>The column counts the runes other than carriage returns since the last line feed.\<close>

definition colOf :: "rune list \<Rightarrow> nat" where
  "colOf rs = length (filter (\<lambda>r. r \<noteq> 13) (takeWhile (\<lambda>r. r \<noteq> 10) (rev rs)))"

lemma fold_moved_col: "lp_Col p = 0 \<Longrightarrow> lp_Col (fold (\<lambda>(r, w). moved r w) ds p) = int (colOf (map fst ds))"
  by (induction ds rule: rev_induct) (auto simp: moved_def colOf_def Let_def)

lemma posAfter_eq:
  "posAfter name ds = \<lparr>lp_Name = name, lp_Line = 1 + int (length (filter (\<lambda>r. r = 10) (map fst ds))), lp_Col = int (colOf (map fst ds)),
     lp_Off = int (sum_list (map snd ds)) - 1\<rparr>"
  by (rule lexPos.equality) (simp_all add: posAfter_def fold_moved fold_moved_col filter_map comp_def)

text \<open>One round of the passthrough grammar.\<close>

lemma stateRune_step:
  assumes "\<not> at_eof l" "\<not> intok l" "decoded (rest_in l) = (r, w) # ds"
  shows "stateRune StateRune l = (Some StateRune, l\<lparr>rest_in := drop w (rest_in l), prev_rune := cur_rune l, ppos := cpos l, cur_rune := r,
    cpos := moved r w (cpos l), tpos := moved r w (cpos l), chan := chan l @ [\<lparr>tk_ID = r, tk_Lit = encodeRune r, tk_Pos = moved r w (cpos l)\<rparr>],
    lit_buf := [], intok := False\<rparr>) \<and> decoded (drop w (rest_in l)) = ds"
proof -
  have d: "rest_in l \<noteq> []" "decodeRune (rest_in l) = (r, w)" "decoded (drop w (rest_in l)) = ds"
    using assms(3) by (subst (asm) decoded.simps, auto split: if_splits)+
  then show ?thesis using assms(1,2) by (simp add: Next_def Let_def Emit_def StartToken_def)
qed

lemma passthrough_loop:
  assumes "\<not> at_eof l" "\<not> intok l" "fn_stack l = []" "read_err l = None" "decoded (rest_in l) = ds" "length ds + 2 \<le> n"
  shows "\<exists>l'. iter n (runBody stateRune) (Some StateRune, l) = Some l' \<and>
    map tk_ID (chan l') = map tk_ID (chan l) @ map fst ds @ [EOF_id] \<and>
    map tk_Lit (chan l') = map tk_Lit (chan l) @ map (\<lambda>d. encodeRune (fst d)) ds @ [[]] \<and>
    butlast (map tk_Pos (chan l')) = map tk_Pos (chan l) @ map (\<lambda>i. fold (\<lambda>(r, w). moved r w) (take (Suc i) ds) (cpos l)) [0..<length ds] \<and>
    tk_Pos (last (chan l')) = (if ds = [] then tpos l else fold (\<lambda>(r, w). moved r w) ds (cpos l)) \<and> stderr l' = stderr l"
  using assms
proof (induction ds arbitrary: l n)
  case Nil
  obtain k where k: "n = Suc (Suc k)" using Nil.prems(6) by (metis Suc_le_D add_2_eq_Suc' list.size(3) plus_nat.add_0 Suc_le_mono)
  have "rest_in l = []" using Nil.prems(5) by (subst (asm) decoded.simps) (simp split: if_splits)
  then have "stateRune StateRune l = (None, l\<lparr>cur_rune := - 1, at_eof := True\<rparr>)"
    using Nil.prems by (simp add: Next_def lexer_fatalError_def Let_def)
  then show ?case using Nil.prems by (simp add: k runBody_def lexer_pop_def Emit_def)
next
  case (Cons d ds)
  obtain r w where d: "d = (r, w)" by (cases d)
  obtain k where k: "n = Suc k" "length ds + 2 \<le> k" using Cons.prems(6) by (cases n) auto
  define l1 where "l1 = snd (stateRune StateRune l)"
  note st = stateRune_step [OF Cons.prems(1,2) Cons.prems(5) [unfolded d]]
  have l1: "stateRune StateRune l = (Some StateRune, l1)" "\<not> at_eof l1" "\<not> intok l1" "fn_stack l1 = []" "read_err l1 = None"
    "decoded (rest_in l1) = ds" "cpos l1 = moved r w (cpos l)" "tpos l1 = moved r w (cpos l)" "stderr l1 = stderr l"
    "chan l1 = chan l @ [\<lparr>tk_ID = r, tk_Lit = encodeRune r, tk_Pos = moved r w (cpos l)\<rparr>]"
    using st Cons.prems by (simp_all add: l1_def)
  have i: "iter n (runBody stateRune) (Some StateRune, l) = iter k (runBody stateRune) (Some StateRune, l1)"
    by (simp add: k runBody_def l1(1) del: stateRune.simps)
  have u: "map (\<lambda>i. fold (\<lambda>(r, w). moved r w) (take (Suc i) (d # ds)) (cpos l)) [0..<length (d # ds)] =
      moved r w (cpos l) # map (\<lambda>i. fold (\<lambda>(r, w). moved r w) (take (Suc i) ds) (moved r w (cpos l))) [0..<length ds]"
    by (simp add: d upt_conv_Cons del: upt_Suc) (simp add: map_Suc_upt [symmetric] del: upt_Suc map_Suc_upt)
  from Cons.IH [OF l1(2-6) k(2)] l1(7-10) show ?case unfolding i u by (cases "ds = []") (simp_all add: d)
qed

lemma start_passthrough:
  "fn_stack l = [] \<Longrightarrow> Lexer_run (Suc n) stateRune StateRune l = iter (Suc n) (runBody stateRune) (Some StateRune, l)"
  by (cases l) (simp add: Lexer_run_def runBody_def Push_def lexer_pop_def del: stateRune.simps)

text \<open>
  C39. The passthrough grammar loses nothing: on every text the run ends, within as many rounds as there are runes and two more,
  having sent one token for each rune, in order, and one for the end, with nothing printed. The token of a rune has the rune as its
  type and as its literal, and its position: the name given to \<^verbatim>\<open>Init\<close>, the line that counts the line feeds up to and
  with the rune, the column that counts the runes other than carriage returns since the last line feed, and the offset of the last
  byte of the rune. The token of the end has the position of the last rune, and of an empty text the zero position without a name.
\<close>

theorem passthrough_tokens:
  assumes "fn_stack l = []" "length (runes_of b) + 2 \<le> n"
  shows "\<exists>l'. Lexer_run n stateRune StateRune (Lexer_Init name b None l) = Some l' \<and> stderr l' = stderr l \<and>
    map tk_ID (chan l') = runes_of b @ [EOF_id] \<and> map tk_Lit (chan l') = map encodeRune (runes_of b) @ [[]] \<and>
    map tk_Pos (chan l') =
      map (\<lambda>i. \<lparr>lp_Name = name, lp_Line = 1 + int (length (filter (\<lambda>r. r = 10) (take (Suc i) (runes_of b)))),
        lp_Col = int (length (filter (\<lambda>r. r \<noteq> 13) (takeWhile (\<lambda>r. r \<noteq> 10) (rev (take (Suc i) (runes_of b)))))),
        lp_Off = int (sum_list (map snd (take (Suc i) (decoded b)))) - 1\<rparr>) [0..<length (runes_of b)] @
      [if b = [] then zeroPos
       else \<lparr>lp_Name = name, lp_Line = 1 + int (length (filter (\<lambda>r. r = 10) (runes_of b))),
         lp_Col = int (length (filter (\<lambda>r. r \<noteq> 13) (takeWhile (\<lambda>r. r \<noteq> 10) (rev (runes_of b))))), lp_Off = int (length b) - 1\<rparr>]"
proof -
  let ?l = "Lexer_Init name b None l" and ?ds = "decoded b"
  have len: "length ?ds = length (runes_of b)" by (metis decoded_runes length_map)
  obtain k where k: "n = Suc k" using assms(2) by (cases n) auto
  have "length ?ds + 2 \<le> n" using assms(2) len by simp
  then obtain l' where l': "iter n (runBody stateRune) (Some StateRune, ?l) = Some l'" "map tk_ID (chan l') = map fst ?ds @ [EOF_id]"
      "map tk_Lit (chan l') = map (\<lambda>d. encodeRune (fst d)) ?ds @ [[]]" "stderr l' = stderr l"
      "butlast (map tk_Pos (chan l')) = map (\<lambda>i. posAfter name (take (Suc i) ?ds)) [0..<length ?ds]"
      "tk_Pos (last (chan l')) = (if ?ds = [] then zeroPos else posAfter name ?ds)"
    using passthrough_loop [of ?l ?ds n] assms(1) by (auto simp: Lexer_Init_def posAfter_def)
  have "Lexer_run n stateRune StateRune ?l = Some l'"
    using l'(1) start_passthrough [of ?l k] assms(1) by (simp add: k Lexer_Init_def)
  moreover have "map tk_Lit (chan l') = map encodeRune (runes_of b) @ [[]]"
    using l'(3) by (simp add: comp_def flip: decoded_runes)
  moreover have "chan l' \<noteq> []" using l'(2) by auto
  then have "map tk_Pos (chan l') = butlast (map tk_Pos (chan l')) @ [tk_Pos (last (chan l'))]"
    by (metis append_butlast_last_id last_map map_is_Nil_conv)
  moreover note l'(5,6)
  ultimately show ?thesis
    using l'(2,4) by (simp add: decoded_runes decoded_Nil posAfter_eq colOf_def len decoded_width take_map [symmetric])
qed

definition newLexer :: "passState lexer" where
  "newLexer = \<lparr>rest_in = [], read_err = None, at_eof = False, chan = [], fn_stack = [], lit_buf = [], intok = False,
     tpos = zeroPos, cpos = zeroPos, ppos = zeroPos, cur_rune = 0, prev_rune = 0, stderr = []\<rparr>"

theorem passthrough_tokens_witness:
  "\<exists>l'. Lexer_run 6 stateRune StateRune (Lexer_Init ''f'' [CHR ''a'', CHR 0x0A, CHR ''b'', CHR ''c''] None newLexer) = Some l' \<and>
    map tk_ID (chan l') = [0x61, 0x0A, 0x62, 0x63, EOF_id] \<and> map (\<lambda>t. (lp_Line (tk_Pos t), lp_Col (tk_Pos t))) (chan l') =
      [(1, 1), (2, 0), (2, 1), (2, 2), (2, 2)]"
proof -
  let ?b = "[CHR ''a'', CHR 0x0A, CHR ''b'', CHR ''c'']"
  have r: "runes_of ?b = [0x61, 0x0A, 0x62, 0x63]" by code_simp
  have "fn_stack newLexer = []" "length (runes_of ?b) + 2 \<le> 6" by (simp_all add: newLexer_def r)
  from passthrough_tokens [OF this, of "''f''"] obtain l' where
    "Lexer_run 6 stateRune StateRune (Lexer_Init ''f'' ?b None newLexer) = Some l'" and
    t: "map tk_ID (chan l') = runes_of ?b @ [EOF_id]" and
    p: "map tk_Pos (chan l') =
      map (\<lambda>i. \<lparr>lp_Name = ''f'', lp_Line = 1 + int (length (filter (\<lambda>r. r = 10) (take (Suc i) (runes_of ?b)))),
        lp_Col = int (length (filter (\<lambda>r. r \<noteq> 13) (takeWhile (\<lambda>r. r \<noteq> 10) (rev (take (Suc i) (runes_of ?b)))))),
        lp_Off = int (sum_list (map snd (take (Suc i) (decoded ?b)))) - 1\<rparr>) [0..<length (runes_of ?b)] @
      [if ?b = [] then zeroPos
       else \<lparr>lp_Name = ''f'', lp_Line = 1 + int (length (filter (\<lambda>r. r = 10) (runes_of ?b))),
         lp_Col = int (length (filter (\<lambda>r. r \<noteq> 13) (takeWhile (\<lambda>r. r \<noteq> 10) (rev (runes_of ?b))))), lp_Off = int (length ?b) - 1\<rparr>]"
    by blast
  moreover have "map (\<lambda>t. (lp_Line (tk_Pos t), lp_Col (tk_Pos t))) (chan l') = [(1, 1), (2, 0), (2, 1), (2, 2), (2, 2)]"
    using arg_cong [OF p, of "map (\<lambda>q. (lp_Line q, lp_Col q))"] by (simp add: r comp_def upt_rec numeral_eq_Suc)
  ultimately show ?thesis by (auto simp: r)
qed

text \<open>
  Going back does not give the rune to the reader again: after it, the next rune read is the one that follows, and of a literal
  only the last byte is taken away.
\<close>

lemma Back_loses_rune:
  assumes "\<not> at_eof l" "\<not> intok l" "cur_rune l \<noteq> - 1" "decoded (rest_in l) = (r1, w1) # (r2, w2) # ds"
  shows "\<exists>l1 l2 l3. Next l = ((r1, True), l1) \<and> Back l1 = Ret () l2 \<and> Next l2 = ((r2, True), l3)"
proof -
  have d: "rest_in l \<noteq> []" "decodeRune (rest_in l) = (r1, w1)" "decoded (drop w1 (rest_in l)) = (r2, w2) # ds"
    using assms(4) by (subst (asm) decoded.simps, auto split: if_splits)+
  have e: "drop w1 (rest_in l) \<noteq> []" "decodeRune (drop w1 (rest_in l)) = (r2, w2)"
    using d(3) by (subst (asm) decoded.simps, auto split: if_splits)+
  from assms d(1,2) e show ?thesis by (simp add: Next_def Back_def Let_def)
qed

text \<open>
  After going back at the end of the input the lexer has its last rune again but no more input; if the set has that rune, consuming
  runes of the set never ends.
\<close>

lemma acceptManyIn_hangs: "at_eof l \<Longrightarrow> runeIn valid (cur_rune l) \<Longrightarrow> acceptManyIn k valid n l = OutOfFuel"
  by (induction k arbitrary: n) (simp_all add: Next_def)

end
