(* ===== verification/Peg_Actions.thy ===== *)
theory Peg_Actions
  imports Peg_Runtime
begin

text \<open>
  What the code blocks of generated parsers share. A code block reads the labels in scope, asserts the
  dynamic types of their values, and returns a value and an error or panics: a computation in the sum of a panic and
  a value, which \<open>code_of\<close> turns into the outcome the engine sees. The text of a failed type assertion or
  of an index out of range is the fixed part of the message of the Go runtime.
\<close>

abbreviation at_pos :: "int \<Rightarrow> int \<Rightarrow> nat \<Rightarrow> position" where
  "at_pos l c n \<equiv> \<lparr>line = l, col = c, offset = n\<rparr>"

type_synonym 'r code = "panicval + 'r"

definition thenP :: "'r code \<Rightarrow> ('r \<Rightarrow> 'q code) \<Rightarrow> 'q code" where
  "thenP m f = (case m of Inl e \<Rightarrow> Inl e | Inr x \<Rightarrow> f x)"

lemma thenP_simps [simp]: "thenP (Inl e) f = Inl e" "thenP (Inr x) f = f x"
  by (simp_all add: thenP_def)

lemma thenP_Inr: "thenP m f = Inr y \<longleftrightarrow> (\<exists>x. m = Inr x \<and> f x = Inr y)"
  by (cases m) auto

fun mapP :: "('a \<Rightarrow> 'b code) \<Rightarrow> 'a list \<Rightarrow> 'b list code" where
  "mapP f [] = Inr []"
| "mapP f (x # xs) = thenP (f x) (\<lambda>y. thenP (mapP f xs) (\<lambda>ys. Inr (y # ys)))"

definition code_of :: "current \<Rightarrow> ('r \<times> string option) code \<Rightarrow> 'r codeResult" where
  "code_of c m = (case m of Inl e \<Rightarrow> CodePanics c e | Inr (v, err) \<Rightarrow> CodeReturns c v err)"

lemma code_of_simps [simp]:
  "code_of c (Inl e) = CodePanics c e" "code_of c (Inr (v, err)) = CodeReturns c v err"
  by (simp_all add: code_of_def)

text \<open>The value of a label in the top frame: nil when the label is not there.\<close>

definition labelled :: "'a vmap \<Rightarrow> string \<Rightarrow> 'a goval" where
  "labelled stack l = (case map_of stack l of None \<Rightarrow> VNil | Some v \<Rightarrow> v)"

text \<open>
  A type assertion panics when the dynamic type of the value is another one. The types of the values that
  are not of the engine are named by a function of the parser at hand.
\<close>

fun goType :: "('a \<Rightarrow> string) \<Rightarrow> 'a goval \<Rightarrow> string" where
  "goType tn VNil = ''nil''"
| "goType tn (VString _) = ''string''"
| "goType tn (VSlice _) = ''[]interface {}''"
| "goType tn (VUser x) = tn x"

definition badAssertion :: "('a \<Rightarrow> string) \<Rightarrow> 'a goval \<Rightarrow> string \<Rightarrow> panicval" where
  "badAssertion tn v want = PanicError (''interface conversion: interface {} is '' @ goType tn v @ '', not '' @ want)"

definition asSlice :: "('a \<Rightarrow> string) \<Rightarrow> 'a goval \<Rightarrow> 'a goval list code" where
  "asSlice tn v = (case v of VSlice vs \<Rightarrow> Inr vs | _ \<Rightarrow> Inl (badAssertion tn v ''[]interface {}''))"

definition asString :: "('a \<Rightarrow> string) \<Rightarrow> 'a goval \<Rightarrow> gobytes code" where
  "asString tn v = (case v of VString s \<Rightarrow> Inr s | _ \<Rightarrow> Inl (badAssertion tn v ''string''))"

definition index :: "'a list \<Rightarrow> nat \<Rightarrow> 'a code" where
  "index xs i = (if i < length xs then Inr (xs ! i) else Inl indexPanic)"

definition toIfaceSlice :: "('a \<Rightarrow> string) \<Rightarrow> 'a goval \<Rightarrow> 'a goval list code" where
  "toIfaceSlice tn v = (if v = VNil then Inr [] else asSlice tn v)"

lemma assertion_simps [simp]:
  "asSlice tn (VSlice vs) = Inr vs" "asString tn (VString s) = Inr s"
  "toIfaceSlice tn VNil = Inr []" "toIfaceSlice tn (VSlice vs) = Inr vs"
  by (simp_all add: asSlice_def asString_def toIfaceSlice_def)

lemma index_simps [simp]: "i < length xs \<Longrightarrow> index xs i = Inr (xs ! i)"
  by (simp add: index_def)

lemma labelled_bound: "map_of m l = Some v \<Longrightarrow> labelled m l = v"
  by (simp add: labelled_def)

end
