(* ===== verification/Calculator.thy ===== *)
theory Calculator
  imports Peg_Actions "HOL-Library.Word" "HOL-Library.Signed_Division"
begin

text \<open>
  The generated calculator, \<^verbatim>\<open>peg/examples/calculator/calculator.go\<close>: its grammar, one definition per rule as
  the generated literal has them, and its code blocks. A Go \<^verbatim>\<open>int\<close> is a word of 64 bits: sums,
  differences and products wrap, the quotient is truncated towards zero, and a division by zero panics.
\<close>

section \<open>Integers\<close>

type_synonym goint = "64 word"

datatype calcval = GoInt goint

definition calcType :: "calcval \<Rightarrow> string" where
  "calcType _ = ''int''"

definition asInt :: "calcval goval \<Rightarrow> goint code" where
  "asInt v = (case v of VUser (GoInt i) \<Rightarrow> Inr i | _ \<Rightarrow> Inl (badAssertion calcType v ''int''))"

definition goQuot :: "goint \<Rightarrow> goint \<Rightarrow> goint code" where
  "goQuot l r =
     (if r = 0 then Inl (PanicError ''runtime error: integer divide by zero'')
      else Inr (word_of_int (sint l sdiv sint r)))"

text \<open>\<^verbatim>\<open>strconv.Atoi\<close>: out of range it returns the nearest integer beside the error.\<close>

definition isDigit :: "char \<Rightarrow> bool" where
  "isDigit c \<longleftrightarrow> (let b = of_char c :: int in 48 \<le> b \<and> b \<le> 57)"

definition digitsValue :: "gobytes \<Rightarrow> int" where
  "digitsValue ds = foldl (\<lambda>n c. 10 * n + (of_char c - 48)) 0 ds"

definition numError :: "gobytes \<Rightarrow> string \<Rightarrow> string" where
  "numError s why = ''strconv.Atoi: parsing '' @ [CHR 0x22] @ s @ [CHR 0x22] @ '': '' @ why"

definition atoiMagnitude :: "gobytes \<Rightarrow> bool \<Rightarrow> gobytes \<Rightarrow> goint \<times> string option" where
  "atoiMagnitude s neg ds =
     (if ds = [] \<or> \<not> list_all isDigit ds then (0, Some (numError s ''invalid syntax''))
      else let n = digitsValue ds
      in if neg then
           (if n > 2 ^ 63 then (word_of_int (- (2 ^ 63)), Some (numError s ''value out of range''))
            else (word_of_int (- n), None))
         else
           (if n > 2 ^ 63 - 1 then (word_of_int (2 ^ 63 - 1), Some (numError s ''value out of range''))
            else (word_of_int n, None)))"

fun Atoi :: "gobytes \<Rightarrow> goint \<times> string option" where
  "Atoi [] = atoiMagnitude [] False []"
| "Atoi (c # s) =
     (if c = CHR ''-'' then atoiMagnitude (c # s) True s
      else if c = CHR ''+'' then atoiMagnitude (c # s) False s
      else atoiMagnitude (c # s) False (c # s))"

section \<open>Evaluation\<close>

definition ops :: "gobytes \<Rightarrow> (goint \<Rightarrow> goint \<Rightarrow> goint code) option" where
  "ops op =
     (if op = ''+'' then Some (\<lambda>l r. Inr (l + r))
      else if op = ''-'' then Some (\<lambda>l r. Inr (l - r))
      else if op = ''*'' then Some (\<lambda>l r. Inr (l * r))
      else if op = ''/'' then Some goQuot
      else None)"

definition callOp :: "gobytes \<Rightarrow> goint \<Rightarrow> goint \<Rightarrow> goint code" where
  "callOp op l r =
     (case ops op of
        None \<Rightarrow> Inl (PanicError ''runtime error: invalid memory address or nil pointer dereference'')
      | Some f \<Rightarrow> f l r)"

fun evalRest :: "goint \<Rightarrow> calcval goval list \<Rightarrow> goint code" where
  "evalRest l [] = Inr l"
| "evalRest l (v # vs) =
     thenP (toIfaceSlice calcType v) (\<lambda>restExpr.
     thenP (index restExpr 3) (\<lambda>rv. thenP (asInt rv) (\<lambda>r.
     thenP (index restExpr 1) (\<lambda>opv. thenP (asString calcType opv) (\<lambda>op.
     thenP (callOp op l r) (\<lambda>l1. evalRest l1 vs))))))"

definition eval :: "calcval goval \<Rightarrow> calcval goval \<Rightarrow> goint code" where
  "eval first rest =
     thenP (asInt first) (\<lambda>l. thenP (toIfaceSlice calcType rest) (\<lambda>restSl. evalRest l restSl))"

section \<open>Code blocks\<close>

type_synonym calcCode = "(calcval goval \<times> string option) code"

definition onInput1 :: "calcval goval \<Rightarrow> calcCode" where
  "onInput1 expr = Inr (expr, None)"

definition callonInput1 :: "calcval runFn" where
  "callonInput1 c stack = code_of c (onInput1 (labelled stack ''expr''))"

definition onExpr1 :: "calcval goval \<Rightarrow> calcval goval \<Rightarrow> calcCode" where
  "onExpr1 first rest = thenP (eval first rest) (\<lambda>i. Inr (VUser (GoInt i), None))"

definition callonExpr1 :: "calcval runFn" where
  "callonExpr1 c stack = code_of c (onExpr1 (labelled stack ''first'') (labelled stack ''rest''))"

definition onTerm1 :: "calcval goval \<Rightarrow> calcval goval \<Rightarrow> calcCode" where
  "onTerm1 first rest = thenP (eval first rest) (\<lambda>i. Inr (VUser (GoInt i), None))"

definition callonTerm1 :: "calcval runFn" where
  "callonTerm1 c stack = code_of c (onTerm1 (labelled stack ''first'') (labelled stack ''rest''))"

definition onFactor2 :: "calcval goval \<Rightarrow> calcCode" where
  "onFactor2 expr = Inr (expr, None)"

definition callonFactor2 :: "calcval runFn" where
  "callonFactor2 c stack = code_of c (onFactor2 (labelled stack ''expr''))"

definition onFactor8 :: "calcval goval \<Rightarrow> calcCode" where
  "onFactor8 integer = Inr (integer, None)"

definition callonFactor8 :: "calcval runFn" where
  "callonFactor8 c stack = code_of c (onFactor8 (labelled stack ''integer''))"

definition onAddOp1 :: "current \<Rightarrow> calcCode" where
  "onAddOp1 c = Inr (VString (cur_text c), None)"

definition callonAddOp1 :: "calcval runFn" where
  "callonAddOp1 c stack = code_of c (onAddOp1 c)"

definition onMulOp1 :: "current \<Rightarrow> calcCode" where
  "onMulOp1 c = Inr (VString (cur_text c), None)"

definition callonMulOp1 :: "calcval runFn" where
  "callonMulOp1 c stack = code_of c (onMulOp1 c)"

definition onInteger1 :: "current \<Rightarrow> calcCode" where
  "onInteger1 c = (let (i, err) = Atoi (cur_text c) in Inr (VUser (GoInt i), err))"

definition callonInteger1 :: "calcval runFn" where
  "callonInteger1 c stack = code_of c (onInteger1 c)"

section \<open>The grammar\<close>

definition calculator_Input :: "calcval rule" where
  "calculator_Input = \<lparr>rule_pos = at_pos 58 1 1240, rule_name = ''Input'', displayName = '''', rule_expr =
    (actionExpr (at_pos 58 10 1249)
      (seqExpr (at_pos 58 10 1249) [
        (labeledExpr (at_pos 58 10 1249) ''expr''
          (ruleRefExpr (at_pos 58 15 1254) ''Expr'')),
        (ruleRefExpr (at_pos 58 20 1259) ''EOF'')])
      callonInput1)\<rparr>"

definition calculator_Expr :: "calcval rule" where
  "calculator_Expr = \<lparr>rule_pos = at_pos 62 1 1289, rule_name = ''Expr'', displayName = '''', rule_expr =
    (actionExpr (at_pos 62 9 1297)
      (seqExpr (at_pos 62 9 1297) [
        (ruleRefExpr (at_pos 62 9 1297) ''_''),
        (labeledExpr (at_pos 62 11 1299) ''first''
          (ruleRefExpr (at_pos 62 17 1305) ''Term'')),
        (labeledExpr (at_pos 62 22 1310) ''rest''
          (zeroOrMoreExpr (at_pos 62 27 1315)
            (seqExpr (at_pos 62 29 1317) [
              (ruleRefExpr (at_pos 62 29 1317) ''_''),
              (ruleRefExpr (at_pos 62 31 1319) ''AddOp''),
              (ruleRefExpr (at_pos 62 37 1325) ''_''),
              (ruleRefExpr (at_pos 62 39 1327) ''Term'')]))),
        (ruleRefExpr (at_pos 62 47 1335) ''_'')])
      callonExpr1)\<rparr>"

definition calculator_Term :: "calcval rule" where
  "calculator_Term = \<lparr>rule_pos = at_pos 66 1 1376, rule_name = ''Term'', displayName = '''', rule_expr =
    (actionExpr (at_pos 66 9 1384)
      (seqExpr (at_pos 66 9 1384) [
        (labeledExpr (at_pos 66 9 1384) ''first''
          (ruleRefExpr (at_pos 66 15 1390) ''Factor'')),
        (labeledExpr (at_pos 66 22 1397) ''rest''
          (zeroOrMoreExpr (at_pos 66 27 1402)
            (seqExpr (at_pos 66 29 1404) [
              (ruleRefExpr (at_pos 66 29 1404) ''_''),
              (ruleRefExpr (at_pos 66 31 1406) ''MulOp''),
              (ruleRefExpr (at_pos 66 37 1412) ''_''),
              (ruleRefExpr (at_pos 66 39 1414) ''Factor'')])))])
      callonTerm1)\<rparr>"

definition calculator_Factor :: "calcval rule" where
  "calculator_Factor = \<lparr>rule_pos = at_pos 70 1 1463, rule_name = ''Factor'', displayName = '''', rule_expr =
    (choiceExpr (at_pos 70 11 1473) [
      (actionExpr (at_pos 70 11 1473)
        (seqExpr (at_pos 70 11 1473) [
          (litMatcher (at_pos 70 11 1473) ''('' False),
          (labeledExpr (at_pos 70 15 1477) ''expr''
            (ruleRefExpr (at_pos 70 20 1482) ''Expr'')),
          (litMatcher (at_pos 70 25 1487) '')'' False)])
        callonFactor2),
      (actionExpr (at_pos 72 5 1518)
        (labeledExpr (at_pos 72 5 1518) ''integer''
          (ruleRefExpr (at_pos 72 13 1526) ''Integer''))
        callonFactor8)])\<rparr>"

definition calculator_AddOp :: "calcval rule" where
  "calculator_AddOp = \<lparr>rule_pos = at_pos 76 1 1563, rule_name = ''AddOp'', displayName = '''', rule_expr =
    (actionExpr (at_pos 76 10 1572)
      (choiceExpr (at_pos 76 12 1574) [
        (litMatcher (at_pos 76 12 1574) ''+'' False),
        (litMatcher (at_pos 76 18 1580) ''-'' False)])
      callonAddOp1)\<rparr>"

definition calculator_MulOp :: "calcval rule" where
  "calculator_MulOp = \<lparr>rule_pos = at_pos 80 1 1622, rule_name = ''MulOp'', displayName = '''', rule_expr =
    (actionExpr (at_pos 80 10 1631)
      (choiceExpr (at_pos 80 12 1633) [
        (litMatcher (at_pos 80 12 1633) ''*'' False),
        (litMatcher (at_pos 80 18 1639) ''/'' False)])
      callonMulOp1)\<rparr>"

definition calculator_Integer :: "calcval rule" where
  "calculator_Integer = \<lparr>rule_pos = at_pos 84 1 1681, rule_name = ''Integer'', displayName = '''', rule_expr =
    (actionExpr (at_pos 84 12 1692)
      (seqExpr (at_pos 84 12 1692) [
        (zeroOrOneExpr (at_pos 84 12 1692)
          (litMatcher (at_pos 84 12 1692) ''-'' False)),
        (oneOrMoreExpr (at_pos 84 17 1697)
          (charClassMatcher \<lparr>cc_pos = at_pos 84 17 1697, cc_val = ''[0-9]'',
             chars = [], ranges = [48, 57], classes = [],
             cc_ignoreCase = False, inverted = False\<rparr>))])
      callonInteger1)\<rparr>"

definition calculator_underscore :: "calcval rule" where
  "calculator_underscore = \<lparr>rule_pos = at_pos 88 1 1749, rule_name = ''_'', displayName = ([CHR 0x22] @ ''whitespace'' @ [CHR 0x22]), rule_expr =
    (zeroOrMoreExpr (at_pos 88 19 1767)
      (charClassMatcher \<lparr>cc_pos = at_pos 88 19 1767, cc_val = (''[ '' @ [CHR 0x5C] @ ''n'' @ [CHR 0x5C] @ ''t'' @ [CHR 0x5C] @ ''r]''),
         chars = [32, 10, 9, 13], ranges = [], classes = [],
         cc_ignoreCase = False, inverted = False\<rparr>))\<rparr>"

definition calculator_EOF :: "calcval rule" where
  "calculator_EOF = \<lparr>rule_pos = at_pos 90 1 1779, rule_name = ''EOF'', displayName = '''', rule_expr =
    (notExpr (at_pos 90 8 1786)
      (anyMatcher (at_pos 90 9 1787)))\<rparr>"

definition calculator_g :: "calcval grammar" where
  "calculator_g = \<lparr>grammar_pos = at_pos 0 0 0, grammar_rules =
     [calculator_Input,
      calculator_Expr,
      calculator_Term,
      calculator_Factor,
      calculator_AddOp,
      calculator_MulOp,
      calculator_Integer,
      calculator_underscore,
      calculator_EOF]\<rparr>"

end
