(* ===== verification/Peg_WellFormed.thy ===== *)
theory Peg_WellFormed
  imports Peg_Properties
begin

text \<open>
  A criterion under which a generated parser returns on every input. An expression \<open>consumes\<close> when each of its
  matches advances; \<open>left\<close> lists the rules it may enter before it has advanced; \<open>star_ok\<close> asks that the body of
  every repetition consumes. A grammar is \<open>wf_grammar\<close> when its rules keep what is claimed of them in \<open>K\<close> and when
  a rank decreases from every rule to the rules it may enter first. The criterion is about the engine: it
  covers grammars whose code blocks panic or are predicates, which the reference semantics leaves out.
\<close>

section \<open>The criterion\<close>

definition lowered :: "unicode_env \<Rightarrow> bool \<Rightarrow> rune \<Rightarrow> rune" where
  "lowered U ic r = (if ic then uToLower U r else r)"

fun consumes :: "unicode_env \<Rightarrow> string set \<Rightarrow> 'a expr \<Rightarrow> bool" where
  "consumes U K (actionExpr _ e _) \<longleftrightarrow> consumes U K e"
| "consumes U K (anyMatcher _) \<longleftrightarrow> True"
| "consumes U K (charClassMatcher chr) \<longleftrightarrow> \<not> classAccepts U chr RuneError"
| "consumes U K (choiceExpr _ es) \<longleftrightarrow> (\<forall>e\<in>set es. consumes U K e)"
| "consumes U K (labeledExpr _ _ e) \<longleftrightarrow> consumes U K e"
| "consumes U K (litMatcher _ val ic) \<longleftrightarrow> (\<exists>x\<in>set (runes_of val). x \<noteq> lowered U ic RuneError)"
| "consumes U K (oneOrMoreExpr _ e) \<longleftrightarrow> consumes U K e"
| "consumes U K (ruleRefExpr _ name) \<longleftrightarrow> name \<in> K"
| "consumes U K (seqExpr _ es) \<longleftrightarrow> (\<exists>e\<in>set es. consumes U K e)"
| "consumes U K _ \<longleftrightarrow> False"

fun left :: "unicode_env \<Rightarrow> string set \<Rightarrow> 'a expr \<Rightarrow> string list"
and lefts :: "unicode_env \<Rightarrow> string set \<Rightarrow> 'a expr list \<Rightarrow> string list"
where
  "left U K (actionExpr _ e _) = left U K e"
| "left U K (andExpr _ e) = left U K e"
| "left U K (choiceExpr _ es) = concat (map (left U K) es)"
| "left U K (labeledExpr _ _ e) = left U K e"
| "left U K (notExpr _ e) = left U K e"
| "left U K (oneOrMoreExpr _ e) = left U K e"
| "left U K (ruleRefExpr _ name) = [name]"
| "left U K (seqExpr _ es) = lefts U K es"
| "left U K (zeroOrMoreExpr _ e) = left U K e"
| "left U K (zeroOrOneExpr _ e) = left U K e"
| "left U K _ = []"
| "lefts U K [] = []"
| "lefts U K (e # es) = left U K e @ (if consumes U K e then [] else lefts U K es)"

fun star_ok :: "unicode_env \<Rightarrow> string set \<Rightarrow> 'a expr \<Rightarrow> bool" where
  "star_ok U K (actionExpr _ e _) \<longleftrightarrow> star_ok U K e"
| "star_ok U K (andExpr _ e) \<longleftrightarrow> star_ok U K e"
| "star_ok U K (choiceExpr _ es) \<longleftrightarrow> (\<forall>e\<in>set es. star_ok U K e)"
| "star_ok U K (labeledExpr _ _ e) \<longleftrightarrow> star_ok U K e"
| "star_ok U K (notExpr _ e) \<longleftrightarrow> star_ok U K e"
| "star_ok U K (oneOrMoreExpr _ e) \<longleftrightarrow> consumes U K e \<and> star_ok U K e"
| "star_ok U K (seqExpr _ es) \<longleftrightarrow> (\<forall>e\<in>set es. star_ok U K e)"
| "star_ok U K (zeroOrMoreExpr _ e) \<longleftrightarrow> consumes U K e \<and> star_ok U K e"
| "star_ok U K (zeroOrOneExpr _ e) \<longleftrightarrow> star_ok U K e"
| "star_ok U K _ \<longleftrightarrow> True"

definition wf_rule :: "unicode_env \<Rightarrow> string set \<Rightarrow> (string \<Rightarrow> nat) \<Rightarrow> 'a rule \<Rightarrow> bool" where
  "wf_rule U K rank r \<longleftrightarrow>
     star_ok U K (rule_expr r) \<and> (rule_name r \<in> K \<longrightarrow> consumes U K (rule_expr r)) \<and>
     (\<forall>n\<in>set (left U K (rule_expr r)). rank n < rank (rule_name r))"

definition wf_grammar :: "unicode_env \<Rightarrow> string set \<Rightarrow> (string \<Rightarrow> nat) \<Rightarrow> 'a grammar \<Rightarrow> bool" where
  "wf_grammar U K rank g \<longleftrightarrow> (\<forall>r\<in>set (grammar_rules g). wf_rule U K rank r)"

section \<open>A consuming expression advances when it matches\<close>

definition wf_table :: "unicode_env \<Rightarrow> string set \<Rightarrow> (string \<Rightarrow> nat) \<Rightarrow> 'a parser \<Rightarrow> bool" where
  "wf_table U K rank p \<longleftrightarrow>
     (\<forall>n r. map_of (rules p) n = Some r \<longrightarrow> rule_name r = n \<and> wf_rule U K rank r)"

lemma wf_table_frame [simp]:
  "wf_table U K rank (pushV p) = wf_table U K rank p"
  "wf_table U K rank (p\<lparr>rstack := rs\<rparr>) = wf_table U K rank p"
  by (simp_all add: wf_table_def)

lemma wf_table_kept: "kept k p q \<Longrightarrow> wf_table U K rank q = wf_table U K rank p"
  by (simp add: wf_table_def kept_def)

lemma pre_kept: "pre_parser p \<Longrightarrow> kept k p q \<Longrightarrow> pre_parser q"
  by (auto simp: pre_parser_def kept_def)

lemma pre_pushV [simp]: "wf_parser p \<Longrightarrow> pre_parser (pushV p)"
  by (simp add: pre_parser_def wf_pushV)

lemma pre_pushed: "wf_parser p \<Longrightarrow> pre_parser (pushV (p\<lparr>rstack := rs\<rparr>))"
  by (rule pre_pushV) (simp add: wf_parser_def wf_v_def)

lemma pre_wf [dest]: "pre_parser p \<Longrightarrow> wf_parser p"
  by (simp add: pre_parser_def)

lemma read_advances:
  assumes "wf_parser p" "sp_rn (pt p) \<noteq> RuneError"
  shows "off p < off (read p)"
proof -
  have "decodeRune (drop (off p) (data p)) = (sp_rn (pt p), sp_w (pt p))"
    using assms(1) sp_reach_decode by (auto simp: wf_parser_def)
  then have "sp_w (pt p) \<noteq> 0" using assms(2) by (cases "drop (off p) (data p)") (auto dest: decodeRune_width)
  then show ?thesis by simp
qed

lemma class_progress:
  assumes "wf_parser p" "\<not> classAccepts U chr RuneError" "parseCharClassMatcher U chr p = Ret (v, True) q"
  shows "off p < off q"
proof -
  have "sp_rn (pt p) \<noteq> RuneError"
    using assms(2,3) by (auto simp: parseCharClassMatcher_def classAccepts_def Let_def split: classHit.splits if_splits)
  then show ?thesis
    using assms(3) read_advances [OF assms(1)]
    by (auto simp: parseCharClassMatcher_def Let_def split: classHit.splits if_splits)
qed

lemma matchLit_progress:
  assumes "matchLit U ic sp buf ws p = Ret (v, True) q" "wf_parser p"
  shows "off p \<le> off q \<and> ((\<exists>x\<in>set ws. x \<noteq> lowered U ic RuneError) \<longrightarrow> off p < off q)"
  using assms
proof (induction ws arbitrary: buf p)
  case (Cons x ws)
  have w: "wf_parser (read p)" using Cons.prems(2) kept_read [of p 0] by blast
  have x: "x = lowered U ic (sp_rn (pt p))" and m: "matchLit U ic sp (buf @ encodeRune (sp_rn (pt p))) ws (read p) = Ret (v, True) q"
    using Cons.prems(1) by (auto simp: Let_def lowered_def split: if_splits)
  have le: "off p \<le> off (read p)" by simp
  show ?case
    using Cons.IH [OF m w] read_advances [OF Cons.prems(2)] x le
    by (cases "sp_rn (pt p) = RuneError") auto
qed simp

locale engine_progress = engine_contract rec for rec :: "'a recFn" +
  fixes U :: unicode_env and K :: "string set" and rank :: "string \<Rightarrow> nat"
  assumes rec_progress:
    "pre_parser p \<Longrightarrow> wf_table U K rank p \<Longrightarrow> consumes U K e \<Longrightarrow> rec e p = Ret (v, True) q \<Longrightarrow> off p < off q"
begin

lemma rec_kept:
  assumes "pre_parser p" "rec e p = Ret (v, ok) q"
  shows "kept (nlow p) p q" and "off p \<le> off q" and "pre_parser q"
  using rec_good [OF assms(1), of e] assms pre_kept by (auto simp: kept_def)

lemma rec_scoped_kept:
  assumes "wf_parser p" "rec e (pushV p) = Ret (v, ok) q"
  shows "kept (vlen p) p (popV q)"
  using rec_good [of "pushV p" e] assms kept_scoped [of p q] by simp

lemma alternatives_progress:
  assumes "wf_parser p" "wf_table U K rank p" "\<forall>e\<in>set es. consumes U K e"
    and "parseAlternatives rec es p = Ret (v, True) q"
  shows "off p < off q"
  using assms
proof (induction es arbitrary: p)
  case (Cons e es)
  obtain v1 ok q1 where r: "rec e (pushV p) = Ret (v1, ok) q1"
    using Cons.prems(4) by (cases "rec e (pushV p)") auto
  have k: "kept (vlen p) p (popV q1)" by (rule rec_scoped_kept [OF Cons.prems(1) r])
  show ?case
  proof (cases ok)
    case True
    with r Cons.prems rec_progress [of "pushV p" e v1 q1] show ?thesis by (auto simp: Let_def)
  next
    case False
    have "off (popV q1) < off q"
      by (rule Cons.IH) (use Cons.prems r False k in \<open>auto simp: wf_table_kept [OF k]\<close>)
    with k show ?thesis by (simp add: kept_def)
  qed
qed simp

lemma seq_progress:
  assumes "pre_parser p" "wf_table U K rank p" "parseSeq rec sp vals es p = Ret (v, True) q"
  shows "off p \<le> off q \<and> ((\<exists>e\<in>set es. consumes U K e) \<longrightarrow> off p < off q)"
  using assms
proof (induction es arbitrary: p vals)
  case (Cons e es)
  obtain v1 q1 where r: "rec e p = Ret (v1, True) q1"
    and s: "parseSeq rec sp (vals @ [v1]) es q1 = Ret (v, True) q"
    using Cons.prems(3) by (cases "rec e p") (auto split: if_splits)
  note k = rec_kept [OF Cons.prems(1) r]
  have "wf_table U K rank q1" using Cons.prems(2) by (simp add: wf_table_kept [OF k(1)])
  from Cons.IH [OF k(3) this s] k(2) rec_progress [OF Cons.prems(1,2) _ r] show ?case by auto
qed simp

lemma many_progress:
  assumes "pre_parser p" "wf_table U K rank p" "consumes U K e" "parseMany rec k e vals p = Ret vs q"
  shows "off p \<le> off q \<and> (vs \<noteq> vals \<longrightarrow> off p < off q)"
  using assms
proof (induction k arbitrary: p vals)
  case (Suc k)
  obtain v1 ok q1 where r: "rec e p = Ret (v1, ok) q1"
    using Suc.prems(4) by (cases "rec e p") auto
  note k = rec_kept [OF Suc.prems(1) r]
  have w: "wf_table U K rank q1" using Suc.prems(2) by (simp add: wf_table_kept [OF k(1)])
  show ?case
  proof (cases ok)
    case True
    with Suc.prems(4) r have "parseMany rec k e (vals @ [v1]) q1 = Ret vs q" by simp
    from Suc.IH [OF k(3) w Suc.prems(3) this] rec_progress [OF Suc.prems(1-3)] r True show ?thesis by fastforce
  qed (use Suc.prems(4) r k(2) in auto)
qed simp

lemma rule_progress:
  assumes "wf_parser p" "wf_table U K rank p" "consumes U K (rule_expr r)" "parseRule rec r p = Ret (v, True) q"
  shows "off p < off q"
proof -
  let ?p = "pushV (p\<lparr>rstack := rstack p @ [r]\<rparr>)"
  have "pre_parser ?p" by (rule pre_pushed [OF assms(1)])
  moreover obtain v1 q1 where "rec (rule_expr r) ?p = Ret (v1, True) q1" "off q = off q1"
    using assms(4) by (cases "rec (rule_expr r) ?p") (auto simp: parseRule_def Let_def)
  ultimately show ?thesis using rec_progress [of ?p "rule_expr r"] assms(2,3) by simp
qed

lemma ruleRef_progress:
  assumes "wf_parser p" "wf_table U K rank p" "name \<in> K" "parseRuleRefExpr rec ps name p = Ret (v, True) q"
  shows "off p < off q"
  using assms rule_progress [of p]
  by (fastforce simp: parseRuleRefExpr_def wf_table_def wf_rule_def split: if_splits option.splits)

lemma action_progress:
  assumes "pre_parser p" "wf_table U K rank p" "consumes U K e" "parseActionExpr rec e run p = Ret (v, True) q"
  shows "off p < off q"
proof -
  obtain v1 q1 where r: "rec e p = Ret (v1, True) q1"
    and a: "bindR (runAction (pt p) run q1) (\<lambda>actVal. Ret (actVal, True)) = Ret (v, True) q"
    using assms(4) by (cases "rec e p") (auto simp: parseActionExpr_def save_def Let_def split: if_splits)
  have "wf_parser q1" using rec_kept(3) [OF assms(1) r] by auto
  from runAction_cases [OF this, where sp = "pt p" and run = run and k = 0] a have "off q = off q1"
    by (auto split: result.splits simp: bindR_def)
  with rec_progress [OF assms(1-3) r] show ?thesis by simp
qed

lemma labeled_progress:
  assumes "pre_parser p" "wf_table U K rank p" "consumes U K e" "parseLabeledExpr rec l e p = Ret (v, True) q"
  shows "off p < off q"
proof -
  have wf: "wf_parser p" using assms(1) by auto
  obtain v1 q1 where "rec e (pushV p) = Ret (v1, True) q1" "off q = off q1"
    using assms(4) by (cases "rec e (pushV p)") (auto simp: parseLabeledExpr_def Let_def split: if_splits option.splits)
  then show ?thesis using rec_progress [of "pushV p" e v1 q1] assms(2,3) wf by simp
qed

lemma dispatch_progress:
  assumes "pre_parser p" "wf_table U K rank p" "consumes U K e" "dispatch U rec k e p = Ret (v, True) q"
  shows "off p < off q"
proof -
  have wf: "wf_parser p" using assms(1) by auto
  have plus: "off p < off q" if "consumes U K e" "parseOneOrMoreExpr rec k e p = Ret (v, True) q" for e
    using that(2) many_progress [OF assms(1,2) that(1), of k "[]"]
    by (cases "parseMany rec k e [] p") (auto simp: parseOneOrMoreExpr_def split: if_splits)
  show ?thesis
    using assms(3,4) class_progress [OF wf] read_advances [OF wf] plus action_progress [OF assms(1,2)]
      labeled_progress [OF assms(1,2)] ruleRef_progress [OF wf assms(2)]
      alternatives_progress [OF wf assms(2)] seq_progress [OF assms(1,2), of "pt p" "[]"]
      matchLit_progress [of U _ "pt p" "[]" _ p, OF _ wf]
    by (cases e) (auto simp: parseAnyMatcher_def Let_def parseChoiceExpr_def parseSeqExpr_def parseLitMatcher_def
        save_def split: if_splits)
qed

end

lemma parseExpr_progress: "engine_progress (parseExpr U n) U K rank"
proof (induction n)
  case 0
  show ?case by unfold_locales simp
next
  case (Suc n)
  then show ?case by unfold_locales (auto dest: engine_progress.dispatch_progress)
qed

interpretation prog: engine_progress "parseExpr U n" U K rank for U n K rank
  by (rule parseExpr_progress)

section \<open>Every call returns\<close>

definition rem :: "'a parser \<Rightarrow> nat" where
  "rem p = length (data p) - off p"

definition may_enter :: "unicode_env \<Rightarrow> string set \<Rightarrow> (string \<Rightarrow> nat) \<Rightarrow> nat \<Rightarrow> nat \<Rightarrow> string list \<Rightarrow> 'a parser \<Rightarrow> bool" where
  "may_enter U K rank m R ns p \<longleftrightarrow> pre_parser p \<and> wf_table U K rank p \<and>
     (rem p < m \<or> rem p \<le> m \<and> (\<forall>n\<in>set ns. rank n < R))"

lemma rem_frame [simp]:
  "rem (pushV p) = rem p" "rem (popV p) = rem p" "rem (p\<lparr>rstack := rs\<rparr>) = rem p"
  by (simp_all add: rem_def)

lemma rem_kept: "kept k p q \<Longrightarrow> rem q \<le> rem p"
  by (auto simp: rem_def kept_def)

lemma rem_advanced: "kept k p q \<Longrightarrow> off p < off q \<Longrightarrow> rem q < rem p"
  using sp_reach_off_le [of "data q" "pt q"] by (auto simp: rem_def kept_def wf_parser_def)

lemma may_enter_subset: "may_enter U K rank m R ns p \<Longrightarrow> set ms \<subseteq> set ns \<Longrightarrow> may_enter U K rank m R ms p"
  by (auto simp: may_enter_def)

lemma may_enter_kept:
  assumes "may_enter U K rank m R ns p" "kept k p q" "set ms \<subseteq> set ns \<or> off p < off q"
  shows "may_enter U K rank m R ms q"
proof -
  have "rem q \<le> rem p" "off p < off q \<Longrightarrow> rem q < rem p" "pre_parser q"
    using rem_kept [OF assms(2)] rem_advanced [OF assms(2)] pre_kept [OF _ assms(2)] assms(1)
    by (auto simp: may_enter_def)
  with assms(1,3) show ?thesis by (auto simp: may_enter_def wf_table_kept [OF assms(2)])
qed

lemma may_enter_pushV: "may_enter U K rank m R ns p \<Longrightarrow> may_enter U K rank m R ns (pushV p)"
  by (auto simp: may_enter_def)

text \<open>The outcome of a call that returns: it no longer depends on the fuel, and keeps the contract.\<close>

lemma returns_cases:
  assumes "returns U e p" "pre_parser p"
  obtains (panic) N x q where "\<And>n. N \<le> n \<Longrightarrow> parseExpr U n e p = Panic x q"
  | (ret) N v ok q where "\<And>n. N \<le> n \<Longrightarrow> parseExpr U n e p = Ret (v, ok) q" "kept (nlow p) p q"
      "\<And>K rank. wf_table U K rank p \<Longrightarrow> consumes U K e \<Longrightarrow> ok \<Longrightarrow> off p < off q"
proof -
  from returns_stable [OF assms(1)] obtain N
    where st: "\<And>n. N \<le> n \<Longrightarrow> parseExpr U n e p = parseExpr U N e p" and nz: "parseExpr U N e p \<noteq> OutOfFuel"
    by blast
  show ?thesis
  proof (cases "parseExpr U N e p")
    case (Ret r q)
    obtain v ok where r: "r = (v, ok)" by (cases r)
    have "kept (nlow p) p q" using eng.rec_good [OF assms(2), of U N e] Ret r by simp
    moreover have "off p < off q" if "wf_table U K rank p" "consumes U K e" ok for K rank
      using prog.rec_progress [OF assms(2) that(1,2), of N v q] Ret r that(3) by simp
    ultimately show ?thesis using ret [of N v ok q] st Ret r by auto
  next
    case (Panic x q)
    with st panic [of N x q] show ?thesis by auto
  qed (use nz in simp)
qed

lemma panic_seq_returns: "(\<And>n. N \<le> n \<Longrightarrow> parseExpr U n e p = Panic x q) \<Longrightarrow> returns U (seqExpr ps (e # es)) p"
  by (intro returnsI [of U N]) (simp add: parseSeqExpr_def)

lemma wf_seq_returns:
  assumes "may_enter U K rank m R (lefts U K es) p"
    and "\<And>e p. e \<in> set es \<Longrightarrow> may_enter U K rank m R (left U K e) p \<Longrightarrow> returns U e p"
  shows "returns U (seqExpr ps es) p"
  using assms
proof (induction es arbitrary: p)
  case (Cons e es)
  have pre: "pre_parser p" and tab: "wf_table U K rank p" using Cons.prems(1) by (auto simp: may_enter_def)
  have "may_enter U K rank m R (left U K e) p" using Cons.prems(1) by (rule may_enter_subset) simp
  then have e: "returns U e p" by (rule Cons.prems(2) [rotated]) simp
  show ?case
  proof (cases rule: returns_cases [OF e pre, case_names panic ret])
    case (panic N x q)
    then show ?thesis by (rule panic_seq_returns)
  next
    case (ret N v ok q)
    have rest: "returns U (seqExpr ps es) q" if ok
    proof (rule Cons.IH)
      show "may_enter U K rank m R (lefts U K es) q"
        by (rule may_enter_kept [OF Cons.prems(1) ret(2)]) (use ret(3) [OF tab] that in auto)
    qed (use Cons.prems(2) in auto)
    show ?thesis
    proof (cases ok)
      case True
      then show ?thesis using seq_returns [of N U e p v q] ret(1) rest by simp
    next
      case False
      then show ?thesis using seq_fails [of N U e p v q] ret(1) by simp
    qed
  qed
qed (rule leaf_returns)

lemma wf_choice_returns:
  assumes "may_enter U K rank m R (concat (map (left U K) es)) p"
    and "\<And>e p. e \<in> set es \<Longrightarrow> may_enter U K rank m R (left U K e) p \<Longrightarrow> returns U e p"
  shows "returns U (choiceExpr ps es) p"
  using assms
proof (induction es arbitrary: p)
  case (Cons e es)
  have wf: "wf_parser p" using Cons.prems(1) by (auto simp: may_enter_def)
  have "may_enter U K rank m R (left U K e) (pushV p)"
    using may_enter_pushV [OF Cons.prems(1)] by (rule may_enter_subset) simp
  then have e: "returns U e (pushV p)" by (rule Cons.prems(2) [rotated]) simp
  show ?case
  proof (cases rule: returns_cases [OF e pre_pushV [OF wf], case_names panic ret])
    case (panic N x q)
    then show ?thesis by (intro returnsI [of U N]) (simp add: parseChoiceExpr_def)
  next
    case (ret N v ok q)
    have k: "kept (vlen p) p (popV q)" using kept_scoped [OF wf] ret(2) by simp
    show ?thesis
    proof (cases ok)
      case True
      then show ?thesis using ret(1) [of N] by (intro returnsI [of U N]) (simp add: parseChoiceExpr_def Let_def)
    next
      case False
      have "returns U (choiceExpr ps es) (popV q)"
        by (rule Cons.IH) (use may_enter_kept [OF Cons.prems(1) k] Cons.prems(2) in auto)
      then show ?thesis using alternatives_returns [of N U e p v q] ret(1) False by simp
    qed
  qed
qed (rule leaf_returns)

lemma wf_many_returns:
  assumes "may_enter U K rank m R (left U K e) p" "consumes U K e"
    and "\<And>p. may_enter U K rank m R (left U K e) p \<Longrightarrow> returns U e p"
  shows "\<exists>n. parseMany (parseExpr U n) n e [] p \<noteq> OutOfFuel"
  using assms(1)
proof (induction "rem p" arbitrary: p rule: less_induct)
  case less
  have pre: "pre_parser p" and tab: "wf_table U K rank p" using less.prems by (auto simp: may_enter_def)
  show ?case
  proof (cases rule: returns_cases [OF assms(3) [OF less.prems] pre, case_names panic ret])
    case (panic N x q)
    then show ?thesis by (intro exI [of _ "Suc N"]) (simp del: parseExpr.simps(2))
  next
    case (ret N v ok q)
    show ?thesis
    proof (cases ok)
      case True
      have "\<exists>n. parseMany (parseExpr U n) n e [] q \<noteq> OutOfFuel"
      proof (rule less.hyps)
        show "rem q < rem p" by (rule rem_advanced [OF ret(2) ret(3) [OF tab assms(2) True]])
        show "may_enter U K rank m R (left U K e) q" by (rule may_enter_kept [OF less.prems ret(2)]) simp
      qed
      then have "returns U (zeroOrMoreExpr undefined e) q" using repeat_returns(1) by blast
      then show ?thesis using many_returns [of N U e p v q] ret(1) True by metis
    next
      case False
      then have "parseMany (parseExpr U (Suc N)) (Suc N) e [] p \<noteq> OutOfFuel" using many_stops [of N U e p v q] ret(1) by simp
      then show ?thesis by blast
    qed
  qed
qed

lemma code_returns:
  assumes "pre_parser p"
  shows "returns U (andCodeExpr ps cd) p" "returns U (notCodeExpr ps cd) p"
proof -
  have "runPred cd p \<noteq> OutOfFuel"
    using runPred_cases [OF pre_wf [OF assms], where run = cd and k = 0] by auto
  then show "returns U (andCodeExpr ps cd) p" "returns U (notCodeExpr ps cd) p"
    by (auto intro!: returnsI [of U 0] simp: parseAndCodeExpr_def parseNotCodeExpr_def bindR_def split: result.splits)
qed

lemma other_returns: "returns U (otherExpr ty) p"
  by (intro returnsI [of U 0]) simp

lemma rule_returns:
  assumes "returns U (rule_expr r) (pushV (p\<lparr>rstack := rstack p @ [r]\<rparr>))"
  obtains N where "parseRule (parseExpr U N) r p \<noteq> OutOfFuel"
proof -
  obtain N where "parseExpr U N (rule_expr r) (pushV (p\<lparr>rstack := rstack p @ [r]\<rparr>)) \<noteq> OutOfFuel"
    using assms by (auto simp: returns_def)
  then have "parseRule (parseExpr U N) r p \<noteq> OutOfFuel"
    by (auto simp: parseRule_def Let_def bindR_def split: result.split)
  then show ?thesis by (rule that)
qed

lemma finite_rank_bound: "\<exists>R. \<forall>n\<in>set ns. rank n < (R :: nat)"
  by (rule exI [of _ "Suc (sum_list (map rank ns))"]) (auto simp: less_Suc_eq_le member_le_sum_list)

lemma wf_returns:
  assumes "may_enter U K rank m R (left U K e) p" "star_ok U K e"
  shows "returns U e p"
  using assms
proof (induction m arbitrary: R e p rule: less_induct)
  case (less m)
  note earlier = less.IH
  from less.prems show ?case
  proof (induction R arbitrary: e p rule: less_induct)
    case (less R)
    note below = less.IH
    from less.prems show ?case
    proof (induction e arbitrary: p)
      case (ruleRefExpr ps n)
      then have pre: "pre_parser p" and tab: "wf_table U K rank p" by (auto simp: may_enter_def)
      show ?case
      proof (cases "n \<noteq> [] \<and> (\<exists>r. map_of (rules p) n = Some r)")
        case True
        then obtain r where r: "map_of (rules p) n = Some r" by blast
        let ?p = "pushV (p\<lparr>rstack := rstack p @ [r]\<rparr>)"
        have w: "wf_rule U K rank r" "rule_name r = n" using tab r by (auto simp: wf_table_def)
        have p: "pre_parser ?p" by (rule pre_pushed) (rule pre_wf [OF pre])
        obtain R' where R': "\<forall>x\<in>set (left U K (rule_expr r)). rank x < R'" using finite_rank_bound [of _ rank] by metis
        have "returns U (rule_expr r) ?p"
        proof (cases "rem p < m")
          case True
          show ?thesis by (rule earlier [OF True, where R = R'])
              (use w R' p tab in \<open>auto simp: may_enter_def wf_rule_def\<close>)
        next
          case False
          with ruleRefExpr.prems(1) have "rank n < R" "rem p \<le> m" by (auto simp: may_enter_def)
          then show ?thesis
            by (intro below [of "rank n"]) (use w p tab in \<open>auto simp: may_enter_def wf_rule_def\<close>)
        qed
        then obtain N where "parseRule (parseExpr U N) r p \<noteq> OutOfFuel" by (rule rule_returns)
        then show ?thesis using True r by (intro returnsI [of U N]) (simp add: parseRuleRefExpr_def)
      qed (intro returnsI [of U 0], auto simp: parseRuleRefExpr_def split: option.split)
    next
      case (choiceExpr ps es)
      then show ?case by (intro wf_choice_returns [where R = R and m = m]) auto
    next
      case (seqExpr ps es)
      then show ?case by (intro wf_seq_returns [where R = R and m = m]) auto
    next
      case (oneOrMoreExpr ps e)
      then have "\<exists>n. parseMany (parseExpr U n) n e [] p \<noteq> OutOfFuel"
        by (intro wf_many_returns [where R = R and m = m]) auto
      then show ?case using repeat_returns by blast
    next
      case (zeroOrMoreExpr ps e)
      then have "\<exists>n. parseMany (parseExpr U n) n e [] p \<noteq> OutOfFuel"
        by (intro wf_many_returns [where R = R and m = m]) auto
      then show ?case using repeat_returns by blast
    next
      case (labeledExpr ps l e)
      then show ?case by (intro labeled_returns) (simp add: may_enter_pushV)
    qed (auto simp: may_enter_def intro: leaf_returns wrapper_returns code_returns other_returns)
  qed
qed

section \<open>Well-formed grammars\<close>

lemma started_table:
  assumes "wf_grammar U K rank g"
  shows "wf_table U K rank (started g f b)"
  unfolding wf_table_def started_rules
  using assms by (auto simp: wf_grammar_def table_of_def dest!: map_of_SomeD)

lemma wf_grammar_stops:
  assumes "wf_grammar U K rank g" "grammar_rules g \<noteq> []"
  obtains n where "parseRule (parseExpr U n) (hd (grammar_rules g)) (started g f b) \<noteq> OutOfFuel"
proof -
  let ?r = "hd (grammar_rules g)" and ?s = "started g f b"
  let ?p = "pushV (?s\<lparr>rstack := rstack ?s @ [?r]\<rparr>)"
  obtain R where "\<forall>n\<in>set (left U K (rule_expr ?r)). rank n < R" using finite_rank_bound [of _ rank] by metis
  then have "may_enter U K rank (rem ?p) R (left U K (rule_expr ?r)) ?p"
    using started_table [OF assms(1), of f b] pre_pushed [OF started_wf] by (simp add: may_enter_def)
  then have "returns U (rule_expr ?r) ?p"
    by (rule wf_returns) (use assms in \<open>simp add: wf_grammar_def wf_rule_def\<close>)
  then obtain N where "parseRule (parseExpr U N) ?r ?s \<noteq> OutOfFuel" by (rule rule_returns)
  then show ?thesis by (rule that)
qed

section \<open>Evaluating the criterion\<close>

definition rank_of :: "(string \<times> nat) list \<Rightarrow> string \<Rightarrow> nat" where
  "rank_of t n = (case map_of t n of None \<Rightarrow> 0 | Some k \<Rightarrow> k)"

lemma runes_of_ascii: "(of_char c :: int) < 128 \<Longrightarrow> runes_of (c # s) = of_char c # runes_of s"
  by (subst runes_of.simps) simp

lemma lit_consumes:
  "(of_char c :: int) < 128 \<Longrightarrow> consumes U K (litMatcher ps (c # s) False)"
  by (simp add: runes_of_ascii lowered_def)

lemma arrow_consumes:
  "consumes U K (litMatcher ps [CHR 0xE2, CHR 0x86, CHR 0x90] False)"
  "consumes U K (litMatcher ps [CHR 0xE2, CHR 0x9F, CHR 0xB5] False)"
  by code_simp+

lemmas class_wf_simps = lit_consumes arrow_consumes classAccepts_def matchClass_def

declare consumes.simps(6) [simp del]

end
