(* ===== verification/Peg_Texts.thy ===== *)
theory Peg_Texts
  imports Peg_WellFormed
begin

text \<open>
  The texts an expression can match, as far as its own matchers determine them (a reference to a rule may
  match any text), and the proof that the engine consumes only such a text when it reports a match.
\<close>

fun texts :: "unicode_env \<Rightarrow> 'a expr \<Rightarrow> gobytes set" where
  "texts U (actionExpr _ e _) = texts U e"
| "texts U (andCodeExpr _ _) = {[]}"
| "texts U (andExpr _ _) = {[]}"
| "texts U (anyMatcher _) = range encodeRune"
| "texts U (charClassMatcher chr) =
     (if classAccepts U chr RuneError then UNIV else {encodeRune r |r. classAccepts U chr r})"
| "texts U (choiceExpr _ es) = (\<Union>e\<in>set es. texts U e)"
| "texts U (labeledExpr _ _ e) = texts U e"
| "texts U (litMatcher _ val ic) =
     (if ic \<or> RuneError \<in> set (runes_of val) then UNIV else {string_of_runes (runes_of val)})"
| "texts U (notCodeExpr _ _) = {[]}"
| "texts U (notExpr _ _) = {[]}"
| "texts U (oneOrMoreExpr _ e) = {concat ts |ts. ts \<noteq> [] \<and> set ts \<subseteq> texts U e}"
| "texts U (ruleRefExpr _ _) = UNIV"
| "texts U (seqExpr _ es) = {concat ts |ts. list_all2 (\<in>) ts (map (texts U) es)}"
| "texts U (zeroOrMoreExpr _ e) = {concat ts |ts. set ts \<subseteq> texts U e}"
| "texts U (zeroOrOneExpr _ e) = insert [] (texts U e)"
| "texts U (otherExpr _) = {}"

definition span :: "'a parser \<Rightarrow> 'a parser \<Rightarrow> gobytes" where
  "span p q = take (off q - off p) (drop (off p) (data p))"

lemma span_frame [simp]:
  "span (pushV p) q = span p q" "span p (popV q) = span p q" "span (p\<lparr>rstack := rs\<rparr>) q = span p q"
  "span p (q\<lparr>rstack := rs\<rparr>) = span p q" "span p (q\<lparr>vslots := vs\<rparr>) = span p q"
  by (simp_all add: span_def)

lemma span_same: "off q = off p \<Longrightarrow> span p q = []"
  by (simp add: span_def)

lemma span_split:
  assumes "off p \<le> off q" "off q \<le> off r" "data q = data p"
  shows "span p r = span p q @ span q r"
proof -
  have e: "off r - off p = (off q - off p) + (off r - off q)" using assms by simp
  show ?thesis unfolding span_def e take_add using assms by simp
qed

lemma span_trans: "kept i p q \<Longrightarrow> kept j q r \<Longrightarrow> span p r = span p q @ span q r"
  by (rule span_split) (auto simp: kept_def)

lemma span_cong: "off q = off p \<Longrightarrow> data q = data p \<Longrightarrow> span q r = span p r"
  by (simp add: span_def)

lemma span_read:
  assumes "wf_parser p" "sp_rn (pt p) \<noteq> RuneError"
  shows "span p (read p) = encodeRune (sp_rn (pt p))"
  using wf_text_step [OF assms] by (simp add: span_def)

lemma class_texts:
  assumes "wf_parser p" "parseCharClassMatcher U chr p = Ret (v, True) q"
  shows "span p q \<in> texts U (charClassMatcher chr)"
proof (cases "classAccepts U chr RuneError")
  case False
  have "classAccepts U chr (sp_rn (pt p))" "q = read p"
    using assms(2) by (auto simp: parseCharClassMatcher_def classAccepts_def Let_def split: classHit.splits if_splits)
  moreover from this False have "sp_rn (pt p) \<noteq> RuneError" by auto
  ultimately show ?thesis using span_read [OF assms(1)] False by auto
qed simp

lemma any_texts: "wf_parser p \<Longrightarrow> parseAnyMatcher p = Ret (v, True) q \<Longrightarrow> span p q \<in> range encodeRune"
  using span_read [of p] by (auto simp: parseAnyMatcher_def Let_def split: if_splits)

lemma matchLit_texts:
  assumes "matchLit U False sp buf ws p = Ret (v, True) q" "wf_parser p" "RuneError \<notin> set ws"
  shows "span p q = string_of_runes ws"
  using assms
proof (induction ws arbitrary: buf p)
  case Nil
  then show ?case by (simp add: span_def string_of_runes_def)
next
  case (Cons x ws)
  have k: "kept 0 p (read p)" using Cons.prems(2) by simp
  have x: "sp_rn (pt p) = x" and m: "matchLit U False sp (buf @ encodeRune (sp_rn (pt p))) ws (read p) = Ret (v, True) q"
    using Cons.prems(1) by (auto simp: Let_def split: if_splits)
  have "span (read p) q = string_of_runes ws" using Cons.IH [OF m] Cons.prems(3) k by auto
  moreover have "span p q = span p (read p) @ span (read p) q"
    by (rule span_split) (use matchLit_progress [OF m kept_wf [OF k]] in simp_all)
  ultimately show ?case
    using span_read [OF Cons.prems(2)] x Cons.prems(3) by (simp add: string_of_runes_def)
qed

locale engine_texts = engine_contract rec for rec :: "'a recFn" +
  fixes U :: unicode_env
  assumes rec_texts: "pre_parser p \<Longrightarrow> rec e p = Ret (v, True) q \<Longrightarrow> span p q \<in> texts U e"
begin

lemma rec_kept:
  assumes "pre_parser p" "rec e p = Ret (v, ok) q"
  shows "kept (nlow p) p q" and "pre_parser q"
  using rec_good [OF assms(1), of e] assms pre_kept by auto

lemma alternatives_texts:
  assumes "wf_parser p" "parseAlternatives rec es p = Ret (v, True) q"
  shows "span p q \<in> (\<Union>e\<in>set es. texts U e)"
  using assms
proof (induction es arbitrary: p)
  case (Cons e es)
  obtain v1 ok q1 where r: "rec e (pushV p) = Ret (v1, ok) q1"
    using Cons.prems(2) by (cases "rec e (pushV p)") auto
  have k: "kept (vlen p) p (popV q1)" "\<not> ok \<longrightarrow> off q1 = off p"
    using rec_good [of "pushV p" e] Cons.prems(1) r kept_scoped [of p q1] by auto
  show ?case
  proof (cases ok)
    case True
    with r Cons.prems rec_texts [of "pushV p" e v1 q1] show ?thesis by (auto simp: Let_def)
  next
    case False
    have "span (popV q1) q \<in> (\<Union>e\<in>set es. texts U e)"
      by (rule Cons.IH) (use Cons.prems r False k in auto)
    moreover have "span (popV q1) q = span p q" by (rule span_cong) (use k False in \<open>auto simp: kept_def\<close>)
    ultimately show ?thesis by auto
  qed
qed simp

lemma seq_texts:
  assumes "pre_parser p" "parseSeq rec sp vs es p = Ret (v, True) q"
  shows "kept (nlow p) p q \<and> (\<exists>ts. span p q = concat ts \<and> list_all2 (\<in>) ts (map (texts U) es))"
  using assms
proof (induction es arbitrary: p vs)
  case Nil
  then show ?case by (auto simp: span_same)
next
  case (Cons e es)
  obtain v1 q1 where r: "rec e p = Ret (v1, True) q1" and s: "parseSeq rec sp (vs @ [v1]) es q1 = Ret (v, True) q"
    using Cons.prems(2) by (cases "rec e p") (auto split: if_splits)
  note k = rec_kept [OF Cons.prems(1) r]
  obtain ts where ts: "kept (nlow q1) q1 q" "span q1 q = concat ts" "list_all2 (\<in>) ts (map (texts U) es)"
    using Cons.IH [OF k(2) s] by blast
  have "span p q = concat (span p q1 # ts)" using span_trans [OF k(1) ts(1)] ts(2) by simp
  moreover have "list_all2 (\<in>) (span p q1 # ts) (map (texts U) (e # es))"
    using ts(3) rec_texts [OF Cons.prems(1) r] by simp
  moreover have "kept (nlow p) p q" using kept_trans k(1) ts(1) nlow_kept [OF k(1)] by metis
  ultimately show ?case by blast
qed

lemma many_texts:
  assumes "pre_parser p" "parseMany rec k e vs p = Ret vs' q"
  shows "kept (nlow p) p q \<and> (\<exists>ts. span p q = concat ts \<and> set ts \<subseteq> texts U e \<and> length vs' = length vs + length ts)"
  using assms
proof (induction k arbitrary: p vs)
  case (Suc k)
  obtain v1 ok q1 where r: "rec e p = Ret (v1, ok) q1" using Suc.prems(2) by (cases "rec e p") auto
  note k = rec_kept [OF Suc.prems(1) r]
  show ?case
  proof (cases ok)
    case True
    then have "parseMany rec k e (vs @ [v1]) q1 = Ret vs' q" using Suc.prems(2) r by simp
    from Suc.IH [OF k(2) this] obtain ts
      where ts: "kept (nlow q1) q1 q" "span q1 q = concat ts" "set ts \<subseteq> texts U e" "length vs' = Suc (length vs) + length ts"
      by auto
    have "span p q = concat (span p q1 # ts)" using span_trans [OF k(1) ts(1)] ts(2) by simp
    moreover have "set (span p q1 # ts) \<subseteq> texts U e" using ts(3) rec_texts [OF Suc.prems(1)] r True by simp
    moreover have "kept (nlow p) p q" using kept_trans k(1) ts(1) nlow_kept [OF k(1)] by metis
    moreover have "length vs' = length vs + length (span p q1 # ts)" using ts(4) by simp
    ultimately show ?thesis by blast
  next
    case False
    have "off q1 = off p" using rec_good [OF Suc.prems(1), of e] r False by simp
    with False Suc.prems(2) r k(1) show ?thesis by (auto simp: span_same intro: exI [of _ "[]"])
  qed
qed simp

lemma repeat_texts:
  assumes "pre_parser p"
  shows "parseZeroOrMoreExpr rec k e p = Ret (v, True) q \<Longrightarrow> span p q \<in> texts U (zeroOrMoreExpr ps e)"
    and "parseOneOrMoreExpr rec k e p = Ret (v, True) q \<Longrightarrow> span p q \<in> texts U (oneOrMoreExpr ps e)"
  using many_texts [OF assms, of k e "[]"]
  by (cases "parseMany rec k e [] p"; fastforce simp: parseZeroOrMoreExpr_def parseOneOrMoreExpr_def split: if_splits)+

lemma ruleless_texts:
  assumes "pre_parser p"
  shows "parseActionExpr rec e run p = Ret (v, True) q \<Longrightarrow> span p q \<in> texts U e"
    and "parseLabeledExpr rec l e p = Ret (v, True) q \<Longrightarrow> span p q \<in> texts U e"
    and "parseZeroOrOneExpr rec e p = Ret (v, True) q \<Longrightarrow> span p q \<in> insert [] (texts U e)"
    and "parseAndExpr rec e p = Ret (v, True) q \<Longrightarrow> span p q = []"
    and "parseNotExpr rec e p = Ret (v, True) q \<Longrightarrow> span p q = []"
proof -
  assume a: "parseActionExpr rec e run p = Ret (v, True) q"
  obtain v1 q1 where r: "rec e p = Ret (v1, True) q1"
    and b: "bindR (runAction (pt p) run q1) (\<lambda>actVal. Ret (actVal, True)) = Ret (v, True) q"
    using a by (cases "rec e p") (auto simp: parseActionExpr_def save_def Let_def split: if_splits)
  have "wf_parser q1" using rec_kept(2) [OF assms r] by auto
  from runAction_cases [OF this, where sp = "pt p" and run = run and k = 0] b have "off q = off q1"
    by (auto split: result.splits simp: bindR_def)
  with rec_texts [OF assms r] show "span p q \<in> texts U e" by (simp add: span_def)
next
  assume a: "parseLabeledExpr rec l e p = Ret (v, True) q"
  obtain v1 q1 where "rec e (pushV p) = Ret (v1, True) q1" "off q = off q1"
    using a by (cases "rec e (pushV p)") (auto simp: parseLabeledExpr_def Let_def split: if_splits option.splits)
  then show "span p q \<in> texts U e" using rec_texts [of "pushV p" e v1 q1] assms by (auto simp: span_def)
next
  assume a: "parseZeroOrOneExpr rec e p = Ret (v, True) q"
  then obtain b where b: "rec e p = Ret (v, b) q" by (cases "rec e p") (auto simp: parseZeroOrOneExpr_def)
  with rec_good [OF assms, of e] rec_texts [OF assms] show "span p q \<in> insert [] (texts U e)"
    by (cases b) (auto simp: span_same)
next
  assume "parseAndExpr rec e p = Ret (v, True) q"
  then show "span p q = []" by (cases "rec e p") (auto simp: parseAndExpr_def Let_def save_def span_same)
next
  assume "parseNotExpr rec e p = Ret (v, True) q"
  then show "span p q = []" by (cases "rec e p") (auto simp: parseNotExpr_def Let_def save_def span_same)
qed

lemma dispatch_texts:
  assumes "pre_parser p" "dispatch U rec k e p = Ret (v, True) q"
  shows "span p q \<in> texts U e"
proof -
  have wf: "wf_parser p" using assms(1) by auto
  have code: "parseAndCodeExpr cd p = Ret (v, True) q \<Longrightarrow> span p q = []"
    "parseNotCodeExpr cd p = Ret (v, True) q \<Longrightarrow> span p q = []" for cd
    using runPred_cases [OF wf, where run = cd and k = 0]
    by (cases "runPred cd p"; auto simp: parseAndCodeExpr_def parseNotCodeExpr_def span_same)+
  have lit: "span p q \<in> texts U (litMatcher ps val ic)" if "parseLitMatcher U val ic p = Ret (v, True) q" for ps val ic
    using that matchLit_texts [of U "save p" "[]" "runes_of val" p v q] wf by (auto simp: parseLitMatcher_def)
  have seq: "span p q \<in> texts U (seqExpr ps es)" if "parseSeqExpr rec es p = Ret (v, True) q" for ps es
    using that seq_texts [OF assms(1), of "save p" "[]" es v q] by (auto simp: parseSeqExpr_def)
  show ?thesis
    using assms(2) class_texts [OF wf] any_texts [OF wf] code lit seq repeat_texts [OF assms(1)]
      ruleless_texts [OF assms(1)] alternatives_texts [OF wf]
    by (cases e) (simp_all add: parseChoiceExpr_def)
qed

end

lemma parseExpr_texts: "engine_texts (parseExpr U n) U"
proof (induction n)
  case 0
  show ?case by unfold_locales simp
next
  case (Suc n)
  then show ?case by unfold_locales (simp add: engine_texts.dispatch_texts)
qed

interpretation txts: engine_texts "parseExpr U n" U for U n
  by (rule parseExpr_texts)

end
