(* ===== verification/Peg_Typing.thy ===== *)
theory Peg_Typing
  imports Peg_Texts
begin

text \<open>
  The dynamic types of the values a generated parser hands to its code blocks. \<open>vals\<close> computes, from the
  values assumed of each rule, the values an expression may give; \<open>labs\<close> the labels that a match
  has bound in the frame of the code block that sees them; \<open>safe\<close> that the code blocks, called with such labels on a
  text of the input, panic only in the ways allowed. Both are sound for the engine: a table of rules that keeps its
  assumptions only panics in those ways.
\<close>

section \<open>Values, labels and panics\<close>

definition bound :: "(string \<times> 'a goval set) list \<Rightarrow> 'a vmap \<Rightarrow> bool" where
  "bound B m \<longleftrightarrow> list_all (\<lambda>(l, S). \<exists>v\<in>S. map_of m l = Some v) B"

definition calls :: "gobytes set \<Rightarrow> (string \<times> 'a goval set) list \<Rightarrow> (current \<Rightarrow> 'a vmap \<Rightarrow> 'r codeResult) \<Rightarrow> 'r codeResult set" where
  "calls X B run = {run c m |c m. cur_text c \<in> X \<and> bound B m}"

definition seen :: "unicode_env \<Rightarrow> gobytes \<Rightarrow> 'a expr \<Rightarrow> gobytes set" where
  "seen U d e = {t \<in> texts U e. sublist t d}"

fun binds :: "'a expr \<Rightarrow> string set" where
  "binds (actionExpr _ e _) = binds e"
| "binds (andExpr _ e) = binds e"
| "binds (labeledExpr _ l _) = {l}"
| "binds (notExpr _ e) = binds e"
| "binds (oneOrMoreExpr _ e) = binds e"
| "binds (seqExpr _ es) = (\<Union>e\<in>set es. binds e)"
| "binds (zeroOrMoreExpr _ e) = binds e"
| "binds (zeroOrOneExpr _ e) = binds e"
| "binds _ = {}"

fun vals :: "unicode_env \<Rightarrow> (string \<Rightarrow> 'a goval set) \<Rightarrow> gobytes \<Rightarrow> 'a expr \<Rightarrow> 'a goval set"
and labs :: "unicode_env \<Rightarrow> (string \<Rightarrow> 'a goval set) \<Rightarrow> gobytes \<Rightarrow> 'a expr \<Rightarrow> (string \<times> 'a goval set) list"
where
  "vals U T d (actionExpr _ e run) = {v. \<exists>c err. CodeReturns c v err \<in> calls (seen U d e) (labs U T d e) run}"
| "vals U T d (andCodeExpr _ _) = {VNil}"
| "vals U T d (andExpr _ _) = {VNil}"
| "vals U T d (anyMatcher _) = range VString"
| "vals U T d (charClassMatcher _) = range VString"
| "vals U T d (choiceExpr _ es) = (\<Union>e\<in>set es. vals U T d e)"
| "vals U T d (labeledExpr _ _ e) = vals U T d e"
| "vals U T d (litMatcher _ _ _) = range VString"
| "vals U T d (notCodeExpr _ _) = {VNil}"
| "vals U T d (notExpr _ _) = {VNil}"
| "vals U T d (oneOrMoreExpr _ e) = {VSlice vs |vs. vs \<noteq> [] \<and> set vs \<subseteq> vals U T d e}"
| "vals U T d (ruleRefExpr _ name) = T name"
| "vals U T d (seqExpr _ es) = {VSlice vs |vs. list_all2 (\<in>) vs (map (vals U T d) es)}"
| "vals U T d (zeroOrMoreExpr _ e) = {VSlice vs |vs. set vs \<subseteq> vals U T d e}"
| "vals U T d (zeroOrOneExpr _ e) = insert VNil (vals U T d e)"
| "vals U T d (otherExpr _) = {}"
| "labs U T d (actionExpr _ e _) = labs U T d e"
| "labs U T d (labeledExpr _ l e) = [(l, vals U T d e)]"
| "labs U T d (seqExpr _ es) = concat (map (labs U T d) es)"
| "labs U T d _ = []"

fun apart :: "unicode_env \<Rightarrow> (string \<Rightarrow> 'a goval set) \<Rightarrow> gobytes \<Rightarrow> 'a expr list \<Rightarrow> bool" where
  "apart U T d [] \<longleftrightarrow> True"
| "apart U T d (e # es) \<longleftrightarrow> (\<forall>e'\<in>set es. fst ` set (labs U T d e) \<inter> binds e' = {}) \<and> apart U T d es"

fun safe :: "unicode_env \<Rightarrow> (panicval \<Rightarrow> bool) \<Rightarrow> (string \<Rightarrow> 'a goval set) \<Rightarrow> gobytes \<Rightarrow> 'a expr \<Rightarrow> bool" where
  "safe U A T d (actionExpr _ e run) \<longleftrightarrow> safe U A T d e \<and> (\<forall>c x. CodePanics c x \<in> calls (seen U d e) (labs U T d e) run \<longrightarrow> A x)"
| "safe U A T d (andCodeExpr _ cd) \<longleftrightarrow> (\<forall>c m c' x. cd c m = CodePanics c' x \<longrightarrow> A x)"
| "safe U A T d (andExpr _ e) \<longleftrightarrow> safe U A T d e"
| "safe U A T d (anyMatcher _) \<longleftrightarrow> True"
| "safe U A T d (charClassMatcher chr) \<longleftrightarrow> even (length (ranges chr))"
| "safe U A T d (choiceExpr _ es) \<longleftrightarrow> (\<forall>e\<in>set es. safe U A T d e)"
| "safe U A T d (labeledExpr _ l e) \<longleftrightarrow> l \<noteq> [] \<and> safe U A T d e"
| "safe U A T d (litMatcher _ _ _) \<longleftrightarrow> True"
| "safe U A T d (notCodeExpr _ cd) \<longleftrightarrow> (\<forall>c m c' x. cd c m = CodePanics c' x \<longrightarrow> A x)"
| "safe U A T d (notExpr _ e) \<longleftrightarrow> safe U A T d e"
| "safe U A T d (oneOrMoreExpr _ e) \<longleftrightarrow> safe U A T d e"
| "safe U A T d (ruleRefExpr _ name) \<longleftrightarrow> name \<noteq> []"
| "safe U A T d (seqExpr _ es) \<longleftrightarrow> (\<forall>e\<in>set es. safe U A T d e) \<and> apart U T d es"
| "safe U A T d (zeroOrMoreExpr _ e) \<longleftrightarrow> safe U A T d e"
| "safe U A T d (zeroOrOneExpr _ e) \<longleftrightarrow> safe U A T d e"
| "safe U A T d (otherExpr _) \<longleftrightarrow> False"

definition typed_rule :: "unicode_env \<Rightarrow> (panicval \<Rightarrow> bool) \<Rightarrow> (string \<Rightarrow> 'a goval set) \<Rightarrow> gobytes \<Rightarrow> 'a rule \<Rightarrow> bool" where
  "typed_rule U A T d r \<longleftrightarrow> safe U A T d (rule_expr r) \<and> vals U T d (rule_expr r) \<subseteq> T (rule_name r)"

section \<open>The frame of the code block\<close>

definition topFrame :: "'a parser \<Rightarrow> 'a vmap" where
  "topFrame p = (case vslots p ! (vlen p - 1) of None \<Rightarrow> [] | Some m \<Rightarrow> m)"

lemma topV_top: "0 < vlen p \<Longrightarrow> topV p = Some (topFrame p)"
  by (simp add: topV_def topFrame_def split: option.split)

lemma top_frame [simp]:
  "topFrame (read p) = topFrame p" "topFrame (restore sp p) = topFrame p" "topFrame (p\<lparr>cur := c\<rparr>) = topFrame p"
  "topFrame (addErrAt e ps p) = topFrame p" "topFrame (addErr e p) = topFrame p" "topFrame (p\<lparr>rstack := rs\<rparr>) = topFrame p"
  by (simp_all add: topFrame_def addErr_def)

lemma top_kept: "kept (vlen p) p q \<Longrightarrow> 0 < vlen p \<Longrightarrow> topFrame q = topFrame p"
  by (simp add: topFrame_def kept_def)

lemma topFrame_slot: "wf_v p \<Longrightarrow> 0 < vlen p \<Longrightarrow> vslots p ! (vlen p - 1) = Some (topFrame p)"
  by (auto simp: wf_v_def topFrame_def split: option.split)

lemma bound_append: "bound (A @ B) m \<longleftrightarrow> bound A m \<and> bound B m"
  by (simp add: bound_def)

lemma bound_Cons: "bound ((l, S) # B) m \<longleftrightarrow> (\<exists>v\<in>S. map_of m l = Some v) \<and> bound B m"
  by (simp add: bound_def)

lemma bound_Nil [simp]: "bound [] m"
  by (simp add: bound_def)

lemma bound_cong: "bound B m \<Longrightarrow> (\<And>l. l \<in> fst ` set B \<Longrightarrow> map_of m' l = map_of m l) \<Longrightarrow> bound B m'"
  by (induction B) (auto simp: bound_Cons)

definition typed_table :: "unicode_env \<Rightarrow> (panicval \<Rightarrow> bool) \<Rightarrow> (string \<Rightarrow> 'a goval set) \<Rightarrow> gobytes \<Rightarrow> 'a parser \<Rightarrow> bool" where
  "typed_table U A T d p \<longleftrightarrow> data p = d \<and> pre_parser p \<and>
     (\<forall>n r. map_of (rules p) n = Some r \<longrightarrow> rule_name r = n \<and> typed_rule U A T d r)"

lemma typed_table_pre: "typed_table U A T d p \<Longrightarrow> pre_parser p \<and> wf_parser p \<and> 0 < vlen p \<and> data p = d"
  by (auto simp: typed_table_def pre_parser_def)

lemma typed_table_kept: "typed_table U A T d p \<Longrightarrow> kept k p q \<Longrightarrow> typed_table U A T d q"
  using pre_kept by (auto simp: typed_table_def kept_def)

lemma typed_table_pushV: "typed_table U A T d p \<Longrightarrow> typed_table U A T d (pushV p)"
  by (auto simp: typed_table_def)

definition well_typed ::
  "(panicval \<Rightarrow> bool) \<Rightarrow> 'a goval set \<Rightarrow> (string \<times> 'a goval set) list \<Rightarrow> string set \<Rightarrow> 'a parser \<Rightarrow>
    ('a parser, 'a goval \<times> bool) result \<Rightarrow> bool" where
  "well_typed A V B L p r \<longleftrightarrow>
     (case r of
        Ret (v, ok) q \<Rightarrow> (if ok then v \<in> V \<and> bound B (topFrame q) else v = VNil) \<and>
          (\<forall>l. l \<notin> L \<longrightarrow> map_of (topFrame q) l = map_of (topFrame p) l)
      | Panic x q \<Rightarrow> A x
      | OutOfFuel \<Rightarrow> True)"

lemma well_typed_simps [simp]:
  "well_typed A V B L p (Ret (v, ok) q) \<longleftrightarrow> (if ok then v \<in> V \<and> bound B (topFrame q) else v = VNil) \<and>
     (\<forall>l. l \<notin> L \<longrightarrow> map_of (topFrame q) l = map_of (topFrame p) l)"
  "well_typed A V B L p (Panic x q) \<longleftrightarrow> A x" "well_typed A V B L p OutOfFuel"
  by (simp_all add: well_typed_def)

section \<open>Soundness\<close>

lemma matchLit_typed:
  "\<exists>v ok q'. matchLit U ic sp buf ws q = Ret (v, ok) q' \<and> topFrame q' = topFrame q \<and> (if ok then v \<in> range VString else v = VNil)"
proof (induction ws arbitrary: buf q)
  case (Cons w ws)
  show ?case using Cons.IH [of "buf @ encodeRune (sp_rn (pt q))" "read q"] by (auto simp: Let_def)
qed auto

lemma class_typed: "even (length (ranges chr)) \<Longrightarrow> well_typed A (range VString) [] L p (parseCharClassMatcher U chr p)"
  using matchClass_even [of chr] by (auto simp: parseCharClassMatcher_def Let_def split: classHit.split)

lemma any_typed: "well_typed A (range VString) [] L p (parseAnyMatcher p)"
  by (auto simp: parseAnyMatcher_def Let_def)

lemma runPred_typed:
  assumes "0 < vlen p" "\<forall>c m c' x. cd c m = CodePanics c' x \<longrightarrow> A x"
  shows "case runPred cd p of Ret ok q \<Rightarrow> topFrame q = topFrame p | Panic x q \<Rightarrow> A x | OutOfFuel \<Rightarrow> False"
  using assms by (auto simp: runPred_def topV_top Let_def split: codeResult.split option.split)

lemma codePred_typed:
  assumes "0 < vlen p" "\<forall>c m c' x. cd c m = CodePanics c' x \<longrightarrow> A x"
  shows "well_typed A {VNil} [] L p (parseAndCodeExpr cd p)" "well_typed A {VNil} [] L p (parseNotCodeExpr cd p)"
  using runPred_typed [of p cd A, OF assms]
  by (auto simp: parseAndCodeExpr_def parseNotCodeExpr_def split: result.splits)

lemma slice_sublist: "sublist (slice a z p) (data p)"
proof -
  let ?n = "offset a" and ?k = "offset z - offset a"
  have "data p = take ?n (data p) @ take ?k (drop ?n (data p)) @ drop ?k (drop ?n (data p))"
    by (metis append_take_drop_id)
  then show ?thesis unfolding slice_def sublist_def by blast
qed

text \<open>The code block of an action is called with the frame of its match on a text of the input.\<close>

lemma runAction_typed:
  assumes "0 < vlen p" "slice (sp_position sp) (sp_position (save p)) p \<in> X" "bound B (topFrame p)"
  shows "case runAction sp run p of
      Ret v q \<Rightarrow> topFrame q = topFrame p \<and> (\<exists>c err. CodeReturns c v err \<in> calls X B run)
    | Panic x q \<Rightarrow> \<exists>c. CodePanics c x \<in> calls X B run | OutOfFuel \<Rightarrow> False"
proof -
  let ?c = "\<lparr>cur_pos = sp_position sp, cur_text = slice (sp_position sp) (sp_position (save p)) p\<rparr>"
  have "run ?c (topFrame p) \<in> calls X B run" using assms(2,3) unfolding calls_def by fastforce
  moreover have "topV (p\<lparr>cur := ?c\<rparr>) = Some (topFrame p)" using topV_top [of "p\<lparr>cur := ?c\<rparr>"] assms(1) by simp
  ultimately show ?thesis
    unfolding runAction_def Let_def
    by (auto split: codeResult.split option.split) blast+
qed

locale engine_typed = engine_texts rec U for rec :: "'a recFn" and U :: unicode_env +
  fixes A :: "panicval \<Rightarrow> bool" and T :: "string \<Rightarrow> 'a goval set" and d :: gobytes
  assumes rec_typed:
    "typed_table U A T d p \<Longrightarrow> safe U A T d e \<Longrightarrow> well_typed A (vals U T d e) (labs U T d e) (binds e) p (rec e p)"
begin

text \<open>Case analysis on the recursive call, in the frame of the caller and in a frame of its own.\<close>

lemma rec_cases:
  assumes "typed_table U A T d p" "safe U A T d e"
  obtains (fuel) "rec e p = OutOfFuel" | (panic) x q where "rec e p = Panic x q" "A x"
  | (ok) v q where "rec e p = Ret (v, True) q" "typed_table U A T d q" "v \<in> vals U T d e" "bound (labs U T d e) (topFrame q)"
      "\<And>l. l \<notin> binds e \<Longrightarrow> map_of (topFrame q) l = map_of (topFrame p) l"
  | (no) q where "rec e p = Ret (VNil, False) q" "typed_table U A T d q"
      "\<And>l. l \<notin> binds e \<Longrightarrow> map_of (topFrame q) l = map_of (topFrame p) l"
proof (cases "rec e p")
  case (Ret r q)
  obtain v b where r: "r = (v, b)" by (cases r)
  have "kept (nlow p) p q" using rec_good [of p e] assms(1) Ret r typed_table_pre by fastforce
  with assms(1) have "typed_table U A T d q" by (rule typed_table_kept)
  with rec_typed [OF assms] Ret r show ?thesis by (cases b) (auto intro: ok no)
qed (use rec_typed [OF assms] fuel panic in auto)

lemma rec_scoped_cases:
  assumes "typed_table U A T d p" "safe U A T d e"
  obtains (fuel) "rec e (pushV p) = OutOfFuel" | (panic) x q where "rec e (pushV p) = Panic x q" "A x"
  | (ret) v b q where "rec e (pushV p) = Ret (v, b) q" "typed_table U A T d (popV q)" "topFrame (popV q) = topFrame p"
      "if b then v \<in> vals U T d e else v = VNil"
proof -
  have p: "wf_parser p" "0 < vlen p" using typed_table_pre [OF assms(1)] by auto
  have popped: "typed_table U A T d (popV q)" "topFrame (popV q) = topFrame p" if "rec e (pushV p) = Ret (v, b) q" for v b q
  proof -
    have "kept (vlen p) (pushV p) q" using rec_good [of "pushV p" e] p(1) that by simp
    then have k: "kept (vlen p) p (popV q)" by (rule kept_scoped [OF p(1)])
    show "typed_table U A T d (popV q)" "topFrame (popV q) = topFrame p"
      by (rule typed_table_kept [OF assms(1) k]) (rule top_kept [OF k p(2)])
  qed
  show ?thesis
    by (cases rule: rec_cases [OF typed_table_pushV [OF assms(1)] assms(2), case_names fuel panic ok no])
      (use fuel panic ret popped in auto)
qed

lemma action_typed:
  assumes "typed_table U A T d p" "safe U A T d (actionExpr ps e run)"
  shows "well_typed A (vals U T d (actionExpr ps e run)) (labs U T d e) (binds e) p (parseActionExpr rec e run p)"
proof (cases rule: rec_cases [OF assms(1), of e, case_names s fuel panic ok no])
  case (ok v q)
  have q: "0 < vlen q" "data q = d" "data p = d" using typed_table_pre [OF ok(2)] typed_table_pre [OF assms(1)] by auto
  have "span p q \<in> texts U e" using rec_texts ok(1) assms(1) typed_table_pre by blast
  moreover have s: "slice (sp_position (save p)) (sp_position (save q)) q = span p q"
    using q by (simp add: slice_def span_def save_def)
  moreover have "sublist (span p q) d"
    using slice_sublist [of "sp_position (save p)" "sp_position (save q)" q] s q by simp
  ultimately have "slice (sp_position (save p)) (sp_position (save q)) q \<in> seen U d e" by (simp add: seen_def)
  from runAction_typed [OF q(1) this ok(4), where run = run] ok assms(2) show ?thesis
    by (cases "runAction (save p) run q") (auto simp: parseActionExpr_def)
qed (use assms(2) in \<open>auto simp: parseActionExpr_def\<close>)

lemma lookahead_typed:
  assumes "typed_table U A T d p" "safe U A T d e"
  shows "well_typed A {VNil} [] (binds e) p (parseAndExpr rec e p)"
    and "well_typed A {VNil} [] (binds e) p (parseNotExpr rec e p)"
  by (cases rule: rec_cases [OF assms]; auto simp: parseAndExpr_def parseNotExpr_def Let_def)+

lemma choice_typed:
  assumes "typed_table U A T d p" "\<forall>e\<in>set es. safe U A T d e" "(\<Union>e\<in>set es. vals U T d e) \<subseteq> V"
  shows "well_typed A V [] {} p (parseAlternatives rec es p)"
  using assms
proof (induction es arbitrary: p)
  case (Cons e es)
  show ?case
  proof (cases rule: rec_scoped_cases [OF Cons.prems(1), of e, case_names s fuel panic ret])
    case (ret v b q)
    have "well_typed A V [] {} (popV q) (parseAlternatives rec es (popV q))"
      by (rule Cons.IH) (use ret Cons.prems in auto)
    with ret Cons.prems(3) show ?thesis
      by (cases "parseAlternatives rec es (popV q)") (auto simp: Let_def split: if_splits)
  qed (use Cons.prems in \<open>auto\<close>)
qed simp

lemma labeled_typed:
  assumes "typed_table U A T d p" "safe U A T d e" "l \<noteq> []"
  shows "well_typed A (vals U T d e) [(l, vals U T d e)] {l} p (parseLabeledExpr rec l e p)"
proof (cases rule: rec_scoped_cases [OF assms(1,2), case_names fuel panic ret])
  case (ret v b q)
  define r where "r = popV q"
  have r: "0 < vlen r" "vlen r \<le> length (vslots r)" "vslots r ! (vlen r - 1) = Some (topFrame p)"
    using topFrame_slot [of r] ret(2,3) by (auto simp: r_def typed_table_def pre_parser_def wf_parser_def wf_v_def)
  then have "topFrame (r\<lparr>vslots := (vslots r)[vlen r - 1 := Some m]\<rparr>) = m" for m
    by (simp add: topFrame_def)
  with ret assms(3) r show ?thesis
    by (auto simp: parseLabeledExpr_def Let_def bound_Cons update_conv simp flip: r_def)
qed (simp_all add: parseLabeledExpr_def)

lemma many_typed:
  assumes "typed_table U A T d p" "safe U A T d e" "set vs0 \<subseteq> vals U T d e"
  shows "case parseMany rec k e vs0 p of
      Ret vs q \<Rightarrow> set vs \<subseteq> vals U T d e \<and> (\<forall>l. l \<notin> binds e \<longrightarrow> map_of (topFrame q) l = map_of (topFrame p) l)
    | Panic x q \<Rightarrow> A x | OutOfFuel \<Rightarrow> True"
  using assms
proof (induction k arbitrary: vs0 p)
  case (Suc k)
  show ?case
  proof (cases rule: rec_cases [OF Suc.prems(1,2), case_names fuel panic ok no])
    case (ok v q)
    with Suc.IH [OF ok(2) Suc.prems(2), of "vs0 @ [v]"] Suc.prems(3) show ?thesis
      by (auto split: result.splits)
  qed (use Suc.prems(3) in auto)
qed simp

lemma repeat_typed:
  assumes "typed_table U A T d p" "safe U A T d e"
  shows "well_typed A (vals U T d (zeroOrMoreExpr ps e)) [] (binds e) p (parseZeroOrMoreExpr rec k e p)"
    and "well_typed A (vals U T d (oneOrMoreExpr ps e)) [] (binds e) p (parseOneOrMoreExpr rec k e p)"
  using many_typed [OF assms, of "[]" k]
  by (auto simp: parseZeroOrMoreExpr_def parseOneOrMoreExpr_def split: result.splits)

lemma opt_typed:
  assumes "typed_table U A T d p" "safe U A T d e"
  shows "well_typed A (vals U T d (zeroOrOneExpr ps e)) [] (binds e) p (parseZeroOrOneExpr rec e p)"
  by (cases rule: rec_cases [OF assms]) (auto simp: parseZeroOrOneExpr_def)

lemma seq_typed:
  assumes "typed_table U A T d p" "\<forall>e\<in>set es. safe U A T d e" "apart U T d es"
  shows "case parseSeq rec sp vs0 es p of
      Ret (v, ok) q \<Rightarrow> (if ok then \<exists>vs. v = VSlice (vs0 @ vs) \<and> list_all2 (\<in>) vs (map (vals U T d) es) \<and>
          bound (concat (map (labs U T d) es)) (topFrame q) else v = VNil) \<and>
        (\<forall>l. l \<notin> (\<Union>e\<in>set es. binds e) \<longrightarrow> map_of (topFrame q) l = map_of (topFrame p) l)
    | Panic x q \<Rightarrow> A x | OutOfFuel \<Rightarrow> True"
  using assms
proof (induction es arbitrary: p vs0)
  case (Cons e es)
  show ?case
  proof (cases rule: rec_cases [OF Cons.prems(1), of e, case_names s fuel panic ok no])
    case (ok v q)
    have rest: "bound (labs U T d e) (topFrame r)"
      if "\<forall>l. l \<notin> (\<Union>e\<in>set es. binds e) \<longrightarrow> map_of (topFrame r) l = map_of (topFrame q) l" for r
      by (rule bound_cong [OF ok(4)]) (use that Cons.prems(3) in auto)
    have "case parseSeq rec sp (vs0 @ [v]) es q of
      Ret (v', b) r \<Rightarrow> (if b then \<exists>vs. v' = VSlice ((vs0 @ [v]) @ vs) \<and> list_all2 (\<in>) vs (map (vals U T d) es) \<and>
          bound (concat (map (labs U T d) es)) (topFrame r) else v' = VNil) \<and>
        (\<forall>l. l \<notin> (\<Union>e\<in>set es. binds e) \<longrightarrow> map_of (topFrame r) l = map_of (topFrame q) l)
      | Panic x r \<Rightarrow> A x | OutOfFuel \<Rightarrow> True"
      by (rule Cons.IH) (use ok Cons.prems in auto)
    with ok rest show ?thesis
      by (cases "parseSeq rec sp (vs0 @ [v]) es q") (fastforce simp: bound_append split: if_splits)+
  qed (use Cons.prems in auto)
qed auto

lemma ruleRef_typed:
  assumes "typed_table U A T d p" "name \<noteq> []"
  shows "well_typed A (T name) [] {} p (parseRuleRefExpr rec ps name p)"
proof (cases "map_of (rules p) name")
  case None
  with assms(2) show ?thesis by (simp add: parseRuleRefExpr_def)
next
  case (Some r)
  let ?p = "p\<lparr>rstack := rstack p @ [r]\<rparr>"
  have r: "safe U A T d (rule_expr r)" "vals U T d (rule_expr r) \<subseteq> T name"
    using assms(1) Some by (auto simp: typed_table_def typed_rule_def)
  have p: "typed_table U A T d ?p"
    using assms(1) by (auto simp: typed_table_def pre_parser_def wf_parser_def wf_v_def)
  show ?thesis
    by (cases rule: rec_scoped_cases [OF p r(1)])
      (use Some assms(2) r(2) in \<open>auto simp: parseRuleRefExpr_def parseRule_def Let_def split: if_splits\<close>)
qed

lemma dispatch_typed:
  assumes "typed_table U A T d p" "safe U A T d e"
  shows "well_typed A (vals U T d e) (labs U T d e) (binds e) p (dispatch U rec k e p)"
proof -
  have p: "0 < vlen p" using assms(1) typed_table_pre by blast
  have lit: "well_typed A (range VString) [] L p (parseLitMatcher U val ic p)" for L val ic
    using matchLit_typed [of U ic "save p" "[]" "runes_of val" p] by (auto simp: parseLitMatcher_def)
  have seq: "well_typed A (vals U T d (seqExpr ps es)) (labs U T d (seqExpr ps es)) (binds (seqExpr ps es)) p (parseSeqExpr rec es p)"
    if "\<forall>e\<in>set es. safe U A T d e" "apart U T d es" for ps es
    using seq_typed [OF assms(1) that, where sp = "save p" and ?vs0.0 = "[]"]
    by (cases "parseSeq rec (save p) [] es p") (auto simp: parseSeqExpr_def split: if_splits, blast+)
  show ?thesis
    using assms(2) class_typed [of _ A] any_typed codePred_typed [OF p] lit seq action_typed [OF assms(1)]
      lookahead_typed [OF assms(1)] labeled_typed [OF assms(1)] repeat_typed [OF assms(1)] opt_typed [OF assms(1)]
      choice_typed [OF assms(1) _ order_refl] ruleRef_typed [OF assms(1)]
    by (cases e) (simp_all add: parseChoiceExpr_def)
qed

end

lemma parseExpr_typed: "engine_typed (parseExpr U n) U A T d"
proof (induction n)
  case 0
  show ?case by unfold_locales simp
next
  case (Suc n)
  then show ?case by unfold_locales (simp add: engine_typed.dispatch_typed)
qed

interpretation typing: engine_typed "parseExpr U n" U A T d for U n A T d
  by (rule parseExpr_typed)

section \<open>Typed grammars\<close>

definition typed_grammar :: "unicode_env \<Rightarrow> (panicval \<Rightarrow> bool) \<Rightarrow> (string \<Rightarrow> 'a goval set) \<Rightarrow> gobytes \<Rightarrow> 'a grammar \<Rightarrow> bool" where
  "typed_grammar U A T d g \<longleftrightarrow> grammar_rules g \<noteq> [] \<and> (\<forall>r\<in>set (grammar_rules g). typed_rule U A T d r)"

lemma start_rule_typed:
  assumes "typed_grammar U A T b g"
  shows "case parseRule (parseExpr U n) (hd (grammar_rules g)) (started g f b) of
      Ret (v, ok) q \<Rightarrow> (if ok then v \<in> T (rule_name (hd (grammar_rules g))) else v = VNil)
    | Panic x q \<Rightarrow> A x | OutOfFuel \<Rightarrow> True"
proof -
  let ?r = "hd (grammar_rules g)" and ?s = "started g f b"
  let ?p = "pushV (?s\<lparr>rstack := rstack ?s @ [?r]\<rparr>)"
  have r: "typed_rule U A T b ?r" using assms by (simp add: typed_grammar_def)
  have "typed_table U A T b ?p"
    using assms pre_pushed [OF started_wf] started_rules [of g f b]
    by (auto simp: typed_table_def typed_grammar_def table_of_def dest!: map_of_SomeD)
  from typing.rec_typed [OF this, of "rule_expr ?r" n] r show ?thesis
    by (cases "parseExpr U n (rule_expr ?r) ?p")
      (auto simp: parseRule_def Let_def typed_rule_def split: if_splits)
qed

section \<open>Checking rules\<close>

text \<open>The outcome of a code block on the labels its match has bound.\<close>

definition gives :: "(panicval \<Rightarrow> bool) \<Rightarrow> 'a goval set \<Rightarrow> 'a goval codeResult \<Rightarrow> bool" where
  "gives A V r \<longleftrightarrow> (case r of CodeReturns _ v _ \<Rightarrow> v \<in> V | CodePanics _ x \<Rightarrow> A x)"

lemma gives_simps [simp]: "gives A V (CodeReturns c v err) \<longleftrightarrow> v \<in> V" "gives A V (CodePanics c x) \<longleftrightarrow> A x"
  by (simp_all add: gives_def)

lemma typed_action:
  assumes "safe U A T d e"
    and "\<And>c m. cur_text c \<in> seen U d e \<Longrightarrow> bound (labs U T d e) m \<Longrightarrow> gives A V (run c m)"
  shows "safe U A T d (actionExpr ps e run) \<and> vals U T d (actionExpr ps e run) \<subseteq> V"
proof
  have g: "gives A V r" if "r \<in> calls (seen U d e) (labs U T d e) run" for r
    using that assms(2) by (auto simp: calls_def)
  show "safe U A T d (actionExpr ps e run)"
    using assms(1) by (auto simp: gives_def dest: g)
  show "vals U T d (actionExpr ps e run) \<subseteq> V" by (auto simp: gives_def dest: g)
qed

lemma typed_action_rule:
  assumes "safe U A T d e"
    and "\<And>c m. cur_text c \<in> seen U d e \<Longrightarrow> bound (labs U T d e) m \<Longrightarrow> gives A (T nm) (run c m)"
  shows "typed_rule U A T d \<lparr>rule_pos = rp, rule_name = nm, displayName = dn, rule_expr = actionExpr ps e run\<rparr>"
  unfolding typed_rule_def rule.simps by (rule typed_action [OF assms])

text \<open>A rule that is a choice keeps its type when each alternative does.\<close>

lemma typed_choice_rule:
  assumes "\<And>e. e \<in> set es \<Longrightarrow> safe U A T d e \<and> vals U T d e \<subseteq> T nm"
  shows "typed_rule U A T d \<lparr>rule_pos = rp, rule_name = nm, displayName = dn, rule_expr = choiceExpr ps es\<rparr>"
  using assms by (auto simp: typed_rule_def)

lemma pair_slices: "{VSlice vs |vs. list_all2 (\<in>) vs [A, B]} = {VSlice [a, b] |a b. a \<in> A \<and> b \<in> B}"
  by (auto simp: list_all2_Cons2)

lemma quad_slices:
  "{VSlice vs |vs. list_all2 (\<in>) vs [A, B, C, D]} = {VSlice [a, b, c, d] |a b c d. a \<in> A \<and> b \<in> B \<and> c \<in> C \<and> d \<in> D}"
  by (auto simp: list_all2_Cons2)

end
