(* ===== verification/Peg_Checked.thy ===== *)
theory Peg_Checked
  imports Peg_Typing Peg_Actions
begin

text \<open>
  What the two analyses give together: a grammar that passes the termination check and the type check has a
  parser that returns on every input, whose value has the type of the first rule, and whose code blocks panic
  only as the type check allows. The interface is a locale, which each generated parser of the repository
  instantiates with its own grammar.
\<close>

lemma gives_code: "gives A V (code_of c m) \<longleftrightarrow> (case m of Inl x \<Rightarrow> A x | Inr (v, err) \<Rightarrow> v \<in> V)"
  by (simp add: gives_def code_of_def split: sum.split prod.split)

lemma addErr_nonempty: "errs (addErr x p) \<noteq> []"
  using addErrAt_errs [of x "sp_position (pt p)" p] by (auto simp: addErr_def)

lemma clean_parse_start:
  assumes "grammar_rules g \<noteq> []" "parser_parse U n g (newParser f b) = Some (q, v, None)"
  shows "parseRule (parseExpr U n) (hd (grammar_rules g)) (started g f b) = Ret (v, True) q"
  using assms(2) addErr_nonempty unfolding parse_unfold [OF assms(1)]
  by (auto simp: errList_err_def Let_def split: result.splits if_splits)

lemma errList_err_nonempty: "errList_err es = Some ds \<Longrightarrow> ds \<noteq> []"
proof -
  assume a: "errList_err es = Some ds"
  then have e: "es \<noteq> []" "ds = errList_dedupe es" by (auto simp: errList_err_def split: if_splits)
  then have "ParserError_Error ` set ds = ParserError_Error ` set es"
    using dedupe_loop_messages [of "[]" es] by (simp add: errList_dedupe_def)
  with e(1) show "ds \<noteq> []" by auto
qed

lemma parse_errs_nonempty:
  assumes "parser_parse U n g (newParser f b) = Some (q, v, Some es)"
  shows "es \<noteq> []"
  using assms by (auto simp: parser_parse_def Let_def dest: errList_err_nonempty split: if_splits result.splits)

locale checked_grammar =
  fixes U :: unicode_env
    and g :: "'a grammar"
    and A :: "gobytes \<Rightarrow> panicval \<Rightarrow> bool"
    and T :: "string \<Rightarrow> 'a goval set"
    and K :: "string set"
    and rank :: "string \<Rightarrow> nat"
  assumes wf: "wf_grammar U K rank g"
    and typed: "\<And>d. typed_grammar U (A d) T d g"
begin

abbreviation start :: "'a rule" where
  "start \<equiv> hd (grammar_rules g)"

lemma has_rules: "grammar_rules g \<noteq> []"
  using typed by (simp add: typed_grammar_def)

lemma panics: "parseRule (parseExpr U n) start (started g f b) = Panic x q \<Longrightarrow> A b x"
  using start_rule_typed [OF typed, where n = n and f = f and b = b] by simp

lemma returns:
  assumes "\<not> A b Hangs"
  obtains n q v err where "parser_parse U n g (newParser f b) = Some (q, v, err)"
proof -
  obtain n where n: "parseRule (parseExpr U n) start (started g f b) \<noteq> OutOfFuel"
    using wf_grammar_stops [OF wf has_rules] .
  have "parser_parse U n g (newParser f b) \<noteq> None"
    using n panics assms by (auto simp: parse_none_iff [OF has_rules])
  with that show ?thesis by auto
qed

lemma clean_value:
  assumes "parser_parse U n g (newParser f b) = Some (q, v, None)"
  shows "v \<in> T (rule_name start)"
proof -
  have "parseRule (parseExpr U n) start (started g f b) = Ret (v, True) q"
    by (rule clean_parse_start [OF has_rules assms])
  then show ?thesis using start_rule_typed [OF typed, where n = n and f = f and b = b] by simp
qed

text \<open>On every input: the parser returns, and either the value has its type or there is an error.\<close>

lemma total:
  assumes "\<not> A b Hangs"
  shows "\<exists>n q v err. parser_parse U n g (newParser f b) = Some (q, v, err) \<and>
    (case err of None \<Rightarrow> v \<in> T (rule_name start) | Some es \<Rightarrow> es \<noteq> []) \<and>
    (case parseRule (parseExpr U n) start (started g f b) of Panic x _ \<Rightarrow> A b x | _ \<Rightarrow> True)"
proof -
  obtain n q v err where r: "parser_parse U n g (newParser f b) = Some (q, v, err)" using returns [OF assms] .
  have "case err of None \<Rightarrow> v \<in> T (rule_name start) | Some es \<Rightarrow> es \<noteq> []"
    using r by (auto split: option.split dest: clean_value parse_errs_nonempty)
  moreover have "case parseRule (parseExpr U n) start (started g f b) of Panic x _ \<Rightarrow> A b x | _ \<Rightarrow> True"
    using panics by (auto split: result.split)
  ultimately show ?thesis using r by blast
qed

end

end
