(* ===== verification/Calculator_Properties.thy ===== *)
theory Calculator_Properties
  imports Calculator Peg_Checked
begin

text \<open>
  The calculator always returns; its type assertions never fail and the only panic left is the division
  by zero.
\<close>

section \<open>Termination\<close>

definition calc_consuming :: "string set" where
  "calc_consuming = {''Input'', ''Expr'', ''Term'', ''Factor'', ''AddOp'', ''MulOp'', ''Integer''}"

definition calc_rank :: "string \<Rightarrow> nat" where
  "calc_rank n =
     (if n = ''Input'' then 5 else if n = ''Expr'' then 4 else if n = ''Term'' then 3
      else if n = ''Factor'' then 2 else if n = ''Integer'' then 1 else 0)"

lemma calculator_wf: "wf_grammar U calc_consuming calc_rank calculator_g"
  by code_simp

section \<open>Types\<close>

definition ints :: "calcval goval set" where
  "ints = {VUser (GoInt i) |i. True}"

definition addOps :: "calcval goval set" where
  "addOps = {VString ''+'', VString ''-''}"

definition mulOps :: "calcval goval set" where
  "mulOps = {VString ''*'', VString ''/''}"

definition calc_type :: "string \<Rightarrow> calcval goval set" where
  "calc_type n =
     (if n = ''Input'' \<or> n = ''Expr'' \<or> n = ''Term'' \<or> n = ''Factor'' \<or> n = ''Integer'' then ints
      else if n = ''AddOp'' then addOps else if n = ''MulOp'' then mulOps else UNIV)"

definition divideByZero :: panicval where
  "divideByZero = PanicError ''runtime error: integer divide by zero''"

abbreviation only_division :: "panicval \<Rightarrow> bool" where
  "only_division x \<equiv> x = divideByZero"

definition operands :: "calcval goval set \<Rightarrow> calcval goval set" where
  "operands S = {VSlice vs |vs. list_all2 (\<in>) vs [UNIV, S, UNIV, ints]}"

lemma callOp_cases:
  "VString op \<in> addOps \<union> mulOps \<Longrightarrow> callOp op l r = Inl divideByZero \<or> (\<exists>i. callOp op l r = Inr i)"
  by (auto simp: callOp_def ops_def goQuot_def divideByZero_def addOps_def mulOps_def)

lemma operandsE:
  assumes "v \<in> operands S"
  obtains a s c i where "v = VSlice [a, s, c, VUser (GoInt i)]" "s \<in> S"
  using assms by (auto simp: operands_def ints_def list_all2_Cons2)

lemma evalRest_cases:
  assumes "set vs \<subseteq> operands S" "S \<subseteq> addOps \<union> mulOps"
  shows "evalRest l vs = Inl divideByZero \<or> (\<exists>i. evalRest l vs = Inr i)"
  using assms(1)
proof (induction vs arbitrary: l)
  case (Cons v vs)
  then have "v \<in> operands S" by simp
  then obtain a s c i where v: "v = VSlice [a, s, c, VUser (GoInt i)]" and s: "s \<in> S" by (rule operandsE)
  have "s \<in> addOps \<union> mulOps" using s assms(2) by blast
  then obtain op where op: "s = VString op" "VString op \<in> addOps \<union> mulOps" by (auto simp: addOps_def mulOps_def)
  have e: "evalRest l (v # vs) = thenP (callOp op l i) (\<lambda>l1. evalRest l1 vs)"
    by (simp add: v op asInt_def)
  have "evalRest l1 vs = Inl divideByZero \<or> (\<exists>i. evalRest l1 vs = Inr i)" for l1 using Cons by simp
  with callOp_cases [OF op(2), of l i] show ?case unfolding e by (elim disjE exE) simp_all
qed simp

lemma eval_cases:
  assumes "first \<in> ints" "vrest \<in> {VSlice vs |vs. set vs \<subseteq> operands S}" "S \<subseteq> addOps \<union> mulOps"
  shows "eval first vrest = Inl divideByZero \<or> (\<exists>i. eval first vrest = Inr i)"
proof -
  obtain i vs where "first = VUser (GoInt i)" "vrest = VSlice vs" "set vs \<subseteq> operands S"
    using assms(1,2) by (auto simp: ints_def)
  then show ?thesis using evalRest_cases [of vs S i] assms(3) by (auto simp: eval_def asInt_def)
qed

lemma expr_calls:
  assumes "r \<in> calls X [(''first'', ints), (''rest'', {VSlice vs |vs. set vs \<subseteq> operands S})] run"
    and "run = callonExpr1 \<or> run = callonTerm1" and "S \<subseteq> addOps \<union> mulOps"
  shows "(\<exists>c. r = CodePanics c divideByZero) \<or> (\<exists>c i. r = CodeReturns c (VUser (GoInt i)) None)"
  using assms(1,2) eval_cases [OF _ _ assms(3)]
  by (fastforce simp: calls_def bound_Cons callonExpr1_def callonTerm1_def onExpr1_def onTerm1_def
      dest!: labelled_bound)

lemmas calc_typing = typed_rule_def calls_def bound_Cons calc_type_def seen_def

lemma Input_typed: "typed_rule U only_division calc_type d calculator_Input"
  by (auto simp: calc_typing calculator_Input_def callonInput1_def onInput1_def dest!: labelled_bound)

lemma Expr_typed: "typed_rule U only_division calc_type d calculator_Expr"
proof -
  have "r \<in> calls X [(''first'', ints), (''rest'', {VSlice vs |vs. set vs \<subseteq> operands addOps})] callonExpr1 \<Longrightarrow>
      (\<exists>c. r = CodePanics c divideByZero) \<or> (\<exists>c i. r = CodeReturns c (VUser (GoInt i)) None)" for r X
    by (rule expr_calls) auto
  then show ?thesis
    by (fastforce simp: typed_rule_def calculator_Expr_def calc_type_def operands_def ints_def)
qed

lemma Term_typed: "typed_rule U only_division calc_type d calculator_Term"
proof -
  have "r \<in> calls X [(''first'', ints), (''rest'', {VSlice vs |vs. set vs \<subseteq> operands mulOps})] callonTerm1 \<Longrightarrow>
      (\<exists>c. r = CodePanics c divideByZero) \<or> (\<exists>c i. r = CodeReturns c (VUser (GoInt i)) None)" for r X
    by (rule expr_calls) auto
  then show ?thesis
    by (fastforce simp: typed_rule_def calculator_Term_def calc_type_def operands_def ints_def)
qed

lemma Factor_typed: "typed_rule U only_division calc_type d calculator_Factor"
  by (auto simp: calc_typing calculator_Factor_def callonFactor2_def onFactor2_def callonFactor8_def onFactor8_def
      dest!: labelled_bound)

lemma runes_of_op: "runes_of [CHR ''+''] = [43]" "runes_of [CHR ''-''] = [45]" "runes_of [CHR ''*''] = [42]" "runes_of [CHR ''/''] = [47]"
  "string_of_runes [43] = ''+''" "string_of_runes [45] = ''-''" "string_of_runes [42] = ''*''" "string_of_runes [47] = ''/''"
  by code_simp+

lemma op_typed:
  "typed_rule U only_division calc_type d calculator_AddOp" "typed_rule U only_division calc_type d calculator_MulOp"
  by (auto simp: calc_typing calculator_AddOp_def calculator_MulOp_def callonAddOp1_def onAddOp1_def
      callonMulOp1_def onMulOp1_def runes_of_op addOps_def mulOps_def)

lemma Integer_call: "callonInteger1 c m = CodeReturns c (VUser (GoInt (fst (Atoi (cur_text c))))) (snd (Atoi (cur_text c)))"
  by (simp add: callonInteger1_def onInteger1_def case_prod_beta)

lemma Integer_typed: "typed_rule U only_division calc_type d calculator_Integer"
  by (auto simp: typed_rule_def calls_def calc_type_def calculator_Integer_def Integer_call ints_def)

lemma leaf_typed:
  "typed_rule U only_division calc_type d calculator_underscore" "typed_rule U only_division calc_type d calculator_EOF"
  by (auto simp: calc_typing calculator_underscore_def calculator_EOF_def)

lemma calculator_typed: "typed_grammar U only_division calc_type d calculator_g"
  by (simp add: typed_grammar_def calculator_g_def Input_typed Expr_typed Term_typed Factor_typed op_typed
      Integer_typed leaf_typed)

interpretation calc: checked_grammar U calculator_g "\<lambda>_. only_division" calc_type calc_consuming calc_rank
  for U
  by unfold_locales (rule calculator_wf calculator_typed)+

section \<open>Every input\<close>

text \<open>
  C22. The generated calculator returns on every input: without an error the value is an int, otherwise there is
  at least one error; and the only panic its code blocks can raise, which the parser recovers, is the division
  by zero (its type assertions, its indexings and its calls through the operator table never fail).
\<close>

theorem calculator_total:
  "\<exists>n q v err. parser_parse U n calculator_g (newParser f b) = Some (q, v, err) \<and>
     (case err of None \<Rightarrow> \<exists>i. v = VUser (GoInt i) | Some es \<Rightarrow> es \<noteq> []) \<and>
     (case parseRule (parseExpr U n) calculator_Input (started calculator_g f b) of
        Panic x _ \<Rightarrow> x = PanicError ''runtime error: integer divide by zero'' | _ \<Rightarrow> True)"
proof -
  have s: "hd (grammar_rules calculator_g) = calculator_Input" "calc_type (rule_name calculator_Input) = ints"
    by (simp_all add: calculator_g_def calculator_Input_def calc_type_def)
  have i: "v \<in> ints \<longleftrightarrow> (\<exists>i. v = VUser (GoInt i))" for v by (auto simp: ints_def)
  from calc.total [where b = b and U = U and f = f, unfolded s i divideByZero_def] show ?thesis by simp
qed

end
