(* ===== verification/Peg_BigStep.thy ===== *)
theory Peg_BigStep
  imports Peg_Typing
begin

text \<open>
  A big-step semantics of grammars with their code blocks, for inputs of ASCII characters. An expression is
  run on the rest of the input in a frame of labels; it matches with a value and the rest left, fails, or aborts with the panic of a
  code block. The judgement also collects the messages of the errors that code blocks return. It covers what the
  reference semantics of matching leaves out: values, labels, errors and panics.
\<close>

section \<open>The judgement\<close>

datatype 'a outcome = Matched "'a goval" gobytes | Failed | Aborted panicval

definition ascii :: "gobytes \<Rightarrow> bool" where
  "ascii s \<longleftrightarrow> (\<forall>c\<in>set s. (of_char c :: int) < 128)"

fun peekByte :: "gobytes \<Rightarrow> rune" where
  "peekByte [] = RuneError"
| "peekByte (c # _) = of_char c"

inductive bs :: "unicode_env \<Rightarrow> (string \<rightharpoonup> 'a rule) \<Rightarrow> 'a expr \<Rightarrow> gobytes \<Rightarrow> 'a vmap \<Rightarrow>
    'a outcome \<Rightarrow> string list \<Rightarrow> 'a vmap \<Rightarrow> bool"
  and bs_seq :: "unicode_env \<Rightarrow> (string \<rightharpoonup> 'a rule) \<Rightarrow> 'a expr list \<Rightarrow> gobytes \<Rightarrow> 'a vmap \<Rightarrow> 'a goval list \<Rightarrow>
    'a outcome \<Rightarrow> string list \<Rightarrow> 'a vmap \<Rightarrow> bool"
  and bs_many :: "unicode_env \<Rightarrow> (string \<rightharpoonup> 'a rule) \<Rightarrow> 'a expr \<Rightarrow> gobytes \<Rightarrow> 'a vmap \<Rightarrow> 'a goval list \<Rightarrow>
    'a outcome \<Rightarrow> string list \<Rightarrow> 'a vmap \<Rightarrow> bool"
  for U :: unicode_env and G :: "string \<rightharpoonup> 'a rule"
where
  action: "bs U G e s m (Matched v0 s') es m' \<Longrightarrow>
    (\<forall>ps. \<exists>c. run \<lparr>cur_pos = ps, cur_text = take (length s - length s') s\<rparr> m' = CodeReturns c v err) \<Longrightarrow>
    bs U G (actionExpr ps e run) s m (Matched v s') (es @ (case err of None \<Rightarrow> [] | Some x \<Rightarrow> [x])) m'"
| action_panic: "bs U G e s m (Matched v0 s') es m' \<Longrightarrow>
    (\<forall>ps. \<exists>c. run \<lparr>cur_pos = ps, cur_text = take (length s - length s') s\<rparr> m' = CodePanics c x) \<Longrightarrow>
    bs U G (actionExpr ps e run) s m (Aborted x) es m'"
| action_no: "bs U G e s m Failed es m' \<Longrightarrow> bs U G (actionExpr ps e run) s m Failed es m'"
| action_abort: "bs U G e s m (Aborted x) es m' \<Longrightarrow> bs U G (actionExpr ps e run) s m (Aborted x) es m'"
| not_ok: "bs U G e s m Failed es m' \<Longrightarrow> bs U G (notExpr ps e) s m (Matched VNil s) es m'"
| not_no: "bs U G e s m (Matched v s') es m' \<Longrightarrow> bs U G (notExpr ps e) s m Failed es m'"
| not_abort: "bs U G e s m (Aborted x) es m' \<Longrightarrow> bs U G (notExpr ps e) s m (Aborted x) es m'"
| and_ok: "bs U G e s m (Matched v s') es m' \<Longrightarrow> bs U G (andExpr ps e) s m (Matched VNil s) es m'"
| and_no: "bs U G e s m Failed es m' \<Longrightarrow> bs U G (andExpr ps e) s m Failed es m'"
| and_abort: "bs U G e s m (Aborted x) es m' \<Longrightarrow> bs U G (andExpr ps e) s m (Aborted x) es m'"
| any_ok: "bs U G (anyMatcher ps) (c # s) m (Matched (VString (encodeRune (peekByte s))) s) [] m"
| any_no: "bs U G (anyMatcher ps) [] m Failed [] m"
| class_ok: "even (length (ranges chr)) \<Longrightarrow> classAccepts U chr (of_char c) \<Longrightarrow>
    bs U G (charClassMatcher chr) (c # s) m (Matched (VString (encodeRune (lowered U (cc_ignoreCase chr) (of_char c)))) s) [] m"
| class_no: "even (length (ranges chr)) \<Longrightarrow> \<not> classAccepts U chr (peekByte s) \<Longrightarrow>
    bs U G (charClassMatcher chr) s m Failed [] m"
| choice_ok: "bs U G e s [] (Matched v s') es m1 \<Longrightarrow> bs U G (choiceExpr ps (e # as)) s m (Matched v s') es m"
| choice_abort: "bs U G e s [] (Aborted x) es m1 \<Longrightarrow> bs U G (choiceExpr ps (e # as)) s m (Aborted x) es m"
| choice_next: "bs U G e s [] Failed es m1 \<Longrightarrow> bs U G (choiceExpr ps as) s m r es2 m2 \<Longrightarrow>
    bs U G (choiceExpr ps (e # as)) s m r (es @ es2) m2"
| choice_end: "bs U G (choiceExpr ps []) s m Failed [] m"
| labeled_ok: "l \<noteq> [] \<Longrightarrow> bs U G e s [] (Matched v s') es m1 \<Longrightarrow>
    bs U G (labeledExpr ps l e) s m (Matched v s') es (AList.update l v m)"
| labeled_no: "l \<noteq> [] \<Longrightarrow> bs U G e s [] Failed es m1 \<Longrightarrow> bs U G (labeledExpr ps l e) s m Failed es m"
| labeled_abort: "l \<noteq> [] \<Longrightarrow> bs U G e s [] (Aborted x) es m1 \<Longrightarrow> bs U G (labeledExpr ps l e) s m (Aborted x) es m"
| lit_ok: "ascii val \<Longrightarrow> bs U G (litMatcher ps val False) (val @ s) m (Matched (VString val) s) [] m"
| lit_no: "ascii val \<Longrightarrow> \<not> Sublist.prefix val s \<Longrightarrow> bs U G (litMatcher ps val False) s m Failed [] m"
| plus_ok: "bs_many U G e s m [] (Matched (VSlice vs) s') es m' \<Longrightarrow> vs \<noteq> [] \<Longrightarrow>
    bs U G (oneOrMoreExpr ps e) s m (Matched (VSlice vs) s') es m'"
| plus_no: "bs_many U G e s m [] (Matched (VSlice []) s) es m' \<Longrightarrow> bs U G (oneOrMoreExpr ps e) s m Failed es m'"
| plus_abort: "bs_many U G e s m [] (Aborted x) es m' \<Longrightarrow> bs U G (oneOrMoreExpr ps e) s m (Aborted x) es m'"
| star_ok: "bs_many U G e s m [] (Matched (VSlice vs) s') es m' \<Longrightarrow>
    bs U G (zeroOrMoreExpr ps e) s m (Matched (VSlice vs) s') es m'"
| star_abort: "bs_many U G e s m [] (Aborted x) es m' \<Longrightarrow> bs U G (zeroOrMoreExpr ps e) s m (Aborted x) es m'"
| opt_ok: "bs U G e s m (Matched v s') es m' \<Longrightarrow> bs U G (zeroOrOneExpr ps e) s m (Matched v s') es m'"
| opt_no: "bs U G e s m Failed es m' \<Longrightarrow> bs U G (zeroOrOneExpr ps e) s m (Matched VNil s) es m'"
| opt_abort: "bs U G e s m (Aborted x) es m' \<Longrightarrow> bs U G (zeroOrOneExpr ps e) s m (Aborted x) es m'"
| ref: "name \<noteq> [] \<Longrightarrow> G name = Some r \<Longrightarrow> bs U G (rule_expr r) s [] res es m1 \<Longrightarrow>
    bs U G (ruleRefExpr ps name) s m res es m"
| ref_undefined: "name \<noteq> [] \<Longrightarrow> G name = None \<Longrightarrow>
    bs U G (ruleRefExpr ps name) s m Failed [''undefined rule: '' @ name] m"
| seq: "bs_seq U G es s m [] res msgs m' \<Longrightarrow> bs U G (seqExpr ps es) s m res msgs m'"
| seq_nil: "bs_seq U G [] s m vs (Matched (VSlice vs) s) [] m"
| seq_cons: "bs U G e s m (Matched v s1) es1 m1 \<Longrightarrow> bs_seq U G es s1 m1 (vs @ [v]) res es2 m2 \<Longrightarrow>
    bs_seq U G (e # es) s m vs res (es1 @ es2) m2"
| seq_no: "bs U G e s m Failed es1 m1 \<Longrightarrow> bs_seq U G (e # es) s m vs Failed es1 m1"
| seq_abort: "bs U G e s m (Aborted x) es1 m1 \<Longrightarrow> bs_seq U G (e # es) s m vs (Aborted x) es1 m1"
| many_end: "bs U G e s m Failed es1 m1 \<Longrightarrow> bs_many U G e s m vs (Matched (VSlice vs) s) es1 m1"
| many_cons: "bs U G e s m (Matched v s1) es1 m1 \<Longrightarrow> bs_many U G e s1 m1 (vs @ [v]) res es2 m2 \<Longrightarrow>
    bs_many U G e s m vs res (es1 @ es2) m2"
| many_abort: "bs U G e s m (Aborted x) es1 m1 \<Longrightarrow> bs_many U G e s m vs (Aborted x) es1 m1"

section \<open>What the engine does\<close>

definition left_of :: "'a parser \<Rightarrow> gobytes" where
  "left_of p = drop (off p) (data p)"

abbreviation msgs_of :: "'a parser \<Rightarrow> string list" where
  "msgs_of p \<equiv> map Inner (errs p)"

text \<open>A parser that is about to run on the rest \<open>s\<close> in the frame \<open>m\<close>.\<close>

definition stands :: "(string \<rightharpoonup> 'a rule) \<Rightarrow> gobytes \<Rightarrow> 'a vmap \<Rightarrow> 'a parser \<Rightarrow> bool" where
  "stands G s m p \<longleftrightarrow> pre_parser p \<and> ascii (data p) \<and> map_of (rules p) = G \<and> left_of p = s \<and> topFrame p = m"

definition after :: "'a parser \<Rightarrow> gobytes \<Rightarrow> string list \<Rightarrow> 'a vmap \<Rightarrow> 'a parser \<Rightarrow> bool" where
  "after p s es m q \<longleftrightarrow> kept (nlow p) p q \<and> left_of q = s \<and> topFrame q = m \<and> msgs_of q = msgs_of p @ es"

definition yields :: "'a parser \<Rightarrow> ('a parser, 'a goval \<times> bool) result \<Rightarrow> 'a outcome \<Rightarrow> string list \<Rightarrow> 'a vmap \<Rightarrow> bool" where
  "yields p res r es m \<longleftrightarrow>
     (case r of
        Matched v s \<Rightarrow> \<exists>q. res = Ret (v, True) q \<and> after p s es m q
      | Failed \<Rightarrow> \<exists>q. res = Ret (VNil, False) q \<and> after p (left_of p) es m q
      | Aborted x \<Rightarrow> \<exists>q. res = Panic x q \<and> msgs_of q = msgs_of p @ es)"

lemma yields_simps [simp]:
  "yields p res (Matched v s) es m \<longleftrightarrow> (\<exists>q. res = Ret (v, True) q \<and> after p s es m q)"
  "yields p res Failed es m \<longleftrightarrow> (\<exists>q. res = Ret (VNil, False) q \<and> after p (left_of p) es m q)"
  "yields p res (Aborted x) es m \<longleftrightarrow> (\<exists>q. res = Panic x q \<and> msgs_of q = msgs_of p @ es)"
  by (simp_all add: yields_def)

definition does :: "unicode_env \<Rightarrow> 'a expr \<Rightarrow> 'a parser \<Rightarrow> 'a outcome \<Rightarrow> string list \<Rightarrow> 'a vmap \<Rightarrow> bool" where
  "does U e p r es m \<longleftrightarrow> (\<exists>N. \<forall>n\<ge>N. yields p (parseExpr U n e p) r es m)"

lemma doesI:
  assumes "\<And>n. N \<le> n \<Longrightarrow> yields p (dispatch U (parseExpr U n) n e p) r es m"
  shows "does U e p r es m"
proof -
  have "yields p (parseExpr U n e p) r es m" if "Suc N \<le> n" for n
    using that assms [of "n - 1"] by (cases n) auto
  then show ?thesis unfolding does_def by blast
qed

lemma yields_returns: "yields p res r es m \<Longrightarrow> res \<noteq> OutOfFuel"
  by (cases r) auto

lemma doesE:
  assumes "does U e p r es m"
  obtains N res where "\<And>n. N \<le> n \<Longrightarrow> parseExpr U n e p = res" "yields p res r es m"
proof -
  from assms obtain N where N: "yields p (parseExpr U N e p) r es m" by (auto simp: does_def)
  have "parseExpr U n e p = parseExpr U N e p" if "N \<le> n" for n
    using le_resD [OF _ yields_returns [OF N]] parseExpr_mono [OF that, of U] by (auto simp: le_rec_def)
  with N show ?thesis using that by blast
qed

lemma stands_pre: "stands G s m p \<Longrightarrow> pre_parser p \<and> wf_parser p \<and> 0 < vlen p \<and> left_of p = s \<and> topFrame p = m \<and> ascii (data p)"
  by (auto simp: stands_def pre_parser_def)

lemma stands_after: "stands G s m p \<Longrightarrow> after p s' es m' q \<Longrightarrow> stands G s' m' q"
  using pre_kept by (auto simp: stands_def after_def kept_def)

lemma after_refl: "stands G s m p \<Longrightarrow> after p s [] m p"
  by (auto simp: stands_def after_def pre_parser_def)

lemma after_trans: "after p s es m q \<Longrightarrow> after q s' es' m' r \<Longrightarrow> after p s' (es @ es') m' r"
proof -
  assume a: "after p s es m q" and b: "after q s' es' m' r"
  then have k: "kept (nlow p) p q" "kept (nlow p) q r" using nlow_kept [of _ p q] by (auto simp: after_def)
  show "after p s' (es @ es') m' r" using a b kept_trans [OF k] by (simp add: after_def)
qed

lemma yields_trans:
  assumes "after p s es m q" "yields q res r es' m'" "r = Failed \<Longrightarrow> s = left_of p"
  shows "yields p res r (es @ es') m'"
  using assms after_trans [OF assms(1)]
  by (cases r) (auto simp: after_def)

lemma stands_pushV: "stands G s m p \<Longrightarrow> stands G s [] (pushV p)"
  using pushV_top [of p] pre_pushV [of p]
  by (auto simp: stands_def left_of_def topFrame_def pre_parser_def wf_parser_def)

lemma after_popV:
  assumes "stands G s m p" "after (pushV p) s' es m1 q"
  shows "after p s' es m (popV q)"
proof -
  have p: "wf_parser p" "0 < vlen p" "topFrame p = m" using stands_pre [OF assms(1)] by auto
  have k: "kept (vlen p) p (popV q)" by (rule kept_scoped [OF p(1)]) (use assms(2) in \<open>simp add: after_def\<close>)
  have "topFrame (popV q) = m" using top_kept [OF k p(2)] p(3) by simp
  with kept_mono [OF k, of "nlow p"] assms(2) show ?thesis by (simp add: after_def left_of_def)
qed

section \<open>Matchers\<close>

lemma ascii_drop: "ascii s \<Longrightarrow> ascii (drop n s)"
  by (auto simp: ascii_def dest: in_set_dropD)

lemma stands_ascii: "stands G s m p \<Longrightarrow> ascii s"
  using ascii_drop by (auto simp: stands_def left_of_def)

lemma stands_rune:
  assumes "stands G s m p"
  shows "sp_rn (pt p) = peekByte s" "sp_w (pt p) = (if s = [] then 0 else 1)"
proof -
  have d: "decodeRune s = (sp_rn (pt p), sp_w (pt p))"
    using assms sp_reach_decode [of "data p" "pt p"] by (auto simp: stands_def left_of_def pre_parser_def wf_parser_def)
  have "ascii s" by (rule stands_ascii [OF assms])
  with d show "sp_rn (pt p) = peekByte s" "sp_w (pt p) = (if s = [] then 0 else 1)"
    by (cases s; simp add: ascii_def)+
qed

lemma ascii_read_errs:
  assumes "stands G s m p"
  shows "errs (read p) = errs p"
proof -
  have w: "wf_parser (read p)" using kept_read [of p 0] stands_pre [OF assms] by blast
  have d: "decodeRune (left_of (read p)) = (sp_rn (pt (read p)), sp_w (pt (read p)))"
    using w sp_reach_decode [of "data p" "pt (read p)"] by (auto simp: left_of_def wf_parser_def)
  have "ascii (left_of (read p))" using assms ascii_drop by (auto simp: stands_def left_of_def)
  with d have "sp_rn (pt (read p)) = RuneError \<longrightarrow> sp_w (pt (read p)) = 0"
    by (cases "left_of (read p)") (auto simp: ascii_def)
  then show ?thesis by (auto simp: read_def Let_def addErr_def)
qed

lemma after_read:
  assumes "stands G s m p"
  shows "after p (tl s) [] m (read p)"
proof -
  have "left_of (read p) = tl s"
    using assms stands_rune [OF assms] by (cases s) (auto simp: stands_def left_of_def drop_Suc tl_drop [symmetric])
  then show ?thesis using assms ascii_read_errs [OF assms] by (auto simp: after_def stands_def pre_parser_def)
qed

lemma any_does:
  assumes "stands G s m p"
  shows "does U (anyMatcher ps) p (if s = [] then Failed else Matched (VString (encodeRune (peekByte (tl s)))) (tl s)) [] m"
proof (rule doesI)
  fix n :: nat
  have "sp_rn (pt (read p)) = peekByte (tl s)" using stands_rune(1) [OF stands_after [OF assms after_read [OF assms]]] .
  then show "yields p (dispatch U (parseExpr U n) n (anyMatcher ps) p)
      (if s = [] then Failed else Matched (VString (encodeRune (peekByte (tl s)))) (tl s)) [] m"
    using stands_rune [OF assms] after_read [OF assms] after_refl [OF assms] stands_pre [OF assms] stands_ascii [OF assms]
    by (cases s) (auto simp: parseAnyMatcher_def Let_def ascii_def)
qed

lemma class_does:
  assumes "stands G s m p" "even (length (ranges chr))"
  shows "does U (charClassMatcher chr) p
    (if classAccepts U chr (peekByte s) then Matched (VString (encodeRune (lowered U (cc_ignoreCase chr) (peekByte s)))) (tl s)
     else Failed) [] m"
proof (rule doesI)
  fix n :: nat
  show "yields p (dispatch U (parseExpr U n) n (charClassMatcher chr) p)
    (if classAccepts U chr (peekByte s) then Matched (VString (encodeRune (lowered U (cc_ignoreCase chr) (peekByte s)))) (tl s)
     else Failed) [] m"
    using stands_rune [OF assms(1)] after_read [OF assms(1)] after_refl [OF assms(1)] stands_pre [OF assms(1)]
      matchClass_even [OF assms(2)]
    by (auto simp: parseCharClassMatcher_def classAccepts_def lowered_def Let_def split: classHit.split)
qed

section \<open>Expressions with one subexpression\<close>

lemma does1:
  assumes "does U e p0 r0 es0 m0"
    and "\<And>n. yields p0 (parseExpr U n e p0) r0 es0 m0 \<Longrightarrow> yields p (dispatch U (parseExpr U n) n e' p) r es m"
  shows "does U e' p r es m"
proof -
  from assms(1) obtain N where "\<And>n. N \<le> n \<Longrightarrow> yields p0 (parseExpr U n e p0) r0 es0 m0" by (auto simp: does_def)
  then show ?thesis by (intro doesI [of N]) (simp add: assms(2))
qed

lemma after_restore:
  assumes "stands G s m p" "after p s' es m' q"
  shows "after p s es m' (restore (pt p) q)"
  using assms restore_back [of p "nlow p" q] by (auto simp: after_def stands_def left_of_def pre_parser_def kept_def)

lemma lookahead_does:
  assumes "stands G s m p" "does U e p r es m'"
  shows "does U (notExpr ps e) p (case r of Matched v s' \<Rightarrow> Failed | Failed \<Rightarrow> Matched VNil s | Aborted x \<Rightarrow> Aborted x) es m'"
    and "does U (andExpr ps e) p (case r of Matched v s' \<Rightarrow> Matched VNil s | Failed \<Rightarrow> Failed | Aborted x \<Rightarrow> Aborted x) es m'"
  by (rule does1 [OF assms(2)], insert stands_pre [OF assms(1)], cases r;
      auto simp: parseNotExpr_def parseAndExpr_def save_def dest: after_restore [OF assms(1)])+

lemma opt_does:
  assumes "stands G s m p" "does U e p r es m'"
  shows "does U (zeroOrOneExpr ps e) p (case r of Failed \<Rightarrow> Matched VNil s | _ \<Rightarrow> r) es m'"
  by (rule does1 [OF assms(2)], insert stands_pre [OF assms(1)], cases r; auto simp: parseZeroOrOneExpr_def)

lemma labeled_does:
  assumes "stands G s m p" "does U e (pushV p) r es m1" "l \<noteq> []"
  shows "does U (labeledExpr ps l e) p r es (case r of Matched v s' \<Rightarrow> AList.update l v m | _ \<Rightarrow> m)"
proof (rule does1 [OF assms(2)])
  fix n
  assume y: "yields (pushV p) (parseExpr U n e (pushV p)) r es m1"
  show "yields p (dispatch U (parseExpr U n) n (labeledExpr ps l e) p) r es (case r of Matched v s' \<Rightarrow> AList.update l v m | _ \<Rightarrow> m)"
  proof (cases r)
    case (Matched v s')
    with y obtain q where q: "parseExpr U n e (pushV p) = Ret (v, True) q" "after (pushV p) s' es m1 q" by auto
    then have a: "after p s' es m (popV q)" by (intro after_popV [OF assms(1)])
    have st: "stands G s' m (popV q)" by (rule stands_after [OF assms(1) a])
    obtain k where k: "vslots (popV q) ! (vlen (popV q) - 1) = Some k" "k = m"
      using stands_pre [OF st] by (fastforce simp: topFrame_def wf_parser_def wf_v_def)
    let ?q = "popV q\<lparr>vslots := (vslots (popV q))[vlen (popV q) - 1 := Some (AList.update l v m)]\<rparr>"
    have "after (popV q) s' [] (AList.update l v m) ?q"
      using stands_pre [OF st] kept_update_top [of "popV q"]
      by (auto simp: after_def left_of_def topFrame_def wf_parser_def wf_v_def)
    from after_trans [OF a this] have "after p s' es (AList.update l v m) ?q" by simp
    with q(1) k stands_pre [OF st] assms(3) Matched show ?thesis by (auto simp: parseLabeledExpr_def Let_def)
  next
    case Failed
    with y obtain q where "parseExpr U n e (pushV p) = Ret (VNil, False) q" "after (pushV p) s es m1 q"
      using stands_pre [OF assms(1)] by (auto simp: left_of_def)
    with after_popV [OF assms(1)] Failed show ?thesis using stands_pre [OF assms(1)] by (auto simp: parseLabeledExpr_def)
  next
    case (Aborted x)
    with y show ?thesis by (auto simp: parseLabeledExpr_def)
  qed
qed

lemma after_set_cur: "stands G s m p \<Longrightarrow> after p s [] m (p\<lparr>cur := c\<rparr>)"
  by (auto simp: stands_def after_def pre_parser_def left_of_def)

lemma after_addErrAt: "stands G s m p \<Longrightarrow> after p s [x] m (addErrAt x ps p)"
  using addErrAt_errs [of x ps p] by (auto simp: stands_def after_def pre_parser_def left_of_def)

text \<open>The code block of an action runs on the text its expression has matched.\<close>

lemma matched_text:
  assumes "stands G s m p" "after p s' es m' q"
  shows "slice (sp_position (save p)) (sp_position (save q)) q = take (length s - length s') s"
proof -
  have k: "off p \<le> off q" "data q = data p" "s' = drop (off q) (data p)" "s = drop (off p) (data p)"
    using assms by (auto simp: stands_def after_def kept_def left_of_def)
  have "off q \<le> length (data p)"
    using assms sp_reach_off_le [of "data p" "pt q"] by (auto simp: after_def kept_def wf_parser_def)
  then show ?thesis using k by (simp add: slice_def save_def take_drop)
qed

lemma action_does:
  assumes "stands G s m p" "does U e p (Matched v0 s') es m'"
  shows "\<forall>ps. \<exists>c. run \<lparr>cur_pos = ps, cur_text = take (length s - length s') s\<rparr> m' = CodeReturns c v err \<Longrightarrow>
      does U (actionExpr ps e run) p (Matched v s') (es @ (case err of None \<Rightarrow> [] | Some x \<Rightarrow> [x])) m'"
    and "\<forall>ps. \<exists>c. run \<lparr>cur_pos = ps, cur_text = take (length s - length s') s\<rparr> m' = CodePanics c x \<Longrightarrow>
      does U (actionExpr ps e run) p (Aborted x) es m'"
proof -
  have step: "topV (q\<lparr>cur := c\<rparr>) = Some m'" "slice (sp_position (save p)) (sp_position (save q)) q = take (length s - length s') s"
    if "after p s' es m' q" for q c
    using that stands_pre [OF stands_after [OF assms(1) that]] topV_top [of "q\<lparr>cur := c\<rparr>"] matched_text [OF assms(1) that]
    by auto
  show "does U (actionExpr ps e run) p (Matched v s') (es @ (case err of None \<Rightarrow> [] | Some x \<Rightarrow> [x])) m'"
    if "\<forall>ps. \<exists>c. run \<lparr>cur_pos = ps, cur_text = take (length s - length s') s\<rparr> m' = CodeReturns c v err"
  proof (rule does1 [OF assms(2)])
    fix n
    assume "yields p (parseExpr U n e p) (Matched v0 s') es m'"
    then obtain q where q: "parseExpr U n e p = Ret (v0, True) q" "after p s' es m' q" by auto
    from that obtain c where c: "run \<lparr>cur_pos = sp_position (pt p), cur_text = take (length s - length s') s\<rparr> m' = CodeReturns c v err"
      by blast
    let ?q = "case err of None \<Rightarrow> q\<lparr>cur := c\<rparr> | Some x \<Rightarrow> addErrAt x (sp_position (pt p)) (q\<lparr>cur := c\<rparr>)"
    have "after p s' (es @ (case err of None \<Rightarrow> [] | Some x \<Rightarrow> [x])) m' ?q"
    proof (rule after_trans [OF q(2)])
      have st: "stands G s' m' (q\<lparr>cur := c\<rparr>)" "after q s' [] m' (q\<lparr>cur := c\<rparr>)"
        using stands_after [OF assms(1) q(2)] after_set_cur by (auto simp: stands_def left_of_def pre_parser_def)
      show "after q s' (case err of None \<Rightarrow> [] | Some x \<Rightarrow> [x]) m' ?q"
        using st(2) after_trans [OF st(2) after_addErrAt [OF st(1)]] by (cases err) auto
    qed
    with q step [OF q(2)] c show "yields p (dispatch U (parseExpr U n) n (actionExpr ps e run) p) (Matched v s')
        (es @ (case err of None \<Rightarrow> [] | Some x \<Rightarrow> [x])) m'"
      by (auto simp: parseActionExpr_def runAction_def Let_def save_def)
  qed
  show "does U (actionExpr ps e run) p (Aborted x) es m'"
    if "\<forall>ps. \<exists>c. run \<lparr>cur_pos = ps, cur_text = take (length s - length s') s\<rparr> m' = CodePanics c x"
  proof (rule does1 [OF assms(2)])
    fix n
    assume "yields p (parseExpr U n e p) (Matched v0 s') es m'"
    then obtain q where q: "parseExpr U n e p = Ret (v0, True) q" "after p s' es m' q" by auto
    from that obtain c where c: "run \<lparr>cur_pos = sp_position (pt p), cur_text = take (length s - length s') s\<rparr> m' = CodePanics c x"
      by blast
    with q step [OF q(2)] show "yields p (dispatch U (parseExpr U n) n (actionExpr ps e run) p) (Aborted x) es m'"
      by (auto simp: parseActionExpr_def runAction_def Let_def save_def after_def)
  qed
qed

lemma action_passes:
  assumes "does U e p r es m'" "r = Failed \<or> r = Aborted x"
  shows "does U (actionExpr ps e run) p r es m'"
  by (rule does1 [OF assms(1)]) (use assms(2) in \<open>auto simp: parseActionExpr_def\<close>)

section \<open>Literals\<close>

lemma ascii_simps [simp]: "ascii []" "ascii (c # s) \<longleftrightarrow> (of_char c :: int) < 128 \<and> ascii s"
  by (auto simp: ascii_def)

lemma of_char_nonneg [simp]: "0 \<le> (of_char c :: int)"
proof -
  have "(of_char c :: int) = of_char c mod 256" by (metis char_of_char of_char_of)
  then show ?thesis by (metis pos_mod_sign zero_less_numeral)
qed

lemma encodeRune_ascii: "(of_char c :: int) < 128 \<Longrightarrow> encodeRune (of_char c) = [c]"
  by (simp add: encodeRune_def encodeValid_def validRune_def)

lemma runes_of_ascii_bytes: "ascii w \<Longrightarrow> runes_of w = map of_char w"
  by (induction w) (simp_all add: runes_of.simps)

lemma matchLit_does:
  assumes "stands G s0 m p0" "after p0 s [] m p" "ascii w"
  shows "yields p0 (matchLit U False (pt p0) buf (map of_char w) p)
    (if Sublist.prefix w s then Matched (VString (buf @ w)) (drop (length w) s) else Failed) [] m"
  using assms(2,3)
proof (induction w arbitrary: buf s p)
  case Nil
  then show ?case by simp
next
  case (Cons c w)
  have st: "stands G s m p" by (rule stands_after [OF assms(1) Cons.prems(1)])
  have rn: "sp_rn (pt p) = peekByte s" by (rule stands_rune [OF st])
  show ?case
  proof (cases s)
    case Nil
    with rn Cons.prems after_restore [OF assms(1) Cons.prems(1)] stands_pre [OF assms(1)] show ?thesis by (auto simp: Let_def)
  next
    case (Cons b s')
    have r: "after p0 s' [] m (read p)" using after_trans [OF Cons.prems(1) after_read [OF st]] Cons by simp
    have a: "(of_char c :: int) < 128" "ascii w" using Cons.prems(2) by auto
    have e: "(of_char b :: int) = of_char c \<longleftrightarrow> b = c" by (metis char_of_char)
    show ?thesis
      using Cons.IH [OF r a(2), of "buf @ [c]"] after_restore [OF assms(1) Cons.prems(1)] stands_pre [OF assms(1)] Cons rn e
        encodeRune_ascii [OF a(1)]
      by (auto simp: Let_def)
  qed
qed

lemma lit_does:
  assumes "stands G s m p" "ascii w"
  shows "does U (litMatcher ps w False) p (if Sublist.prefix w s then Matched (VString w) (drop (length w) s) else Failed) [] m"
  using matchLit_does [OF assms(1) after_refl [OF assms(1)] assms(2), of U "[]"]
  by (intro doesI [of 0]; cases "Sublist.prefix w s")
    (simp_all add: parseLitMatcher_def runes_of_ascii_bytes [OF assms(2)] save_def)

section \<open>Choices and rules\<close>

lemma choice_does_head:
  assumes "stands G s m p" "does U e (pushV p) r es m1" "r \<noteq> Failed"
  shows "does U (choiceExpr ps (e # as)) p r es m"
proof (rule does1 [OF assms(2)])
  fix n
  assume "yields (pushV p) (parseExpr U n e (pushV p)) r es m1"
  with after_popV [OF assms(1)] assms(3)
  show "yields p (dispatch U (parseExpr U n) n (choiceExpr ps (e # as)) p) r es m"
    by (cases r) (auto simp: parseChoiceExpr_def)
qed

text \<open>The rounds of a choice: \<open>does\<close> for the alternatives that are left.\<close>

lemma choice_does_tail:
  assumes "stands G s m p" "does U e (pushV p) Failed es m1"
    and "\<And>q. stands G s m q \<Longrightarrow> does U (choiceExpr ps as) q r es2 m2"
  shows "does U (choiceExpr ps (e # as)) p r (es @ es2) m2"
proof -
  obtain N q where q: "\<And>n. N \<le> n \<Longrightarrow> parseExpr U n e (pushV p) = Ret (VNil, False) q" "after (pushV p) s es m1 q"
    using doesE [OF assms(2)] stands_pre [OF assms(1)] by (auto simp: left_of_def) metis
  have a: "after p s es m (popV q)" by (rule after_popV [OF assms(1) q(2)])
  from assms(3) [OF stands_after [OF assms(1) a]] obtain M where
    M: "\<And>n. M \<le> n \<Longrightarrow> yields (popV q) (parseExpr U n (choiceExpr ps as) (popV q)) r es2 m2" by (auto simp: does_def)
  show ?thesis
  proof (rule doesI [of "max N M"])
    fix n
    assume n: "max N M \<le> n"
    have "yields p (parseExpr U (Suc n) (choiceExpr ps as) (popV q)) r (es @ es2) m2"
      by (rule yields_trans [OF a M]) (use n stands_pre [OF assms(1)] in auto)
    with n q(1) show "yields p (dispatch U (parseExpr U n) n (choiceExpr ps (e # as)) p) r (es @ es2) m2"
      by (simp add: parseChoiceExpr_def)
  qed
qed

lemma ref_does:
  assumes "stands G s m p" "name \<noteq> []" "G name = Some r"
    and "\<And>q. stands G s [] q \<Longrightarrow> does U (rule_expr r) q res es m1"
  shows "does U (ruleRefExpr ps name) p res es m"
proof -
  let ?p = "p\<lparr>rstack := rstack p @ [r]\<rparr>"
  have st: "stands G s m ?p" using assms(1) by (simp add: stands_def left_of_def pre_parser_def wf_parser_def wf_v_def)
  have t: "map_of (rules p) name = Some r" using assms(1,3) by (auto simp: stands_def)
  show ?thesis
  proof (rule does1 [OF assms(4) [OF stands_pushV [OF st]]])
    fix n
    assume y: "yields (pushV ?p) (parseExpr U n (rule_expr r) (pushV ?p)) res es m1"
    have bk: "after p s' es m (popV q\<lparr>rstack := butlast (rstack (popV q))\<rparr>)" if "after (pushV ?p) s' es m1 q" for s' q
      using after_popV [OF st that] by (auto simp: after_def kept_def left_of_def nlow_def wf_parser_def wf_v_def)
    from y assms(2) t bk stands_pre [OF assms(1)]
    show "yields p (dispatch U (parseExpr U n) n (ruleRefExpr ps name) p) res es m"
      by (cases res) (auto simp: parseRuleRefExpr_def parseRule_def Let_def left_of_def)
  qed
qed

lemma undefined_does:
  assumes "stands G s m p" "name \<noteq> []" "G name = None"
  shows "does U (ruleRefExpr ps name) p Failed [''undefined rule: '' @ name] m"
proof (rule doesI [of 0])
  fix n :: nat
  have "map_of (rules p) name = None" using assms(1,3) by (auto simp: stands_def)
  with after_addErrAt [OF assms(1)] stands_pre [OF assms(1)] assms(2)
  show "yields p (dispatch U (parseExpr U n) n (ruleRefExpr ps name) p) Failed [''undefined rule: '' @ name] m"
    by (auto simp: parseRuleRefExpr_def addErr_def)
qed

section \<open>Sequences and repetitions\<close>

definition does_seq :: "unicode_env \<Rightarrow> 'a parser \<Rightarrow> 'a goval list \<Rightarrow> 'a expr list \<Rightarrow> 'a parser \<Rightarrow> 'a outcome \<Rightarrow>
    string list \<Rightarrow> 'a vmap \<Rightarrow> bool" where
  "does_seq U p0 vs es p r msgs m \<longleftrightarrow> (\<exists>N. \<forall>n\<ge>N. yields p0 (parseSeq (parseExpr U n) (pt p0) vs es p) r msgs m)"

lemma seq_does: "does_seq U p [] es p r msgs m \<Longrightarrow> does U (seqExpr ps es) p r msgs m"
  unfolding does_seq_def by (elim exE, rule doesI, elim allE impE) (simp_all add: parseSeqExpr_def save_def)

lemma seq_does_cons:
  assumes "stands G s0 m0 p0" "after p0 s msgs0 m p" "does U e p (Matched v s1) msgs1 m1"
    and "\<And>q. after p0 s1 (msgs0 @ msgs1) m1 q \<Longrightarrow> does_seq U p0 (vs @ [v]) es q r msgs m2"
  shows "does_seq U p0 vs (e # es) p r msgs m2"
proof -
  obtain N q where q: "\<And>n. N \<le> n \<Longrightarrow> parseExpr U n e p = Ret (v, True) q" "after p s1 msgs1 m1 q"
    using doesE [OF assms(3)] by (metis yields_simps(1))
  from assms(4) [OF after_trans [OF assms(2) q(2)]] obtain M where
    "\<And>n. M \<le> n \<Longrightarrow> yields p0 (parseSeq (parseExpr U n) (pt p0) (vs @ [v]) es q) r msgs m2" by (auto simp: does_seq_def)
  with q(1) have "\<forall>n\<ge>max N M. yields p0 (parseSeq (parseExpr U n) (pt p0) vs (e # es) p) r msgs m2" by simp
  then show ?thesis unfolding does_seq_def by blast
qed

lemma seq_does_stop:
  assumes "stands G s0 m0 p0" "after p0 s msgs0 m p" "does U e p r msgs1 m1" "r = Failed \<or> r = Aborted x"
  shows "does_seq U p0 vs (e # es) p r (msgs0 @ msgs1) m1"
proof -
  from assms(3) obtain N where N: "\<And>n. N \<le> n \<Longrightarrow> yields p (parseExpr U n e p) r msgs1 m1" by (auto simp: does_def)
  have "yields p0 (parseSeq (parseExpr U n) (pt p0) vs (e # es) p) r (msgs0 @ msgs1) m1" if n: "N \<le> n" for n
  proof (cases "r = Failed")
    case True
    with N [OF n] obtain q where q: "parseExpr U n e p = Ret (VNil, False) q" "after p (left_of p) msgs1 m1 q" by auto
    from after_restore [OF assms(1) after_trans [OF assms(2) q(2)]] q(1) True stands_pre [OF assms(1)] show ?thesis by auto
  next
    case False
    with N [OF n] assms(2,4) show ?thesis by (auto simp: after_def)
  qed
  then show ?thesis unfolding does_seq_def by blast
qed

text \<open>A repetition needs fuel for its rounds as well.\<close>

definition yields_many :: "'a parser \<Rightarrow> ('a parser, 'a goval list) result \<Rightarrow> 'a outcome \<Rightarrow> string list \<Rightarrow> 'a vmap \<Rightarrow> bool" where
  "yields_many p res r es m \<longleftrightarrow>
     (case r of
        Matched v s \<Rightarrow> \<exists>vs q. v = VSlice vs \<and> res = Ret vs q \<and> after p s es m q
      | Failed \<Rightarrow> False
      | Aborted x \<Rightarrow> \<exists>q. res = Panic x q \<and> msgs_of q = msgs_of p @ es)"

lemma yields_many_simps [simp]:
  "yields_many p res (Matched v s) es m \<longleftrightarrow> (\<exists>vs q. v = VSlice vs \<and> res = Ret vs q \<and> after p s es m q)"
  "yields_many p res Failed es m \<longleftrightarrow> False"
  "yields_many p res (Aborted x) es m \<longleftrightarrow> (\<exists>q. res = Panic x q \<and> msgs_of q = msgs_of p @ es)"
  by (simp_all add: yields_many_def)

definition does_many :: "unicode_env \<Rightarrow> 'a goval list \<Rightarrow> 'a expr \<Rightarrow> 'a parser \<Rightarrow> 'a outcome \<Rightarrow> string list \<Rightarrow> 'a vmap \<Rightarrow> bool" where
  "does_many U vs e p r es m \<longleftrightarrow>
     (\<exists>N. \<forall>n\<ge>N. \<forall>k\<ge>N. yields_many p (parseMany (parseExpr U n) k e vs p) r es m)"

lemma many_does_stop:
  assumes "stands G s m p" "does U e p r es m1" "r = Failed \<or> r = Aborted x"
  shows "does_many U vs e p (case r of Failed \<Rightarrow> Matched (VSlice vs) s | _ \<Rightarrow> r) es m1"
proof -
  from assms(2) obtain N where N: "\<And>n. N \<le> n \<Longrightarrow> yields p (parseExpr U n e p) r es m1" by (auto simp: does_def)
  have "yields_many p (parseMany (parseExpr U n) k e vs p) (case r of Failed \<Rightarrow> Matched (VSlice vs) s | _ \<Rightarrow> r) es m1"
    if "Suc N \<le> n" "Suc N \<le> k" for n k
    using that N [of n] assms(3) stands_pre [OF assms(1)] by (cases k) auto
  then show ?thesis unfolding does_many_def by blast
qed

lemma many_does_cons:
  assumes "does U e p (Matched v s1) es1 m1"
    and "\<And>q. after p s1 es1 m1 q \<Longrightarrow> does_many U (vs @ [v]) e q r es2 m2"
  shows "does_many U vs e p r (es1 @ es2) m2"
proof -
  obtain N q where q: "\<And>n. N \<le> n \<Longrightarrow> parseExpr U n e p = Ret (v, True) q" "after p s1 es1 m1 q"
    using doesE [OF assms(1)] by (metis yields_simps(1))
  from assms(2) [OF q(2)] obtain M where
    M: "\<And>n k. M \<le> n \<Longrightarrow> M \<le> k \<Longrightarrow> yields_many q (parseMany (parseExpr U n) k e (vs @ [v]) q) r es2 m2"
    by (auto simp: does_many_def)
  have "yields_many p (parseMany (parseExpr U n) k e vs p) r (es1 @ es2) m2" if "Suc (max N M) \<le> n" "Suc (max N M) \<le> k" for n k
  proof (cases k)
    case (Suc j)
    with that have "yields_many q (parseMany (parseExpr U n) j e (vs @ [v]) q) r es2 m2" by (intro M) auto
    with Suc that q show ?thesis
      using after_trans [OF q(2)] by (cases r) (auto simp: after_def)
  qed (use that in simp)
  then show ?thesis unfolding does_many_def by blast
qed

lemma repetition_does:
  assumes "does_many U [] e p r es m"
  shows "does U (zeroOrMoreExpr ps e) p r es m"
    and "does U (oneOrMoreExpr ps e) p (if r = Matched (VSlice []) (left_of p) then Failed else r) es m \<or> (\<exists>s. r = Matched (VSlice []) s \<and> s \<noteq> left_of p)"
proof -
  from assms obtain N where N: "\<And>n. N \<le> n \<Longrightarrow> yields_many p (parseMany (parseExpr U n) n e [] p) r es m"
    by (auto simp: does_many_def)
  show "does U (zeroOrMoreExpr ps e) p r es m"
  proof (rule doesI [of N])
    fix n
    assume "N \<le> n"
    from N [OF this] show "yields p (dispatch U (parseExpr U n) n (zeroOrMoreExpr ps e) p) r es m"
      by (cases r) (auto simp: parseZeroOrMoreExpr_def)
  qed
  show "does U (oneOrMoreExpr ps e) p (if r = Matched (VSlice []) (left_of p) then Failed else r) es m \<or>
      (\<exists>s. r = Matched (VSlice []) s \<and> s \<noteq> left_of p)"
  proof (cases "\<exists>s. r = Matched (VSlice []) s \<and> s \<noteq> left_of p")
    case False
    have "does U (oneOrMoreExpr ps e) p (if r = Matched (VSlice []) (left_of p) then Failed else r) es m"
    proof (rule doesI [of N])
      fix n
      assume "N \<le> n"
      from N [OF this] False show "yields p (dispatch U (parseExpr U n) n (oneOrMoreExpr ps e) p)
          (if r = Matched (VSlice []) (left_of p) then Failed else r) es m"
        by (cases r) (auto simp: parseOneOrMoreExpr_def)
    qed
    then show ?thesis ..
  qed simp
qed

section \<open>The engine runs the judgement\<close>

lemma bs_runs:
  "bs U G e s m r es m' \<Longrightarrow> (\<And>p. stands G s m p \<Longrightarrow> does U e p r es m')"
  "bs_seq U G xs s m vs r es m' \<Longrightarrow>
    (\<And>p0 s0 m0 p es0. stands G s0 m0 p0 \<Longrightarrow> after p0 s es0 m p \<Longrightarrow> does_seq U p0 vs xs p r (es0 @ es) m')"
  "bs_many U G e s m vs r es m' \<Longrightarrow> (\<And>p. stands G s m p \<Longrightarrow> does_many U vs e p r es m')"
proof (induction rule: bs_bs_seq_bs_many.inducts)
  case (action e s m v0 s' es m' run v err ps)
  then show ?case using action_does(1) by blast
next
  case (action_panic e s m v0 s' es m' run x ps)
  then show ?case using action_does(2) by blast
next
  case (action_no e s m es m' ps run)
  then show ?case using action_passes by blast
next
  case (action_abort e s m x es m' ps run)
  then show ?case using action_passes by blast
next
  case (not_ok e s m es m' ps)
  then show ?case using lookahead_does(1) [of G s m p U e Failed] by fastforce
next
  case (not_no e s m v s' es m' ps)
  then show ?case using lookahead_does(1) [of G s m p U e "Matched v s'"] by fastforce
next
  case (not_abort e s m x es m' ps)
  then show ?case using lookahead_does(1) [of G s m p U e "Aborted x"] by fastforce
next
  case (and_ok e s m v s' es m' ps)
  then show ?case using lookahead_does(2) [of G s m p U e "Matched v s'"] by fastforce
next
  case (and_no e s m es m' ps)
  then show ?case using lookahead_does(2) [of G s m p U e Failed] by fastforce
next
  case (and_abort e s m x es m' ps)
  then show ?case using lookahead_does(2) [of G s m p U e "Aborted x"] by fastforce
next
  case (any_ok ps c s m)
  then show ?case using any_does [OF any_ok.prems] by simp
next
  case (any_no ps m)
  then show ?case using any_does [OF any_no.prems] by simp
next
  case (class_ok chr c s m)
  then show ?case using class_does [OF class_ok.prems class_ok.hyps(1), of U] by simp
next
  case (class_no chr s m)
  then show ?case using class_does [OF class_no.prems class_no.hyps(1), of U] by simp
next
  case (choice_ok e s v s' es m1 ps as m)
  then show ?case by (intro choice_does_head [OF choice_ok.prems choice_ok.IH(2)]) (auto intro: stands_pushV)
next
  case (choice_abort e s x es m1 ps as m)
  then show ?case by (intro choice_does_head [OF choice_abort.prems choice_abort.IH(2)]) (auto intro: stands_pushV)
next
  case (choice_next e s es m1 ps as m r es2 m2)
  then show ?case by (intro choice_does_tail [OF choice_next.prems]) (auto intro: stands_pushV)
next
  case (choice_end ps s m)
  then show ?case using after_refl stands_pre by (fastforce intro!: doesI [of 0] simp: parseChoiceExpr_def)
next
  case (labeled_ok l e s v s' es m1 ps m)
  then show ?case using labeled_does [OF labeled_ok.prems, where r = "Matched v s'"] stands_pushV by fastforce
next
  case (labeled_no l e s es m1 ps m)
  then show ?case using labeled_does [OF labeled_no.prems, where r = Failed] stands_pushV by fastforce
next
  case (labeled_abort l e s x es m1 ps m)
  then show ?case using labeled_does [OF labeled_abort.prems, where r = "Aborted x"] stands_pushV by fastforce
next
  case (lit_ok val ps s m)
  then show ?case using lit_does [OF lit_ok.prems lit_ok.hyps] by simp
next
  case (lit_no val s ps m)
  then show ?case using lit_does [OF lit_no.prems lit_no.hyps(1)] by simp
next
  case (plus_ok e s m vs s' es m' ps)
  then show ?case using repetition_does(2) [of U e p "Matched (VSlice vs) s'" es m' ps] by auto
next
  case (plus_no e s m es m' ps)
  then show ?case using repetition_does(2) [of U e p "Matched (VSlice []) s" es m' ps] stands_pre by fastforce
next
  case (plus_abort e s m x es m' ps)
  then show ?case using repetition_does(2) [of U e p "Aborted x" es m' ps] by auto
next
  case (star_ok e s m vs s' es m' ps)
  then show ?case using repetition_does(1) by blast
next
  case (star_abort e s m x es m' ps)
  then show ?case using repetition_does(1) by blast
next
  case (opt_ok e s m v s' es m' ps)
  then show ?case using opt_does [of G s m p U e "Matched v s'"] by fastforce
next
  case (opt_no e s m es m' ps)
  then show ?case using opt_does [of G s m p U e Failed] by fastforce
next
  case (opt_abort e s m x es m' ps)
  then show ?case using opt_does [of G s m p U e "Aborted x"] by fastforce
next
  case (ref name r s res es m1 ps m)
  then show ?case using ref_does by blast
next
  case (ref_undefined name ps s m)
  then show ?case using undefined_does by blast
next
  case (seq es s m res msgs m' ps)
  then show ?case using seq_does seq.IH(2) [OF seq.prems after_refl [OF seq.prems]] by fastforce
next
  case (seq_nil s m vs)
  then show ?case by (auto simp: does_seq_def)
next
  case (seq_cons e s m v s1 es1 m1 es vs res es2 m2)
  have st: "stands G s m p" by (rule stands_after [OF seq_cons.prems])
  show ?case
    by (rule seq_does_cons [OF seq_cons.prems seq_cons.IH(2) [OF st]])
      (use seq_cons.IH(4) [OF seq_cons.prems(1)] in \<open>simp only: append_assoc [symmetric]\<close>)
next
  case (seq_no e s m es1 m1 es vs)
  then show ?case using seq_does_stop [OF seq_no.prems] stands_after [OF seq_no.prems] by blast
next
  case (seq_abort e s m x es1 m1 es vs)
  then show ?case using seq_does_stop [OF seq_abort.prems] stands_after [OF seq_abort.prems] by blast
next
  case (many_end e s m es1 m1 vs)
  then show ?case using many_does_stop [OF many_end.prems, where r = Failed] by fastforce
next
  case (many_cons e s m v s1 es1 m1 vs res es2 m2)
  show ?case
    by (rule many_does_cons [OF many_cons.IH(2) [OF many_cons.prems]])
      (use many_cons.IH(4) stands_after [OF many_cons.prems] in blast)
next
  case (many_abort e s m x es1 m1 vs)
  then show ?case using many_does_stop [OF many_abort.prems, where r = "Aborted x"] by fastforce
qed

section \<open>Whole parses\<close>

lemma started_stands:
  assumes "ascii b"
  shows "stands (table_of g) b [] (pushV (started g f b\<lparr>rstack := rs\<rparr>))" "errs (started g f b) = []"
proof -
  let ?p = "started g f b"
  have w: "wf_parser ?p" by (rule started_wf)
  have d: "data ?p = b" "off ?p = 0"
    by (simp_all add: started_def read_def Let_def addErr_def buildRulesTable_def newParser_def)
  have "decodeRune b = (sp_rn (pt ?p), sp_w (pt ?p))"
    using w d sp_reach_decode [of b "pt ?p"] by (simp add: wf_parser_def)
  with assms have "sp_rn (pt ?p) = RuneError \<longrightarrow> sp_w (pt ?p) = 0" by (cases b) auto
  then show "errs ?p = []"
    by (auto simp: started_def read_def Let_def addErr_def buildRulesTable_def newParser_def)
  have w': "wf_parser (?p\<lparr>rstack := rs\<rparr>)" using w by (simp add: wf_parser_def wf_v_def)
  then show "stands (table_of g) b [] (pushV (?p\<lparr>rstack := rs\<rparr>))"
    using assms d started_rules [of g f b] pushV_top [of "?p\<lparr>rstack := rs\<rparr>"] w' [unfolded wf_parser_def]
    by (simp add: stands_def pre_parser_def wf_pushV left_of_def topFrame_def)
qed

definition entered :: "'a grammar \<Rightarrow> string \<Rightarrow> gobytes \<Rightarrow> 'a rule \<Rightarrow> 'a parser" where
  "entered g f b r = pushV (started g f b\<lparr>rstack := rstack (started g f b) @ [r]\<rparr>)"

lemma start_rule_runs:
  assumes "ascii b" "bs U (table_of g) (rule_expr r) b [] res es m"
  obtains n where "yields (entered g f b r) (parseExpr U n (rule_expr r) (entered g f b r)) res es m"
    "errs (entered g f b r) = []"
proof -
  have "does U (rule_expr r) (entered g f b r) res es m"
    unfolding entered_def by (rule bs_runs(1) [OF assms(2) started_stands(1) [OF assms(1)]])
  with that started_stands(2) [OF assms(1)] show ?thesis by (auto simp: does_def entered_def)
qed

lemma parse_matched:
  assumes "grammar_rules g \<noteq> []" "ascii b" "bs U (table_of g) (rule_expr (hd (grammar_rules g))) b [] (Matched v s) [] m"
  obtains n q where "parser_parse U n g (newParser f b) = Some (q, v, None)" "left_of q = s"
proof -
  let ?r = "hd (grammar_rules g)"
  obtain n q where q: "parseExpr U n (rule_expr ?r) (entered g f b ?r) = Ret (v, True) q"
      "left_of q = s" "errs q = []"
    by (rule start_rule_runs [OF assms(2,3), where f = f]) (auto simp: after_def)
  show ?thesis
    by (rule that [of n "popV q\<lparr>rstack := butlast (rstack (popV q))\<rparr>"])
      (use q assms(1) in \<open>simp_all add: parse_unfold parseRule_def Let_def entered_def errList_err_def left_of_def\<close>)
qed

lemma parse_aborted:
  assumes "grammar_rules g \<noteq> []" "ascii b" "bs U (table_of g) (rule_expr (hd (grammar_rules g))) b [] (Aborted x) [] m"
    and "x \<noteq> Hangs"
  obtains n q e where "parser_parse U n g (newParser f b) = Some (q, VNil, Some [e])" "Inner e = panicMessage x"
proof -
  let ?r = "hd (grammar_rules g)"
  obtain n q where q: "parseExpr U n (rule_expr ?r) (entered g f b ?r) = Panic x q"
      "errs q = []"
    by (rule start_rule_runs [OF assms(2,3), where f = f]) auto
  obtain e where e: "errs (addErr (panicMessage x) q) = [e]" "Inner e = panicMessage x"
    using addErrAt_errs [of "panicMessage x" "sp_position (pt q)" q] q(2) by (auto simp: addErr_def)
  show ?thesis
    by (rule that [of n "addErr (panicMessage x) q" e])
      (use q e assms(1,4) in \<open>simp_all add: parse_unfold parseRule_def Let_def entered_def errList_err_def errList_dedupe_def\<close>)
qed

end
