(* ===== verification/Calculator_Evaluation.thy ===== *)
theory Calculator_Evaluation
  imports Calculator_Properties Peg_BigStep
begin

text \<open>
  The calculator computes what its expressions mean. The reference is an arithmetic of exact integers, of which every
  result is reduced to 64 bits, over a syntax tree that associates to the left; the concrete syntax trees keep the blanks and
  the digits, so that every text of the calculator's language is the text of one of them.
\<close>

section \<open>The reference\<close>

datatype binop = Plus | Minus | Times | Over

datatype arith = Lit int | Bin binop arith arith

definition wrap64 :: "int \<Rightarrow> int" where
  "wrap64 z = (z + 2 ^ 63) mod 2 ^ 64 - 2 ^ 63"

fun apply_op :: "binop \<Rightarrow> int \<Rightarrow> int \<Rightarrow> int option" where
  "apply_op Plus x y = Some (wrap64 (x + y))"
| "apply_op Minus x y = Some (wrap64 (x - y))"
| "apply_op Times x y = Some (wrap64 (x * y))"
| "apply_op Over x y = (if y = 0 then None else Some (wrap64 (sgn x * sgn y * (\<bar>x\<bar> div \<bar>y\<bar>))))"

fun meaning :: "arith \<Rightarrow> int option" where
  "meaning (Lit n) = Some n"
| "meaning (Bin op a b) =
     (case meaning a of None \<Rightarrow> None | Some x \<Rightarrow> (case meaning b of None \<Rightarrow> None | Some y \<Rightarrow> apply_op op x y))"

section \<open>Concrete syntax\<close>

datatype cexpr = CExpr string cterm etail string
  and etail = ENil | ECons string binop string cterm etail
  and cterm = CTerm cfactor ttail
  and ttail = TNil | TCons string binop string cfactor ttail
  and cfactor = Paren cexpr | Number bool string

fun op_char :: "binop \<Rightarrow> char" where
  "op_char Plus = CHR ''+''" | "op_char Minus = CHR ''-''" | "op_char Times = CHR ''*''" | "op_char Over = CHR ''/''"

fun showE :: "cexpr \<Rightarrow> string" and showEs :: "etail \<Rightarrow> string" and showT :: "cterm \<Rightarrow> string"
  and showTs :: "ttail \<Rightarrow> string" and showF :: "cfactor \<Rightarrow> string"
where
  "showE (CExpr w t es w') = w @ showT t @ showEs es @ w'"
| "showEs ENil = []"
| "showEs (ECons a op b t es) = a @ op_char op # b @ showT t @ showEs es"
| "showT (CTerm x ts) = showF x @ showTs ts"
| "showTs TNil = []"
| "showTs (TCons a op b x ts) = a @ op_char op # b @ showF x @ showTs ts"
| "showF (Paren e) = CHR ''('' # showE e @ [CHR '')'']"
| "showF (Number neg ds) = (if neg then CHR ''-'' # ds else ds)"

fun absE :: "cexpr \<Rightarrow> arith" and absEs :: "arith \<Rightarrow> etail \<Rightarrow> arith" and absT :: "cterm \<Rightarrow> arith"
  and absTs :: "arith \<Rightarrow> ttail \<Rightarrow> arith" and absF :: "cfactor \<Rightarrow> arith"
where
  "absE (CExpr w t es w') = absEs (absT t) es"
| "absEs l ENil = l"
| "absEs l (ECons a op b t es) = absEs (Bin op l (absT t)) es"
| "absT (CTerm x ts) = absTs (absF x) ts"
| "absTs l TNil = l"
| "absTs l (TCons a op b x ts) = absTs (Bin op l (absF x)) ts"
| "absF (Paren e) = absE e"
| "absF (Number neg ds) = Lit (if neg then - digitsValue ds else digitsValue ds)"

definition isBlank :: "char \<Rightarrow> bool" where
  "isBlank c \<longleftrightarrow> c \<in> {CHR '' '', CHR 0x0A, CHR 0x09, CHR 0x0D}"

fun okE :: "cexpr \<Rightarrow> bool" and okEs :: "etail \<Rightarrow> bool" and okT :: "cterm \<Rightarrow> bool"
  and okTs :: "ttail \<Rightarrow> bool" and okF :: "cfactor \<Rightarrow> bool"
where
  "okE (CExpr w t es w') \<longleftrightarrow> list_all isBlank w \<and> okT t \<and> okEs es \<and> list_all isBlank w'"
| "okEs ENil \<longleftrightarrow> True"
| "okEs (ECons a op b t es) \<longleftrightarrow> list_all isBlank a \<and> op \<in> {Plus, Minus} \<and> list_all isBlank b \<and> okT t \<and> okEs es"
| "okT (CTerm x ts) \<longleftrightarrow> okF x \<and> okTs ts"
| "okTs TNil \<longleftrightarrow> True"
| "okTs (TCons a op b x ts) \<longleftrightarrow> list_all isBlank a \<and> op \<in> {Times, Over} \<and> list_all isBlank b \<and> okF x \<and> okTs ts"
| "okF (Paren e) \<longleftrightarrow> okE e"
| "okF (Number neg ds) \<longleftrightarrow> ds \<noteq> [] \<and> list_all isDigit ds \<and> digitsValue ds \<le> (if neg then 2 ^ 63 else 2 ^ 63 - 1)"

section \<open>Machine integers\<close>

lemma wrap64_sint: "sint (word_of_int z :: goint) = wrap64 z"
  unfolding wrap64_def by (simp add: sint_sbintrunc' signed_take_bit_eq_take_bit_shift take_bit_eq_mod)

lemma word_of_wrap64: "word_of_int (wrap64 z) = (word_of_int z :: goint)"
  by (simp flip: wrap64_sint)

lemma wrap64_range: "- (2 ^ 63) \<le> wrap64 z \<and> wrap64 z < 2 ^ 63"
  by (simp add: wrap64_def)

lemma wrap64_id: "- (2 ^ 63) \<le> z \<Longrightarrow> z < 2 ^ 63 \<Longrightarrow> wrap64 z = z"
  by (simp add: wrap64_def)

abbreviation fits :: "int \<Rightarrow> bool" where
  "fits z \<equiv> wrap64 z = z"

lemma callOp_apply:
  assumes "fits x" "fits y"
  shows "callOp [op_char op] (word_of_int x) (word_of_int y) =
    (case apply_op op x y of None \<Rightarrow> Inl divideByZero | Some z \<Rightarrow> Inr (word_of_int z))"
proof (cases op)
  case Over
  have "(word_of_int y :: goint) = 0 \<longleftrightarrow> y = 0" using assms(2) wrap64_sint [of y] by (metis sint_0 word_of_int_0)
  then show ?thesis
    using Over assms wrap64_sint [of x] wrap64_sint [of y]
    by (simp add: callOp_def ops_def goQuot_def divideByZero_def word_of_wrap64 signed_divide_int_def)
qed (simp_all add: callOp_def ops_def word_of_wrap64)

lemma apply_op_fits: "apply_op op x y = Some z \<Longrightarrow> fits z"
  using wrap64_range wrap64_id by (cases op) (auto split: if_splits)

lemma digits_not_signs: "list_all isDigit ds \<Longrightarrow> ds \<noteq> [] \<Longrightarrow> \<exists>c cs. ds = c # cs \<and> c \<noteq> CHR ''-'' \<and> c \<noteq> CHR ''+''"
  by (cases ds) (auto simp: isDigit_def)

lemma Atoi_number:
  assumes "okF (Number neg ds)" "absF (Number neg ds) = Lit n"
  shows "Atoi (showF (Number neg ds)) = (word_of_int n, None)"
proof -
  obtain c cs where c: "ds = c # cs" "c \<noteq> CHR ''-''" "c \<noteq> CHR ''+''" using assms(1) digits_not_signs [of ds] by auto
  show ?thesis using assms c by (cases neg) (auto simp: atoiMagnitude_def Let_def)
qed

lemma digits_fold_nonneg:
  "list_all isDigit ds \<Longrightarrow> 0 \<le> k \<Longrightarrow> 0 \<le> foldl (\<lambda>n c. 10 * n + (of_char c - 48)) (k :: int) ds"
proof (induction ds arbitrary: k)
  case (Cons c ds)
  then have "0 \<le> 10 * k + (of_char c - 48)" by (simp add: isDigit_def Let_def)
  with Cons show ?case by simp
qed simp

lemma digitsValue_nonneg: "list_all isDigit ds \<Longrightarrow> 0 \<le> digitsValue ds"
  using digits_fold_nonneg [of ds 0] by (simp add: digitsValue_def)

lemma number_fits: "okF (Number neg ds) \<Longrightarrow> absF (Number neg ds) = Lit n \<Longrightarrow> fits n"
  using digitsValue_nonneg [of ds] by (intro wrap64_id) (auto split: if_splits)

section \<open>Running the rules without operands\<close>

abbreviation calc_bs :: "unicode_env \<Rightarrow> calcval expr \<Rightarrow> gobytes \<Rightarrow> calcval vmap \<Rightarrow> calcval outcome \<Rightarrow> calcval vmap \<Rightarrow> bool" where
  "calc_bs U e s m r m' \<equiv> bs U (table_of calculator_g) e s m r [] m'"

lemma calc_table:
  "table_of calculator_g ''Input'' = Some calculator_Input" "table_of calculator_g ''Expr'' = Some calculator_Expr"
  "table_of calculator_g ''Term'' = Some calculator_Term" "table_of calculator_g ''Factor'' = Some calculator_Factor"
  "table_of calculator_g ''AddOp'' = Some calculator_AddOp" "table_of calculator_g ''MulOp'' = Some calculator_MulOp"
  "table_of calculator_g ''Integer'' = Some calculator_Integer" "table_of calculator_g ''_'' = Some calculator_underscore"
  "table_of calculator_g ''EOF'' = Some calculator_EOF"
  by (simp_all add: table_of_def calculator_g_def calculator_Input_def calculator_Expr_def calculator_Term_def
      calculator_Factor_def calculator_AddOp_def calculator_MulOp_def calculator_Integer_def calculator_underscore_def
      calculator_EOF_def)

lemma calc_ref:
  assumes "table_of calculator_g name = Some r" "name \<noteq> []" "calc_bs U (rule_expr r) s [] res m1"
  shows "calc_bs U (ruleRefExpr ps name) s m res m"
  using assms by (intro ref) auto

definition charVals :: "gobytes \<Rightarrow> calcval goval list" where
  "charVals s = map (\<lambda>c. VString [c]) s"

lemma class_run:
  assumes "even (length (ranges chr))" "\<And>c. classAccepts U chr (of_char c) \<longleftrightarrow> P c" "\<not> classAccepts U chr RuneError"
    and "\<And>c. P c \<Longrightarrow> (of_char c :: int) < 128" "\<not> cc_ignoreCase chr"
  shows "bs_many U G (charClassMatcher chr) s m vs (Matched (VSlice (vs @ charVals (takeWhile P s))) (dropWhile P s)) [] m"
proof (induction s arbitrary: vs)
  case Nil
  show ?case using many_end [OF class_no [of chr U "[]" G m]] assms(1,3) by (simp add: charVals_def)
next
  case (Cons c s)
  show ?case
  proof (cases "P c")
    case True
    then have "bs U G (charClassMatcher chr) (c # s) m (Matched (VString [c]) s) [] m"
      using class_ok [of chr U c G s m] assms(1,2,4,5) by (simp add: lowered_def encodeRune_ascii)
    from many_cons [OF this Cons.IH] show ?thesis using True by (simp add: charVals_def)
  next
    case False
    then show ?thesis using many_end [OF class_no [of chr U "c # s" G m]] assms(1,2) by (simp add: charVals_def)
  qed
qed

definition blankVal :: "gobytes \<Rightarrow> calcval goval" where
  "blankVal s = VSlice (charVals s)"

lemma blank_byte: "isBlank c \<longleftrightarrow> (of_char c :: int) \<in> {32, 10, 9, 13}"
proof -
  have "(of_char c :: int) = of_char d \<longleftrightarrow> c = d" for d by (metis char_of_char)
  from this [of "CHR 0x20"] this [of "CHR 0x0A"] this [of "CHR 0x09"] this [of "CHR 0x0D"] show ?thesis
    by (simp add: isBlank_def)
qed

lemma blanks_run:
  "calc_bs U (ruleRefExpr ps ''_'') s m (Matched (blankVal (takeWhile isBlank s)) (dropWhile isBlank s)) m"
proof (rule calc_ref [OF calc_table(8)])
  show "calc_bs U (rule_expr calculator_underscore) s [] (Matched (blankVal (takeWhile isBlank s)) (dropWhile isBlank s)) []"
    unfolding calculator_underscore_def blankVal_def rule.simps
    by (rule star_ok, rule class_run [where vs = "[]", simplified])
      (auto simp: classAccepts_def matchClass_def lowered_def blank_byte)
qed simp

text \<open>The two operators of a level.\<close>

definition opRule :: "binop \<Rightarrow> string" where
  "opRule op = (if op \<in> {Plus, Minus} then ''AddOp'' else ''MulOp'')"

lemma two_chars_run:
  assumes "c \<in> {x, y}" "(of_char x :: int) < 128" "(of_char y :: int) < 128"
  shows "bs U G (choiceExpr p1 [litMatcher p2 [x] False, litMatcher p3 [y] False]) (c # s) m (Matched (VString [c]) s) [] m"
proof (cases "c = x")
  case True
  then show ?thesis using choice_ok [OF lit_ok [of "[x]" U G p2 s "[]"]] assms by auto
next
  case False
  have x: "bs U G (litMatcher p2 [x] False) (c # s) [] Failed [] []" by (rule lit_no) (use False assms in auto)
  have y: "bs U G (litMatcher p3 [y] False) (c # s) [] (Matched (VString [c]) s) [] []"
    using False assms lit_ok [of "[y]" U G p3 s "[]"] by auto
  from choice_next [OF x choice_ok [OF y]] show ?thesis by simp
qed

lemma two_chars_fail:
  assumes "s = [] \<or> hd s \<notin> {x, y}" "(of_char x :: int) < 128" "(of_char y :: int) < 128"
  shows "bs U G (choiceExpr p1 [litMatcher p2 [x] False, litMatcher p3 [y] False]) s m Failed [] m"
proof -
  have "bs U G (litMatcher p [z] False) s [] Failed [] []" if "z \<in> {x, y}" for p z
    by (rule lit_no) (use assms that in \<open>cases s; auto\<close>)+
  from choice_next [OF this choice_next [OF this choice_end]] show ?thesis by fastforce
qed

lemma op_run: "calc_bs U (ruleRefExpr ps (opRule op)) (op_char op # s) m (Matched (VString [op_char op]) s) m"
proof (cases "op \<in> {Plus, Minus}")
  case True
  then have c: "bs U (table_of calculator_g) (choiceExpr p1 [litMatcher p2 ''+'' False, litMatcher p3 ''-'' False]) (op_char op # s) []
      (Matched (VString [op_char op]) s) [] []" for p1 p2 p3
    by (intro two_chars_run) auto
  have "calc_bs U (rule_expr calculator_AddOp) (op_char op # s) [] (Matched (VString [op_char op]) s) []"
    unfolding calculator_AddOp_def rule.simps
    using action [OF c, where run = callonAddOp1 and v = "VString [op_char op]" and err = None]
    by (simp add: callonAddOp1_def onAddOp1_def)
  from calc_ref [OF calc_table(5) _ this] True show ?thesis by (simp add: opRule_def)
next
  case False
  then have c: "bs U (table_of calculator_g) (choiceExpr p1 [litMatcher p2 ''*'' False, litMatcher p3 ''/'' False]) (op_char op # s) []
      (Matched (VString [op_char op]) s) [] []" for p1 p2 p3
    by (intro two_chars_run) (cases op; auto)+
  have "calc_bs U (rule_expr calculator_MulOp) (op_char op # s) [] (Matched (VString [op_char op]) s) []"
    unfolding calculator_MulOp_def rule.simps
    using action [OF c, where run = callonMulOp1 and v = "VString [op_char op]" and err = None]
    by (simp add: callonMulOp1_def onMulOp1_def)
  from calc_ref [OF calc_table(6) _ this] False show ?thesis by (simp add: opRule_def)
qed

lemma op_fail:
  "s = [] \<or> hd s \<notin> {CHR ''+'', CHR ''-''} \<Longrightarrow> calc_bs U (ruleRefExpr ps ''AddOp'') s m Failed m"
  "s = [] \<or> hd s \<notin> {CHR ''*'', CHR ''/''} \<Longrightarrow> calc_bs U (ruleRefExpr ps ''MulOp'') s m Failed m"
  by (rule calc_ref [OF calc_table(5)] calc_ref [OF calc_table(6)], simp,
      simp add: calculator_AddOp_def calculator_MulOp_def, rule action_no, rule two_chars_fail; simp)+

lemma digit_byte: "isDigit c \<longleftrightarrow> 48 \<le> (of_char c :: int) \<and> (of_char c :: int) \<le> 57"
  by (simp add: isDigit_def Let_def)

lemma takeWhile_exact: "list_all P ds \<Longrightarrow> s = [] \<or> \<not> P (hd s) \<Longrightarrow> takeWhile P (ds @ s) = ds \<and> dropWhile P (ds @ s) = s"
  by (induction ds) (cases s; simp)+

lemma integer_run:
  assumes "okF (Number neg ds)" "absF (Number neg ds) = Lit n" "s = [] \<or> \<not> isDigit (hd s)"
  shows "calc_bs U (ruleRefExpr ps ''Integer'') (showF (Number neg ds) @ s) m (Matched (VUser (GoInt (word_of_int n))) s) m"
proof (rule calc_ref [OF calc_table(7)])
  let ?G = "table_of calculator_g" and ?t = "showF (Number neg ds) @ s"
  have ds: "ds \<noteq> []" "list_all isDigit ds" using assms(1) by auto
  have sign: "bs U ?G (zeroOrOneExpr p1 (litMatcher p2 ''-'' False)) ?t [] (Matched (if neg then VString ''-'' else VNil) (ds @ s)) [] []" for p1 p2
  proof (cases neg)
    case True
    then show ?thesis using opt_ok [OF lit_ok [of "''-''" U ?G p2 "ds @ s" "[]"]] by simp
  next
    case False
    then show ?thesis using opt_no [OF lit_no [of "''-''" "ds @ s" U ?G p2 "[]"]] digits_not_signs [OF ds(2,1)] by auto
  qed
  have digits: "bs U ?G (oneOrMoreExpr p3 (charClassMatcher \<lparr>cc_pos = p4, cc_val = vl, chars = [], ranges = [48, 57], classes = [],
      cc_ignoreCase = False, inverted = False\<rparr>)) (ds @ s) [] (Matched (VSlice (charVals ds)) s) [] []" for p3 p4 vl
  proof (rule plus_ok)
    show "bs_many U ?G (charClassMatcher \<lparr>cc_pos = p4, cc_val = vl, chars = [], ranges = [48, 57], classes = [],
      cc_ignoreCase = False, inverted = False\<rparr>) (ds @ s) [] [] (Matched (VSlice (charVals ds)) s) [] []"
      using class_run [where P = isDigit and vs = "[]" and s = "ds @ s" and chr = "\<lparr>cc_pos = p4, cc_val = vl, chars = [],
          ranges = [48, 57], classes = [], cc_ignoreCase = False, inverted = False\<rparr>"] takeWhile_exact [OF ds(2) assms(3)]
      by (simp add: classAccepts_def matchClass_def lowered_def digit_byte)
    show "charVals ds \<noteq> []" using ds(1) by (simp add: charVals_def)
  qed
  have "calc_bs U (seqExpr p0 [zeroOrOneExpr p1 (litMatcher p2 ''-'' False), oneOrMoreExpr p3 (charClassMatcher \<lparr>cc_pos = p4,
      cc_val = vl, chars = [], ranges = [48, 57], classes = [], cc_ignoreCase = False, inverted = False\<rparr>)]) ?t []
      (Matched (VSlice [if neg then VString ''-'' else VNil, VSlice (charVals ds)]) s) []" for p0 p1 p2 p3 p4 vl
    using seq [OF seq_cons [OF sign seq_cons [OF digits seq_nil], where vs = "[]"]] by simp
  from action [OF this, where run = callonInteger1 and v = "VUser (GoInt (word_of_int n))" and err = None]
  show "calc_bs U (rule_expr calculator_Integer) ?t [] (Matched (VUser (GoInt (word_of_int n))) s) []"
    using Atoi_number [OF assms(1,2)] by (simp add: calculator_Integer_def Integer_call)
qed simp

section \<open>The operands after the first\<close>

text \<open>
  An operand with the blanks and the operator before it: its text and its meaning. Both levels of the grammar run through such a
  list.
\<close>

type_synonym operand = "string \<times> binop \<times> string \<times> string \<times> int option"

fun showI :: "operand list \<Rightarrow> string" where
  "showI [] = []"
| "showI ((a, op, b, t, v) # xs) = a @ op_char op # b @ t @ showI xs"

fun foldI :: "int option \<Rightarrow> operand list \<Rightarrow> int option" where
  "foldI l [] = l"
| "foldI l ((a, op, b, t, v) # xs) =
     foldI (case l of None \<Rightarrow> None | Some x \<Rightarrow> (case v of None \<Rightarrow> None | Some y \<Rightarrow> apply_op op x y)) xs"

fun itemVals :: "operand list \<Rightarrow> calcval goval list option" where
  "itemVals [] = Some []"
| "itemVals ((a, op, b, t, v) # xs) =
     (case v of
        None \<Rightarrow> None
      | Some i \<Rightarrow> map_option (\<lambda>us. VSlice [blankVal a, VString [op_char op], blankVal b, VUser (GoInt (word_of_int i))] # us)
          (itemVals xs))"

definition out :: "int option \<Rightarrow> gobytes \<Rightarrow> calcval outcome" where
  "out v s = (case v of None \<Rightarrow> Aborted divideByZero | Some i \<Rightarrow> Matched (VUser (GoInt (word_of_int i))) s)"

lemma out_simps [simp]: "out None s = Aborted divideByZero" "out (Some i) s = Matched (VUser (GoInt (word_of_int i))) s"
  by (simp_all add: out_def)

fun runs :: "unicode_env \<Rightarrow> string \<Rightarrow> string \<Rightarrow> operand list \<Rightarrow> gobytes \<Rightarrow> bool" where
  "runs U opr X [] s \<longleftrightarrow> True"
| "runs U opr X ((a, op, b, t, v) # xs) s \<longleftrightarrow>
     list_all isBlank a \<and> opRule op = opr \<and> list_all isBlank b \<and> t \<noteq> [] \<and> \<not> isBlank (hd t) \<and>
     (\<forall>ps m. calc_bs U (ruleRefExpr ps X) (t @ showI xs @ s) m (out v (showI xs @ s)) m) \<and> runs U opr X xs s"

definition tailSeq :: "position list \<Rightarrow> string \<Rightarrow> string \<Rightarrow> calcval expr" where
  "tailSeq p opr X = seqExpr (p ! 0) [ruleRefExpr (p ! 1) ''_'', ruleRefExpr (p ! 2) opr, ruleRefExpr (p ! 3) ''_'', ruleRefExpr (p ! 4) X]"

lemma op_not_blank [simp]: "\<not> isBlank (op_char op)"
  by (cases op) (simp_all add: isBlank_def)

lemma blanks_run_exact:
  assumes "list_all isBlank a" "s = [] \<or> \<not> isBlank (hd s)"
  shows "calc_bs U (ruleRefExpr ps ''_'') (a @ s) m (Matched (blankVal a) s) m"
  using blanks_run [of U ps "a @ s" m] takeWhile_exact [OF assms] by simp

lemma tail_item:
  assumes "runs U opr X ((a, op, b, t, v) # xs) s"
  shows "calc_bs U (tailSeq p opr X) (showI ((a, op, b, t, v) # xs) @ s) []
    (case v of None \<Rightarrow> Aborted divideByZero
     | Some i \<Rightarrow> Matched (VSlice [blankVal a, VString [op_char op], blankVal b, VUser (GoInt (word_of_int i))]) (showI xs @ s)) []"
proof -
  let ?G = "table_of calculator_g"
  let ?u = "showI xs @ s"
  have 1: "calc_bs U (ruleRefExpr (p ! 1) ''_'') (a @ op_char op # b @ t @ ?u) [] (Matched (blankVal a) (op_char op # b @ t @ ?u)) []"
    by (rule blanks_run_exact) (use assms in auto)
  have 2: "calc_bs U (ruleRefExpr (p ! 2) opr) (op_char op # b @ t @ ?u) [] (Matched (VString [op_char op]) (b @ t @ ?u)) []"
    using op_run [of U "p ! 2" op] assms by auto
  have 3: "calc_bs U (ruleRefExpr (p ! 3) ''_'') (b @ t @ ?u) [] (Matched (blankVal b) (t @ ?u)) []"
    by (rule blanks_run_exact) (use assms in auto)
  have 4: "calc_bs U (ruleRefExpr (p ! 4) X) (t @ ?u) [] (out v ?u) []" using assms by simp
  show ?thesis
  proof (cases v)
    case None
    with 4 have "bs_seq U ?G [ruleRefExpr (p ! 4) X] (t @ ?u) [] [blankVal a, VString [op_char op], blankVal b] (Aborted divideByZero) [] []"
      using seq_abort by fastforce
    from seq [OF seq_cons [OF 1 seq_cons [OF 2 seq_cons [OF 3]], where vs = "[]"]] this None show ?thesis
      by (simp add: tailSeq_def)
  next
    case (Some i)
    with 4 have "calc_bs U (ruleRefExpr (p ! 4) X) (t @ ?u) [] (Matched (VUser (GoInt (word_of_int i))) ?u) []" by simp
    from seq [OF seq_cons [OF 1 seq_cons [OF 2 seq_cons [OF 3 seq_cons [OF this seq_nil]]], where vs = "[]"]] Some show ?thesis
      by (simp add: tailSeq_def)
  qed
qed

lemma tail_run:
  assumes "runs U opr X xs s" "calc_bs U (ruleRefExpr (p ! 2) opr) (dropWhile isBlank s) [] Failed []"
  shows "bs_many U (table_of calculator_g) (tailSeq p opr X) (showI xs @ s) [] vs
    (case itemVals xs of None \<Rightarrow> Aborted divideByZero | Some us \<Rightarrow> Matched (VSlice (vs @ us)) s) [] []"
  using assms
proof (induction xs arbitrary: vs)
  case Nil
  have "calc_bs U (tailSeq p opr X) s [] Failed []"
    unfolding tailSeq_def using seq [OF seq_cons [OF blanks_run seq_no [OF Nil.prems(2)], where vs = "[]"]] by simp
  from many_end [OF this] show ?case by simp
next
  case (Cons x xs)
  obtain a op b t v where x: "x = (a, op, b, t, v)" by (cases x) auto
  note item = tail_item [OF Cons.prems(1) [unfolded x], of p]
  show ?case
  proof (cases v)
    case None
    with item x show ?thesis using many_abort [of U _ "tailSeq p opr X"] by fastforce
  next
    case (Some i)
    let ?v = "VSlice [blankVal a, VString [op_char op], blankVal b, VUser (GoInt (word_of_int i))]"
    have "runs U opr X xs s" using Cons.prems(1) x by simp
    from many_cons [OF item [unfolded Some option.case] Cons.IH [OF this Cons.prems(2), of "vs @ [?v]"]] x Some show ?thesis
      by (cases "itemVals xs") simp_all
  qed
qed

lemma foldI_None [simp]: "foldI None xs = None"
  by (induction xs) auto

lemma foldI_itemVals: "itemVals xs = None \<Longrightarrow> foldI l xs = None"
proof (induction xs arbitrary: l)
  case (Cons x xs)
  obtain a op b t v where x: "x = (a, op, b, t, v)" by (cases x) auto
  with Cons show ?case by (cases v) (auto split: option.split)
qed simp

lemma evalRest_items:
  assumes "itemVals xs = Some us" "fits l" "\<forall>(a, op, b, t, v)\<in>set xs. \<forall>y. v = Some y \<longrightarrow> fits y"
  shows "evalRest (word_of_int l) us = (case foldI (Some l) xs of None \<Rightarrow> Inl divideByZero | Some r \<Rightarrow> Inr (word_of_int r))"
  using assms
proof (induction xs arbitrary: l us)
  case (Cons x xs)
  obtain a op b t v where x: "x = (a, op, b, t, v)" by (cases x) auto
  from Cons.prems(1) x obtain i ws where v: "v = Some i" "itemVals xs = Some ws"
    "us = VSlice [blankVal a, VString [op_char op], blankVal b, VUser (GoInt (word_of_int i))] # ws"
    by (auto split: option.splits)
  have f: "fits i" using Cons.prems(3) x v(1) by auto
  have e: "evalRest (word_of_int l) us = thenP (callOp [op_char op] (word_of_int l) (word_of_int i)) (\<lambda>l1. evalRest l1 ws)"
    by (simp add: v(3) asInt_def)
  show ?case
  proof (cases "apply_op op l i")
    case None
    then show ?thesis using e x v(1) callOp_apply [OF Cons.prems(2) f, of op] by simp
  next
    case (Some z)
    with Cons.IH [OF v(2) apply_op_fits [OF Some]] Cons.prems(3) e x v(1) callOp_apply [OF Cons.prems(2) f, of op]
    show ?thesis by simp
  qed
qed simp

section \<open>The two levels\<close>

definition firstExpr :: "position \<Rightarrow> position \<Rightarrow> string \<Rightarrow> calcval expr" where
  "firstExpr p p' X = labeledExpr p ''first'' (ruleRefExpr p' X)"

definition restExpr :: "position \<Rightarrow> position \<Rightarrow> position list \<Rightarrow> string \<Rightarrow> string \<Rightarrow> calcval expr" where
  "restExpr p p' ps opr X = labeledExpr p ''rest'' (zeroOrMoreExpr p' (tailSeq ps opr X))"

definition frame :: "int \<Rightarrow> calcval goval list \<Rightarrow> calcval vmap" where
  "frame l us = AList.update ''rest'' (VSlice us) (AList.update ''first'' (VUser (GoInt (word_of_int l))) [])"

text \<open>The text of a level: a first operand, the operands after it, and what follows.\<close>

definition level :: "unicode_env \<Rightarrow> string \<Rightarrow> string \<Rightarrow> string \<Rightarrow> int option \<Rightarrow> operand list \<Rightarrow> gobytes \<Rightarrow> bool" where
  "level U opr X t v xs s \<longleftrightarrow>
     (\<forall>ps m. calc_bs U (ruleRefExpr ps X) (t @ showI xs @ s) m (out v (showI xs @ s)) m) \<and> runs U opr X xs s \<and>
     (\<forall>ps. calc_bs U (ruleRefExpr ps opr) (dropWhile isBlank s) [] Failed []) \<and>
     (\<forall>i. v = Some i \<longrightarrow> fits i) \<and> (\<forall>(a, op, b, t, v)\<in>set xs. \<forall>y. v = Some y \<longrightarrow> fits y)"

lemma first_run:
  assumes "level U opr X t v xs s"
  shows "v = None \<Longrightarrow> calc_bs U (firstExpr p p' X) (t @ showI xs @ s) m (Aborted divideByZero) m"
    and "v = Some l \<Longrightarrow> calc_bs U (firstExpr p p' X) (t @ showI xs @ s) [] (Matched (VUser (GoInt (word_of_int l))) (showI xs @ s))
      (AList.update ''first'' (VUser (GoInt (word_of_int l))) [])"
proof -
  have r: "calc_bs U (ruleRefExpr p' X) (t @ showI xs @ s) [] (out v (showI xs @ s)) []" using assms by (simp add: level_def)
  show "v = None \<Longrightarrow> calc_bs U (firstExpr p p' X) (t @ showI xs @ s) m (Aborted divideByZero) m"
    using r unfolding firstExpr_def by (intro labeled_abort) auto
  show "v = Some l \<Longrightarrow> calc_bs U (firstExpr p p' X) (t @ showI xs @ s) [] (Matched (VUser (GoInt (word_of_int l))) (showI xs @ s))
      (AList.update ''first'' (VUser (GoInt (word_of_int l))) [])"
    using r unfolding firstExpr_def by (intro labeled_ok) auto
qed

lemma rest_run:
  assumes "level U opr X t v xs s"
  shows "itemVals xs = None \<Longrightarrow> calc_bs U (restExpr p p' ps opr X) (showI xs @ s) m (Aborted divideByZero) m"
    and "itemVals xs = Some us \<Longrightarrow> calc_bs U (restExpr p p' ps opr X) (showI xs @ s) m (Matched (VSlice us) s)
      (AList.update ''rest'' (VSlice us) m)"
proof -
  note t = tail_run [of U opr X xs s ps "[]"]
  have l: "runs U opr X xs s" "calc_bs U (ruleRefExpr (ps ! 2) opr) (dropWhile isBlank s) [] Failed []"
    using assms by (auto simp: level_def)
  show "itemVals xs = None \<Longrightarrow> calc_bs U (restExpr p p' ps opr X) (showI xs @ s) m (Aborted divideByZero) m"
    using t [OF l] unfolding restExpr_def by (intro labeled_abort star_abort) auto
  show "itemVals xs = Some us \<Longrightarrow> calc_bs U (restExpr p p' ps opr X) (showI xs @ s) m (Matched (VSlice us) s)
      (AList.update ''rest'' (VSlice us) m)"
    using t [OF l] unfolding restExpr_def by (intro labeled_ok star_ok) auto
qed

lemma operands_abort:
  assumes "level U opr X t v xs s" "v = None \<or> itemVals xs = None"
  shows "\<exists>m. bs_seq U (table_of calculator_g) (firstExpr p p' X # restExpr q q' ps opr X # es) (t @ showI xs @ s) [] vs
    (Aborted divideByZero) [] m"
proof (cases v)
  case None
  from seq_abort [OF first_run(1) [OF assms(1) None]] show ?thesis by blast
next
  case (Some l)
  with assms(2) have "itemVals xs = None" by simp
  from seq_cons [OF first_run(2) [OF assms(1) Some] seq_abort [OF rest_run(1) [OF assms(1) this]]] show ?thesis by fastforce
qed

lemma operands_run:
  assumes "level U opr X t v xs s" "v = Some l" "itemVals xs = Some us"
    and "bs_seq U (table_of calculator_g) es s (frame l us) (vs @ [VUser (GoInt (word_of_int l)), VSlice us]) r [] m"
  shows "bs_seq U (table_of calculator_g) (firstExpr p p' X # restExpr q q' ps opr X # es) (t @ showI xs @ s) [] vs r [] m"
  using seq_cons [OF first_run(2) [OF assms(1,2)] seq_cons [OF rest_run(2) [OF assms(1,3)]], of es "vs" r "[]" m] assms(4)
  by (simp add: frame_def)

text \<open>The code block of both levels evaluates the operands from left to right.\<close>

lemma block_evaluates:
  assumes "level U opr X t v xs s" "v = Some l" "itemVals xs = Some us" "run = callonExpr1 \<or> run = callonTerm1"
  shows "run c (frame l us) =
    (case foldI v xs of None \<Rightarrow> CodePanics c divideByZero | Some r \<Rightarrow> CodeReturns c (VUser (GoInt (word_of_int r))) None)"
proof -
  have "labelled (frame l us) ''first'' = VUser (GoInt (word_of_int l))" "labelled (frame l us) ''rest'' = VSlice us"
    by (simp_all add: frame_def labelled_def)
  moreover have "evalRest (word_of_int l) us = (case foldI (Some l) xs of None \<Rightarrow> Inl divideByZero | Some r \<Rightarrow> Inr (word_of_int r))"
    by (rule evalRest_items) (use assms in \<open>auto simp: level_def\<close>)
  ultimately show ?thesis
    using assms(2,4)
    by (auto simp: callonExpr1_def callonTerm1_def onExpr1_def onTerm1_def eval_def asInt_def split: option.split)
qed

lemma level_action:
  assumes l: "level U opr X t v xs s" and run: "run = callonExpr1 \<or> run = callonTerm1"
    and abort: "v = None \<or> itemVals xs = None \<Longrightarrow> \<exists>m. calc_bs U e txt [] (Aborted divideByZero) m"
    and match: "\<And>l us. v = Some l \<Longrightarrow> itemVals xs = Some us \<Longrightarrow> \<exists>w. calc_bs U e txt [] (Matched w s') (frame l us)"
  shows "\<exists>m. calc_bs U (actionExpr ps e run) txt [] (out (foldI v xs) s') m"
proof (cases "v = None \<or> itemVals xs = None")
  case True
  then have "foldI v xs = None" using foldI_itemVals by auto
  with abort [OF True] show ?thesis using action_abort by fastforce
next
  case False
  then obtain l us where lu: "v = Some l" "itemVals xs = Some us" by auto
  obtain w where w: "calc_bs U e txt [] (Matched w s') (frame l us)" using match [OF lu] by blast
  note b = block_evaluates [OF l lu run]
  show ?thesis
  proof (cases "foldI v xs")
    case None
    with b action_panic [OF w, of run divideByZero ps] show ?thesis by auto
  next
    case (Some r)
    with b action [OF w, of run "VUser (GoInt (word_of_int r))" None ps] show ?thesis by auto
  qed
qed

lemma term_run:
  assumes "level U ''MulOp'' ''Factor'' t v xs s"
  shows "calc_bs U (ruleRefExpr ps ''Term'') (t @ showI xs @ s) m (out (foldI v xs) s) m"
proof -
  let ?e = "seqExpr (at_pos 66 9 1384) [firstExpr (at_pos 66 9 1384) (at_pos 66 15 1390) ''Factor'',
    restExpr (at_pos 66 22 1397) (at_pos 66 27 1402) [at_pos 66 29 1404, at_pos 66 29 1404, at_pos 66 31 1406, at_pos 66 37 1412,
      at_pos 66 39 1414] ''MulOp'' ''Factor'']"
  have e: "rule_expr calculator_Term = actionExpr (at_pos 66 9 1384) ?e callonTerm1"
    by (simp add: calculator_Term_def firstExpr_def restExpr_def tailSeq_def)
  have "\<exists>m. calc_bs U (actionExpr (at_pos 66 9 1384) ?e callonTerm1) (t @ showI xs @ s) [] (out (foldI v xs) s) m"
  proof (rule level_action [OF assms])
    show "\<exists>m. calc_bs U ?e (t @ showI xs @ s) [] (Aborted divideByZero) m" if "v = None \<or> itemVals xs = None"
      using operands_abort [OF assms that] bs_bs_seq_bs_many.seq by blast
    show "\<exists>w. calc_bs U ?e (t @ showI xs @ s) [] (Matched w s) (frame l us)" if "v = Some l" "itemVals xs = Some us" for l us
      using bs_bs_seq_bs_many.seq [OF operands_run [OF assms that seq_nil]] by blast
  qed simp
  then show ?thesis using calc_ref [OF calc_table(3), unfolded e] by auto
qed

lemma expr_run:
  assumes "level U ''AddOp'' ''Term'' t v xs (w' @ s)" "list_all isBlank w" "list_all isBlank w'"
    and "t \<noteq> []" "\<not> isBlank (hd t)" "s = [] \<or> \<not> isBlank (hd s)"
  shows "calc_bs U (ruleRefExpr ps ''Expr'') (w @ t @ showI xs @ w' @ s) m (out (foldI v xs) s) m"
proof -
  let ?r = "ruleRefExpr (at_pos 62 47 1335) ''_''"
  let ?es = "firstExpr (at_pos 62 11 1299) (at_pos 62 17 1305) ''Term'' #
    restExpr (at_pos 62 22 1310) (at_pos 62 27 1315) [at_pos 62 29 1317, at_pos 62 29 1317, at_pos 62 31 1319, at_pos 62 37 1325,
      at_pos 62 39 1327] ''AddOp'' ''Term'' # [?r]"
  let ?e = "seqExpr (at_pos 62 9 1297) (ruleRefExpr (at_pos 62 9 1297) ''_'' # ?es)"
  have e: "rule_expr calculator_Expr = actionExpr (at_pos 62 9 1297) ?e callonExpr1"
    by (simp add: calculator_Expr_def firstExpr_def restExpr_def tailSeq_def)
  have lead: "calc_bs U (ruleRefExpr (at_pos 62 9 1297) ''_'') (w @ t @ showI xs @ w' @ s) [] (Matched (blankVal w) (t @ showI xs @ w' @ s)) []"
    by (rule blanks_run_exact) (use assms in auto)
  have trail: "calc_bs U ?r (w' @ s) k (Matched (blankVal w') s) k" for k
    by (rule blanks_run_exact) (use assms in auto)
  have "\<exists>m. calc_bs U (actionExpr (at_pos 62 9 1297) ?e callonExpr1) (w @ t @ showI xs @ w' @ s) [] (out (foldI v xs) s) m"
  proof (rule level_action [OF assms(1)])
    show "\<exists>m. calc_bs U ?e (w @ t @ showI xs @ w' @ s) [] (Aborted divideByZero) m" if "v = None \<or> itemVals xs = None"
    proof -
      from operands_abort [OF assms(1) that] obtain k where
        "bs_seq U (table_of calculator_g) ?es (t @ showI xs @ w' @ s) [] [blankVal w] (Aborted divideByZero) [] k" by blast
      from bs_bs_seq_bs_many.seq [OF seq_cons [OF lead, of ?es "[]"], unfolded append.simps, OF this] show ?thesis by auto
    qed
    show "\<exists>w0. calc_bs U ?e (w @ t @ showI xs @ w' @ s) [] (Matched w0 s) (frame l us)" if "v = Some l" "itemVals xs = Some us" for l us
    proof -
      have "bs_seq U (table_of calculator_g) [?r] (w' @ s) (frame l us) ([blankVal w] @ [VUser (GoInt (word_of_int l)), VSlice us])
          (Matched (VSlice (([blankVal w] @ [VUser (GoInt (word_of_int l)), VSlice us]) @ [blankVal w'])) s) [] (frame l us)"
        using seq_cons [OF trail seq_nil, of "frame l us" "[blankVal w] @ [VUser (GoInt (word_of_int l)), VSlice us]"] by simp
      from operands_run [OF assms(1) that this]
      have "bs_seq U (table_of calculator_g) ?es (t @ showI xs @ w' @ s) [] [blankVal w]
          (Matched (VSlice (([blankVal w] @ [VUser (GoInt (word_of_int l)), VSlice us]) @ [blankVal w'])) s) [] (frame l us)" .
      from bs_bs_seq_bs_many.seq [OF seq_cons [OF lead, of ?es "[]"], unfolded append.simps, OF this] show ?thesis by auto
    qed
  qed simp
  then show ?thesis using calc_ref [OF calc_table(2), unfolded e] by auto
qed

section \<open>Factors\<close>

lemma paren_run:
  assumes "\<And>ps m. calc_bs U (ruleRefExpr ps ''Expr'') (x @ CHR '')'' # s) m (out v (CHR '')'' # s)) m"
  shows "calc_bs U (ruleRefExpr ps ''Factor'') (CHR ''('' # x @ CHR '')'' # s) m (out v s) m"
proof -
  let ?G = "table_of calculator_g" and ?s = "CHR ''('' # x @ CHR '')'' # s"
  define l r e :: "calcval expr" where "l = litMatcher (at_pos 70 11 1473) ''('' False" and "r = litMatcher (at_pos 70 25 1487) '')'' False"
    and "e = labeledExpr (at_pos 70 15 1477) ''expr'' (ruleRefExpr (at_pos 70 20 1482) ''Expr'')"
  let ?a = "actionExpr (at_pos 70 11 1473) (seqExpr (at_pos 70 11 1473) [l, e, r]) callonFactor2"
  have l: "calc_bs U l ?s [] (Matched (VString ''('') (x @ CHR '')'' # s)) []"
    unfolding l_def using lit_ok [of "''(''" U ?G _ "x @ CHR '')'' # s" "[]"] by simp
  have "\<exists>k. calc_bs U ?a ?s [] (out v s) k"
  proof (cases v)
    case None
    have "calc_bs U e (x @ CHR '')'' # s) [] (Aborted divideByZero) []"
      unfolding e_def by (rule labeled_abort) (use assms None in auto)
    from action_abort [OF seq [OF seq_cons [OF l seq_abort [OF this], where vs = "[]"]]] None show ?thesis by (auto intro!: exI)
  next
    case (Some i)
    have 2: "calc_bs U e (x @ CHR '')'' # s) [] (Matched (VUser (GoInt (word_of_int i))) (CHR '')'' # s))
        (AList.update ''expr'' (VUser (GoInt (word_of_int i))) [])"
      unfolding e_def by (rule labeled_ok) (use assms Some in auto)
    have 3: "calc_bs U r (CHR '')'' # s) k (Matched (VString '')'') s) k" for k
      unfolding r_def using lit_ok [of "'')''" U ?G _ s k] by simp
    from action [OF seq [OF seq_cons [OF l seq_cons [OF 2 seq_cons [OF 3 seq_nil]], where vs = "[]"]], of callonFactor2 "VUser (GoInt (word_of_int i))" None]
      Some show ?thesis by (auto simp: callonFactor2_def onFactor2_def labelled_def)
  qed
  then obtain k where k: "calc_bs U ?a ?s [] (out v s) k" ..
  have f: "rule_expr calculator_Factor = choiceExpr (at_pos 70 11 1473) [?a, actionExpr (at_pos 72 5 1518)
      (labeledExpr (at_pos 72 5 1518) ''integer'' (ruleRefExpr (at_pos 72 13 1526) ''Integer'')) callonFactor8]"
    by (simp add: calculator_Factor_def l_def e_def r_def)
  have "calc_bs U (rule_expr calculator_Factor) ?s [] (out v s) []"
    unfolding f using k by (cases v) (auto intro: choice_ok choice_abort)
  from calc_ref [OF calc_table(4) _ this] show ?thesis by simp
qed

lemma number_run:
  assumes "okF (Number neg ds)" "absF (Number neg ds) = Lit n" "s = [] \<or> \<not> isDigit (hd s)"
  shows "calc_bs U (ruleRefExpr ps ''Factor'') (showF (Number neg ds) @ s) m (out (Some n) s) m"
proof -
  let ?G = "table_of calculator_g" and ?s = "showF (Number neg ds) @ s"
  have "\<exists>c cs. ?s = c # cs \<and> c \<noteq> CHR ''(''" using assms(1) by (cases ds) (auto simp: isDigit_def)
  then have "calc_bs U (litMatcher p ''('' False) ?s [] Failed []" for p by (auto intro!: lit_no)
  from action_no [OF seq [OF seq_no [OF this, where vs = "[]"]]]
  have 1: "calc_bs U (actionExpr p (seqExpr p' (litMatcher p'' ''('' False # es)) run) ?s [] Failed []" for p p' p'' es run .
  have "calc_bs U (labeledExpr p ''integer'' (ruleRefExpr p' ''Integer'')) ?s [] (Matched (VUser (GoInt (word_of_int n))) s)
      (AList.update ''integer'' (VUser (GoInt (word_of_int n))) [])" for p p'
    by (rule labeled_ok [OF _ integer_run [OF assms]]) simp
  from action [OF this, of callonFactor8 "VUser (GoInt (word_of_int n))" None]
  have 2: "calc_bs U (actionExpr p (labeledExpr p' ''integer'' (ruleRefExpr p'' ''Integer'')) callonFactor8) ?s []
      (Matched (VUser (GoInt (word_of_int n))) s) (AList.update ''integer'' (VUser (GoInt (word_of_int n))) [])" for p p' p''
    by (simp add: callonFactor8_def onFactor8_def labelled_def)
  have "calc_bs U (rule_expr calculator_Factor) ?s [] (out (Some n) s) []"
    unfolding calculator_Factor_def rule.simps using choice_next [OF 1 choice_ok [OF 2]] by simp
  from calc_ref [OF calc_table(4) _ this] show ?thesis by simp
qed

section \<open>Every expression\<close>

fun itemsE :: "etail \<Rightarrow> operand list" where
  "itemsE ENil = []"
| "itemsE (ECons a op b t es) = (a, op, b, showT t, meaning (absT t)) # itemsE es"

fun itemsT :: "ttail \<Rightarrow> operand list" where
  "itemsT TNil = []"
| "itemsT (TCons a op b x ts) = (a, op, b, showF x, meaning (absF x)) # itemsT ts"

lemma items_show: "showI (itemsE es) = showEs es" "showI (itemsT ts) = showTs ts"
  by (induction es rule: itemsE.induct, simp_all) (induction ts rule: itemsT.induct, simp_all)

lemma itemsE_meaning: "meaning (absEs l es) = foldI (meaning l) (itemsE es)"
  by (induction es arbitrary: l rule: itemsE.induct) simp_all

lemma itemsT_meaning: "meaning (absTs l ts) = foldI (meaning l) (itemsT ts)"
  by (induction ts arbitrary: l rule: itemsT.induct) simp_all

text \<open>The texts of the operands start with a character that is not a blank.\<close>

lemma starts: "okF x \<Longrightarrow> showF x \<noteq> [] \<and> \<not> isBlank (hd (showF x))"
  by (cases x) (auto simp: isBlank_def isDigit_def neq_Nil_conv)

lemma startsT: "okT t \<Longrightarrow> showT t \<noteq> [] \<and> \<not> isBlank (hd (showT t))"
  using starts by (cases t) auto

text \<open>A result fits into 64 bits, whether it was computed or is a literal.\<close>

lemma lit_fits:
  "okE e \<Longrightarrow> absE e = Lit n \<Longrightarrow> fits n"
  "okEs es \<Longrightarrow> absEs l es = Lit n \<Longrightarrow> l = Lit n"
  "okT t \<Longrightarrow> absT t = Lit n \<Longrightarrow> fits n"
  "okTs ts \<Longrightarrow> absTs l ts = Lit n \<Longrightarrow> l = Lit n"
  "okF x \<Longrightarrow> absF x = Lit n \<Longrightarrow> fits n"
proof (induction e and es and t and ts and x arbitrary: n and l n and n and l n and n)
  case (ECons a op b t es)
  have "okEs es" "absEs (Bin op l (absT t)) es = Lit n" using ECons.prems by simp_all
  from ECons.IH(2) [OF this] show ?case by simp
next
  case (TCons a op b x ts)
  have "okTs ts" "absTs (Bin op l (absF x)) ts = Lit n" using TCons.prems by simp_all
  from TCons.IH(2) [OF this] show ?case by simp
next
  case (CExpr w t es w')
  have "okT t" "okEs es" "absEs (absT t) es = Lit n" using CExpr.prems by simp_all
  from CExpr.IH(1) [OF this(1) CExpr.IH(2) [OF this(2,3)]] show ?case .
next
  case (CTerm x ts)
  have "okF x" "okTs ts" "absTs (absF x) ts = Lit n" using CTerm.prems by simp_all
  from CTerm.IH(1) [OF this(1) CTerm.IH(2) [OF this(2,3)]] show ?case .
next
  case (Number neg ds)
  from number_fits [OF Number] show ?case .
qed simp_all

lemma meaning_fits:
  assumes "\<And>n. a = Lit n \<Longrightarrow> fits n" "meaning a = Some z"
  shows "fits z"
proof (cases a)
  case (Lit n)
  with assms show ?thesis by simp
next
  case (Bin op a b)
  with assms(2) show ?thesis using apply_op_fits by (auto split: option.splits)
qed

lemma operand_fits:
  "okEs es \<Longrightarrow> \<forall>(a, op, b, t, v)\<in>set (itemsE es). \<forall>y. v = Some y \<longrightarrow> fits y"
  "okTs ts \<Longrightarrow> \<forall>(a, op, b, t, v)\<in>set (itemsT ts). \<forall>y. v = Some y \<longrightarrow> fits y"
proof -
  have t: "fits y" if "okT t" "meaning (absT t) = Some y" for t y
    using meaning_fits [OF lit_fits(3) [OF that(1)] that(2)] by blast
  have f: "fits y" if "okF x" "meaning (absF x) = Some y" for x y
    using meaning_fits [OF lit_fits(5) [OF that(1)] that(2)] by blast
  show "okEs es \<Longrightarrow> \<forall>(a, op, b, t, v)\<in>set (itemsE es). \<forall>y. v = Some y \<longrightarrow> fits y"
    by (induction es rule: itemsE.induct) (use t in auto)
  show "okTs ts \<Longrightarrow> \<forall>(a, op, b, t, v)\<in>set (itemsT ts). \<forall>y. v = Some y \<longrightarrow> fits y"
    by (induction ts rule: itemsT.induct) (use f in auto)
qed

text \<open>What may follow a factor, a term and an expression.\<close>

definition afterF :: "gobytes \<Rightarrow> bool" where
  "afterF s \<longleftrightarrow> s = [] \<or> \<not> isDigit (hd s)"

definition afterT :: "gobytes \<Rightarrow> bool" where
  "afterT s \<longleftrightarrow> afterF s \<and> (dropWhile isBlank s = [] \<or> hd (dropWhile isBlank s) \<notin> {CHR ''*'', CHR ''/''})"

definition afterE :: "gobytes \<Rightarrow> bool" where
  "afterE s \<longleftrightarrow> s = [] \<or> hd s = CHR '')''"

lemma not_digit: "isBlank c \<Longrightarrow> \<not> isDigit c" "\<not> isDigit (op_char op)" "\<not> isDigit (CHR '')'')"
  by (auto simp: isBlank_def isDigit_def) (cases op; simp)

lemma afterF_blanks: "list_all isBlank a \<Longrightarrow> afterF s \<Longrightarrow> afterF (a @ s)"
  by (cases a) (auto simp: afterF_def not_digit)

lemma dropWhile_blanks: "list_all isBlank a \<Longrightarrow> dropWhile isBlank (a @ s) = dropWhile isBlank s"
  by (induction a) auto

lemma afterF_op: "afterF (op_char op # s)"
  by (simp add: afterF_def not_digit)

lemma afterF_tail: "okTs ts \<Longrightarrow> afterT s \<Longrightarrow> afterF (showTs ts @ s)"
  by (cases ts) (auto simp: afterT_def intro!: afterF_blanks afterF_op)

lemma afterT_blanks:
  assumes "list_all isBlank a" "afterE s"
  shows "afterT (a @ s)"
proof -
  have f: "afterF s" using assms(2) not_digit(3) by (auto simp: afterE_def afterF_def)
  have "dropWhile isBlank s = s" using assms(2) by (cases s) (auto simp: afterE_def isBlank_def)
  then have "dropWhile isBlank (a @ s) = s" by (simp add: dropWhile_blanks [OF assms(1)])
  with afterF_blanks [OF assms(1) f] assms(2) show ?thesis by (auto simp: afterT_def afterE_def)
qed

lemma afterT_tail: "okEs es \<Longrightarrow> list_all isBlank w \<Longrightarrow> afterE s \<Longrightarrow> afterT (showEs es @ w @ s)"
proof (cases es)
  case (ECons a op b t es')
  assume "okEs es"
  with ECons show ?thesis
    by (auto simp: afterT_def dropWhile_blanks intro!: afterF_blanks afterF_op)
qed (use afterT_blanks in auto)

lemma calculator_runs:
  "okE e \<Longrightarrow> afterE s \<Longrightarrow> calc_bs U (ruleRefExpr ps ''Expr'') (showE e @ s) m (out (meaning (absE e)) s) m"
  "okEs es \<Longrightarrow> list_all isBlank w \<Longrightarrow> afterE s \<Longrightarrow> runs U ''AddOp'' ''Term'' (itemsE es) (w @ s)"
  "okT t \<Longrightarrow> afterT s \<Longrightarrow> calc_bs U (ruleRefExpr ps ''Term'') (showT t @ s) m (out (meaning (absT t)) s) m"
  "okTs ts \<Longrightarrow> afterT s \<Longrightarrow> runs U ''MulOp'' ''Factor'' (itemsT ts) s"
  "okF x \<Longrightarrow> afterF s \<Longrightarrow> calc_bs U (ruleRefExpr ps ''Factor'') (showF x @ s) m (out (meaning (absF x)) s) m"
proof (induction e and es and t and ts and x arbitrary: s ps m and s w and s ps m and s and s ps m)
  case (CExpr w t es w')
  have ok: "okT t" "okEs es" "list_all isBlank w" "list_all isBlank w'" using CExpr.prems by simp_all
  have b: "s = [] \<or> \<not> isBlank (hd s)" using CExpr.prems(2) by (auto simp: afterE_def isBlank_def)
  have "level U ''AddOp'' ''Term'' (showT t) (meaning (absT t)) (itemsE es) (w' @ s)"
    unfolding level_def items_show
  proof (intro conjI allI impI)
    fix ps m
    show "calc_bs U (ruleRefExpr ps ''Term'') (showT t @ showEs es @ w' @ s) m (out (meaning (absT t)) (showEs es @ w' @ s)) m"
      by (rule CExpr.IH(1) [OF ok(1) afterT_tail [OF ok(2,4) CExpr.prems(2)]])
  next
    show "runs U ''AddOp'' ''Term'' (itemsE es) (w' @ s)" by (rule CExpr.IH(2) [OF ok(2,4) CExpr.prems(2)])
  next
    fix ps
    have "dropWhile isBlank (w' @ s) = s" using takeWhile_exact [OF ok(4) b] by simp
    with CExpr.prems(2) show "calc_bs U (ruleRefExpr ps ''AddOp'') (dropWhile isBlank (w' @ s)) [] Failed []"
      by (intro op_fail(1)) (auto simp: afterE_def)
  next
    fix i
    assume "meaning (absT t) = Some i"
    from meaning_fits [OF lit_fits(3) [OF ok(1)] this] show "fits i" by blast
  next
    show "\<forall>(a, op, b, t, v)\<in>set (itemsE es). \<forall>y. v = Some y \<longrightarrow> fits y" by (rule operand_fits(1) [OF ok(2)])
  qed
  from expr_run [OF this ok(3,4) conjunct1 [OF startsT [OF ok(1)]] conjunct2 [OF startsT [OF ok(1)]] b] show ?case
    by (simp add: items_show itemsE_meaning)
next
  case ENil
  then show ?case by simp
next
  case (ECons a op b t es)
  have ok: "okT t" "okEs es" using ECons.prems by simp_all
  have "calc_bs U (ruleRefExpr ps ''Term'') (showT t @ showEs es @ w @ s) m (out (meaning (absT t)) (showEs es @ w @ s)) m" for ps m
    by (rule ECons.IH(1) [OF ok(1) afterT_tail [OF ok(2) ECons.prems(2,3)]])
  with ECons.IH(2) [OF ok(2) ECons.prems(2,3)] ECons.prems(1) startsT [OF ok(1)] show ?case
    by (auto simp: opRule_def items_show)
next
  case (CTerm x ts)
  have ok: "okF x" "okTs ts" using CTerm.prems by simp_all
  have "level U ''MulOp'' ''Factor'' (showF x) (meaning (absF x)) (itemsT ts) s"
    unfolding level_def items_show
  proof (intro conjI allI impI)
    fix ps m
    show "calc_bs U (ruleRefExpr ps ''Factor'') (showF x @ showTs ts @ s) m (out (meaning (absF x)) (showTs ts @ s)) m"
      by (rule CTerm.IH(1) [OF ok(1) afterF_tail [OF ok(2) CTerm.prems(2)]])
  next
    show "runs U ''MulOp'' ''Factor'' (itemsT ts) s" by (rule CTerm.IH(2) [OF ok(2) CTerm.prems(2)])
  next
    fix ps
    show "calc_bs U (ruleRefExpr ps ''MulOp'') (dropWhile isBlank s) [] Failed []"
      by (rule op_fail(2)) (use CTerm.prems(2) in \<open>auto simp: afterT_def\<close>)
  next
    fix i
    assume "meaning (absF x) = Some i"
    from meaning_fits [OF lit_fits(5) [OF ok(1)] this] show "fits i" by blast
  next
    show "\<forall>(a, op, b, t, v)\<in>set (itemsT ts). \<forall>y. v = Some y \<longrightarrow> fits y" by (rule operand_fits(2) [OF ok(2)])
  qed
  from term_run [OF this] show ?case by (simp add: items_show itemsT_meaning)
next
  case TNil
  then show ?case by simp
next
  case (TCons a op b x ts)
  have ok: "okF x" "okTs ts" using TCons.prems by simp_all
  have "calc_bs U (ruleRefExpr ps ''Factor'') (showF x @ showTs ts @ s) m (out (meaning (absF x)) (showTs ts @ s)) m" for ps m
    by (rule TCons.IH(1) [OF ok(1) afterF_tail [OF ok(2) TCons.prems(2)]])
  with TCons.IH(2) [OF ok(2) TCons.prems(2)] TCons.prems(1) starts [OF ok(1)] show ?case
    by (auto simp: opRule_def items_show)
next
  case (Paren e)
  have "okE e" using Paren.prems by simp
  then have "calc_bs U (ruleRefExpr ps ''Expr'') (showE e @ CHR '')'' # s) m (out (meaning (absE e)) (CHR '')'' # s)) m" for ps m
    by (rule Paren.IH) (simp add: afterE_def)
  from paren_run [OF this] show ?case by simp
next
  case (Number neg ds)
  obtain n where n: "absF (Number neg ds) = Lit n" by simp
  from number_run [OF Number.prems(1) n] Number.prems(2) n show ?case by (simp add: afterF_def del: okF.simps showF.simps absF.simps)
qed

text \<open>The whole input is an expression and the end.\<close>

lemma eof_run: "calc_bs U (ruleRefExpr ps ''EOF'') [] m (Matched VNil []) m"
  by (rule calc_ref [OF calc_table(9)]) (auto simp: calculator_EOF_def intro: not_ok any_no)

lemma input_run:
  assumes "okE e"
  shows "\<exists>m. calc_bs U (rule_expr calculator_Input) (showE e) [] (out (meaning (absE e)) []) m"
proof -
  let ?e = "labeledExpr (at_pos 58 10 1249) ''expr'' (ruleRefExpr (at_pos 58 15 1254) ''Expr'')"
  have i: "rule_expr calculator_Input = actionExpr (at_pos 58 10 1249)
      (seqExpr (at_pos 58 10 1249) [?e, ruleRefExpr (at_pos 58 20 1259) ''EOF'']) callonInput1"
    by (simp add: calculator_Input_def)
  have r: "calc_bs U (ruleRefExpr (at_pos 58 15 1254) ''Expr'') (showE e) [] (out (meaning (absE e)) []) []"
    using calculator_runs(1) [OF assms, of "[]" U] by (simp add: afterE_def)
  show ?thesis
  proof (cases "meaning (absE e)")
    case None
    with r have "calc_bs U ?e (showE e) [] (Aborted divideByZero) []" by (intro labeled_abort) auto
    from action_abort [OF seq [OF seq_abort [OF this, where vs = "[]"]]] None i show ?thesis by (auto intro!: exI)
  next
    case (Some z)
    let ?m = "AList.update ''expr'' (VUser (GoInt (word_of_int z))) []"
    from Some r have "calc_bs U ?e (showE e) [] (Matched (VUser (GoInt (word_of_int z))) []) ?m" by (intro labeled_ok) auto
    from action [OF seq [OF seq_cons [OF this seq_cons [OF eof_run seq_nil], where vs = "[]"]], of callonInput1 "VUser (GoInt (word_of_int z))" None]
      Some i show ?thesis by (auto simp: callonInput1_def onInput1_def labelled_def)
  qed
qed

lemma ascii_append [simp]: "ascii (s @ t) \<longleftrightarrow> ascii s \<and> ascii t"
  by (auto simp: ascii_def)

lemma ascii_blanks: "list_all isBlank w \<Longrightarrow> ascii w"
  by (induction w) (auto simp: isBlank_def)

lemma ascii_digits: "list_all isDigit w \<Longrightarrow> ascii w"
  by (induction w) (auto simp: isDigit_def Let_def)

lemma op_ascii [simp]: "(of_char (op_char op) :: int) < 128"
  by (cases op) simp_all

lemma show_ascii:
  "okE e \<Longrightarrow> ascii (showE e)" "okEs es \<Longrightarrow> ascii (showEs es)" "okT t \<Longrightarrow> ascii (showT t)"
  "okTs ts \<Longrightarrow> ascii (showTs ts)" "okF x \<Longrightarrow> ascii (showF x)"
  by (induction e and es and t and ts and x) (simp_all add: ascii_blanks ascii_digits)

text \<open>
  C21. The calculator computes the meaning of every expression whose literals fit into 64 bits, whatever its blanks: the
  value of the parse is the result of the reference arithmetic, which reduces the exact result of each operation to
  64 bits, divides towards zero and associates to the left; where the reference divides by zero the parse returns no value and the
  one error of the division.
\<close>

theorem calculator_computes:
  assumes "okE e"
  shows "\<exists>n q v err. parser_parse U n calculator_g (newParser f (showE e)) = Some (q, v, err) \<and>
    (case meaning (absE e) of
       Some z \<Rightarrow> v = VUser (GoInt (word_of_int z)) \<and> err = None \<and> sint (word_of_int z :: goint) = z
     | None \<Rightarrow> v = VNil \<and> map_option (map Inner) err = Some [''runtime error: integer divide by zero''])"
proof -
  have g: "grammar_rules calculator_g \<noteq> []" "hd (grammar_rules calculator_g) = calculator_Input" by (simp_all add: calculator_g_def)
  obtain m where m: "calc_bs U (rule_expr (hd (grammar_rules calculator_g))) (showE e) [] (out (meaning (absE e)) []) m"
    using input_run [OF assms] g(2) by auto
  show ?thesis
  proof (cases "meaning (absE e)")
    case None
    have d: "divideByZero \<noteq> Hangs" "panicMessage divideByZero = ''runtime error: integer divide by zero''"
      by (simp_all add: divideByZero_def)
    from m None have "calc_bs U (rule_expr (hd (grammar_rules calculator_g))) (showE e) [] (Aborted divideByZero) m" by simp
    from parse_aborted [OF g(1) show_ascii(1) [OF assms] this d(1), where f = f] obtain n q x
      where "parser_parse U n calculator_g (newParser f (showE e)) = Some (q, VNil, Some [x])" "Inner x = panicMessage divideByZero" .
    with None d(2) show ?thesis by (intro exI [of _ n] exI [of _ q] exI [of _ VNil] exI [of _ "Some [x]"]) simp
  next
    case (Some z)
    have z: "sint (word_of_int z :: goint) = z" using meaning_fits [OF lit_fits(1) [OF assms] Some] wrap64_sint [of z] by simp
    from m Some have "calc_bs U (rule_expr (hd (grammar_rules calculator_g))) (showE e) [] (Matched (VUser (GoInt (word_of_int z))) []) m"
      by simp
    from parse_matched [OF g(1) show_ascii(1) [OF assms] this, where f = f] obtain n q
      where "parser_parse U n calculator_g (newParser f (showE e)) = Some (q, VUser (GoInt (word_of_int z)), None)" .
    with Some z show ?thesis by auto
  qed
qed

text \<open>The text \<^verbatim>\<open>2 * (3 - 12)/-4-1\<close>, and a division by zero.\<close>

theorem calculator_computes_witness:
  "(\<exists>n q. parser_parse ascii_env n calculator_g (newParser [] ''2 * (3 - 12)/-4-1'') = Some (q, VUser (GoInt 3), None)) \<and>
   (\<exists>n q err. parser_parse ascii_env n calculator_g (newParser [] ''7/(1-1)'') = Some (q, VNil, Some err))"
proof -
  let ?n = "\<lambda>ds. Number False ds"
  let ?e = "CExpr [] (CTerm (?n ''2'') (TCons '' '' Times '' '' (Paren (CExpr [] (CTerm (?n ''3'') TNil)
      (ECons '' '' Minus '' '' (CTerm (?n ''12'') TNil) ENil) [])) (TCons [] Over [] (Number True ''4'') TNil)))
      (ECons [] Minus [] (CTerm (?n ''1'') TNil) ENil) []"
  let ?z = "CExpr [] (CTerm (?n ''7'') (TCons [] Over [] (Paren (CExpr [] (CTerm (?n ''1'') TNil)
      (ECons [] Minus [] (CTerm (?n ''1'') TNil) ENil) [])) TNil)) ENil []"
  have e: "okE ?e" "showE ?e = ''2 * (3 - 12)/-4-1''" "meaning (absE ?e) = Some 3" by code_simp+
  have z: "okE ?z" "showE ?z = ''7/(1-1)''" "meaning (absE ?z) = None" by code_simp+
  from calculator_computes [OF e(1), of ascii_env "[]"] calculator_computes [OF z(1), of ascii_env "[]"]
  show ?thesis unfolding e z by fastforce
qed

end
