(* ===== verification/Json_Parser.thy ===== *)
theory Json_Parser
  imports Peg_Actions Strconv "HOL-Library.Word"
begin

text \<open>
  The generated parser of JSON, \<^verbatim>\<open>peg/examples/json/json.go\<close>: its code blocks and its grammar, one
  definition per rule as the generated literal has them. The values are those of Go: null is nil, an array a slice, a string a string, an
  object a map, here an association list with one entry per key. A floating-point number is its 64 bits; the
  reader \<^verbatim>\<open>strconv.ParseFloat\<close> is an argument, a function from the text to a number and an error.
\<close>

section \<open>Values\<close>

type_synonym float64 = "64 word"

datatype jsonval = JObject "(gobytes \<times> jsonval goval) list" | JFloat float64 | JBool bool

type_synonym jv = "jsonval goval"
type_synonym jsonCode = "(jv \<times> string option) code"
type_synonym floatReader = "gobytes \<Rightarrow> float64 \<times> string option"

fun jsonType :: "jsonval \<Rightarrow> string" where
  "jsonType (JObject _) = ''map[string]interface {}''"
| "jsonType (JFloat _) = ''float64''"
| "jsonType (JBool _) = ''bool''"

abbreviation sliceOf :: "jv \<Rightarrow> jv list code" where
  "sliceOf v \<equiv> toIfaceSlice jsonType v"

section \<open>Code blocks\<close>

definition onJSON1 :: "jv \<Rightarrow> jsonCode" where
  "onJSON1 vals =
     thenP (sliceOf vals) (\<lambda>valsSl.
       if length valsSl = 0 then Inr (VNil, None)
       else if length valsSl = 1 then Inr (valsSl ! 0, None)
       else Inr (VSlice valsSl, None))"

definition callonJSON1 :: "jsonval runFn" where
  "callonJSON1 c stack = code_of c (onJSON1 (labelled stack ''vals''))"

definition onValue1 :: "jv \<Rightarrow> jsonCode" where
  "onValue1 val = Inr (val, None)"

definition callonValue1 :: "jsonval runFn" where
  "callonValue1 c stack = code_of c (onValue1 (labelled stack ''val''))"

fun objectRest :: "(gobytes \<times> jv) list \<Rightarrow> jv list \<Rightarrow> (gobytes \<times> jv) list code" where
  "objectRest res [] = Inr res"
| "objectRest res (v # vs) =
     thenP (sliceOf v) (\<lambda>vSl. thenP (index vSl 2) (\<lambda>kv. thenP (asString jsonType kv) (\<lambda>k.
     thenP (index vSl 6) (\<lambda>x. objectRest (AList.update k x res) vs))))"

definition onObject1 :: "jv \<Rightarrow> jsonCode" where
  "onObject1 vals =
     thenP (sliceOf vals) (\<lambda>valsSl.
       if length valsSl = 0 then Inr (VUser (JObject []), None)
       else thenP (index valsSl 0) (\<lambda>kv. thenP (asString jsonType kv) (\<lambda>k. thenP (index valsSl 4) (\<lambda>x.
            thenP (index valsSl 5) (\<lambda>rv. thenP (sliceOf rv) (\<lambda>restSl.
            thenP (objectRest [(k, x)] restSl) (\<lambda>res. Inr (VUser (JObject res), None))))))))"

definition callonObject1 :: "jsonval runFn" where
  "callonObject1 c stack = code_of c (onObject1 (labelled stack ''vals''))"

definition onArray1 :: "jv \<Rightarrow> jsonCode" where
  "onArray1 vals =
     thenP (sliceOf vals) (\<lambda>valsSl.
       if length valsSl = 0 then Inr (VSlice [], None)
       else thenP (index valsSl 0) (\<lambda>x. thenP (index valsSl 1) (\<lambda>rv. thenP (sliceOf rv) (\<lambda>restSl.
            thenP (mapP (\<lambda>v. thenP (sliceOf v) (\<lambda>vSl. index vSl 2)) restSl) (\<lambda>xs.
            Inr (VSlice (x # xs), None))))))"

definition callonArray1 :: "jsonval runFn" where
  "callonArray1 c stack = code_of c (onArray1 (labelled stack ''vals''))"

definition onNumber1 :: "floatReader \<Rightarrow> current \<Rightarrow> jsonCode" where
  "onNumber1 parseFloat c = (let (f, err) = parseFloat (cur_text c) in Inr (VUser (JFloat f), err))"

definition callonNumber1 :: "floatReader \<Rightarrow> jsonval runFn" where
  "callonNumber1 parseFloat c stack = code_of c (onNumber1 parseFloat c)"

definition onString1 :: "current \<Rightarrow> jsonCode" where
  "onString1 c =
     (case Unquote (cur_text c) of
        Some s \<Rightarrow> Inr (VString s, None)
      | None \<Rightarrow> Inr (VString '''', Some ''invalid syntax''))"

definition callonString1 :: "jsonval runFn" where
  "callonString1 c stack = code_of c (onString1 c)"

definition onBool2 :: "jsonCode" where
  "onBool2 = Inr (VUser (JBool True), None)"

definition callonBool2 :: "jsonval runFn" where
  "callonBool2 c stack = code_of c onBool2"

definition onBool4 :: "jsonCode" where
  "onBool4 = Inr (VUser (JBool False), None)"

definition callonBool4 :: "jsonval runFn" where
  "callonBool4 c stack = code_of c onBool4"

definition onNull1 :: "jsonCode" where
  "onNull1 = Inr (VNil, None)"

definition callonNull1 :: "jsonval runFn" where
  "callonNull1 c stack = code_of c onNull1"

section \<open>The grammar\<close>

definition json_JSON :: "jsonval rule" where
  "json_JSON = \<lparr>rule_pos = at_pos 37 1 704, rule_name = ''JSON'', displayName = '''', rule_expr =
    (actionExpr (at_pos 37 8 713)
      (seqExpr (at_pos 37 8 713) [
        (ruleRefExpr (at_pos 37 8 713) ''_''),
        (labeledExpr (at_pos 37 10 715) ''vals''
          (oneOrMoreExpr (at_pos 37 15 720)
            (ruleRefExpr (at_pos 37 15 720) ''Value''))),
        (ruleRefExpr (at_pos 37 22 727) ''EOF'')])
      callonJSON1)\<rparr>"

definition json_Value :: "jsonval rule" where
  "json_Value = \<lparr>rule_pos = at_pos 49 1 918, rule_name = ''Value'', displayName = '''', rule_expr =
    (actionExpr (at_pos 49 9 928)
      (seqExpr (at_pos 49 9 928) [
        (labeledExpr (at_pos 49 9 928) ''val''
          (choiceExpr (at_pos 49 15 934) [
            (ruleRefExpr (at_pos 49 15 934) ''Object''),
            (ruleRefExpr (at_pos 49 24 943) ''Array''),
            (ruleRefExpr (at_pos 49 32 951) ''Number''),
            (ruleRefExpr (at_pos 49 41 960) ''String''),
            (ruleRefExpr (at_pos 49 50 969) ''Bool''),
            (ruleRefExpr (at_pos 49 57 976) ''Null'')])),
        (ruleRefExpr (at_pos 49 64 983) ''_'')])
      callonValue1)\<rparr>"

definition json_Object :: "jsonval rule" where
  "json_Object = \<lparr>rule_pos = at_pos 53 1 1010, rule_name = ''Object'', displayName = '''', rule_expr =
    (actionExpr (at_pos 53 10 1021)
      (seqExpr (at_pos 53 10 1021) [
        (litMatcher (at_pos 53 10 1021) ''{'' False),
        (ruleRefExpr (at_pos 53 14 1025) ''_''),
        (labeledExpr (at_pos 53 16 1027) ''vals''
          (zeroOrOneExpr (at_pos 53 21 1032)
            (seqExpr (at_pos 53 23 1034) [
              (ruleRefExpr (at_pos 53 23 1034) ''String''),
              (ruleRefExpr (at_pos 53 30 1041) ''_''),
              (litMatcher (at_pos 53 32 1043) '':'' False),
              (ruleRefExpr (at_pos 53 36 1047) ''_''),
              (ruleRefExpr (at_pos 53 38 1049) ''Value''),
              (zeroOrMoreExpr (at_pos 53 44 1055)
                (seqExpr (at_pos 53 46 1057) [
                  (litMatcher (at_pos 53 46 1057) '','' False),
                  (ruleRefExpr (at_pos 53 50 1061) ''_''),
                  (ruleRefExpr (at_pos 53 52 1063) ''String''),
                  (ruleRefExpr (at_pos 53 59 1070) ''_''),
                  (litMatcher (at_pos 53 61 1072) '':'' False),
                  (ruleRefExpr (at_pos 53 65 1076) ''_''),
                  (ruleRefExpr (at_pos 53 67 1078) ''Value'')]))]))),
        (litMatcher (at_pos 53 79 1090) ''}'' False)])
      callonObject1)\<rparr>"

definition json_Array :: "jsonval rule" where
  "json_Array = \<lparr>rule_pos = at_pos 68 1 1432, rule_name = ''Array'', displayName = '''', rule_expr =
    (actionExpr (at_pos 68 9 1442)
      (seqExpr (at_pos 68 9 1442) [
        (litMatcher (at_pos 68 9 1442) ''['' False),
        (ruleRefExpr (at_pos 68 13 1446) ''_''),
        (labeledExpr (at_pos 68 15 1448) ''vals''
          (zeroOrOneExpr (at_pos 68 20 1453)
            (seqExpr (at_pos 68 22 1455) [
              (ruleRefExpr (at_pos 68 22 1455) ''Value''),
              (zeroOrMoreExpr (at_pos 68 28 1461)
                (seqExpr (at_pos 68 30 1463) [
                  (litMatcher (at_pos 68 30 1463) '','' False),
                  (ruleRefExpr (at_pos 68 34 1467) ''_''),
                  (ruleRefExpr (at_pos 68 36 1469) ''Value'')]))]))),
        (litMatcher (at_pos 68 48 1481) '']'' False)])
      callonArray1)\<rparr>"

definition json_Number :: "floatReader \<Rightarrow> jsonval rule" where
  "json_Number parseFloat = \<lparr>rule_pos = at_pos 82 1 1787, rule_name = ''Number'', displayName = '''', rule_expr =
    (actionExpr (at_pos 82 10 1798)
      (seqExpr (at_pos 82 10 1798) [
        (zeroOrOneExpr (at_pos 82 10 1798)
          (litMatcher (at_pos 82 10 1798) ''-'' False)),
        (ruleRefExpr (at_pos 82 15 1803) ''Integer''),
        (zeroOrOneExpr (at_pos 82 23 1811)
          (seqExpr (at_pos 82 25 1813) [
            (litMatcher (at_pos 82 25 1813) ''.'' False),
            (oneOrMoreExpr (at_pos 82 29 1817)
              (ruleRefExpr (at_pos 82 29 1817) ''DecimalDigit''))])),
        (zeroOrOneExpr (at_pos 82 46 1834)
          (ruleRefExpr (at_pos 82 46 1834) ''Exponent''))])
      (callonNumber1 parseFloat))\<rparr>"

definition json_Integer :: "jsonval rule" where
  "json_Integer = \<lparr>rule_pos = at_pos 88 1 1989, rule_name = ''Integer'', displayName = '''', rule_expr =
    (choiceExpr (at_pos 88 11 2001) [
      (litMatcher (at_pos 88 11 2001) ''0'' False),
      (seqExpr (at_pos 88 17 2007) [
        (ruleRefExpr (at_pos 88 17 2007) ''NonZeroDecimalDigit''),
        (zeroOrMoreExpr (at_pos 88 37 2027)
          (ruleRefExpr (at_pos 88 37 2027) ''DecimalDigit''))])])\<rparr>"

definition json_Exponent :: "jsonval rule" where
  "json_Exponent = \<lparr>rule_pos = at_pos 90 1 2042, rule_name = ''Exponent'', displayName = '''', rule_expr =
    (seqExpr (at_pos 90 12 2055) [
      (litMatcher (at_pos 90 12 2055) ''e'' True),
      (zeroOrOneExpr (at_pos 90 17 2060)
        (charClassMatcher \<lparr>cc_pos = at_pos 90 17 2060, cc_val = ''[+-]'',
           chars = [43, 45], ranges = [], classes = [],
           cc_ignoreCase = False, inverted = False\<rparr>)),
      (oneOrMoreExpr (at_pos 90 23 2066)
        (ruleRefExpr (at_pos 90 23 2066) ''DecimalDigit''))])\<rparr>"

definition json_String :: "jsonval rule" where
  "json_String = \<lparr>rule_pos = at_pos 92 1 2081, rule_name = ''String'', displayName = '''', rule_expr =
    (actionExpr (at_pos 92 10 2092)
      (seqExpr (at_pos 92 10 2092) [
        (litMatcher (at_pos 92 10 2092) [CHR 0x22] False),
        (zeroOrMoreExpr (at_pos 92 14 2096)
          (choiceExpr (at_pos 92 16 2098) [
            (seqExpr (at_pos 92 16 2098) [
              (notExpr (at_pos 92 16 2098)
                (ruleRefExpr (at_pos 92 17 2099) ''EscapedChar'')),
              (anyMatcher (at_pos 92 29 2111))]),
            (seqExpr (at_pos 92 33 2115) [
              (litMatcher (at_pos 92 33 2115) [CHR 0x5C] False),
              (ruleRefExpr (at_pos 92 38 2120) ''EscapeSequence'')])])),
        (litMatcher (at_pos 92 56 2138) [CHR 0x22] False)])
      callonString1)\<rparr>"

definition json_EscapedChar :: "jsonval rule" where
  "json_EscapedChar = \<lparr>rule_pos = at_pos 98 1 2310, rule_name = ''EscapedChar'', displayName = '''', rule_expr =
    (charClassMatcher \<lparr>cc_pos = at_pos 98 15 2326, cc_val = (''['' @ [CHR 0x5C] @ ''x00-'' @ [CHR 0x5C] @ ''x1f'' @ [CHR 0x22, CHR 0x5C, CHR 0x5C] @ '']''),
       chars = [34, 92], ranges = [0, 31], classes = [],
       cc_ignoreCase = False, inverted = False\<rparr>)\<rparr>"

definition json_EscapeSequence :: "jsonval rule" where
  "json_EscapeSequence = \<lparr>rule_pos = at_pos 100 1 2342, rule_name = ''EscapeSequence'', displayName = '''', rule_expr =
    (choiceExpr (at_pos 100 18 2361) [
      (ruleRefExpr (at_pos 100 18 2361) ''SingleCharEscape''),
      (ruleRefExpr (at_pos 100 37 2380) ''UnicodeEscape'')])\<rparr>"

definition json_SingleCharEscape :: "jsonval rule" where
  "json_SingleCharEscape = \<lparr>rule_pos = at_pos 102 1 2395, rule_name = ''SingleCharEscape'', displayName = '''', rule_expr =
    (charClassMatcher \<lparr>cc_pos = at_pos 102 20 2416, cc_val = (''['' @ [CHR 0x22, CHR 0x5C, CHR 0x5C] @ ''/bfnrt]''),
       chars = [34, 92, 47, 98, 102, 110, 114, 116], ranges = [], classes = [],
       cc_ignoreCase = False, inverted = False\<rparr>)\<rparr>"

definition json_UnicodeEscape :: "jsonval rule" where
  "json_UnicodeEscape = \<lparr>rule_pos = at_pos 104 1 2429, rule_name = ''UnicodeEscape'', displayName = '''', rule_expr =
    (seqExpr (at_pos 104 17 2447) [
      (litMatcher (at_pos 104 17 2447) ''u'' False),
      (ruleRefExpr (at_pos 104 21 2451) ''HexDigit''),
      (ruleRefExpr (at_pos 104 30 2460) ''HexDigit''),
      (ruleRefExpr (at_pos 104 39 2469) ''HexDigit''),
      (ruleRefExpr (at_pos 104 48 2478) ''HexDigit'')])\<rparr>"

definition json_DecimalDigit :: "jsonval rule" where
  "json_DecimalDigit = \<lparr>rule_pos = at_pos 106 1 2488, rule_name = ''DecimalDigit'', displayName = '''', rule_expr =
    (charClassMatcher \<lparr>cc_pos = at_pos 106 16 2505, cc_val = ''[0-9]'',
       chars = [], ranges = [48, 57], classes = [],
       cc_ignoreCase = False, inverted = False\<rparr>)\<rparr>"

definition json_NonZeroDecimalDigit :: "jsonval rule" where
  "json_NonZeroDecimalDigit = \<lparr>rule_pos = at_pos 108 1 2512, rule_name = ''NonZeroDecimalDigit'', displayName = '''', rule_expr =
    (charClassMatcher \<lparr>cc_pos = at_pos 108 23 2536, cc_val = ''[1-9]'',
       chars = [], ranges = [49, 57], classes = [],
       cc_ignoreCase = False, inverted = False\<rparr>)\<rparr>"

definition json_HexDigit :: "jsonval rule" where
  "json_HexDigit = \<lparr>rule_pos = at_pos 110 1 2543, rule_name = ''HexDigit'', displayName = '''', rule_expr =
    (charClassMatcher \<lparr>cc_pos = at_pos 110 12 2556, cc_val = ''[0-9a-f]i'',
       chars = [], ranges = [48, 57, 97, 102], classes = [],
       cc_ignoreCase = True, inverted = False\<rparr>)\<rparr>"

definition json_Bool :: "jsonval rule" where
  "json_Bool = \<lparr>rule_pos = at_pos 112 1 2567, rule_name = ''Bool'', displayName = '''', rule_expr =
    (choiceExpr (at_pos 112 8 2576) [
      (actionExpr (at_pos 112 8 2576)
        (litMatcher (at_pos 112 8 2576) ''true'' False)
        callonBool2),
      (actionExpr (at_pos 112 38 2606)
        (litMatcher (at_pos 112 38 2606) ''false'' False)
        callonBool4)])\<rparr>"

definition json_Null :: "jsonval rule" where
  "json_Null = \<lparr>rule_pos = at_pos 114 1 2637, rule_name = ''Null'', displayName = '''', rule_expr =
    (actionExpr (at_pos 114 8 2646)
      (litMatcher (at_pos 114 8 2646) ''null'' False)
      callonNull1)\<rparr>"

definition json_underscore :: "jsonval rule" where
  "json_underscore = \<lparr>rule_pos = at_pos 116 1 2674, rule_name = ''_'', displayName = ([CHR 0x22] @ ''whitespace'' @ [CHR 0x22]), rule_expr =
    (zeroOrMoreExpr (at_pos 116 18 2693)
      (charClassMatcher \<lparr>cc_pos = at_pos 116 18 2693, cc_val = (''[ '' @ [CHR 0x5C] @ ''t'' @ [CHR 0x5C] @ ''r'' @ [CHR 0x5C] @ ''n]''),
         chars = [32, 9, 13, 10], ranges = [], classes = [],
         cc_ignoreCase = False, inverted = False\<rparr>))\<rparr>"

definition json_EOF :: "jsonval rule" where
  "json_EOF = \<lparr>rule_pos = at_pos 118 1 2705, rule_name = ''EOF'', displayName = '''', rule_expr =
    (notExpr (at_pos 118 7 2713)
      (anyMatcher (at_pos 118 8 2714)))\<rparr>"

definition json_g :: "floatReader \<Rightarrow> jsonval grammar" where
  "json_g parseFloat = \<lparr>grammar_pos = at_pos 0 0 0, grammar_rules =
     [json_JSON,
      json_Value,
      json_Object,
      json_Array,
      json_Number parseFloat,
      json_Integer,
      json_Exponent,
      json_String,
      json_EscapedChar,
      json_EscapeSequence,
      json_SingleCharEscape,
      json_UnicodeEscape,
      json_DecimalDigit,
      json_NonZeroDecimalDigit,
      json_HexDigit,
      json_Bool,
      json_Null,
      json_underscore,
      json_EOF]\<rparr>"

end
