(* ===== verification/Json_Parser_Properties.thy ===== *)
theory Json_Parser_Properties
  imports Json_Parser Peg_Checked
begin

text \<open>
  The generated JSON parser returns on every input and none of its code blocks panics; what it yields without
  an error is a JSON value, or the slice of several.
\<close>

section \<open>Termination\<close>

definition json_consuming :: "string set" where
  "json_consuming = {
     ''JSON'', ''Value'', ''Object'', ''Array'', ''Number'', ''Integer'', ''Exponent'', ''String'', ''EscapedChar'',
     ''EscapeSequence'', ''SingleCharEscape'', ''UnicodeEscape'', ''DecimalDigit'', ''NonZeroDecimalDigit'',
     ''Bool'', ''Null''}"

definition json_ranks :: "(string \<times> nat) list" where
  "json_ranks = [
     (''JSON'', 4), (''Value'', 3), (''Number'', 2), (''Integer'', 1), (''Exponent'', 1), (''EscapeSequence'', 1)]"

lemma json_consuming_mem:
  "''JSON'' \<in> json_consuming"
  "''Value'' \<in> json_consuming"
  "''Object'' \<in> json_consuming"
  "''Array'' \<in> json_consuming"
  "''Number'' \<in> json_consuming"
  "''Integer'' \<in> json_consuming"
  "''Exponent'' \<in> json_consuming"
  "''String'' \<in> json_consuming"
  "''EscapedChar'' \<in> json_consuming"
  "''EscapeSequence'' \<in> json_consuming"
  "''SingleCharEscape'' \<in> json_consuming"
  "''UnicodeEscape'' \<in> json_consuming"
  "''DecimalDigit'' \<in> json_consuming"
  "''NonZeroDecimalDigit'' \<in> json_consuming"
  "''HexDigit'' \<notin> json_consuming"
  "''Bool'' \<in> json_consuming"
  "''Null'' \<in> json_consuming"
  "''_'' \<notin> json_consuming"
  "''EOF'' \<notin> json_consuming"
  by (simp_all add: json_consuming_def)

lemma json_rank:
  "rank_of json_ranks ''JSON'' = 4"
  "rank_of json_ranks ''Value'' = 3"
  "rank_of json_ranks ''Object'' = 0"
  "rank_of json_ranks ''Array'' = 0"
  "rank_of json_ranks ''Number'' = 2"
  "rank_of json_ranks ''Integer'' = 1"
  "rank_of json_ranks ''Exponent'' = 1"
  "rank_of json_ranks ''String'' = 0"
  "rank_of json_ranks ''EscapedChar'' = 0"
  "rank_of json_ranks ''EscapeSequence'' = 1"
  "rank_of json_ranks ''SingleCharEscape'' = 0"
  "rank_of json_ranks ''UnicodeEscape'' = 0"
  "rank_of json_ranks ''DecimalDigit'' = 0"
  "rank_of json_ranks ''NonZeroDecimalDigit'' = 0"
  "rank_of json_ranks ''HexDigit'' = 0"
  "rank_of json_ranks ''Bool'' = 0"
  "rank_of json_ranks ''Null'' = 0"
  "rank_of json_ranks ''_'' = 0"
  "rank_of json_ranks ''EOF'' = 0"
  by (simp_all add: rank_of_def json_ranks_def)

abbreviation json_wf :: "unicode_env \<Rightarrow> jsonval rule \<Rightarrow> bool" where
  "json_wf U r \<equiv> wf_rule U json_consuming (rank_of json_ranks) r"

lemmas json_wf_simps = wf_rule_def json_consuming_mem json_rank class_wf_simps

lemmas json_rule_defs =
  json_JSON_def json_Value_def json_Object_def json_Array_def json_Number_def json_Integer_def
  json_Exponent_def json_String_def json_EscapedChar_def json_EscapeSequence_def json_SingleCharEscape_def
  json_UnicodeEscape_def json_DecimalDigit_def json_NonZeroDecimalDigit_def json_HexDigit_def json_Bool_def
  json_Null_def json_underscore_def json_EOF_def

lemma json_wf_rules:
  "json_wf U json_JSON" "json_wf U json_Value" "json_wf U json_Object" "json_wf U json_Array"
  "json_wf U json_Integer" "json_wf U json_Exponent" "json_wf U json_String" "json_wf U json_EscapedChar"
  "json_wf U json_EscapeSequence" "json_wf U json_SingleCharEscape" "json_wf U json_UnicodeEscape"
  "json_wf U json_DecimalDigit" "json_wf U json_NonZeroDecimalDigit" "json_wf U json_HexDigit"
  "json_wf U json_Bool" "json_wf U json_Null" "json_wf U json_underscore" "json_wf U json_EOF"
  by (simp_all add: json_rule_defs json_wf_simps)

lemma json_wf_Number: "json_wf U (json_Number parseFloat)"
  by (simp add: json_rule_defs json_wf_simps)

lemma json_grammar_wf: "wf_grammar U json_consuming (rank_of json_ranks) (json_g parseFloat)"
  by (simp add: wf_grammar_def json_g_def json_wf_rules json_wf_Number)

section \<open>Types\<close>

text \<open>The values of Go that stand for JSON values; the keys of an object are distinct.\<close>

inductive_set json_values :: "jv set" where
  null [intro!]: "VNil \<in> json_values"
| str [intro!]: "VString s \<in> json_values"
| float [intro!]: "VUser (JFloat x) \<in> json_values"
| bool [intro!]: "VUser (JBool b) \<in> json_values"
| arr [intro]: "(\<And>v. v \<in> set vs \<Longrightarrow> v \<in> json_values) \<Longrightarrow> VSlice vs \<in> json_values"
| obj [intro]: "distinct (map fst kvs) \<Longrightarrow> (\<And>k v. (k, v) \<in> set kvs \<Longrightarrow> v \<in> json_values) \<Longrightarrow>
    VUser (JObject kvs) \<in> json_values"

definition json_type :: "string \<Rightarrow> jv set" where
  "json_type n =
     (if n = ''String'' then range VString
      else if n \<in> {''JSON'', ''Value'', ''Object'', ''Array'', ''Number'', ''Bool'', ''Null''} then json_values
      else UNIV)"

lemma json_type_simps:
  "json_type ''JSON'' = json_values" "json_type ''Value'' = json_values" "json_type ''Object'' = json_values"
  "json_type ''Array'' = json_values" "json_type ''Number'' = json_values" "json_type ''Integer'' = UNIV"
  "json_type ''Exponent'' = UNIV" "json_type ''String'' = range VString" "json_type ''EscapedChar'' = UNIV"
  "json_type ''EscapeSequence'' = UNIV" "json_type ''SingleCharEscape'' = UNIV" "json_type ''UnicodeEscape'' = UNIV"
  "json_type ''DecimalDigit'' = UNIV" "json_type ''NonZeroDecimalDigit'' = UNIV" "json_type ''HexDigit'' = UNIV"
  "json_type ''Bool'' = json_values" "json_type ''Null'' = json_values" "json_type ''_'' = UNIV" "json_type ''EOF'' = UNIV"
  by (simp_all add: json_type_def)

abbreviation no_panic :: "panicval \<Rightarrow> bool" where
  "no_panic \<equiv> \<lambda>_. False"

abbreviation json_typed :: "unicode_env \<Rightarrow> gobytes \<Rightarrow> jsonval rule \<Rightarrow> bool" where
  "json_typed U d r \<equiv> typed_rule U no_panic json_type d r"

text \<open>The elements after the first of an object and of an array.\<close>

definition members :: "jv set" where
  "members = {VSlice [c, w, VString k, x, y, z, v] |c w k x y z v. v \<in> json_values}"

definition elements :: "jv set" where
  "elements = {VSlice [c, w, v] |c w v. v \<in> json_values}"

lemma update_values: "snd ` set (AList.update k v kvs) \<subseteq> insert v (snd ` set kvs)"
  by (induction kvs) auto

lemma objectRest_ok:
  assumes "set vs \<subseteq> members" "distinct (map fst res)" "snd ` set res \<subseteq> json_values"
  shows "\<exists>kvs. objectRest res vs = Inr kvs \<and> VUser (JObject kvs) \<in> json_values"
  using assms
proof (induction vs arbitrary: res)
  case Nil
  then show ?case by force
next
  case (Cons m vs)
  then obtain c w k x y z v where m: "m = VSlice [c, w, VString k, x, y, z, v]" "v \<in> json_values"
    by (auto simp: members_def)
  have "snd ` set (AList.update k v res) \<subseteq> json_values"
    using Cons.prems(3) m(2) update_values [of k v res] by blast
  with Cons.IH [of "AList.update k v res"] Cons.prems m show ?case by (simp add: distinct_update)
qed

lemma onObject1_ok:
  assumes "x \<in> insert VNil {VSlice [VString k, a, b, c, v, VSlice vs] |k a b c v vs. v \<in> json_values \<and> set vs \<subseteq> members}"
  shows "\<exists>v\<in>json_values. onObject1 x = Inr (v, None)"
proof (cases "x = VNil")
  case True
  then show ?thesis by (auto simp: onObject1_def)
next
  case False
  with assms obtain k a b c v vs where v: "x = VSlice [VString k, a, b, c, v, VSlice vs]" "v \<in> json_values" "set vs \<subseteq> members"
    by blast
  with objectRest_ok [of vs "[(k, v)]"] show ?thesis by (auto simp: onObject1_def)
qed

lemma elements_ok:
  assumes "set vs \<subseteq> elements"
  shows "\<exists>xs. mapP (\<lambda>v. thenP (toIfaceSlice jsonType v) (\<lambda>vSl. index vSl 2)) vs = Inr xs \<and> set xs \<subseteq> json_values"
  using assms
proof (induction vs)
  case (Cons m vs)
  then obtain c w v where "m = VSlice [c, w, v]" "v \<in> json_values" by (auto simp: elements_def)
  with Cons show ?case by auto
qed simp

lemma onArray1_ok:
  assumes "x \<in> insert VNil {VSlice [v, VSlice vs] |v vs. v \<in> json_values \<and> set vs \<subseteq> elements}"
  shows "\<exists>v\<in>json_values. onArray1 x = Inr (v, None)"
proof (cases "x = VNil")
  case True
  then show ?thesis by (auto simp: onArray1_def)
next
  case False
  with assms obtain v vs where v: "x = VSlice [v, VSlice vs]" "v \<in> json_values" "set vs \<subseteq> elements" by blast
  from elements_ok [OF v(3)] obtain xs where
    "mapP (\<lambda>v. thenP (toIfaceSlice jsonType v) (\<lambda>vSl. index vSl 2)) vs = Inr xs" "set xs \<subseteq> json_values" by blast
  with v show ?thesis by (auto simp: onArray1_def intro!: json_values.arr)
qed

lemma onJSON1_ok:
  assumes "set vs \<subseteq> json_values"
  shows "\<exists>v\<in>json_values. onJSON1 (VSlice vs) = Inr (v, None)"
proof -
  have "vs ! 0 \<in> json_values" if "length vs = 1" using that assms by (auto simp: subset_iff)
  then show ?thesis using assms by (auto simp: onJSON1_def)
qed

lemmas json_typing = bound_Cons json_type_simps gives_code list_all2_Cons2

lemma Object_typed: "json_typed U d json_Object"
  unfolding json_Object_def
proof (rule typed_action_rule, goal_cases)
  case (2 c m)
  then have "labelled m ''vals'' \<in> insert VNil {VSlice [VString k, a, b, c, v, VSlice vs] |k a b c v vs. v \<in> json_values \<and> set vs \<subseteq> members}"
    by (fastforce simp: json_typing members_def dest!: labelled_bound)
  from onObject1_ok [OF this] show ?case by (auto simp: callonObject1_def json_typing)
qed simp

lemma Array_typed: "json_typed U d json_Array"
  unfolding json_Array_def
proof (rule typed_action_rule, goal_cases)
  case (2 c m)
  then have "labelled m ''vals'' \<in> insert VNil {VSlice [v, VSlice vs] |v vs. v \<in> json_values \<and> set vs \<subseteq> elements}"
    by (fastforce simp: json_typing elements_def dest!: labelled_bound)
  from onArray1_ok [OF this] show ?case by (auto simp: callonArray1_def json_typing)
qed simp

lemma JSON_typed: "json_typed U d json_JSON"
  unfolding json_JSON_def
proof (rule typed_action_rule, goal_cases)
  case (2 c m)
  then obtain vs where "labelled m ''vals'' = VSlice vs" "set vs \<subseteq> json_values"
    by (auto simp: json_typing dest!: labelled_bound)
  with onJSON1_ok [of vs] show ?case by (auto simp: callonJSON1_def json_typing)
qed simp

lemma value_rules:
  "json_typed U d json_Value" "json_typed U d (json_Number parseFloat)" "json_typed U d json_String" "json_typed U d json_Null"
  unfolding json_Value_def json_Number_def json_String_def json_Null_def
  by (rule typed_action_rule; auto simp: json_typing callonValue1_def onValue1_def callonNumber1_def onNumber1_def
      callonString1_def onString1_def callonNull1_def onNull1_def split: option.split prod.split dest!: labelled_bound)+

lemma Bool_typed: "json_typed U d json_Bool"
  unfolding json_Bool_def
  by (rule typed_choice_rule, elim set_ConsD [elim_format] disjE; (hypsubst, rule typed_action)?;
      auto simp: json_typing callonBool2_def onBool2_def callonBool4_def onBool4_def)

lemma text_rules:
  "json_typed U d json_Integer" "json_typed U d json_Exponent" "json_typed U d json_EscapedChar" "json_typed U d json_EscapeSequence"
  "json_typed U d json_SingleCharEscape" "json_typed U d json_UnicodeEscape" "json_typed U d json_DecimalDigit"
  "json_typed U d json_NonZeroDecimalDigit" "json_typed U d json_HexDigit" "json_typed U d json_underscore" "json_typed U d json_EOF"
  by (simp_all add: typed_rule_def json_rule_defs json_type_simps)

lemma json_grammar_typed: "typed_grammar U no_panic json_type d (json_g parseFloat)"
  by (simp add: typed_grammar_def json_g_def Object_typed Array_typed JSON_typed value_rules Bool_typed text_rules)

interpretation jsonp: checked_grammar U "json_g parseFloat" "\<lambda>_. no_panic" json_type json_consuming "rank_of json_ranks"
  for U parseFloat
  by unfold_locales (rule json_grammar_wf json_grammar_typed)+

section \<open>Every input\<close>

text \<open>
  C23. The generated JSON parser returns on every input, with any reader of numbers: it yields either a value
  and no error, and then the value is a JSON value whose objects have distinct keys (so no type assertion or
  index of the code blocks that build it has failed), or at least one error; and no code block ever panics.
\<close>

theorem json_parse_total:
  "\<exists>n q v err. parser_parse U n (json_g parseFloat) (newParser f b) = Some (q, v, err) \<and>
     (case err of None \<Rightarrow> v \<in> json_values | Some es \<Rightarrow> es \<noteq> []) \<and>
     (\<forall>x p. parseRule (parseExpr U n) json_JSON (started (json_g parseFloat) f b) \<noteq> Panic x p)"
proof -
  have s: "hd (grammar_rules (json_g parseFloat)) = json_JSON" "rule_name json_JSON = ''JSON''"
    by (simp_all add: json_g_def json_JSON_def)
  from jsonp.total [where b = b and U = U and parseFloat = parseFloat and f = f, unfolded s json_type_simps] show ?thesis by (fastforce split: result.splits)
qed

end
