(* ===== verification/Pigeon.thy ===== *)
theory Pigeon
  imports Peg_Actions Peg_Ast
begin

text \<open>
  The parser of grammars that pigeon uses, \<^verbatim>\<open>peg/pigeon.go\<close>, generated from \<^verbatim>\<open>peg/grammar/pigeon.peg\<close>: its code
  blocks, which build the syntax tree of \<^verbatim>\<open>peg/ast\<close>, and its grammar, one definition per rule as the generated literal
  has them. The tables of reserved words and of Unicode classes are those of
  \<^verbatim>\<open>peg/reserved_words.go\<close> and \<^verbatim>\<open>peg/unicode_classes.go\<close>.
\<close>

section \<open>Values\<close>

datatype astval = NGrammar Grammar | NRule Rule | NIdentifier Identifier | NStringLit StringLit
  | NCodeBlock CodeBlock | NExpr Expression

fun exprType :: "Expression \<Rightarrow> string" where
  "exprType (ChoiceExpr _ _) = ''*ast.ChoiceExpr''"
| "exprType (ActionExpr _ _ _ _) = ''*ast.ActionExpr''"
| "exprType (SeqExpr _ _) = ''*ast.SeqExpr''"
| "exprType (LabeledExpr _ _ _) = ''*ast.LabeledExpr''"
| "exprType (AndExpr _ _) = ''*ast.AndExpr''"
| "exprType (NotExpr _ _) = ''*ast.NotExpr''"
| "exprType (ZeroOrOneExpr _ _) = ''*ast.ZeroOrOneExpr''"
| "exprType (ZeroOrMoreExpr _ _) = ''*ast.ZeroOrMoreExpr''"
| "exprType (OneOrMoreExpr _ _) = ''*ast.OneOrMoreExpr''"
| "exprType (RuleRefExpr _ _) = ''*ast.RuleRefExpr''"
| "exprType (AndCodeExpr _ _ _) = ''*ast.AndCodeExpr''"
| "exprType (NotCodeExpr _ _ _) = ''*ast.NotCodeExpr''"
| "exprType (LitMatcher _ _ _) = ''*ast.LitMatcher''"
| "exprType (ClassMatcher _) = ''*ast.CharClassMatcher''"
| "exprType (AnyMatcher _ _) = ''*ast.AnyMatcher''"
| "exprType NilExpr = ''nil''"

fun astType :: "astval \<Rightarrow> string" where
  "astType (NGrammar _) = ''*ast.Grammar''"
| "astType (NRule _) = ''*ast.Rule''"
| "astType (NIdentifier _) = ''*ast.Identifier''"
| "astType (NStringLit _) = ''*ast.StringLit''"
| "astType (NCodeBlock _) = ''*ast.CodeBlock''"
| "astType (NExpr e) = exprType e"

type_synonym av = "astval goval"
type_synonym astCode = "(av \<times> string option) code"

definition badNode :: "av \<Rightarrow> string \<Rightarrow> panicval" where
  "badNode v want = badAssertion astType v want"

definition asGrammar :: "av \<Rightarrow> Grammar code" where
  "asGrammar v = (case v of VUser (NGrammar g) \<Rightarrow> Inr g | _ \<Rightarrow> Inl (badNode v ''*ast.Grammar''))"

definition asRule :: "av \<Rightarrow> Rule code" where
  "asRule v = (case v of VUser (NRule r) \<Rightarrow> Inr r | _ \<Rightarrow> Inl (badNode v ''*ast.Rule''))"

definition asIdentifier :: "av \<Rightarrow> Identifier code" where
  "asIdentifier v = (case v of VUser (NIdentifier i) \<Rightarrow> Inr i | _ \<Rightarrow> Inl (badNode v ''*ast.Identifier''))"

definition asStringLit :: "av \<Rightarrow> StringLit code" where
  "asStringLit v = (case v of VUser (NStringLit s) \<Rightarrow> Inr s | _ \<Rightarrow> Inl (badNode v ''*ast.StringLit''))"

definition asCodeBlock :: "av \<Rightarrow> CodeBlock code" where
  "asCodeBlock v = (case v of VUser (NCodeBlock b) \<Rightarrow> Inr b | _ \<Rightarrow> Inl (badNode v ''*ast.CodeBlock''))"

text \<open>
  The interface \<^verbatim>\<open>ast.Expression\<close> asks for a method \<^verbatim>\<open>Pos\<close>, which every node has: the assertion would also let
  a rule, an identifier, a literal or a code block through, which the type \<open>Expression\<close> of the model does not hold. That no
  such node ever arrives is part of what \<open>Pigeon_Properties\<close> proves: the panic \<open>foreignNode\<close> never happens.
\<close>

definition foreignNode :: panicval where
  "foreignNode = PanicValue ''node that is not an expression''"

definition asExpression :: "av \<Rightarrow> Expression code" where
  "asExpression v =
     (case v of
        VUser (NExpr e) \<Rightarrow> Inr e
      | VUser _ \<Rightarrow> Inl foreignNode
      | VNil \<Rightarrow> Inl (PanicError ''interface conversion: interface is nil, not ast.Expression'')
      | _ \<Rightarrow> Inl (PanicError (''interface conversion: '' @ goType astType v @ '' is not ast.Expression: missing method Pos'')))"

section \<open>Helpers\<close>

definition astPos :: "current \<Rightarrow> Pos" where
  "astPos c = \<lparr>Filename = '''', Line = line (cur_pos c), Col = col (cur_pos c), Off = offset (cur_pos c)\<rparr>"

abbreviation slice_of :: "av \<Rightarrow> av list code" where
  "slice_of v \<equiv> toIfaceSlice astType v"

definition elem :: "nat \<Rightarrow> av \<Rightarrow> av code" where
  "elem i v = thenP (asSlice astType v) (\<lambda>vs. index vs i)"

definition newClass :: "Pos \<Rightarrow> gobytes \<Rightarrow> Expression code" where
  "newClass p raw =
     (case NewCharClassMatcher p raw of
        Ret _ c \<Rightarrow> Inr (ClassMatcher c)
      | Panic x _ \<Rightarrow> Inl x
      | OutOfFuel \<Rightarrow> Inl Hangs)"

section \<open>Tables\<close>

definition reservedWords :: "string list" where
  "reservedWords = [''break'', ''case'', ''chan'', ''const'', ''continue'', ''default'', ''defer'', ''else'',
     ''fallthrough'', ''for'', ''func'', ''goto'', ''go'', ''if'', ''import'', ''interface'', ''map'', ''package'',
     ''range'', ''return'', ''select'', ''struct'', ''switch'', ''type'', ''var'', ''bool'', ''byte'', ''complex64'',
     ''complex128'', ''error'', ''float32'', ''float64'', ''int8'', ''int16'', ''int32'', ''int64'', ''int'',
     ''rune'', ''string'', ''uint8'', ''uint16'', ''uint32'', ''uint64'', ''uintptr'', ''uint'', ''true'', ''false'',
     ''iota'', ''nil'', ''append'', ''cap'', ''close'', ''complex'', ''copy'', ''delete'', ''imag'', ''len'',
     ''make'', ''new'', ''panic'', ''println'', ''print'', ''real'', ''recover'']"

definition unicodeClasses :: "string list" where
  "unicodeClasses = [''ASCII_Hex_Digit'', ''Arabic'', ''Armenian'', ''Avestan'', ''Balinese'', ''Bamum'',
     ''Bassa_Vah'', ''Batak'', ''Bengali'', ''Bidi_Control'', ''Bopomofo'', ''Brahmi'', ''Braille'', ''Buginese'',
     ''Buhid'', ''C'', ''Canadian_Aboriginal'', ''Carian'', ''Caucasian_Albanian'', ''Cc'', ''Cf'', ''Chakma'',
     ''Cham'', ''Cherokee'', ''Co'', ''Common'', ''Coptic'', ''Cs'', ''Cuneiform'', ''Cypriot'', ''Cyrillic'',
     ''Dash'', ''Deprecated'', ''Deseret'', ''Devanagari'', ''Diacritic'', ''Duployan'', ''Egyptian_Hieroglyphs'',
     ''Elbasan'', ''Ethiopic'', ''Extender'', ''Georgian'', ''Glagolitic'', ''Gothic'', ''Grantha'', ''Greek'',
     ''Gujarati'', ''Gurmukhi'', ''Han'', ''Hangul'', ''Hanunoo'', ''Hebrew'', ''Hex_Digit'', ''Hiragana'',
     ''Hyphen'', ''IDS_Binary_Operator'', ''IDS_Trinary_Operator'', ''Ideographic'', ''Imperial_Aramaic'',
     ''Inherited'', ''Inscriptional_Pahlavi'', ''Inscriptional_Parthian'', ''Javanese'', ''Join_Control'',
     ''Kaithi'', ''Kannada'', ''Katakana'', ''Kayah_Li'', ''Kharoshthi'', ''Khmer'', ''Khojki'', ''Khudawadi'',
     ''L'', ''Lao'', ''Latin'', ''Lepcha'', ''Limbu'', ''Linear_A'', ''Linear_B'', ''Lisu'', ''Ll'', ''Lm'', ''Lo'',
     ''Logical_Order_Exception'', ''Lt'', ''Lu'', ''Lycian'', ''Lydian'', ''M'', ''Mahajani'', ''Malayalam'',
     ''Mandaic'', ''Manichaean'', ''Mc'', ''Me'', ''Meetei_Mayek'', ''Mende_Kikakui'', ''Meroitic_Cursive'',
     ''Meroitic_Hieroglyphs'', ''Miao'', ''Mn'', ''Modi'', ''Mongolian'', ''Mro'', ''Myanmar'', ''N'', ''Nabataean'',
     ''Nd'', ''New_Tai_Lue'', ''Nko'', ''Nl'', ''No'', ''Noncharacter_Code_Point'', ''Ogham'', ''Ol_Chiki'',
     ''Old_Italic'', ''Old_North_Arabian'', ''Old_Permic'', ''Old_Persian'', ''Old_South_Arabian'', ''Old_Turkic'',
     ''Oriya'', ''Osmanya'', ''Other_Alphabetic'', ''Other_Default_Ignorable_Code_Point'', ''Other_Grapheme_Extend'',
     ''Other_ID_Continue'', ''Other_ID_Start'', ''Other_Lowercase'', ''Other_Math'', ''Other_Uppercase'', ''P'',
     ''Pahawh_Hmong'', ''Palmyrene'', ''Pattern_Syntax'', ''Pattern_White_Space'', ''Pau_Cin_Hau'', ''Pc'', ''Pd'',
     ''Pe'', ''Pf'', ''Phags_Pa'', ''Phoenician'', ''Pi'', ''Po'', ''Ps'', ''Psalter_Pahlavi'', ''Quotation_Mark'',
     ''Radical'', ''Rejang'', ''Runic'', ''S'', ''STerm'', ''Samaritan'', ''Saurashtra'', ''Sc'', ''Sharada'',
     ''Shavian'', ''Siddham'', ''Sinhala'', ''Sk'', ''Sm'', ''So'', ''Soft_Dotted'', ''Sora_Sompeng'', ''Sundanese'',
     ''Syloti_Nagri'', ''Syriac'', ''Tagalog'', ''Tagbanwa'', ''Tai_Le'', ''Tai_Tham'', ''Tai_Viet'', ''Takri'',
     ''Tamil'', ''Telugu'', ''Terminal_Punctuation'', ''Thaana'', ''Thai'', ''Tibetan'', ''Tifinagh'', ''Tirhuta'',
     ''Ugaritic'', ''Unified_Ideograph'', ''Vai'', ''Variation_Selector'', ''Warang_Citi'', ''White_Space'', ''Yi'',
     ''Z'', ''Zl'', ''Zp'', ''Zs'']"

section \<open>Code blocks\<close>

definition onGrammar1 :: "current \<Rightarrow> av \<Rightarrow> av \<Rightarrow> astCode" where
  "onGrammar1 c initializer rulesV =
     (let g = NewGrammar (astPos c)
      in thenP (slice_of initializer) (\<lambda>initSlice.
         thenP (if length initSlice > 0
                then thenP (index initSlice 0) (\<lambda>v. thenP (asCodeBlock v) (\<lambda>b. Inr (g\<lparr>g_Init := Some b\<rparr>)))
                else Inr g) (\<lambda>g1.
         thenP (slice_of rulesV) (\<lambda>rulesSlice.
         thenP (mapP (\<lambda>duo. thenP (elem 0 duo) asRule) rulesSlice) (\<lambda>rs.
         Inr (VUser (NGrammar (g1\<lparr>g_Rules := rs\<rparr>)), None))))))"

definition callonGrammar1 :: "astval runFn" where
  "callonGrammar1 c stack = code_of c (onGrammar1 c (labelled stack ''initializer'') (labelled stack ''rules''))"

definition onInitializer1 :: "current \<Rightarrow> av \<Rightarrow> astCode" where
  "onInitializer1 c codeV = Inr (codeV, None)"

definition callonInitializer1 :: "astval runFn" where
  "callonInitializer1 c stack = code_of c (onInitializer1 c (labelled stack ''code''))"

definition onRule1 :: "current \<Rightarrow> av \<Rightarrow> av \<Rightarrow> av \<Rightarrow> astCode" where
  "onRule1 c name display expr =
     thenP (asIdentifier name) (\<lambda>nm.
     let rule = NewRule (astPos c) nm
     in thenP (slice_of display) (\<lambda>displaySlice.
        thenP (if length displaySlice > 0
               then thenP (index displaySlice 0) (\<lambda>v. thenP (asStringLit v) (\<lambda>s. Inr (rule\<lparr>r_DisplayName := Some s\<rparr>)))
               else Inr rule) (\<lambda>rule1.
        thenP (asExpression expr) (\<lambda>e. Inr (VUser (NRule (rule1\<lparr>r_Expr := e\<rparr>)), None)))))"

definition callonRule1 :: "astval runFn" where
  "callonRule1 c stack = code_of c (onRule1 c (labelled stack ''name'') (labelled stack ''display'') (labelled stack ''expr''))"

definition onChoiceExpr1 :: "current \<Rightarrow> av \<Rightarrow> av \<Rightarrow> astCode" where
  "onChoiceExpr1 c first rest =
     thenP (slice_of rest) (\<lambda>restSlice.
       if length restSlice = 0 then Inr (first, None)
       else thenP (asExpression first) (\<lambda>e.
            thenP (mapP (\<lambda>sl. thenP (elem 3 sl) asExpression) restSlice) (\<lambda>es.
            Inr (VUser (NExpr (ChoiceExpr (astPos c) (e # es))), None))))"

definition callonChoiceExpr1 :: "astval runFn" where
  "callonChoiceExpr1 c stack = code_of c (onChoiceExpr1 c (labelled stack ''first'') (labelled stack ''rest''))"

definition onActionExpr1 :: "current \<Rightarrow> av \<Rightarrow> av \<Rightarrow> astCode" where
  "onActionExpr1 c expr codeV =
     (if codeV = VNil then Inr (expr, None)
      else thenP (asExpression expr) (\<lambda>e.
           thenP (slice_of codeV) (\<lambda>codeSlice. thenP (index codeSlice 1) (\<lambda>v. thenP (asCodeBlock v) (\<lambda>b.
           Inr (VUser (NExpr (ActionExpr (astPos c) e (Some b) 0)), None))))))"

definition callonActionExpr1 :: "astval runFn" where
  "callonActionExpr1 c stack = code_of c (onActionExpr1 c (labelled stack ''expr'') (labelled stack ''code''))"

definition onSeqExpr1 :: "current \<Rightarrow> av \<Rightarrow> av \<Rightarrow> astCode" where
  "onSeqExpr1 c first rest =
     thenP (slice_of rest) (\<lambda>restSlice.
       if length restSlice = 0 then Inr (first, None)
       else thenP (asExpression first) (\<lambda>e.
            thenP (mapP (\<lambda>sl. thenP (elem 1 sl) asExpression) restSlice) (\<lambda>es.
            Inr (VUser (NExpr (SeqExpr (astPos c) (e # es))), None))))"

definition callonSeqExpr1 :: "astval runFn" where
  "callonSeqExpr1 c stack = code_of c (onSeqExpr1 c (labelled stack ''first'') (labelled stack ''rest''))"

definition onLabeledExpr2 :: "current \<Rightarrow> av \<Rightarrow> av \<Rightarrow> astCode" where
  "onLabeledExpr2 c label expr =
     thenP (asIdentifier label) (\<lambda>l. thenP (asExpression expr) (\<lambda>e.
     Inr (VUser (NExpr (LabeledExpr (astPos c) (Some l) e)), None)))"

definition callonLabeledExpr2 :: "astval runFn" where
  "callonLabeledExpr2 c stack = code_of c (onLabeledExpr2 c (labelled stack ''label'') (labelled stack ''expr''))"

definition onPrefixedExpr2 :: "current \<Rightarrow> av \<Rightarrow> av \<Rightarrow> astCode" where
  "onPrefixedExpr2 c op expr =
     thenP (asString astType op) (\<lambda>opStr.
       if opStr = ''&'' then thenP (asExpression expr) (\<lambda>e. Inr (VUser (NExpr (AndExpr (astPos c) e)), None))
       else thenP (asExpression expr) (\<lambda>e. Inr (VUser (NExpr (NotExpr (astPos c) e)), None)))"

definition callonPrefixedExpr2 :: "astval runFn" where
  "callonPrefixedExpr2 c stack = code_of c (onPrefixedExpr2 c (labelled stack ''op'') (labelled stack ''expr''))"

definition onPrefixedOp1 :: "current \<Rightarrow> astCode" where
  "onPrefixedOp1 c = Inr (VString (cur_text c), None)"

definition callonPrefixedOp1 :: "astval runFn" where
  "callonPrefixedOp1 c stack = code_of c (onPrefixedOp1 c)"

definition onSuffixedExpr2 :: "current \<Rightarrow> av \<Rightarrow> av \<Rightarrow> astCode" where
  "onSuffixedExpr2 c expr op =
     thenP (asString astType op) (\<lambda>opStr.
       if opStr = ''?'' then thenP (asExpression expr) (\<lambda>e. Inr (VUser (NExpr (ZeroOrOneExpr (astPos c) e)), None))
       else if opStr = ''*'' then thenP (asExpression expr) (\<lambda>e. Inr (VUser (NExpr (ZeroOrMoreExpr (astPos c) e)), None))
       else if opStr = ''+'' then thenP (asExpression expr) (\<lambda>e. Inr (VUser (NExpr (OneOrMoreExpr (astPos c) e)), None))
       else Inr (VNil, Some (''unknown operator: '' @ opStr)))"

definition callonSuffixedExpr2 :: "astval runFn" where
  "callonSuffixedExpr2 c stack = code_of c (onSuffixedExpr2 c (labelled stack ''expr'') (labelled stack ''op''))"

definition onSuffixedOp1 :: "current \<Rightarrow> astCode" where
  "onSuffixedOp1 c = Inr (VString (cur_text c), None)"

definition callonSuffixedOp1 :: "astval runFn" where
  "callonSuffixedOp1 c stack = code_of c (onSuffixedOp1 c)"

definition onPrimaryExpr7 :: "current \<Rightarrow> av \<Rightarrow> astCode" where
  "onPrimaryExpr7 c expr = Inr (expr, None)"

definition callonPrimaryExpr7 :: "astval runFn" where
  "callonPrimaryExpr7 c stack = code_of c (onPrimaryExpr7 c (labelled stack ''expr''))"

definition onRuleRefExpr1 :: "current \<Rightarrow> av \<Rightarrow> astCode" where
  "onRuleRefExpr1 c name =
     thenP (asIdentifier name) (\<lambda>i. Inr (VUser (NExpr (RuleRefExpr (astPos c) (Some i))), None))"

definition callonRuleRefExpr1 :: "astval runFn" where
  "callonRuleRefExpr1 c stack = code_of c (onRuleRefExpr1 c (labelled stack ''name''))"

definition onSemanticPredExpr1 :: "current \<Rightarrow> av \<Rightarrow> av \<Rightarrow> astCode" where
  "onSemanticPredExpr1 c op codeV =
     thenP (asString astType op) (\<lambda>opStr.
       if opStr = ''&'' then thenP (asCodeBlock codeV) (\<lambda>b. Inr (VUser (NExpr (AndCodeExpr (astPos c) (Some b) 0)), None))
       else thenP (asCodeBlock codeV) (\<lambda>b. Inr (VUser (NExpr (NotCodeExpr (astPos c) (Some b) 0)), None)))"

definition callonSemanticPredExpr1 :: "astval runFn" where
  "callonSemanticPredExpr1 c stack = code_of c (onSemanticPredExpr1 c (labelled stack ''op'') (labelled stack ''code''))"

definition onSemanticPredOp1 :: "current \<Rightarrow> astCode" where
  "onSemanticPredOp1 c = Inr (VString (cur_text c), None)"

definition callonSemanticPredOp1 :: "astval runFn" where
  "callonSemanticPredOp1 c stack = code_of c (onSemanticPredOp1 c)"

definition onIdentifier1 :: "current \<Rightarrow> av \<Rightarrow> astCode" where
  "onIdentifier1 c identV =
     (let astIdent = NewIdentifier (astPos c) (cur_text c)
      in if Val astIdent \<in> set reservedWords
         then Inr (VUser (NIdentifier astIdent), Some ''identifier is a reserved word'')
         else Inr (VUser (NIdentifier astIdent), None))"

definition callonIdentifier1 :: "astval runFn" where
  "callonIdentifier1 c stack = code_of c (onIdentifier1 c (labelled stack ''ident''))"

definition onIdentifierName1 :: "current \<Rightarrow> astCode" where
  "onIdentifierName1 c = Inr (VUser (NIdentifier (NewIdentifier (astPos c) (cur_text c))), None)"

definition callonIdentifierName1 :: "astval runFn" where
  "callonIdentifierName1 c stack = code_of c (onIdentifierName1 c)"

definition onLitMatcher1 :: "current \<Rightarrow> av \<Rightarrow> av \<Rightarrow> astCode" where
  "onLitMatcher1 c litV ignore =
     thenP (asStringLit litV) (\<lambda>rawStr.
       let s = (case Unquote (Val rawStr) of Some s \<Rightarrow> s | None \<Rightarrow> [])
       in Inr (VUser (NExpr (LitMatcher (astPos c) s (ignore \<noteq> VNil))), None))"

definition callonLitMatcher1 :: "astval runFn" where
  "callonLitMatcher1 c stack = code_of c (onLitMatcher1 c (labelled stack ''lit'') (labelled stack ''ignore''))"

definition onStringLiteral2 :: "current \<Rightarrow> astCode" where
  "onStringLiteral2 c = Inr (VUser (NStringLit (NewStringLit (astPos c) (cur_text c))), None)"

definition callonStringLiteral2 :: "astval runFn" where
  "callonStringLiteral2 c stack = code_of c (onStringLiteral2 c)"

definition onStringLiteral18 :: "current \<Rightarrow> astCode" where
  "onStringLiteral18 c =
     Inr (VUser (NStringLit (NewStringLit (astPos c) [CHR 0x60, CHR 0x60])), Some ''string literal not terminated'')"

definition callonStringLiteral18 :: "astval runFn" where
  "callonStringLiteral18 c stack = code_of c (onStringLiteral18 c)"

definition onDoubleStringEscape5 :: "current \<Rightarrow> astCode" where
  "onDoubleStringEscape5 c = Inr (VNil, Some ''invalid escape character'')"

definition callonDoubleStringEscape5 :: "astval runFn" where
  "callonDoubleStringEscape5 c stack = code_of c (onDoubleStringEscape5 c)"

definition onSingleStringEscape5 :: "current \<Rightarrow> astCode" where
  "onSingleStringEscape5 c = Inr (VNil, Some ''invalid escape character'')"

definition callonSingleStringEscape5 :: "astval runFn" where
  "callonSingleStringEscape5 c stack = code_of c (onSingleStringEscape5 c)"

definition onOctalEscape6 :: "current \<Rightarrow> astCode" where
  "onOctalEscape6 c = Inr (VNil, Some ''invalid octal escape'')"

definition callonOctalEscape6 :: "astval runFn" where
  "callonOctalEscape6 c stack = code_of c (onOctalEscape6 c)"

definition onHexEscape6 :: "current \<Rightarrow> astCode" where
  "onHexEscape6 c = Inr (VNil, Some ''invalid hexadecimal escape'')"

definition callonHexEscape6 :: "astval runFn" where
  "callonHexEscape6 c stack = code_of c (onHexEscape6 c)"

definition onLongUnicodeEscape12 :: "current \<Rightarrow> astCode" where
  "onLongUnicodeEscape12 c = Inr (VNil, Some ''invalid Unicode escape'')"

definition callonLongUnicodeEscape12 :: "astval runFn" where
  "callonLongUnicodeEscape12 c stack = code_of c (onLongUnicodeEscape12 c)"

definition onShortUnicodeEscape8 :: "current \<Rightarrow> astCode" where
  "onShortUnicodeEscape8 c = Inr (VNil, Some ''invalid Unicode escape'')"

definition callonShortUnicodeEscape8 :: "astval runFn" where
  "callonShortUnicodeEscape8 c stack = code_of c (onShortUnicodeEscape8 c)"

definition onCharClassMatcher2 :: "current \<Rightarrow> astCode" where
  "onCharClassMatcher2 c = thenP (newClass (astPos c) (cur_text c)) (\<lambda>cc. Inr (VUser (NExpr cc), None))"

definition callonCharClassMatcher2 :: "astval runFn" where
  "callonCharClassMatcher2 c stack = code_of c (onCharClassMatcher2 c)"

definition onCharClassMatcher15 :: "current \<Rightarrow> astCode" where
  "onCharClassMatcher15 c =
     thenP (newClass (astPos c) ''[]'') (\<lambda>cc. Inr (VUser (NExpr cc), Some ''character class not terminated''))"

definition callonCharClassMatcher15 :: "astval runFn" where
  "callonCharClassMatcher15 c stack = code_of c (onCharClassMatcher15 c)"

definition onCharClassEscape5 :: "current \<Rightarrow> astCode" where
  "onCharClassEscape5 c = Inr (VNil, Some ''invalid escape character'')"

definition callonCharClassEscape5 :: "astval runFn" where
  "callonCharClassEscape5 c stack = code_of c (onCharClassEscape5 c)"

definition onUnicodeClassEscape5 :: "current \<Rightarrow> astCode" where
  "onUnicodeClassEscape5 c = Inr (VNil, Some ''invalid Unicode class escape'')"

definition callonUnicodeClassEscape5 :: "astval runFn" where
  "callonUnicodeClassEscape5 c stack = code_of c (onUnicodeClassEscape5 c)"

definition onUnicodeClassEscape13 :: "current \<Rightarrow> av \<Rightarrow> astCode" where
  "onUnicodeClassEscape13 c identV =
     thenP (asIdentifier identV) (\<lambda>i.
       if Val i \<notin> set unicodeClasses then Inr (VNil, Some ''invalid Unicode class escape'') else Inr (VNil, None))"

definition callonUnicodeClassEscape13 :: "astval runFn" where
  "callonUnicodeClassEscape13 c stack = code_of c (onUnicodeClassEscape13 c (labelled stack ''ident''))"

definition onUnicodeClassEscape19 :: "current \<Rightarrow> astCode" where
  "onUnicodeClassEscape19 c = Inr (VNil, Some ''Unicode class not terminated'')"

definition callonUnicodeClassEscape19 :: "astval runFn" where
  "callonUnicodeClassEscape19 c stack = code_of c (onUnicodeClassEscape19 c)"

definition onAnyMatcher1 :: "current \<Rightarrow> astCode" where
  "onAnyMatcher1 c = Inr (VUser (NExpr (NewAnyMatcher (astPos c) ''.'')), None)"

definition callonAnyMatcher1 :: "astval runFn" where
  "callonAnyMatcher1 c stack = code_of c (onAnyMatcher1 c)"

definition onCodeBlock2 :: "current \<Rightarrow> astCode" where
  "onCodeBlock2 c = Inr (VUser (NCodeBlock (NewCodeBlock (astPos c) (cur_text c))), None)"

definition callonCodeBlock2 :: "astval runFn" where
  "callonCodeBlock2 c stack = code_of c (onCodeBlock2 c)"

definition onCodeBlock7 :: "current \<Rightarrow> astCode" where
  "onCodeBlock7 c = Inr (VNil, Some ''code block not terminated'')"

definition callonCodeBlock7 :: "astval runFn" where
  "callonCodeBlock7 c stack = code_of c (onCodeBlock7 c)"

section \<open>The grammar\<close>

definition pigeon_Grammar :: "astval rule" where
  "pigeon_Grammar = \<lparr>rule_pos = at_pos 5 1 18, rule_name = ''Grammar'', displayName = '''', rule_expr =
    (actionExpr (at_pos 5 11 30)
      (seqExpr (at_pos 5 11 30) [
        (ruleRefExpr (at_pos 5 11 30) ''__''),
        (labeledExpr (at_pos 5 14 33) ''initializer''
          (zeroOrOneExpr (at_pos 5 26 45)
            (seqExpr (at_pos 5 28 47) [
              (ruleRefExpr (at_pos 5 28 47) ''Initializer''),
              (ruleRefExpr (at_pos 5 40 59) ''__'')]))),
        (labeledExpr (at_pos 5 46 65) ''rules''
          (oneOrMoreExpr (at_pos 5 52 71)
            (seqExpr (at_pos 5 54 73) [
              (ruleRefExpr (at_pos 5 54 73) ''Rule''),
              (ruleRefExpr (at_pos 5 59 78) ''__'')]))),
        (ruleRefExpr (at_pos 5 65 84) ''EOF'')])
      callonGrammar1)\<rparr>"

definition pigeon_Initializer :: "astval rule" where
  "pigeon_Initializer = \<lparr>rule_pos = at_pos 24 1 525, rule_name = ''Initializer'', displayName = '''', rule_expr =
    (actionExpr (at_pos 24 15 541)
      (seqExpr (at_pos 24 15 541) [
        (labeledExpr (at_pos 24 15 541) ''code''
          (ruleRefExpr (at_pos 24 20 546) ''CodeBlock'')),
        (ruleRefExpr (at_pos 24 30 556) ''EOS'')])
      callonInitializer1)\<rparr>"

definition pigeon_Rule :: "astval rule" where
  "pigeon_Rule = \<lparr>rule_pos = at_pos 28 1 586, rule_name = ''Rule'', displayName = '''', rule_expr =
    (actionExpr (at_pos 28 8 595)
      (seqExpr (at_pos 28 8 595) [
        (labeledExpr (at_pos 28 8 595) ''name''
          (ruleRefExpr (at_pos 28 13 600) ''IdentifierName'')),
        (ruleRefExpr (at_pos 28 28 615) ''__''),
        (labeledExpr (at_pos 28 31 618) ''display''
          (zeroOrOneExpr (at_pos 28 39 626)
            (seqExpr (at_pos 28 41 628) [
              (ruleRefExpr (at_pos 28 41 628) ''StringLiteral''),
              (ruleRefExpr (at_pos 28 55 642) ''__'')]))),
        (ruleRefExpr (at_pos 28 61 648) ''RuleDefOp''),
        (ruleRefExpr (at_pos 28 71 658) ''__''),
        (labeledExpr (at_pos 28 74 661) ''expr''
          (ruleRefExpr (at_pos 28 79 666) ''Expression'')),
        (ruleRefExpr (at_pos 28 90 677) ''EOS'')])
      callonRule1)\<rparr>"

definition pigeon_Expression :: "astval rule" where
  "pigeon_Expression = \<lparr>rule_pos = at_pos 41 1 961, rule_name = ''Expression'', displayName = '''', rule_expr =
    (ruleRefExpr (at_pos 41 14 976) ''ChoiceExpr'')\<rparr>"

definition pigeon_ChoiceExpr :: "astval rule" where
  "pigeon_ChoiceExpr = \<lparr>rule_pos = at_pos 43 1 988, rule_name = ''ChoiceExpr'', displayName = '''', rule_expr =
    (actionExpr (at_pos 43 14 1003)
      (seqExpr (at_pos 43 14 1003) [
        (labeledExpr (at_pos 43 14 1003) ''first''
          (ruleRefExpr (at_pos 43 20 1009) ''ActionExpr'')),
        (labeledExpr (at_pos 43 31 1020) ''rest''
          (zeroOrMoreExpr (at_pos 43 36 1025)
            (seqExpr (at_pos 43 38 1027) [
              (ruleRefExpr (at_pos 43 38 1027) ''__''),
              (litMatcher (at_pos 43 41 1030) ''/'' False),
              (ruleRefExpr (at_pos 43 45 1034) ''__''),
              (ruleRefExpr (at_pos 43 48 1037) ''ActionExpr'')])))])
      callonChoiceExpr1)\<rparr>"

definition pigeon_ActionExpr :: "astval rule" where
  "pigeon_ActionExpr = \<lparr>rule_pos = at_pos 58 1 1442, rule_name = ''ActionExpr'', displayName = '''', rule_expr =
    (actionExpr (at_pos 58 14 1457)
      (seqExpr (at_pos 58 14 1457) [
        (labeledExpr (at_pos 58 14 1457) ''expr''
          (ruleRefExpr (at_pos 58 19 1462) ''SeqExpr'')),
        (labeledExpr (at_pos 58 27 1470) ''code''
          (zeroOrOneExpr (at_pos 58 32 1475)
            (seqExpr (at_pos 58 34 1477) [
              (ruleRefExpr (at_pos 58 34 1477) ''__''),
              (ruleRefExpr (at_pos 58 37 1480) ''CodeBlock'')])))])
      callonActionExpr1)\<rparr>"

definition pigeon_SeqExpr :: "astval rule" where
  "pigeon_SeqExpr = \<lparr>rule_pos = at_pos 72 1 1746, rule_name = ''SeqExpr'', displayName = '''', rule_expr =
    (actionExpr (at_pos 72 11 1758)
      (seqExpr (at_pos 72 11 1758) [
        (labeledExpr (at_pos 72 11 1758) ''first''
          (ruleRefExpr (at_pos 72 17 1764) ''LabeledExpr'')),
        (labeledExpr (at_pos 72 29 1776) ''rest''
          (zeroOrMoreExpr (at_pos 72 34 1781)
            (seqExpr (at_pos 72 36 1783) [
              (ruleRefExpr (at_pos 72 36 1783) ''__''),
              (ruleRefExpr (at_pos 72 39 1786) ''LabeledExpr'')])))])
      callonSeqExpr1)\<rparr>"

definition pigeon_LabeledExpr :: "astval rule" where
  "pigeon_LabeledExpr = \<lparr>rule_pos = at_pos 85 1 2137, rule_name = ''LabeledExpr'', displayName = '''', rule_expr =
    (choiceExpr (at_pos 85 15 2153) [
      (actionExpr (at_pos 85 15 2153)
        (seqExpr (at_pos 85 15 2153) [
          (labeledExpr (at_pos 85 15 2153) ''label''
            (ruleRefExpr (at_pos 85 21 2159) ''Identifier'')),
          (ruleRefExpr (at_pos 85 32 2170) ''__''),
          (litMatcher (at_pos 85 35 2173) '':'' False),
          (ruleRefExpr (at_pos 85 39 2177) ''__''),
          (labeledExpr (at_pos 85 42 2180) ''expr''
            (ruleRefExpr (at_pos 85 47 2185) ''PrefixedExpr''))])
        callonLabeledExpr2),
      (ruleRefExpr (at_pos 91 5 2358) ''PrefixedExpr'')])\<rparr>"

definition pigeon_PrefixedExpr :: "astval rule" where
  "pigeon_PrefixedExpr = \<lparr>rule_pos = at_pos 93 1 2372, rule_name = ''PrefixedExpr'', displayName = '''', rule_expr =
    (choiceExpr (at_pos 93 16 2389) [
      (actionExpr (at_pos 93 16 2389)
        (seqExpr (at_pos 93 16 2389) [
          (labeledExpr (at_pos 93 16 2389) ''op''
            (ruleRefExpr (at_pos 93 19 2392) ''PrefixedOp'')),
          (ruleRefExpr (at_pos 93 30 2403) ''__''),
          (labeledExpr (at_pos 93 33 2406) ''expr''
            (ruleRefExpr (at_pos 93 38 2411) ''SuffixedExpr''))])
        callonPrefixedExpr2),
      (ruleRefExpr (at_pos 104 5 2693) ''SuffixedExpr'')])\<rparr>"

definition pigeon_PrefixedOp :: "astval rule" where
  "pigeon_PrefixedOp = \<lparr>rule_pos = at_pos 106 1 2707, rule_name = ''PrefixedOp'', displayName = '''', rule_expr =
    (actionExpr (at_pos 106 14 2722)
      (choiceExpr (at_pos 106 16 2724) [
        (litMatcher (at_pos 106 16 2724) ''&'' False),
        (litMatcher (at_pos 106 22 2730) ''!'' False)])
      callonPrefixedOp1)\<rparr>"

definition pigeon_SuffixedExpr :: "astval rule" where
  "pigeon_SuffixedExpr = \<lparr>rule_pos = at_pos 110 1 2772, rule_name = ''SuffixedExpr'', displayName = '''', rule_expr =
    (choiceExpr (at_pos 110 16 2789) [
      (actionExpr (at_pos 110 16 2789)
        (seqExpr (at_pos 110 16 2789) [
          (labeledExpr (at_pos 110 16 2789) ''expr''
            (ruleRefExpr (at_pos 110 21 2794) ''PrimaryExpr'')),
          (ruleRefExpr (at_pos 110 33 2806) ''__''),
          (labeledExpr (at_pos 110 36 2809) ''op''
            (ruleRefExpr (at_pos 110 39 2812) ''SuffixedOp''))])
        callonSuffixedExpr2),
      (ruleRefExpr (at_pos 129 5 3342) ''PrimaryExpr'')])\<rparr>"

definition pigeon_SuffixedOp :: "astval rule" where
  "pigeon_SuffixedOp = \<lparr>rule_pos = at_pos 131 1 3356, rule_name = ''SuffixedOp'', displayName = '''', rule_expr =
    (actionExpr (at_pos 131 14 3371)
      (choiceExpr (at_pos 131 16 3373) [
        (litMatcher (at_pos 131 16 3373) ''?'' False),
        (litMatcher (at_pos 131 22 3379) ''*'' False),
        (litMatcher (at_pos 131 28 3385) ''+'' False)])
      callonSuffixedOp1)\<rparr>"

definition pigeon_PrimaryExpr :: "astval rule" where
  "pigeon_PrimaryExpr = \<lparr>rule_pos = at_pos 135 1 3427, rule_name = ''PrimaryExpr'', displayName = '''', rule_expr =
    (choiceExpr (at_pos 135 15 3443) [
      (ruleRefExpr (at_pos 135 15 3443) ''LitMatcher''),
      (ruleRefExpr (at_pos 135 28 3456) ''CharClassMatcher''),
      (ruleRefExpr (at_pos 135 47 3475) ''AnyMatcher''),
      (ruleRefExpr (at_pos 135 60 3488) ''RuleRefExpr''),
      (ruleRefExpr (at_pos 135 74 3502) ''SemanticPredExpr''),
      (actionExpr (at_pos 135 93 3521)
        (seqExpr (at_pos 135 93 3521) [
          (litMatcher (at_pos 135 93 3521) ''('' False),
          (ruleRefExpr (at_pos 135 97 3525) ''__''),
          (labeledExpr (at_pos 135 100 3528) ''expr''
            (ruleRefExpr (at_pos 135 105 3533) ''Expression'')),
          (ruleRefExpr (at_pos 135 116 3544) ''__''),
          (litMatcher (at_pos 135 119 3547) '')'' False)])
        callonPrimaryExpr7)])\<rparr>"

definition pigeon_RuleRefExpr :: "astval rule" where
  "pigeon_RuleRefExpr = \<lparr>rule_pos = at_pos 138 1 3576, rule_name = ''RuleRefExpr'', displayName = '''', rule_expr =
    (actionExpr (at_pos 138 15 3592)
      (seqExpr (at_pos 138 15 3592) [
        (labeledExpr (at_pos 138 15 3592) ''name''
          (ruleRefExpr (at_pos 138 20 3597) ''IdentifierName'')),
        (notExpr (at_pos 138 35 3612)
          (seqExpr (at_pos 138 38 3615) [
            (ruleRefExpr (at_pos 138 38 3615) ''__''),
            (zeroOrOneExpr (at_pos 138 41 3618)
              (seqExpr (at_pos 138 43 3620) [
                (ruleRefExpr (at_pos 138 43 3620) ''StringLiteral''),
                (ruleRefExpr (at_pos 138 57 3634) ''__'')])),
            (ruleRefExpr (at_pos 138 63 3640) ''RuleDefOp'')]))])
      callonRuleRefExpr1)\<rparr>"

definition pigeon_SemanticPredExpr :: "astval rule" where
  "pigeon_SemanticPredExpr = \<lparr>rule_pos = at_pos 143 1 3756, rule_name = ''SemanticPredExpr'', displayName = '''', rule_expr =
    (actionExpr (at_pos 143 20 3777)
      (seqExpr (at_pos 143 20 3777) [
        (labeledExpr (at_pos 143 20 3777) ''op''
          (ruleRefExpr (at_pos 143 23 3780) ''SemanticPredOp'')),
        (ruleRefExpr (at_pos 143 38 3795) ''__''),
        (labeledExpr (at_pos 143 41 3798) ''code''
          (ruleRefExpr (at_pos 143 46 3803) ''CodeBlock''))])
      callonSemanticPredExpr1)\<rparr>"

definition pigeon_SemanticPredOp :: "astval rule" where
  "pigeon_SemanticPredOp = \<lparr>rule_pos = at_pos 154 1 4080, rule_name = ''SemanticPredOp'', displayName = '''', rule_expr =
    (actionExpr (at_pos 154 18 4099)
      (choiceExpr (at_pos 154 20 4101) [
        (litMatcher (at_pos 154 20 4101) ''&'' False),
        (litMatcher (at_pos 154 26 4107) ''!'' False)])
      callonSemanticPredOp1)\<rparr>"

definition pigeon_RuleDefOp :: "astval rule" where
  "pigeon_RuleDefOp = \<lparr>rule_pos = at_pos 158 1 4149, rule_name = ''RuleDefOp'', displayName = '''', rule_expr =
    (choiceExpr (at_pos 158 13 4163) [
      (litMatcher (at_pos 158 13 4163) ''='' False),
      (litMatcher (at_pos 158 19 4169) ''<-'' False),
      (litMatcher (at_pos 158 26 4176) [CHR 0xE2, CHR 0x86, CHR 0x90] False),
      (litMatcher (at_pos 158 37 4187) [CHR 0xE2, CHR 0x9F, CHR 0xB5] False)])\<rparr>"

definition pigeon_SourceChar :: "astval rule" where
  "pigeon_SourceChar = \<lparr>rule_pos = at_pos 160 1 4197, rule_name = ''SourceChar'', displayName = '''', rule_expr =
    (anyMatcher (at_pos 160 14 4212))\<rparr>"

definition pigeon_Comment :: "astval rule" where
  "pigeon_Comment = \<lparr>rule_pos = at_pos 161 1 4214, rule_name = ''Comment'', displayName = '''', rule_expr =
    (choiceExpr (at_pos 161 11 4226) [
      (ruleRefExpr (at_pos 161 11 4226) ''MultiLineComment''),
      (ruleRefExpr (at_pos 161 30 4245) ''SingleLineComment'')])\<rparr>"

definition pigeon_MultiLineComment :: "astval rule" where
  "pigeon_MultiLineComment = \<lparr>rule_pos = at_pos 162 1 4263, rule_name = ''MultiLineComment'', displayName = '''', rule_expr =
    (seqExpr (at_pos 162 20 4284) [
      (litMatcher (at_pos 162 20 4284) ''/*'' False),
      (zeroOrMoreExpr (at_pos 162 25 4289)
        (seqExpr (at_pos 162 27 4291) [
          (notExpr (at_pos 162 27 4291)
            (litMatcher (at_pos 162 28 4292) ''*/'' False)),
          (ruleRefExpr (at_pos 162 33 4297) ''SourceChar'')])),
      (litMatcher (at_pos 162 47 4311) ''*/'' False)])\<rparr>"

definition pigeon_MultiLineCommentNoLineTerminator :: "astval rule" where
  "pigeon_MultiLineCommentNoLineTerminator = \<lparr>rule_pos = at_pos 163 1 4316, rule_name = ''MultiLineCommentNoLineTerminator'', displayName = '''', rule_expr =
    (seqExpr (at_pos 163 36 4353) [
      (litMatcher (at_pos 163 36 4353) ''/*'' False),
      (zeroOrMoreExpr (at_pos 163 41 4358)
        (seqExpr (at_pos 163 43 4360) [
          (notExpr (at_pos 163 43 4360)
            (choiceExpr (at_pos 163 46 4363) [
              (litMatcher (at_pos 163 46 4363) ''*/'' False),
              (ruleRefExpr (at_pos 163 53 4370) ''EOL'')])),
          (ruleRefExpr (at_pos 163 59 4376) ''SourceChar'')])),
      (litMatcher (at_pos 163 73 4390) ''*/'' False)])\<rparr>"

definition pigeon_SingleLineComment :: "astval rule" where
  "pigeon_SingleLineComment = \<lparr>rule_pos = at_pos 164 1 4395, rule_name = ''SingleLineComment'', displayName = '''', rule_expr =
    (seqExpr (at_pos 164 21 4417) [
      (litMatcher (at_pos 164 21 4417) ''//'' False),
      (zeroOrMoreExpr (at_pos 164 26 4422)
        (seqExpr (at_pos 164 28 4424) [
          (notExpr (at_pos 164 28 4424)
            (ruleRefExpr (at_pos 164 29 4425) ''EOL'')),
          (ruleRefExpr (at_pos 164 33 4429) ''SourceChar'')]))])\<rparr>"

definition pigeon_Identifier :: "astval rule" where
  "pigeon_Identifier = \<lparr>rule_pos = at_pos 166 1 4444, rule_name = ''Identifier'', displayName = '''', rule_expr =
    (actionExpr (at_pos 166 14 4459)
      (labeledExpr (at_pos 166 14 4459) ''ident''
        (ruleRefExpr (at_pos 166 20 4465) ''IdentifierName''))
      callonIdentifier1)\<rparr>"

definition pigeon_IdentifierName :: "astval rule" where
  "pigeon_IdentifierName = \<lparr>rule_pos = at_pos 174 1 4684, rule_name = ''IdentifierName'', displayName = '''', rule_expr =
    (actionExpr (at_pos 174 18 4703)
      (seqExpr (at_pos 174 18 4703) [
        (ruleRefExpr (at_pos 174 18 4703) ''IdentifierStart''),
        (zeroOrMoreExpr (at_pos 174 34 4719)
          (ruleRefExpr (at_pos 174 34 4719) ''IdentifierPart''))])
      callonIdentifierName1)\<rparr>"

definition pigeon_IdentifierStart :: "rangeTable \<Rightarrow> astval rule" where
  "pigeon_IdentifierStart tL = \<lparr>rule_pos = at_pos 177 1 4801, rule_name = ''IdentifierStart'', displayName = '''', rule_expr =
    (charClassMatcher \<lparr>cc_pos = at_pos 177 19 4821, cc_val = (''['' @ [CHR 0x5C] @ ''pL_]''),
       chars = [95], ranges = [], classes = [tL],
       cc_ignoreCase = False, inverted = False\<rparr>)\<rparr>"

definition pigeon_IdentifierPart :: "rangeTable \<Rightarrow> astval rule" where
  "pigeon_IdentifierPart tNd = \<lparr>rule_pos = at_pos 178 1 4828, rule_name = ''IdentifierPart'', displayName = '''', rule_expr =
    (choiceExpr (at_pos 178 18 4847) [
      (ruleRefExpr (at_pos 178 18 4847) ''IdentifierStart''),
      (charClassMatcher \<lparr>cc_pos = at_pos 178 36 4865, cc_val = (''['' @ [CHR 0x5C] @ ''p{Nd}]''),
         chars = [], ranges = [], classes = [tNd],
         cc_ignoreCase = False, inverted = False\<rparr>)])\<rparr>"

definition pigeon_LitMatcher :: "astval rule" where
  "pigeon_LitMatcher = \<lparr>rule_pos = at_pos 180 1 4875, rule_name = ''LitMatcher'', displayName = '''', rule_expr =
    (actionExpr (at_pos 180 14 4890)
      (seqExpr (at_pos 180 14 4890) [
        (labeledExpr (at_pos 180 14 4890) ''lit''
          (ruleRefExpr (at_pos 180 18 4894) ''StringLiteral'')),
        (labeledExpr (at_pos 180 32 4908) ''ignore''
          (zeroOrOneExpr (at_pos 180 39 4915)
            (litMatcher (at_pos 180 39 4915) ''i'' False)))])
      callonLitMatcher1)\<rparr>"

definition pigeon_StringLiteral :: "astval rule" where
  "pigeon_StringLiteral = \<lparr>rule_pos = at_pos 193 1 5314, rule_name = ''StringLiteral'', displayName = '''', rule_expr =
    (choiceExpr (at_pos 193 17 5332) [
      (actionExpr (at_pos 193 17 5332)
        (choiceExpr (at_pos 193 19 5334) [
          (seqExpr (at_pos 193 19 5334) [
            (litMatcher (at_pos 193 19 5334) [CHR 0x22] False),
            (zeroOrMoreExpr (at_pos 193 23 5338)
              (ruleRefExpr (at_pos 193 23 5338) ''DoubleStringChar'')),
            (litMatcher (at_pos 193 41 5356) [CHR 0x22] False)]),
          (seqExpr (at_pos 193 47 5362) [
            (litMatcher (at_pos 193 47 5362) [CHR 0x27] False),
            (ruleRefExpr (at_pos 193 51 5366) ''SingleStringChar''),
            (litMatcher (at_pos 193 68 5383) [CHR 0x27] False)]),
          (seqExpr (at_pos 193 74 5389) [
            (litMatcher (at_pos 193 74 5389) [CHR 0x60] False),
            (zeroOrMoreExpr (at_pos 193 78 5393)
              (ruleRefExpr (at_pos 193 78 5393) ''RawStringChar'')),
            (litMatcher (at_pos 193 93 5408) [CHR 0x60] False)])])
        callonStringLiteral2),
      (actionExpr (at_pos 195 5 5481)
        (choiceExpr (at_pos 195 7 5483) [
          (seqExpr (at_pos 195 9 5485) [
            (litMatcher (at_pos 195 9 5485) [CHR 0x22] False),
            (zeroOrMoreExpr (at_pos 195 13 5489)
              (ruleRefExpr (at_pos 195 13 5489) ''DoubleStringChar'')),
            (choiceExpr (at_pos 195 33 5509) [
              (ruleRefExpr (at_pos 195 33 5509) ''EOL''),
              (ruleRefExpr (at_pos 195 39 5515) ''EOF'')])]),
          (seqExpr (at_pos 195 51 5527) [
            (litMatcher (at_pos 195 51 5527) [CHR 0x27] False),
            (zeroOrOneExpr (at_pos 195 55 5531)
              (ruleRefExpr (at_pos 195 55 5531) ''SingleStringChar'')),
            (choiceExpr (at_pos 195 75 5551) [
              (ruleRefExpr (at_pos 195 75 5551) ''EOL''),
              (ruleRefExpr (at_pos 195 81 5557) ''EOF'')])]),
          (seqExpr (at_pos 195 91 5567) [
            (litMatcher (at_pos 195 91 5567) [CHR 0x60] False),
            (zeroOrMoreExpr (at_pos 195 95 5571)
              (ruleRefExpr (at_pos 195 95 5571) ''RawStringChar'')),
            (ruleRefExpr (at_pos 195 110 5586) ''EOF'')])])
        callonStringLiteral18)])\<rparr>"

definition pigeon_DoubleStringChar :: "astval rule" where
  "pigeon_DoubleStringChar = \<lparr>rule_pos = at_pos 199 1 5688, rule_name = ''DoubleStringChar'', displayName = '''', rule_expr =
    (choiceExpr (at_pos 199 20 5709) [
      (seqExpr (at_pos 199 20 5709) [
        (notExpr (at_pos 199 20 5709)
          (choiceExpr (at_pos 199 23 5712) [
            (litMatcher (at_pos 199 23 5712) [CHR 0x22] False),
            (litMatcher (at_pos 199 29 5718) [CHR 0x5C] False),
            (ruleRefExpr (at_pos 199 36 5725) ''EOL'')])),
        (ruleRefExpr (at_pos 199 42 5731) ''SourceChar'')]),
      (seqExpr (at_pos 199 55 5744) [
        (litMatcher (at_pos 199 55 5744) [CHR 0x5C] False),
        (ruleRefExpr (at_pos 199 60 5749) ''DoubleStringEscape'')])])\<rparr>"

definition pigeon_SingleStringChar :: "astval rule" where
  "pigeon_SingleStringChar = \<lparr>rule_pos = at_pos 200 1 5768, rule_name = ''SingleStringChar'', displayName = '''', rule_expr =
    (choiceExpr (at_pos 200 20 5789) [
      (seqExpr (at_pos 200 20 5789) [
        (notExpr (at_pos 200 20 5789)
          (choiceExpr (at_pos 200 23 5792) [
            (litMatcher (at_pos 200 23 5792) [CHR 0x27] False),
            (litMatcher (at_pos 200 29 5798) [CHR 0x5C] False),
            (ruleRefExpr (at_pos 200 36 5805) ''EOL'')])),
        (ruleRefExpr (at_pos 200 42 5811) ''SourceChar'')]),
      (seqExpr (at_pos 200 55 5824) [
        (litMatcher (at_pos 200 55 5824) [CHR 0x5C] False),
        (ruleRefExpr (at_pos 200 60 5829) ''SingleStringEscape'')])])\<rparr>"

definition pigeon_RawStringChar :: "astval rule" where
  "pigeon_RawStringChar = \<lparr>rule_pos = at_pos 201 1 5848, rule_name = ''RawStringChar'', displayName = '''', rule_expr =
    (seqExpr (at_pos 201 17 5866) [
      (notExpr (at_pos 201 17 5866)
        (litMatcher (at_pos 201 18 5867) [CHR 0x60] False)),
      (ruleRefExpr (at_pos 201 22 5871) ''SourceChar'')])\<rparr>"

definition pigeon_DoubleStringEscape :: "astval rule" where
  "pigeon_DoubleStringEscape = \<lparr>rule_pos = at_pos 203 1 5883, rule_name = ''DoubleStringEscape'', displayName = '''', rule_expr =
    (choiceExpr (at_pos 203 22 5906) [
      (choiceExpr (at_pos 203 24 5908) [
        (litMatcher (at_pos 203 24 5908) [CHR 0x22] False),
        (ruleRefExpr (at_pos 203 30 5914) ''CommonEscapeSequence'')]),
      (actionExpr (at_pos 204 7 5943)
        (choiceExpr (at_pos 204 9 5945) [
          (ruleRefExpr (at_pos 204 9 5945) ''SourceChar''),
          (ruleRefExpr (at_pos 204 22 5958) ''EOL''),
          (ruleRefExpr (at_pos 204 28 5964) ''EOF'')])
        callonDoubleStringEscape5)])\<rparr>"

definition pigeon_SingleStringEscape :: "astval rule" where
  "pigeon_SingleStringEscape = \<lparr>rule_pos = at_pos 207 1 6029, rule_name = ''SingleStringEscape'', displayName = '''', rule_expr =
    (choiceExpr (at_pos 207 22 6052) [
      (choiceExpr (at_pos 207 24 6054) [
        (litMatcher (at_pos 207 24 6054) [CHR 0x27] False),
        (ruleRefExpr (at_pos 207 30 6060) ''CommonEscapeSequence'')]),
      (actionExpr (at_pos 208 7 6089)
        (choiceExpr (at_pos 208 9 6091) [
          (ruleRefExpr (at_pos 208 9 6091) ''SourceChar''),
          (ruleRefExpr (at_pos 208 22 6104) ''EOL''),
          (ruleRefExpr (at_pos 208 28 6110) ''EOF'')])
        callonSingleStringEscape5)])\<rparr>"

definition pigeon_CommonEscapeSequence :: "astval rule" where
  "pigeon_CommonEscapeSequence = \<lparr>rule_pos = at_pos 212 1 6176, rule_name = ''CommonEscapeSequence'', displayName = '''', rule_expr =
    (choiceExpr (at_pos 212 24 6201) [
      (ruleRefExpr (at_pos 212 24 6201) ''SingleCharEscape''),
      (ruleRefExpr (at_pos 212 43 6220) ''OctalEscape''),
      (ruleRefExpr (at_pos 212 57 6234) ''HexEscape''),
      (ruleRefExpr (at_pos 212 69 6246) ''LongUnicodeEscape''),
      (ruleRefExpr (at_pos 212 89 6266) ''ShortUnicodeEscape'')])\<rparr>"

definition pigeon_SingleCharEscape :: "astval rule" where
  "pigeon_SingleCharEscape = \<lparr>rule_pos = at_pos 213 1 6285, rule_name = ''SingleCharEscape'', displayName = '''', rule_expr =
    (choiceExpr (at_pos 213 20 6306) [
      (litMatcher (at_pos 213 20 6306) ''a'' False),
      (litMatcher (at_pos 213 26 6312) ''b'' False),
      (litMatcher (at_pos 213 32 6318) ''n'' False),
      (litMatcher (at_pos 213 38 6324) ''f'' False),
      (litMatcher (at_pos 213 44 6330) ''r'' False),
      (litMatcher (at_pos 213 50 6336) ''t'' False),
      (litMatcher (at_pos 213 56 6342) ''v'' False),
      (litMatcher (at_pos 213 62 6348) [CHR 0x5C] False)])\<rparr>"

definition pigeon_OctalEscape :: "astval rule" where
  "pigeon_OctalEscape = \<lparr>rule_pos = at_pos 214 1 6353, rule_name = ''OctalEscape'', displayName = '''', rule_expr =
    (choiceExpr (at_pos 214 15 6369) [
      (seqExpr (at_pos 214 15 6369) [
        (ruleRefExpr (at_pos 214 15 6369) ''OctalDigit''),
        (ruleRefExpr (at_pos 214 26 6380) ''OctalDigit''),
        (ruleRefExpr (at_pos 214 37 6391) ''OctalDigit'')]),
      (actionExpr (at_pos 215 7 6408)
        (seqExpr (at_pos 215 7 6408) [
          (ruleRefExpr (at_pos 215 7 6408) ''OctalDigit''),
          (choiceExpr (at_pos 215 20 6421) [
            (ruleRefExpr (at_pos 215 20 6421) ''SourceChar''),
            (ruleRefExpr (at_pos 215 33 6434) ''EOL''),
            (ruleRefExpr (at_pos 215 39 6440) ''EOF'')])])
        callonOctalEscape6)])\<rparr>"

definition pigeon_HexEscape :: "astval rule" where
  "pigeon_HexEscape = \<lparr>rule_pos = at_pos 218 1 6501, rule_name = ''HexEscape'', displayName = '''', rule_expr =
    (choiceExpr (at_pos 218 13 6515) [
      (seqExpr (at_pos 218 13 6515) [
        (litMatcher (at_pos 218 13 6515) ''x'' False),
        (ruleRefExpr (at_pos 218 17 6519) ''HexDigit''),
        (ruleRefExpr (at_pos 218 26 6528) ''HexDigit'')]),
      (actionExpr (at_pos 219 7 6543)
        (seqExpr (at_pos 219 7 6543) [
          (litMatcher (at_pos 219 7 6543) ''x'' False),
          (choiceExpr (at_pos 219 13 6549) [
            (ruleRefExpr (at_pos 219 13 6549) ''SourceChar''),
            (ruleRefExpr (at_pos 219 26 6562) ''EOL''),
            (ruleRefExpr (at_pos 219 32 6568) ''EOF'')])])
        callonHexEscape6)])\<rparr>"

definition pigeon_LongUnicodeEscape :: "astval rule" where
  "pigeon_LongUnicodeEscape = \<lparr>rule_pos = at_pos 222 1 6635, rule_name = ''LongUnicodeEscape'', displayName = '''', rule_expr =
    (choiceExpr (at_pos 222 21 6657) [
      (seqExpr (at_pos 222 21 6657) [
        (litMatcher (at_pos 222 21 6657) ''U'' False),
        (ruleRefExpr (at_pos 222 25 6661) ''HexDigit''),
        (ruleRefExpr (at_pos 222 34 6670) ''HexDigit''),
        (ruleRefExpr (at_pos 222 43 6679) ''HexDigit''),
        (ruleRefExpr (at_pos 222 52 6688) ''HexDigit''),
        (ruleRefExpr (at_pos 222 61 6697) ''HexDigit''),
        (ruleRefExpr (at_pos 222 70 6706) ''HexDigit''),
        (ruleRefExpr (at_pos 222 79 6715) ''HexDigit''),
        (ruleRefExpr (at_pos 222 88 6724) ''HexDigit'')]),
      (actionExpr (at_pos 223 7 6739)
        (seqExpr (at_pos 223 7 6739) [
          (litMatcher (at_pos 223 7 6739) ''U'' False),
          (choiceExpr (at_pos 223 13 6745) [
            (ruleRefExpr (at_pos 223 13 6745) ''SourceChar''),
            (ruleRefExpr (at_pos 223 26 6758) ''EOL''),
            (ruleRefExpr (at_pos 223 32 6764) ''EOF'')])])
        callonLongUnicodeEscape12)])\<rparr>"

definition pigeon_ShortUnicodeEscape :: "astval rule" where
  "pigeon_ShortUnicodeEscape = \<lparr>rule_pos = at_pos 226 1 6827, rule_name = ''ShortUnicodeEscape'', displayName = '''', rule_expr =
    (choiceExpr (at_pos 226 22 6850) [
      (seqExpr (at_pos 226 22 6850) [
        (litMatcher (at_pos 226 22 6850) ''u'' False),
        (ruleRefExpr (at_pos 226 26 6854) ''HexDigit''),
        (ruleRefExpr (at_pos 226 35 6863) ''HexDigit''),
        (ruleRefExpr (at_pos 226 44 6872) ''HexDigit''),
        (ruleRefExpr (at_pos 226 53 6881) ''HexDigit'')]),
      (actionExpr (at_pos 227 7 6896)
        (seqExpr (at_pos 227 7 6896) [
          (litMatcher (at_pos 227 7 6896) ''u'' False),
          (choiceExpr (at_pos 227 13 6902) [
            (ruleRefExpr (at_pos 227 13 6902) ''SourceChar''),
            (ruleRefExpr (at_pos 227 26 6915) ''EOL''),
            (ruleRefExpr (at_pos 227 32 6921) ''EOF'')])])
        callonShortUnicodeEscape8)])\<rparr>"

definition pigeon_OctalDigit :: "astval rule" where
  "pigeon_OctalDigit = \<lparr>rule_pos = at_pos 231 1 6985, rule_name = ''OctalDigit'', displayName = '''', rule_expr =
    (charClassMatcher \<lparr>cc_pos = at_pos 231 14 7000, cc_val = ''[0-7]'',
       chars = [], ranges = [48, 55], classes = [],
       cc_ignoreCase = False, inverted = False\<rparr>)\<rparr>"

definition pigeon_DecimalDigit :: "astval rule" where
  "pigeon_DecimalDigit = \<lparr>rule_pos = at_pos 232 1 7006, rule_name = ''DecimalDigit'', displayName = '''', rule_expr =
    (charClassMatcher \<lparr>cc_pos = at_pos 232 16 7023, cc_val = ''[0-9]'',
       chars = [], ranges = [48, 57], classes = [],
       cc_ignoreCase = False, inverted = False\<rparr>)\<rparr>"

definition pigeon_HexDigit :: "astval rule" where
  "pigeon_HexDigit = \<lparr>rule_pos = at_pos 233 1 7029, rule_name = ''HexDigit'', displayName = '''', rule_expr =
    (charClassMatcher \<lparr>cc_pos = at_pos 233 12 7042, cc_val = ''[0-9a-f]i'',
       chars = [], ranges = [48, 57, 97, 102], classes = [],
       cc_ignoreCase = True, inverted = False\<rparr>)\<rparr>"

definition pigeon_CharClassMatcher :: "astval rule" where
  "pigeon_CharClassMatcher = \<lparr>rule_pos = at_pos 235 1 7053, rule_name = ''CharClassMatcher'', displayName = '''', rule_expr =
    (choiceExpr (at_pos 235 20 7074) [
      (actionExpr (at_pos 235 20 7074)
        (seqExpr (at_pos 235 20 7074) [
          (litMatcher (at_pos 235 20 7074) ''['' False),
          (zeroOrMoreExpr (at_pos 235 24 7078)
            (choiceExpr (at_pos 235 26 7080) [
              (ruleRefExpr (at_pos 235 26 7080) ''ClassCharRange''),
              (ruleRefExpr (at_pos 235 43 7097) ''ClassChar''),
              (seqExpr (at_pos 235 55 7109) [
                (litMatcher (at_pos 235 55 7109) [CHR 0x5C] False),
                (ruleRefExpr (at_pos 235 60 7114) ''UnicodeClassEscape'')])])),
          (litMatcher (at_pos 235 82 7136) '']'' False),
          (zeroOrOneExpr (at_pos 235 86 7140)
            (litMatcher (at_pos 235 86 7140) ''i'' False))])
        callonCharClassMatcher2),
      (actionExpr (at_pos 239 5 7247)
        (seqExpr (at_pos 239 5 7247) [
          (litMatcher (at_pos 239 5 7247) ''['' False),
          (zeroOrMoreExpr (at_pos 239 9 7251)
            (seqExpr (at_pos 239 11 7253) [
              (notExpr (at_pos 239 11 7253)
                (ruleRefExpr (at_pos 239 14 7256) ''EOL'')),
              (ruleRefExpr (at_pos 239 20 7262) ''SourceChar'')])),
          (choiceExpr (at_pos 239 36 7278) [
            (ruleRefExpr (at_pos 239 36 7278) ''EOL''),
            (ruleRefExpr (at_pos 239 42 7284) ''EOF'')])])
        callonCharClassMatcher15)])\<rparr>"

definition pigeon_ClassCharRange :: "astval rule" where
  "pigeon_ClassCharRange = \<lparr>rule_pos = at_pos 243 1 7394, rule_name = ''ClassCharRange'', displayName = '''', rule_expr =
    (seqExpr (at_pos 243 18 7413) [
      (ruleRefExpr (at_pos 243 18 7413) ''ClassChar''),
      (litMatcher (at_pos 243 28 7423) ''-'' False),
      (ruleRefExpr (at_pos 243 32 7427) ''ClassChar'')])\<rparr>"

definition pigeon_ClassChar :: "astval rule" where
  "pigeon_ClassChar = \<lparr>rule_pos = at_pos 244 1 7437, rule_name = ''ClassChar'', displayName = '''', rule_expr =
    (choiceExpr (at_pos 244 13 7451) [
      (seqExpr (at_pos 244 13 7451) [
        (notExpr (at_pos 244 13 7451)
          (choiceExpr (at_pos 244 16 7454) [
            (litMatcher (at_pos 244 16 7454) '']'' False),
            (litMatcher (at_pos 244 22 7460) [CHR 0x5C] False),
            (ruleRefExpr (at_pos 244 29 7467) ''EOL'')])),
        (ruleRefExpr (at_pos 244 35 7473) ''SourceChar'')]),
      (seqExpr (at_pos 244 48 7486) [
        (litMatcher (at_pos 244 48 7486) [CHR 0x5C] False),
        (ruleRefExpr (at_pos 244 53 7491) ''CharClassEscape'')])])\<rparr>"

definition pigeon_CharClassEscape :: "astval rule" where
  "pigeon_CharClassEscape = \<lparr>rule_pos = at_pos 245 1 7507, rule_name = ''CharClassEscape'', displayName = '''', rule_expr =
    (choiceExpr (at_pos 245 19 7527) [
      (choiceExpr (at_pos 245 21 7529) [
        (litMatcher (at_pos 245 21 7529) '']'' False),
        (ruleRefExpr (at_pos 245 27 7535) ''CommonEscapeSequence'')]),
      (actionExpr (at_pos 246 7 7564)
        (seqExpr (at_pos 246 7 7564) [
          (notExpr (at_pos 246 7 7564)
            (litMatcher (at_pos 246 8 7565) ''p'' False)),
          (choiceExpr (at_pos 246 14 7571) [
            (ruleRefExpr (at_pos 246 14 7571) ''SourceChar''),
            (ruleRefExpr (at_pos 246 27 7584) ''EOL''),
            (ruleRefExpr (at_pos 246 33 7590) ''EOF'')])])
        callonCharClassEscape5)])\<rparr>"

definition pigeon_UnicodeClassEscape :: "astval rule" where
  "pigeon_UnicodeClassEscape = \<lparr>rule_pos = at_pos 250 1 7656, rule_name = ''UnicodeClassEscape'', displayName = '''', rule_expr =
    (seqExpr (at_pos 250 22 7679) [
      (litMatcher (at_pos 250 22 7679) ''p'' False),
      (choiceExpr (at_pos 251 7 7692) [
        (ruleRefExpr (at_pos 251 7 7692) ''SingleCharUnicodeClass''),
        (actionExpr (at_pos 252 7 7721)
          (seqExpr (at_pos 252 7 7721) [
            (notExpr (at_pos 252 7 7721)
              (litMatcher (at_pos 252 8 7722) ''{'' False)),
            (choiceExpr (at_pos 252 14 7728) [
              (ruleRefExpr (at_pos 252 14 7728) ''SourceChar''),
              (ruleRefExpr (at_pos 252 27 7741) ''EOL''),
              (ruleRefExpr (at_pos 252 33 7747) ''EOF'')])])
          callonUnicodeClassEscape5),
        (actionExpr (at_pos 253 7 7818)
          (seqExpr (at_pos 253 7 7818) [
            (litMatcher (at_pos 253 7 7818) ''{'' False),
            (labeledExpr (at_pos 253 11 7822) ''ident''
              (ruleRefExpr (at_pos 253 17 7828) ''IdentifierName'')),
            (litMatcher (at_pos 253 32 7843) ''}'' False)])
          callonUnicodeClassEscape13),
        (actionExpr (at_pos 259 7 8020)
          (seqExpr (at_pos 259 7 8020) [
            (litMatcher (at_pos 259 7 8020) ''{'' False),
            (ruleRefExpr (at_pos 259 11 8024) ''IdentifierName''),
            (choiceExpr (at_pos 259 28 8041) [
              (litMatcher (at_pos 259 28 8041) '']'' False),
              (ruleRefExpr (at_pos 259 34 8047) ''EOL''),
              (ruleRefExpr (at_pos 259 40 8053) ''EOF'')])])
          callonUnicodeClassEscape19)])])\<rparr>"

definition pigeon_SingleCharUnicodeClass :: "astval rule" where
  "pigeon_SingleCharUnicodeClass = \<lparr>rule_pos = at_pos 263 1 8136, rule_name = ''SingleCharUnicodeClass'', displayName = '''', rule_expr =
    (charClassMatcher \<lparr>cc_pos = at_pos 263 26 8163, cc_val = ''[LMNCPZS]'',
       chars = [76, 77, 78, 67, 80, 90, 83], ranges = [], classes = [],
       cc_ignoreCase = False, inverted = False\<rparr>)\<rparr>"

definition pigeon_AnyMatcher :: "astval rule" where
  "pigeon_AnyMatcher = \<lparr>rule_pos = at_pos 265 1 8174, rule_name = ''AnyMatcher'', displayName = '''', rule_expr =
    (actionExpr (at_pos 265 14 8189)
      (litMatcher (at_pos 265 14 8189) ''.'' False)
      callonAnyMatcher1)\<rparr>"

definition pigeon_CodeBlock :: "astval rule" where
  "pigeon_CodeBlock = \<lparr>rule_pos = at_pos 270 1 8264, rule_name = ''CodeBlock'', displayName = '''', rule_expr =
    (choiceExpr (at_pos 270 13 8278) [
      (actionExpr (at_pos 270 13 8278)
        (seqExpr (at_pos 270 13 8278) [
          (litMatcher (at_pos 270 13 8278) ''{'' False),
          (ruleRefExpr (at_pos 270 17 8282) ''Code''),
          (litMatcher (at_pos 270 22 8287) ''}'' False)])
        callonCodeBlock2),
      (actionExpr (at_pos 274 5 8386)
        (seqExpr (at_pos 274 5 8386) [
          (litMatcher (at_pos 274 5 8386) ''{'' False),
          (ruleRefExpr (at_pos 274 9 8390) ''Code''),
          (ruleRefExpr (at_pos 274 14 8395) ''EOF'')])
        callonCodeBlock7)])\<rparr>"

definition pigeon_Code :: "astval rule" where
  "pigeon_Code = \<lparr>rule_pos = at_pos 278 1 8460, rule_name = ''Code'', displayName = '''', rule_expr =
    (zeroOrMoreExpr (at_pos 278 8 8469)
      (choiceExpr (at_pos 278 10 8471) [
        (oneOrMoreExpr (at_pos 278 10 8471)
          (seqExpr (at_pos 278 12 8473) [
            (notExpr (at_pos 278 12 8473)
              (charClassMatcher \<lparr>cc_pos = at_pos 278 13 8474, cc_val = ''[{}]'',
                 chars = [123, 125], ranges = [], classes = [],
                 cc_ignoreCase = False, inverted = False\<rparr>)),
            (ruleRefExpr (at_pos 278 18 8479) ''SourceChar'')])),
        (seqExpr (at_pos 278 34 8495) [
          (litMatcher (at_pos 278 34 8495) ''{'' False),
          (ruleRefExpr (at_pos 278 38 8499) ''Code''),
          (litMatcher (at_pos 278 43 8504) ''}'' False)])]))\<rparr>"

definition pigeon_underscore2 :: "astval rule" where
  "pigeon_underscore2 = \<lparr>rule_pos = at_pos 280 1 8512, rule_name = ''__'', displayName = '''', rule_expr =
    (zeroOrMoreExpr (at_pos 280 6 8519)
      (choiceExpr (at_pos 280 8 8521) [
        (ruleRefExpr (at_pos 280 8 8521) ''Whitespace''),
        (ruleRefExpr (at_pos 280 21 8534) ''EOL''),
        (ruleRefExpr (at_pos 280 27 8540) ''Comment'')]))\<rparr>"

definition pigeon_underscore :: "astval rule" where
  "pigeon_underscore = \<lparr>rule_pos = at_pos 281 1 8551, rule_name = ''_'', displayName = '''', rule_expr =
    (zeroOrMoreExpr (at_pos 281 5 8557)
      (choiceExpr (at_pos 281 7 8559) [
        (ruleRefExpr (at_pos 281 7 8559) ''Whitespace''),
        (ruleRefExpr (at_pos 281 20 8572) ''MultiLineCommentNoLineTerminator'')]))\<rparr>"

definition pigeon_Whitespace :: "astval rule" where
  "pigeon_Whitespace = \<lparr>rule_pos = at_pos 283 1 8609, rule_name = ''Whitespace'', displayName = '''', rule_expr =
    (charClassMatcher \<lparr>cc_pos = at_pos 283 14 8624, cc_val = (''[ '' @ [CHR 0x5C] @ ''t'' @ [CHR 0x5C] @ ''r]''),
       chars = [32, 9, 13], ranges = [], classes = [],
       cc_ignoreCase = False, inverted = False\<rparr>)\<rparr>"

definition pigeon_EOL :: "astval rule" where
  "pigeon_EOL = \<lparr>rule_pos = at_pos 284 1 8632, rule_name = ''EOL'', displayName = '''', rule_expr =
    (litMatcher (at_pos 284 7 8640) [CHR 0x0A] False)\<rparr>"

definition pigeon_EOS :: "astval rule" where
  "pigeon_EOS = \<lparr>rule_pos = at_pos 285 1 8645, rule_name = ''EOS'', displayName = '''', rule_expr =
    (choiceExpr (at_pos 285 7 8653) [
      (seqExpr (at_pos 285 7 8653) [
        (ruleRefExpr (at_pos 285 7 8653) ''__''),
        (litMatcher (at_pos 285 10 8656) '';'' False)]),
      (seqExpr (at_pos 285 16 8662) [
        (ruleRefExpr (at_pos 285 16 8662) ''_''),
        (zeroOrOneExpr (at_pos 285 18 8664)
          (ruleRefExpr (at_pos 285 18 8664) ''SingleLineComment'')),
        (ruleRefExpr (at_pos 285 37 8683) ''EOL'')]),
      (seqExpr (at_pos 285 43 8689) [
        (ruleRefExpr (at_pos 285 43 8689) ''__''),
        (ruleRefExpr (at_pos 285 46 8692) ''EOF'')])])\<rparr>"

definition pigeon_EOF :: "astval rule" where
  "pigeon_EOF = \<lparr>rule_pos = at_pos 287 1 8697, rule_name = ''EOF'', displayName = '''', rule_expr =
    (notExpr (at_pos 287 7 8705)
      (anyMatcher (at_pos 287 8 8706)))\<rparr>"

text \<open>
  The grammar as it is built when the package is initialised: the two Unicode tables it uses are looked up
  then, and a missing one panics.
\<close>

definition pigeon_rules :: "rangeTable \<Rightarrow> rangeTable \<Rightarrow> astval grammar" where
  "pigeon_rules tL tNd = \<lparr>grammar_pos = at_pos 0 0 0, grammar_rules =
     [pigeon_Grammar,
      pigeon_Initializer,
      pigeon_Rule,
      pigeon_Expression,
      pigeon_ChoiceExpr,
      pigeon_ActionExpr,
      pigeon_SeqExpr,
      pigeon_LabeledExpr,
      pigeon_PrefixedExpr,
      pigeon_PrefixedOp,
      pigeon_SuffixedExpr,
      pigeon_SuffixedOp,
      pigeon_PrimaryExpr,
      pigeon_RuleRefExpr,
      pigeon_SemanticPredExpr,
      pigeon_SemanticPredOp,
      pigeon_RuleDefOp,
      pigeon_SourceChar,
      pigeon_Comment,
      pigeon_MultiLineComment,
      pigeon_MultiLineCommentNoLineTerminator,
      pigeon_SingleLineComment,
      pigeon_Identifier,
      pigeon_IdentifierName,
      pigeon_IdentifierStart tL,
      pigeon_IdentifierPart tNd,
      pigeon_LitMatcher,
      pigeon_StringLiteral,
      pigeon_DoubleStringChar,
      pigeon_SingleStringChar,
      pigeon_RawStringChar,
      pigeon_DoubleStringEscape,
      pigeon_SingleStringEscape,
      pigeon_CommonEscapeSequence,
      pigeon_SingleCharEscape,
      pigeon_OctalEscape,
      pigeon_HexEscape,
      pigeon_LongUnicodeEscape,
      pigeon_ShortUnicodeEscape,
      pigeon_OctalDigit,
      pigeon_DecimalDigit,
      pigeon_HexDigit,
      pigeon_CharClassMatcher,
      pigeon_ClassCharRange,
      pigeon_ClassChar,
      pigeon_CharClassEscape,
      pigeon_UnicodeClassEscape,
      pigeon_SingleCharUnicodeClass,
      pigeon_AnyMatcher,
      pigeon_CodeBlock,
      pigeon_Code,
      pigeon_underscore2,
      pigeon_underscore,
      pigeon_Whitespace,
      pigeon_EOL,
      pigeon_EOS,
      pigeon_EOF]\<rparr>"

definition pigeon_g :: "unicode_env \<Rightarrow> astval grammar code" where
  "pigeon_g U =
     thenP (rangeTable_of U ''L'') (\<lambda>tL. thenP (rangeTable_of U ''Nd'') (\<lambda>tNd. Inr (pigeon_rules tL tNd)))"

end
