(* ===== verification/Pigeon_Termination.thy ===== *)
theory Pigeon_Termination
  imports Pigeon Peg_Checked
begin

text \<open>
  The certificate that the grammar of pigeon is well formed: the rules each match of which advances, and a rank that
  decreases from every rule to the rules it may enter before it has advanced.
\<close>

section \<open>The certificate\<close>

definition pigeon_consuming :: "string set" where
  "pigeon_consuming = {
     ''Grammar'', ''Initializer'', ''Rule'', ''Expression'', ''ChoiceExpr'', ''ActionExpr'', ''SeqExpr'',
     ''LabeledExpr'', ''PrefixedExpr'', ''PrefixedOp'', ''SuffixedExpr'', ''SuffixedOp'', ''PrimaryExpr'',
     ''RuleRefExpr'', ''SemanticPredExpr'', ''SemanticPredOp'', ''RuleDefOp'', ''SourceChar'', ''Comment'',
     ''MultiLineComment'', ''MultiLineCommentNoLineTerminator'', ''SingleLineComment'', ''Identifier'',
     ''IdentifierName'', ''IdentifierStart'', ''IdentifierPart'', ''LitMatcher'', ''StringLiteral'',
     ''DoubleStringChar'', ''SingleStringChar'', ''RawStringChar'', ''CommonEscapeSequence'', ''SingleCharEscape'',
     ''OctalEscape'', ''HexEscape'', ''LongUnicodeEscape'', ''ShortUnicodeEscape'', ''OctalDigit'',
     ''DecimalDigit'', ''CharClassMatcher'', ''ClassCharRange'', ''ClassChar'', ''UnicodeClassEscape'',
     ''SingleCharUnicodeClass'', ''AnyMatcher'', ''CodeBlock'', ''Whitespace'', ''EOL''}"

definition pigeon_ranks :: "(string \<times> nat) list" where
  "pigeon_ranks = [
     (''Expression'', 10), (''ChoiceExpr'', 9), (''ActionExpr'', 8), (''SeqExpr'', 7), (''LabeledExpr'', 6),
     (''PrefixedExpr'', 5), (''SuffixedExpr'', 4), (''Grammar'', 3), (''PrimaryExpr'', 3),
     (''DoubleStringEscape'', 3), (''SingleStringEscape'', 3), (''CharClassEscape'', 3), (''EOS'', 3), (''__'', 2),
     (''Rule'', 2), (''Identifier'', 2), (''RuleRefExpr'', 2), (''CommonEscapeSequence'', 2),
     (''ClassCharRange'', 2), (''Comment'', 1), (''Initializer'', 1), (''IdentifierName'', 1), (''LitMatcher'', 1),
     (''SemanticPredExpr'', 1), (''IdentifierPart'', 1), (''DoubleStringChar'', 1), (''SingleStringChar'', 1),
     (''RawStringChar'', 1), (''OctalEscape'', 1), (''ClassChar'', 1), (''Code'', 1), (''_'', 1)]"

lemma pigeon_consuming_mem:
  "''Grammar'' \<in> pigeon_consuming"
  "''Initializer'' \<in> pigeon_consuming"
  "''Rule'' \<in> pigeon_consuming"
  "''Expression'' \<in> pigeon_consuming"
  "''ChoiceExpr'' \<in> pigeon_consuming"
  "''ActionExpr'' \<in> pigeon_consuming"
  "''SeqExpr'' \<in> pigeon_consuming"
  "''LabeledExpr'' \<in> pigeon_consuming"
  "''PrefixedExpr'' \<in> pigeon_consuming"
  "''PrefixedOp'' \<in> pigeon_consuming"
  "''SuffixedExpr'' \<in> pigeon_consuming"
  "''SuffixedOp'' \<in> pigeon_consuming"
  "''PrimaryExpr'' \<in> pigeon_consuming"
  "''RuleRefExpr'' \<in> pigeon_consuming"
  "''SemanticPredExpr'' \<in> pigeon_consuming"
  "''SemanticPredOp'' \<in> pigeon_consuming"
  "''RuleDefOp'' \<in> pigeon_consuming"
  "''SourceChar'' \<in> pigeon_consuming"
  "''Comment'' \<in> pigeon_consuming"
  "''MultiLineComment'' \<in> pigeon_consuming"
  "''MultiLineCommentNoLineTerminator'' \<in> pigeon_consuming"
  "''SingleLineComment'' \<in> pigeon_consuming"
  "''Identifier'' \<in> pigeon_consuming"
  "''IdentifierName'' \<in> pigeon_consuming"
  "''IdentifierStart'' \<in> pigeon_consuming"
  "''IdentifierPart'' \<in> pigeon_consuming"
  "''LitMatcher'' \<in> pigeon_consuming"
  "''StringLiteral'' \<in> pigeon_consuming"
  "''DoubleStringChar'' \<in> pigeon_consuming"
  "''SingleStringChar'' \<in> pigeon_consuming"
  "''RawStringChar'' \<in> pigeon_consuming"
  "''DoubleStringEscape'' \<notin> pigeon_consuming"
  "''SingleStringEscape'' \<notin> pigeon_consuming"
  "''CommonEscapeSequence'' \<in> pigeon_consuming"
  "''SingleCharEscape'' \<in> pigeon_consuming"
  "''OctalEscape'' \<in> pigeon_consuming"
  "''HexEscape'' \<in> pigeon_consuming"
  "''LongUnicodeEscape'' \<in> pigeon_consuming"
  "''ShortUnicodeEscape'' \<in> pigeon_consuming"
  "''OctalDigit'' \<in> pigeon_consuming"
  "''DecimalDigit'' \<in> pigeon_consuming"
  "''HexDigit'' \<notin> pigeon_consuming"
  "''CharClassMatcher'' \<in> pigeon_consuming"
  "''ClassCharRange'' \<in> pigeon_consuming"
  "''ClassChar'' \<in> pigeon_consuming"
  "''CharClassEscape'' \<notin> pigeon_consuming"
  "''UnicodeClassEscape'' \<in> pigeon_consuming"
  "''SingleCharUnicodeClass'' \<in> pigeon_consuming"
  "''AnyMatcher'' \<in> pigeon_consuming"
  "''CodeBlock'' \<in> pigeon_consuming"
  "''Code'' \<notin> pigeon_consuming"
  "''__'' \<notin> pigeon_consuming"
  "''_'' \<notin> pigeon_consuming"
  "''Whitespace'' \<in> pigeon_consuming"
  "''EOL'' \<in> pigeon_consuming"
  "''EOS'' \<notin> pigeon_consuming"
  "''EOF'' \<notin> pigeon_consuming"
  by (simp_all add: pigeon_consuming_def)

lemma pigeon_rank:
  "rank_of pigeon_ranks ''Grammar'' = 3"
  "rank_of pigeon_ranks ''Initializer'' = 1"
  "rank_of pigeon_ranks ''Rule'' = 2"
  "rank_of pigeon_ranks ''Expression'' = 10"
  "rank_of pigeon_ranks ''ChoiceExpr'' = 9"
  "rank_of pigeon_ranks ''ActionExpr'' = 8"
  "rank_of pigeon_ranks ''SeqExpr'' = 7"
  "rank_of pigeon_ranks ''LabeledExpr'' = 6"
  "rank_of pigeon_ranks ''PrefixedExpr'' = 5"
  "rank_of pigeon_ranks ''PrefixedOp'' = 0"
  "rank_of pigeon_ranks ''SuffixedExpr'' = 4"
  "rank_of pigeon_ranks ''SuffixedOp'' = 0"
  "rank_of pigeon_ranks ''PrimaryExpr'' = 3"
  "rank_of pigeon_ranks ''RuleRefExpr'' = 2"
  "rank_of pigeon_ranks ''SemanticPredExpr'' = 1"
  "rank_of pigeon_ranks ''SemanticPredOp'' = 0"
  "rank_of pigeon_ranks ''RuleDefOp'' = 0"
  "rank_of pigeon_ranks ''SourceChar'' = 0"
  "rank_of pigeon_ranks ''Comment'' = 1"
  "rank_of pigeon_ranks ''MultiLineComment'' = 0"
  "rank_of pigeon_ranks ''MultiLineCommentNoLineTerminator'' = 0"
  "rank_of pigeon_ranks ''SingleLineComment'' = 0"
  "rank_of pigeon_ranks ''Identifier'' = 2"
  "rank_of pigeon_ranks ''IdentifierName'' = 1"
  "rank_of pigeon_ranks ''IdentifierStart'' = 0"
  "rank_of pigeon_ranks ''IdentifierPart'' = 1"
  "rank_of pigeon_ranks ''LitMatcher'' = 1"
  "rank_of pigeon_ranks ''StringLiteral'' = 0"
  "rank_of pigeon_ranks ''DoubleStringChar'' = 1"
  "rank_of pigeon_ranks ''SingleStringChar'' = 1"
  "rank_of pigeon_ranks ''RawStringChar'' = 1"
  "rank_of pigeon_ranks ''DoubleStringEscape'' = 3"
  "rank_of pigeon_ranks ''SingleStringEscape'' = 3"
  "rank_of pigeon_ranks ''CommonEscapeSequence'' = 2"
  "rank_of pigeon_ranks ''SingleCharEscape'' = 0"
  "rank_of pigeon_ranks ''OctalEscape'' = 1"
  "rank_of pigeon_ranks ''HexEscape'' = 0"
  "rank_of pigeon_ranks ''LongUnicodeEscape'' = 0"
  "rank_of pigeon_ranks ''ShortUnicodeEscape'' = 0"
  "rank_of pigeon_ranks ''OctalDigit'' = 0"
  "rank_of pigeon_ranks ''DecimalDigit'' = 0"
  "rank_of pigeon_ranks ''HexDigit'' = 0"
  "rank_of pigeon_ranks ''CharClassMatcher'' = 0"
  "rank_of pigeon_ranks ''ClassCharRange'' = 2"
  "rank_of pigeon_ranks ''ClassChar'' = 1"
  "rank_of pigeon_ranks ''CharClassEscape'' = 3"
  "rank_of pigeon_ranks ''UnicodeClassEscape'' = 0"
  "rank_of pigeon_ranks ''SingleCharUnicodeClass'' = 0"
  "rank_of pigeon_ranks ''AnyMatcher'' = 0"
  "rank_of pigeon_ranks ''CodeBlock'' = 0"
  "rank_of pigeon_ranks ''Code'' = 1"
  "rank_of pigeon_ranks ''__'' = 2"
  "rank_of pigeon_ranks ''_'' = 1"
  "rank_of pigeon_ranks ''Whitespace'' = 0"
  "rank_of pigeon_ranks ''EOL'' = 0"
  "rank_of pigeon_ranks ''EOS'' = 3"
  "rank_of pigeon_ranks ''EOF'' = 0"
  by (simp_all add: rank_of_def pigeon_ranks_def)

abbreviation pigeon_wf :: "unicode_env \<Rightarrow> astval rule \<Rightarrow> bool" where
  "pigeon_wf U r \<equiv> wf_rule U pigeon_consuming (rank_of pigeon_ranks) r"

lemmas pigeon_wf_simps = wf_rule_def pigeon_consuming_mem pigeon_rank class_wf_simps

lemmas pigeon_rule_defs =
  pigeon_Grammar_def pigeon_Initializer_def pigeon_Rule_def pigeon_Expression_def pigeon_ChoiceExpr_def
  pigeon_ActionExpr_def pigeon_SeqExpr_def pigeon_LabeledExpr_def pigeon_PrefixedExpr_def
  pigeon_PrefixedOp_def pigeon_SuffixedExpr_def pigeon_SuffixedOp_def pigeon_PrimaryExpr_def
  pigeon_RuleRefExpr_def pigeon_SemanticPredExpr_def pigeon_SemanticPredOp_def pigeon_RuleDefOp_def
  pigeon_SourceChar_def pigeon_Comment_def pigeon_MultiLineComment_def
  pigeon_MultiLineCommentNoLineTerminator_def pigeon_SingleLineComment_def pigeon_Identifier_def
  pigeon_IdentifierName_def pigeon_IdentifierStart_def pigeon_IdentifierPart_def pigeon_LitMatcher_def
  pigeon_StringLiteral_def pigeon_DoubleStringChar_def pigeon_SingleStringChar_def pigeon_RawStringChar_def
  pigeon_DoubleStringEscape_def pigeon_SingleStringEscape_def pigeon_CommonEscapeSequence_def
  pigeon_SingleCharEscape_def pigeon_OctalEscape_def pigeon_HexEscape_def pigeon_LongUnicodeEscape_def
  pigeon_ShortUnicodeEscape_def pigeon_OctalDigit_def pigeon_DecimalDigit_def pigeon_HexDigit_def
  pigeon_CharClassMatcher_def pigeon_ClassCharRange_def pigeon_ClassChar_def pigeon_CharClassEscape_def
  pigeon_UnicodeClassEscape_def pigeon_SingleCharUnicodeClass_def pigeon_AnyMatcher_def pigeon_CodeBlock_def
  pigeon_Code_def pigeon_underscore2_def pigeon_underscore_def pigeon_Whitespace_def pigeon_EOL_def
  pigeon_EOS_def pigeon_EOF_def

lemma pigeon_wf_rules:
  "pigeon_wf U pigeon_Grammar" "pigeon_wf U pigeon_Initializer" "pigeon_wf U pigeon_Rule"
  "pigeon_wf U pigeon_Expression" "pigeon_wf U pigeon_ChoiceExpr" "pigeon_wf U pigeon_ActionExpr"
  "pigeon_wf U pigeon_SeqExpr" "pigeon_wf U pigeon_LabeledExpr" "pigeon_wf U pigeon_PrefixedExpr"
  "pigeon_wf U pigeon_PrefixedOp" "pigeon_wf U pigeon_SuffixedExpr" "pigeon_wf U pigeon_SuffixedOp"
  "pigeon_wf U pigeon_PrimaryExpr" "pigeon_wf U pigeon_RuleRefExpr" "pigeon_wf U pigeon_SemanticPredExpr"
  "pigeon_wf U pigeon_SemanticPredOp" "pigeon_wf U pigeon_RuleDefOp" "pigeon_wf U pigeon_SourceChar"
  "pigeon_wf U pigeon_Comment" "pigeon_wf U pigeon_MultiLineComment"
  "pigeon_wf U pigeon_MultiLineCommentNoLineTerminator" "pigeon_wf U pigeon_SingleLineComment"
  "pigeon_wf U pigeon_Identifier" "pigeon_wf U pigeon_IdentifierName" "pigeon_wf U pigeon_LitMatcher"
  "pigeon_wf U pigeon_StringLiteral" "pigeon_wf U pigeon_DoubleStringChar" "pigeon_wf U pigeon_SingleStringChar"
  "pigeon_wf U pigeon_RawStringChar" "pigeon_wf U pigeon_DoubleStringEscape"
  "pigeon_wf U pigeon_SingleStringEscape" "pigeon_wf U pigeon_CommonEscapeSequence"
  "pigeon_wf U pigeon_SingleCharEscape" "pigeon_wf U pigeon_OctalEscape" "pigeon_wf U pigeon_HexEscape"
  "pigeon_wf U pigeon_LongUnicodeEscape" "pigeon_wf U pigeon_ShortUnicodeEscape" "pigeon_wf U pigeon_OctalDigit"
  "pigeon_wf U pigeon_DecimalDigit" "pigeon_wf U pigeon_HexDigit" "pigeon_wf U pigeon_CharClassMatcher"
  "pigeon_wf U pigeon_ClassCharRange" "pigeon_wf U pigeon_ClassChar" "pigeon_wf U pigeon_CharClassEscape"
  "pigeon_wf U pigeon_UnicodeClassEscape" "pigeon_wf U pigeon_SingleCharUnicodeClass"
  "pigeon_wf U pigeon_AnyMatcher" "pigeon_wf U pigeon_CodeBlock" "pigeon_wf U pigeon_Code"
  "pigeon_wf U pigeon_underscore2" "pigeon_wf U pigeon_underscore" "pigeon_wf U pigeon_Whitespace"
  "pigeon_wf U pigeon_EOL" "pigeon_wf U pigeon_EOS" "pigeon_wf U pigeon_EOF"
  by (simp_all add: pigeon_rule_defs pigeon_wf_simps)

lemma pigeon_wf_IdentifierStart: "\<not> unicodeIs tL RuneError \<Longrightarrow> pigeon_wf U (pigeon_IdentifierStart tL)"
  by (simp add: pigeon_rule_defs pigeon_wf_simps)

lemma pigeon_wf_IdentifierPart: "\<not> unicodeIs tNd RuneError \<Longrightarrow> pigeon_wf U (pigeon_IdentifierPart tNd)"
  by (simp add: pigeon_rule_defs pigeon_wf_simps)

lemma pigeon_grammar_wf:
  assumes "\<not> unicodeIs tL RuneError" "\<not> unicodeIs tNd RuneError"
  shows "wf_grammar U pigeon_consuming (rank_of pigeon_ranks) (pigeon_rules tL tNd)"
  using assms by (simp add: wf_grammar_def pigeon_rules_def pigeon_wf_rules pigeon_wf_IdentifierStart pigeon_wf_IdentifierPart)

end
