(* ===== verification/Pigeon_Typing.thy ===== *)
theory Pigeon_Typing
  imports Pigeon Peg_Checked
begin

text \<open>
  The types of the values of pigeon's rules. Every type assertion of its code blocks holds but one: a code
  block that is not terminated has the value nil, and the assertion that it is a code block then panics.
\<close>

section \<open>The types of the rules\<close>

definition grammars :: "av set" where "grammars = {VUser (NGrammar g) |g. True}"
definition ruleNodes :: "av set" where "ruleNodes = {VUser (NRule r) |r. True}"
definition idents :: "av set" where "idents = {VUser (NIdentifier i) |i. True}"
definition strLits :: "av set" where "strLits = {VUser (NStringLit s) |s. True}"
definition exprNodes :: "av set" where "exprNodes = {VUser (NExpr e) |e. True}"
definition codeBlocks :: "av set" where "codeBlocks = insert VNil {VUser (NCodeBlock b) |b. True}"
definition suffixOps :: "av set" where "suffixOps = {VString ''?'', VString ''*'', VString ''+''}"

definition pigeon_types :: "(string \<times> av set) list" where
  "pigeon_types = [
     (''Grammar'', grammars), (''Initializer'', codeBlocks), (''Rule'', ruleNodes),
     (''PrefixedOp'', range VString), (''SemanticPredOp'', range VString), (''SuffixedOp'', suffixOps),
     (''Identifier'', idents), (''IdentifierName'', idents), (''StringLiteral'', strLits),
     (''CodeBlock'', codeBlocks), (''Expression'', exprNodes), (''ChoiceExpr'', exprNodes),
     (''ActionExpr'', exprNodes), (''SeqExpr'', exprNodes), (''LabeledExpr'', exprNodes),
     (''PrefixedExpr'', exprNodes), (''SuffixedExpr'', exprNodes), (''PrimaryExpr'', exprNodes),
     (''RuleRefExpr'', exprNodes), (''SemanticPredExpr'', exprNodes), (''LitMatcher'', exprNodes),
     (''CharClassMatcher'', exprNodes), (''AnyMatcher'', exprNodes)]"

definition pigeon_type :: "string \<Rightarrow> av set" where
  "pigeon_type n = (case map_of pigeon_types n of None \<Rightarrow> UNIV | Some S \<Rightarrow> S)"

lemma pigeon_type_simps:
  "pigeon_type ''Grammar'' = grammars" "pigeon_type ''Initializer'' = codeBlocks"
  "pigeon_type ''Rule'' = ruleNodes" "pigeon_type ''Expression'' = exprNodes"
  "pigeon_type ''ChoiceExpr'' = exprNodes" "pigeon_type ''ActionExpr'' = exprNodes"
  "pigeon_type ''SeqExpr'' = exprNodes" "pigeon_type ''LabeledExpr'' = exprNodes"
  "pigeon_type ''PrefixedExpr'' = exprNodes" "pigeon_type ''PrefixedOp'' = range VString"
  "pigeon_type ''SuffixedExpr'' = exprNodes" "pigeon_type ''SuffixedOp'' = suffixOps"
  "pigeon_type ''PrimaryExpr'' = exprNodes" "pigeon_type ''RuleRefExpr'' = exprNodes"
  "pigeon_type ''SemanticPredExpr'' = exprNodes" "pigeon_type ''SemanticPredOp'' = range VString"
  "pigeon_type ''RuleDefOp'' = UNIV" "pigeon_type ''SourceChar'' = UNIV" "pigeon_type ''Comment'' = UNIV"
  "pigeon_type ''MultiLineComment'' = UNIV" "pigeon_type ''MultiLineCommentNoLineTerminator'' = UNIV"
  "pigeon_type ''SingleLineComment'' = UNIV" "pigeon_type ''Identifier'' = idents"
  "pigeon_type ''IdentifierName'' = idents" "pigeon_type ''IdentifierStart'' = UNIV"
  "pigeon_type ''IdentifierPart'' = UNIV" "pigeon_type ''LitMatcher'' = exprNodes"
  "pigeon_type ''StringLiteral'' = strLits" "pigeon_type ''DoubleStringChar'' = UNIV"
  "pigeon_type ''SingleStringChar'' = UNIV" "pigeon_type ''RawStringChar'' = UNIV"
  "pigeon_type ''DoubleStringEscape'' = UNIV" "pigeon_type ''SingleStringEscape'' = UNIV"
  "pigeon_type ''CommonEscapeSequence'' = UNIV" "pigeon_type ''SingleCharEscape'' = UNIV"
  "pigeon_type ''OctalEscape'' = UNIV" "pigeon_type ''HexEscape'' = UNIV"
  "pigeon_type ''LongUnicodeEscape'' = UNIV" "pigeon_type ''ShortUnicodeEscape'' = UNIV"
  "pigeon_type ''OctalDigit'' = UNIV" "pigeon_type ''DecimalDigit'' = UNIV" "pigeon_type ''HexDigit'' = UNIV"
  "pigeon_type ''CharClassMatcher'' = exprNodes" "pigeon_type ''ClassCharRange'' = UNIV"
  "pigeon_type ''ClassChar'' = UNIV" "pigeon_type ''CharClassEscape'' = UNIV"
  "pigeon_type ''UnicodeClassEscape'' = UNIV" "pigeon_type ''SingleCharUnicodeClass'' = UNIV"
  "pigeon_type ''AnyMatcher'' = exprNodes" "pigeon_type ''CodeBlock'' = codeBlocks" "pigeon_type ''Code'' = UNIV"
  "pigeon_type ''__'' = UNIV" "pigeon_type ''_'' = UNIV" "pigeon_type ''Whitespace'' = UNIV"
  "pigeon_type ''EOL'' = UNIV" "pigeon_type ''EOS'' = UNIV" "pigeon_type ''EOF'' = UNIV"
  by (simp_all add: pigeon_type_def pigeon_types_def)

section \<open>The panics that are left\<close>

definition nilBlock :: panicval where
  "nilBlock = badNode VNil ''*ast.CodeBlock''"

definition loopingClass :: "gobytes \<Rightarrow> bool" where
  "loopingClass d \<longleftrightarrow> (\<exists>t p. sublist t d \<and> NewCharClassMatcher p t = OutOfFuel)"

definition allowed :: "gobytes \<Rightarrow> panicval \<Rightarrow> bool" where
  "allowed d x \<longleftrightarrow> x = nilBlock \<or> x = Hangs \<and> loopingClass d"

abbreviation pigeon_typed :: "unicode_env \<Rightarrow> gobytes \<Rightarrow> astval rule \<Rightarrow> bool" where
  "pigeon_typed U d r \<equiv> typed_rule U (allowed d) pigeon_type d r"

lemma mapP_ok: "(\<And>x. x \<in> set xs \<Longrightarrow> \<exists>y. f x = Inr y) \<Longrightarrow> \<exists>ys. mapP f xs = Inr ys"
  by (induction xs) (force)+

lemma exprsE: "v \<in> exprNodes \<Longrightarrow> (\<And>e. v = VUser (NExpr e) \<Longrightarrow> P) \<Longrightarrow> P"
  by (auto simp: exprNodes_def)

lemma assert_simps [simp]:
  "asExpression (VUser (NExpr e)) = Inr e" "asIdentifier (VUser (NIdentifier i)) = Inr i"
  "asStringLit (VUser (NStringLit s)) = Inr s" "asRule (VUser (NRule r)) = Inr r"
  "asCodeBlock (VUser (NCodeBlock b)) = Inr b" "asCodeBlock VNil = Inl nilBlock"
  by (simp_all add: asExpression_def asIdentifier_def asStringLit_def asRule_def asCodeBlock_def nilBlock_def)

lemma elem_simps [simp]: "i < length vs \<Longrightarrow> elem i (VSlice vs) = Inr (vs ! i)"
  by (simp add: elem_def)

section \<open>Code blocks on values of their types\<close>

text \<open>The tail of a list: slices whose element at a given index is an expression.\<close>

definition tailOf :: "nat \<Rightarrow> nat \<Rightarrow> av set" where
  "tailOf k i = {VSlice vs |vs. length vs = k \<and> vs ! i \<in> exprNodes}"

lemma tail_ok:
  assumes "set vs \<subseteq> tailOf k i" "i < k"
  shows "\<exists>es. mapP (\<lambda>sl. thenP (elem i sl) asExpression) vs = Inr es"
proof (rule mapP_ok)
  fix v
  assume "v \<in> set vs"
  with assms obtain ws where "v = VSlice ws" "length ws = k" "ws ! i \<in> exprNodes" by (auto simp: tailOf_def)
  with assms(2) show "\<exists>y. thenP (elem i v) asExpression = Inr y" by (auto elim: exprsE)
qed

lemma onChoiceExpr1_ok:
  assumes "first \<in> exprNodes" "set vs \<subseteq> tailOf 4 3"
  shows "\<exists>v\<in>exprNodes. onChoiceExpr1 c first (VSlice vs) = Inr (v, None)"
  using assms tail_ok [OF assms(2)] by (auto simp: onChoiceExpr1_def exprNodes_def)

lemma onSeqExpr1_ok:
  assumes "first \<in> exprNodes" "set vs \<subseteq> tailOf 2 1"
  shows "\<exists>v\<in>exprNodes. onSeqExpr1 c first (VSlice vs) = Inr (v, None)"
  using assms tail_ok [OF assms(2)] by (auto simp: onSeqExpr1_def exprNodes_def)

lemma onActionExpr1_ok:
  assumes "e \<in> exprNodes" "cd \<in> insert VNil {VSlice [a, b] |a b. b \<in> codeBlocks}"
  shows "onActionExpr1 c e cd = Inl nilBlock \<or> (\<exists>v\<in>exprNodes. onActionExpr1 c e cd = Inr (v, None))"
  using assms by (auto simp: onActionExpr1_def exprNodes_def codeBlocks_def)

lemma onSemanticPredExpr1_ok:
  assumes "b \<in> codeBlocks"
  shows "onSemanticPredExpr1 c (VString s) b = Inl nilBlock \<or>
    (\<exists>v\<in>exprNodes. onSemanticPredExpr1 c (VString s) b = Inr (v, None))"
  using assms by (auto simp: onSemanticPredExpr1_def exprNodes_def codeBlocks_def)

lemma onGrammar1_ok:
  assumes "ini \<in> insert VNil {VSlice [a, b] |a b. a \<in> codeBlocks}"
    and "set vs \<subseteq> {VSlice [a, b] |a b. a \<in> ruleNodes}"
  shows "onGrammar1 c ini (VSlice vs) = Inl nilBlock \<or> (\<exists>v\<in>grammars. onGrammar1 c ini (VSlice vs) = Inr (v, None))"
proof -
  have "\<exists>rs. mapP (\<lambda>duo. thenP (elem 0 duo) asRule) vs = Inr rs"
  proof (rule mapP_ok)
    fix v
    assume "v \<in> set vs"
    with assms(2) obtain a b where "v = VSlice [a, b]" "a \<in> ruleNodes" by blast
    then show "\<exists>y. thenP (elem 0 v) asRule = Inr y" by (auto simp: ruleNodes_def)
  qed
  then obtain rs where rs: "mapP (\<lambda>duo. thenP (elem 0 duo) asRule) vs = Inr rs" ..
  consider "ini = VNil" | b where "ini = VSlice [VNil, b]" | k b where "ini = VSlice [VUser (NCodeBlock k), b]"
    using assms(1) by (auto simp: codeBlocks_def)
  then show ?thesis by cases (simp_all add: onGrammar1_def Let_def grammars_def rs)
qed

lemma onRule1_ok:
  assumes "name \<in> idents" "disp \<in> insert VNil {VSlice [a, b] |a b. a \<in> strLits}" "e \<in> exprNodes"
  shows "\<exists>v\<in>ruleNodes. onRule1 c name disp e = Inr (v, None)"
  using assms by (auto simp: onRule1_def Let_def idents_def strLits_def exprNodes_def ruleNodes_def)

lemma class_parse_panics:
  assumes "CharClassMatcher_parse k = Panic x q"
  shows "length (if cm_Val k \<noteq> [] \<and> last (cm_Val k) = CHR ''i'' then butlast (cm_Val k) else cm_Val k) < 2"
  using assms unfolding CharClassMatcher_parse_def Let_def
  by (rule contrapos_pp) (simp split: option.split prod.split)

lemma newClass_cases:
  assumes "t = CHR ''['' # x @ CHR '']'' # y" "y = [] \<or> y = ''i''"
  shows "(\<exists>cc. newClass p t = Inr (ClassMatcher cc)) \<or> newClass p t = Inl Hangs \<and> NewCharClassMatcher p t = OutOfFuel"
proof (cases "NewCharClassMatcher p t")
  case (Panic z q)
  then have "length (if t \<noteq> [] \<and> last t = CHR ''i'' then butlast t else t) < 2"
    using class_parse_panics by (fastforce simp: NewCharClassMatcher_def)
  with assms show ?thesis by (auto simp: butlast_append)
qed (simp_all add: newClass_def)

lemma newClass_empty: "\<exists>cc. newClass p ''[]'' = Inr (ClassMatcher cc)"
  by (simp add: newClass_def NewCharClassMatcher_def CharClassMatcher_parse_def)

section \<open>The rules keep their types\<close>

lemma allowed_nil [simp]: "allowed d nilBlock"
  by (simp add: allowed_def)

lemmas pigeon_typing = bound_Cons pigeon_type_simps pair_slices gives_code

lemma Grammar_typed: "pigeon_typed U d pigeon_Grammar"
  unfolding pigeon_Grammar_def
proof (rule typed_action_rule, goal_cases)
  case 1
  show ?case by simp
next
  case (2 c m)
  then obtain ini vs where "labelled m ''initializer'' = ini" "labelled m ''rules'' = VSlice vs"
    "ini \<in> insert VNil {VSlice [a, b] |a b. a \<in> codeBlocks}" "set vs \<subseteq> {VSlice [a, b] |a b. a \<in> ruleNodes}"
    by (auto simp: pigeon_typing dest!: labelled_bound)
  with onGrammar1_ok [of ini vs c] show ?case by (auto simp: callonGrammar1_def pigeon_typing)
qed

lemma Rule_typed: "pigeon_typed U d pigeon_Rule"
  unfolding pigeon_Rule_def
proof (rule typed_action_rule, goal_cases)
  case (2 c m)
  then have "labelled m ''name'' \<in> idents" "labelled m ''expr'' \<in> exprNodes"
    "labelled m ''display'' \<in> insert VNil {VSlice [a, b] |a b. a \<in> strLits}"
    by (auto simp: pigeon_typing dest!: labelled_bound)
  from onRule1_ok [OF this(1,3,2), of c] show ?case by (auto simp: callonRule1_def pigeon_typing)
qed simp

lemma ChoiceExpr_typed: "pigeon_typed U d pigeon_ChoiceExpr"
  unfolding pigeon_ChoiceExpr_def
proof (rule typed_action_rule, goal_cases)
  case (2 c m)
  have t: "{VSlice [a, b, x, y] |a b x y. a \<in> UNIV \<and> b \<in> range VString \<and> x \<in> UNIV \<and> y \<in> exprNodes} \<subseteq> tailOf 4 3"
    by (auto simp: tailOf_def)
  from 2 obtain vs where "labelled m ''first'' \<in> exprNodes" "labelled m ''rest'' = VSlice vs" "set vs \<subseteq> tailOf 4 3"
    using subset_trans [OF _ t] by (auto simp: pigeon_typing quad_slices dest!: labelled_bound)
  with onChoiceExpr1_ok [of "labelled m ''first''" vs c] show ?case by (auto simp: callonChoiceExpr1_def pigeon_typing)
qed simp

lemma SeqExpr_typed: "pigeon_typed U d pigeon_SeqExpr"
  unfolding pigeon_SeqExpr_def
proof (rule typed_action_rule, goal_cases)
  case (2 c m)
  have t: "{VSlice [a, b] |a b. a \<in> UNIV \<and> b \<in> exprNodes} \<subseteq> tailOf 2 1" by (auto simp: tailOf_def)
  from 2 obtain vs where "labelled m ''first'' \<in> exprNodes" "labelled m ''rest'' = VSlice vs" "set vs \<subseteq> tailOf 2 1"
    using subset_trans [OF _ t] by (auto simp: pigeon_typing dest!: labelled_bound)
  with onSeqExpr1_ok [of "labelled m ''first''" vs c] show ?case by (auto simp: callonSeqExpr1_def pigeon_typing)
qed simp

lemma ActionExpr_typed: "pigeon_typed U d pigeon_ActionExpr"
  unfolding pigeon_ActionExpr_def
proof (rule typed_action_rule, goal_cases)
  case (2 c m)
  then have "labelled m ''expr'' \<in> exprNodes" "labelled m ''code'' \<in> insert VNil {VSlice [a, b] |a b. b \<in> codeBlocks}"
    by (auto simp: pigeon_typing dest!: labelled_bound)
  from onActionExpr1_ok [OF this, of c] show ?case by (auto simp: callonActionExpr1_def pigeon_typing)
qed simp

lemma SemanticPredExpr_typed: "pigeon_typed U d pigeon_SemanticPredExpr"
  unfolding pigeon_SemanticPredExpr_def
proof (rule typed_action_rule, goal_cases)
  case (2 c m)
  then obtain s where "labelled m ''op'' = VString s" "labelled m ''code'' \<in> codeBlocks"
    by (auto simp: pigeon_typing dest!: labelled_bound)
  with onSemanticPredExpr1_ok [of "labelled m ''code''" c s] show ?case by (auto simp: callonSemanticPredExpr1_def pigeon_typing)
qed simp

text \<open>The other code blocks assert nothing, or what the type of one label gives at once.\<close>

lemma op_texts:
  "string_of_runes (runes_of ''?'') = ''?''" "string_of_runes (runes_of ''*'') = ''*''" "string_of_runes (runes_of ''+'') = ''+''"
  "RuneError \<notin> set (runes_of ''?'')" "RuneError \<notin> set (runes_of ''*'')" "RuneError \<notin> set (runes_of ''+'')"
  by code_simp+

lemma SuffixedOp_typed: "pigeon_typed U d pigeon_SuffixedOp"
  unfolding pigeon_SuffixedOp_def
proof (rule typed_action_rule, goal_cases)
  case (2 c m)
  then show ?case
    by (auto simp: pigeon_typing callonSuffixedOp1_def onSuffixedOp1_def seen_def op_texts suffixOps_def)
qed simp

lemmas simple_blocks = callonInitializer1_def onInitializer1_def callonLabeledExpr2_def onLabeledExpr2_def
  callonPrefixedExpr2_def onPrefixedExpr2_def callonPrefixedOp1_def onPrefixedOp1_def callonSuffixedExpr2_def
  onSuffixedExpr2_def callonPrimaryExpr7_def onPrimaryExpr7_def callonRuleRefExpr1_def onRuleRefExpr1_def
  callonSemanticPredOp1_def onSemanticPredOp1_def callonIdentifier1_def onIdentifier1_def callonIdentifierName1_def
  onIdentifierName1_def callonLitMatcher1_def onLitMatcher1_def callonStringLiteral2_def onStringLiteral2_def
  callonStringLiteral18_def onStringLiteral18_def callonAnyMatcher1_def onAnyMatcher1_def callonCodeBlock2_def
  onCodeBlock2_def callonCodeBlock7_def onCodeBlock7_def NewAnyMatcher_def

lemmas node_sets = exprNodes_def idents_def strLits_def codeBlocks_def suffixOps_def

lemma simple_actions:
  "bound [(''code'', codeBlocks)] m \<Longrightarrow> gives (allowed d) codeBlocks (callonInitializer1 c m)"
  "bound [(''label'', idents), (''expr'', exprNodes)] m \<Longrightarrow> gives (allowed d) exprNodes (callonLabeledExpr2 c m)"
  "bound [(''op'', range VString), (''expr'', exprNodes)] m \<Longrightarrow> gives (allowed d) exprNodes (callonPrefixedExpr2 c m)"
  "bound [(''expr'', exprNodes), (''op'', suffixOps)] m \<Longrightarrow> gives (allowed d) exprNodes (callonSuffixedExpr2 c m)"
  "bound [(''expr'', exprNodes)] m \<Longrightarrow> gives (allowed d) exprNodes (callonPrimaryExpr7 c m)"
  "bound [(''name'', idents)] m \<Longrightarrow> gives (allowed d) exprNodes (callonRuleRefExpr1 c m)"
  "bound [(''ident'', idents)] m \<Longrightarrow> gives (allowed d) idents (callonIdentifier1 c m)"
  "bound [(''lit'', strLits), (''ignore'', S)] m \<Longrightarrow> gives (allowed d) exprNodes (callonLitMatcher1 c m)"
  "gives (allowed d) (range VString) (callonPrefixedOp1 c m)" "gives (allowed d) (range VString) (callonSemanticPredOp1 c m)"
  "gives (allowed d) idents (callonIdentifierName1 c m)" "gives (allowed d) strLits (callonStringLiteral2 c m)"
  "gives (allowed d) strLits (callonStringLiteral18 c m)" "gives (allowed d) exprNodes (callonAnyMatcher1 c m)"
  "gives (allowed d) codeBlocks (callonCodeBlock2 c m)" "gives (allowed d) codeBlocks (callonCodeBlock7 c m)"
  by (auto simp: simple_blocks bound_Cons gives_code Let_def node_sets dest!: labelled_bound)

lemma simple_rules:
  "pigeon_typed U d pigeon_Initializer" "pigeon_typed U d pigeon_PrefixedOp" "pigeon_typed U d pigeon_RuleRefExpr"
  "pigeon_typed U d pigeon_SemanticPredOp" "pigeon_typed U d pigeon_Identifier" "pigeon_typed U d pigeon_IdentifierName"
  "pigeon_typed U d pigeon_LitMatcher" "pigeon_typed U d pigeon_AnyMatcher"
  unfolding pigeon_Initializer_def pigeon_PrefixedOp_def pigeon_RuleRefExpr_def pigeon_SemanticPredOp_def
    pigeon_Identifier_def pigeon_IdentifierName_def pigeon_LitMatcher_def pigeon_AnyMatcher_def
  by (rule typed_action_rule; simp add: pigeon_type_simps simple_actions)+

lemma Expression_typed: "pigeon_typed U d pigeon_Expression"
  by (simp add: typed_rule_def pigeon_Expression_def pigeon_type_simps)

lemma choice_rules:
  "pigeon_typed U d pigeon_LabeledExpr" "pigeon_typed U d pigeon_PrefixedExpr" "pigeon_typed U d pigeon_SuffixedExpr"
  "pigeon_typed U d pigeon_PrimaryExpr" "pigeon_typed U d pigeon_StringLiteral" "pigeon_typed U d pigeon_CodeBlock"
  unfolding pigeon_LabeledExpr_def pigeon_PrefixedExpr_def pigeon_SuffixedExpr_def pigeon_PrimaryExpr_def
    pigeon_StringLiteral_def pigeon_CodeBlock_def
  by (rule typed_choice_rule, elim set_ConsD [elim_format] disjE; (hypsubst, rule typed_action)?;
      simp add: pigeon_type_simps simple_actions)+

lemmas plain_blocks = callonDoubleStringEscape5_def onDoubleStringEscape5_def callonSingleStringEscape5_def
  onSingleStringEscape5_def callonOctalEscape6_def onOctalEscape6_def callonHexEscape6_def onHexEscape6_def
  callonLongUnicodeEscape12_def onLongUnicodeEscape12_def callonShortUnicodeEscape8_def
  onShortUnicodeEscape8_def callonCharClassEscape5_def onCharClassEscape5_def callonUnicodeClassEscape5_def
  onUnicodeClassEscape5_def callonUnicodeClassEscape13_def onUnicodeClassEscape13_def
  callonUnicodeClassEscape19_def onUnicodeClassEscape19_def

lemmas untyped_defs = pigeon_RuleDefOp_def pigeon_SourceChar_def pigeon_Comment_def
  pigeon_MultiLineComment_def pigeon_MultiLineCommentNoLineTerminator_def pigeon_SingleLineComment_def
  pigeon_DoubleStringChar_def pigeon_SingleStringChar_def pigeon_RawStringChar_def
  pigeon_DoubleStringEscape_def pigeon_SingleStringEscape_def pigeon_CommonEscapeSequence_def
  pigeon_SingleCharEscape_def pigeon_OctalEscape_def pigeon_HexEscape_def pigeon_LongUnicodeEscape_def
  pigeon_ShortUnicodeEscape_def pigeon_OctalDigit_def pigeon_DecimalDigit_def pigeon_HexDigit_def
  pigeon_ClassCharRange_def pigeon_ClassChar_def pigeon_CharClassEscape_def pigeon_UnicodeClassEscape_def
  pigeon_SingleCharUnicodeClass_def pigeon_Code_def pigeon_underscore2_def pigeon_underscore_def
  pigeon_Whitespace_def pigeon_EOL_def pigeon_EOS_def pigeon_EOF_def

lemma untyped_rules:
  "pigeon_typed U d pigeon_RuleDefOp" "pigeon_typed U d pigeon_SourceChar" "pigeon_typed U d pigeon_Comment"
  "pigeon_typed U d pigeon_MultiLineComment" "pigeon_typed U d pigeon_MultiLineCommentNoLineTerminator"
  "pigeon_typed U d pigeon_SingleLineComment" "pigeon_typed U d pigeon_DoubleStringChar"
  "pigeon_typed U d pigeon_SingleStringChar" "pigeon_typed U d pigeon_RawStringChar"
  "pigeon_typed U d pigeon_DoubleStringEscape" "pigeon_typed U d pigeon_SingleStringEscape"
  "pigeon_typed U d pigeon_CommonEscapeSequence" "pigeon_typed U d pigeon_SingleCharEscape"
  "pigeon_typed U d pigeon_OctalEscape" "pigeon_typed U d pigeon_HexEscape"
  "pigeon_typed U d pigeon_LongUnicodeEscape" "pigeon_typed U d pigeon_ShortUnicodeEscape"
  "pigeon_typed U d pigeon_OctalDigit" "pigeon_typed U d pigeon_DecimalDigit" "pigeon_typed U d pigeon_HexDigit"
  "pigeon_typed U d pigeon_ClassCharRange" "pigeon_typed U d pigeon_ClassChar"
  "pigeon_typed U d pigeon_CharClassEscape" "pigeon_typed U d pigeon_UnicodeClassEscape"
  "pigeon_typed U d pigeon_SingleCharUnicodeClass" "pigeon_typed U d pigeon_Code"
  "pigeon_typed U d pigeon_underscore2" "pigeon_typed U d pigeon_underscore" "pigeon_typed U d pigeon_Whitespace"
  "pigeon_typed U d pigeon_EOL" "pigeon_typed U d pigeon_EOS" "pigeon_typed U d pigeon_EOF"
  by (auto simp: typed_rule_def pigeon_type_simps calls_def bound_Cons plain_blocks untyped_defs idents_def
      dest!: labelled_bound split: if_splits)

lemma identifier_rules: "pigeon_typed U d (pigeon_IdentifierStart tL)" "pigeon_typed U d (pigeon_IdentifierPart tNd)"
  by (simp_all add: typed_rule_def pigeon_type_simps pigeon_IdentifierStart_def pigeon_IdentifierPart_def)

lemma class_texts_simps:
  "string_of_runes (runes_of ''['') = ''[''" "string_of_runes (runes_of '']'') = '']''" "string_of_runes (runes_of ''i'') = ''i''"
  "RuneError \<notin> set (runes_of ''['')" "RuneError \<notin> set (runes_of '']'')" "RuneError \<notin> set (runes_of ''i'')"
  by code_simp+

lemma CharClassMatcher2_gives:
  assumes "cur_text c = ''['' @ x @ '']'' @ y" "y = [] \<or> y = ''i''" "sublist (cur_text c) d"
  shows "gives (allowed d) exprNodes (callonCharClassMatcher2 c m)"
proof -
  have "allowed d Hangs" if "NewCharClassMatcher (astPos c) (cur_text c) = OutOfFuel"
    using that assms(3) by (auto simp: allowed_def loopingClass_def)
  then show ?thesis
    using newClass_cases [of "cur_text c" x y "astPos c"] assms(1,2)
    by (auto simp: callonCharClassMatcher2_def onCharClassMatcher2_def gives_code exprNodes_def)
qed

lemma CharClassMatcher15_gives: "gives (allowed d) exprNodes (callonCharClassMatcher15 c m)"
  using newClass_empty [of "astPos c"]
  by (auto simp: callonCharClassMatcher15_def onCharClassMatcher15_def gives_code exprNodes_def)

lemma CharClassMatcher_typed: "pigeon_typed U d pigeon_CharClassMatcher"
  unfolding pigeon_CharClassMatcher_def
proof (rule typed_choice_rule, elim set_ConsD [elim_format] disjE; (hypsubst, rule typed_action)?, goal_cases)
  case (2 e c m)
  then obtain x y where "cur_text c = ''['' @ x @ '']'' @ y" "y = [] \<or> y = ''i''" "sublist (cur_text c) d"
    by (auto simp: seen_def list_all2_Cons2 class_texts_simps)
  then show ?case by (simp add: CharClassMatcher2_gives pigeon_type_simps)
qed (simp_all add: CharClassMatcher15_gives pigeon_type_simps)

lemma pigeon_grammar_typed: "typed_grammar U (allowed d) pigeon_type d (pigeon_rules tL tNd)"
  by (simp add: typed_grammar_def pigeon_rules_def Grammar_typed Rule_typed ChoiceExpr_typed SeqExpr_typed ActionExpr_typed
      SemanticPredExpr_typed SuffixedOp_typed simple_rules Expression_typed choice_rules untyped_rules identifier_rules
      CharClassMatcher_typed)

end
