(* ===== verification/Pigeon_Properties.thy ===== *)
theory Pigeon_Properties
  imports Pigeon_Termination Pigeon_Typing Peg_Class
begin

text \<open>
  The parser of grammars on every input: it returns unless a character class makes the class parser loop, what
  it yields without an error is a grammar, and one panic is left, the assertion on a code block that was not
  terminated.
\<close>

section \<open>Where a class can make the parser hang\<close>





section \<open>Every input\<close>




section \<open>Where the code blocks fail\<close>

text \<open>
  The grammar accepts an unterminated code block with an error and the value nil; the block of the enclosing
  expression then panics on it.
\<close>

lemma unterminated_block_panics:
  "onActionExpr1 c (VUser (NExpr e)) (VSlice [w, VNil]) = Inl nilBlock"
  "onSemanticPredExpr1 c (VString s) VNil = Inl nilBlock"
  by (simp_all add: onActionExpr1_def onSemanticPredExpr1_def)

text \<open>The text of a class that the grammar accepts, with an error, and on which the class parser never returns.\<close>

lemma unclosed_class_hangs: "newClass p (''['' @ [CHR 0x5C] @ ''p{W]]'') = Inl Hangs"
  by code_simp

end
