(* ===== verification/Bootstrap_Pigeon.thy ===== *)
theory Bootstrap_Pigeon
  imports Pigeon
begin

text \<open>
  The generated parser of the bootstrapping command,
  \<^verbatim>\<open>peg/bootstrap/cmd/bootstrap-pigeon/bootstrap_pigeon.go\<close>, which reads the simplified grammar language of
  \<^verbatim>\<open>peg/grammar/bootstrap.peg\<close>. Its code blocks are those of pigeon, line by line, except the one of a literal,
  which gives up on a literal that cannot be unquoted; a code block with the same text as one of pigeon is defined as that one. The
  grammar is its own, one definition per rule as the generated literal has them.
\<close>

section \<open>Code blocks\<close>

definition bp_onGrammar1 :: "current \<Rightarrow> av \<Rightarrow> av \<Rightarrow> astCode" where
  "bp_onGrammar1 = onGrammar1"

definition bp_callonGrammar1 :: "astval runFn" where
  "bp_callonGrammar1 = callonGrammar1"

definition bp_onInitializer1 :: "current \<Rightarrow> av \<Rightarrow> astCode" where
  "bp_onInitializer1 = onInitializer1"

definition bp_callonInitializer1 :: "astval runFn" where
  "bp_callonInitializer1 = callonInitializer1"

definition bp_onRule1 :: "current \<Rightarrow> av \<Rightarrow> av \<Rightarrow> av \<Rightarrow> astCode" where
  "bp_onRule1 = onRule1"

definition bp_callonRule1 :: "astval runFn" where
  "bp_callonRule1 = callonRule1"

definition bp_onChoiceExpr1 :: "current \<Rightarrow> av \<Rightarrow> av \<Rightarrow> astCode" where
  "bp_onChoiceExpr1 = onChoiceExpr1"

definition bp_callonChoiceExpr1 :: "astval runFn" where
  "bp_callonChoiceExpr1 = callonChoiceExpr1"

definition bp_onActionExpr1 :: "current \<Rightarrow> av \<Rightarrow> av \<Rightarrow> astCode" where
  "bp_onActionExpr1 = onActionExpr1"

definition bp_callonActionExpr1 :: "astval runFn" where
  "bp_callonActionExpr1 = callonActionExpr1"

definition bp_onSeqExpr1 :: "current \<Rightarrow> av \<Rightarrow> av \<Rightarrow> astCode" where
  "bp_onSeqExpr1 = onSeqExpr1"

definition bp_callonSeqExpr1 :: "astval runFn" where
  "bp_callonSeqExpr1 = callonSeqExpr1"

definition bp_onLabeledExpr2 :: "current \<Rightarrow> av \<Rightarrow> av \<Rightarrow> astCode" where
  "bp_onLabeledExpr2 = onLabeledExpr2"

definition bp_callonLabeledExpr2 :: "astval runFn" where
  "bp_callonLabeledExpr2 = callonLabeledExpr2"

definition bp_onPrefixedExpr2 :: "current \<Rightarrow> av \<Rightarrow> av \<Rightarrow> astCode" where
  "bp_onPrefixedExpr2 = onPrefixedExpr2"

definition bp_callonPrefixedExpr2 :: "astval runFn" where
  "bp_callonPrefixedExpr2 = callonPrefixedExpr2"

definition bp_onPrefixedOp1 :: "current \<Rightarrow> astCode" where
  "bp_onPrefixedOp1 = onPrefixedOp1"

definition bp_callonPrefixedOp1 :: "astval runFn" where
  "bp_callonPrefixedOp1 = callonPrefixedOp1"

definition bp_onSuffixedExpr2 :: "current \<Rightarrow> av \<Rightarrow> av \<Rightarrow> astCode" where
  "bp_onSuffixedExpr2 = onSuffixedExpr2"

definition bp_callonSuffixedExpr2 :: "astval runFn" where
  "bp_callonSuffixedExpr2 = callonSuffixedExpr2"

definition bp_onSuffixedOp1 :: "current \<Rightarrow> astCode" where
  "bp_onSuffixedOp1 = onSuffixedOp1"

definition bp_callonSuffixedOp1 :: "astval runFn" where
  "bp_callonSuffixedOp1 = callonSuffixedOp1"

definition bp_onPrimaryExpr7 :: "current \<Rightarrow> av \<Rightarrow> astCode" where
  "bp_onPrimaryExpr7 = onPrimaryExpr7"

definition bp_callonPrimaryExpr7 :: "astval runFn" where
  "bp_callonPrimaryExpr7 = callonPrimaryExpr7"

definition bp_onRuleRefExpr1 :: "current \<Rightarrow> av \<Rightarrow> astCode" where
  "bp_onRuleRefExpr1 = onRuleRefExpr1"

definition bp_callonRuleRefExpr1 :: "astval runFn" where
  "bp_callonRuleRefExpr1 = callonRuleRefExpr1"

definition bp_onSemanticPredExpr1 :: "current \<Rightarrow> av \<Rightarrow> av \<Rightarrow> astCode" where
  "bp_onSemanticPredExpr1 = onSemanticPredExpr1"

definition bp_callonSemanticPredExpr1 :: "astval runFn" where
  "bp_callonSemanticPredExpr1 = callonSemanticPredExpr1"

definition bp_onSemanticPredOp1 :: "current \<Rightarrow> astCode" where
  "bp_onSemanticPredOp1 = onSemanticPredOp1"

definition bp_callonSemanticPredOp1 :: "astval runFn" where
  "bp_callonSemanticPredOp1 = callonSemanticPredOp1"

definition bp_onIdentifierName1 :: "current \<Rightarrow> astCode" where
  "bp_onIdentifierName1 = onIdentifierName1"

definition bp_callonIdentifierName1 :: "astval runFn" where
  "bp_callonIdentifierName1 = callonIdentifierName1"

definition bp_onLitMatcher1 :: "current \<Rightarrow> av \<Rightarrow> av \<Rightarrow> astCode" where
  "bp_onLitMatcher1 c litV ignore =
     thenP (asStringLit litV) (\<lambda>rawStr.
       case Unquote (Val rawStr) of
         None \<Rightarrow> Inr (VNil, Some ''invalid syntax'')
       | Some s \<Rightarrow> Inr (VUser (NExpr (LitMatcher (astPos c) s (ignore \<noteq> VNil))), None))"

definition bp_callonLitMatcher1 :: "astval runFn" where
  "bp_callonLitMatcher1 c stack = code_of c (bp_onLitMatcher1 c (labelled stack ''lit'') (labelled stack ''ignore''))"

definition bp_onStringLiteral1 :: "current \<Rightarrow> astCode" where
  "bp_onStringLiteral1 = onStringLiteral2"

definition bp_callonStringLiteral1 :: "astval runFn" where
  "bp_callonStringLiteral1 = callonStringLiteral2"

definition bp_onCharClassMatcher1 :: "current \<Rightarrow> astCode" where
  "bp_onCharClassMatcher1 = onCharClassMatcher2"

definition bp_callonCharClassMatcher1 :: "astval runFn" where
  "bp_callonCharClassMatcher1 = callonCharClassMatcher2"

definition bp_onAnyMatcher1 :: "current \<Rightarrow> astCode" where
  "bp_onAnyMatcher1 = onAnyMatcher1"

definition bp_callonAnyMatcher1 :: "astval runFn" where
  "bp_callonAnyMatcher1 = callonAnyMatcher1"

definition bp_onCodeBlock1 :: "current \<Rightarrow> astCode" where
  "bp_onCodeBlock1 = onCodeBlock2"

definition bp_callonCodeBlock1 :: "astval runFn" where
  "bp_callonCodeBlock1 = callonCodeBlock2"

section \<open>The grammar\<close>

definition bootstrapPigeon_Grammar :: "astval rule" where
  "bootstrapPigeon_Grammar = \<lparr>rule_pos = at_pos 5 1 18, rule_name = ''Grammar'', displayName = '''', rule_expr =
    (actionExpr (at_pos 5 11 30)
      (seqExpr (at_pos 5 11 30) [
        (ruleRefExpr (at_pos 5 11 30) ''__''),
        (labeledExpr (at_pos 5 14 33) ''initializer''
          (zeroOrOneExpr (at_pos 5 28 47)
            (seqExpr (at_pos 5 28 47) [
              (ruleRefExpr (at_pos 5 28 47) ''Initializer''),
              (ruleRefExpr (at_pos 5 40 59) ''__'')]))),
        (labeledExpr (at_pos 5 46 65) ''rules''
          (oneOrMoreExpr (at_pos 5 54 73)
            (seqExpr (at_pos 5 54 73) [
              (ruleRefExpr (at_pos 5 54 73) ''Rule''),
              (ruleRefExpr (at_pos 5 59 78) ''__'')])))])
      bp_callonGrammar1)\<rparr>"

definition bootstrapPigeon_Initializer :: "astval rule" where
  "bootstrapPigeon_Initializer = \<lparr>rule_pos = at_pos 24 1 521, rule_name = ''Initializer'', displayName = '''', rule_expr =
    (actionExpr (at_pos 24 15 537)
      (seqExpr (at_pos 24 15 537) [
        (labeledExpr (at_pos 24 15 537) ''code''
          (ruleRefExpr (at_pos 24 20 542) ''CodeBlock'')),
        (ruleRefExpr (at_pos 24 30 552) ''EOS'')])
      bp_callonInitializer1)\<rparr>"

definition bootstrapPigeon_Rule :: "astval rule" where
  "bootstrapPigeon_Rule = \<lparr>rule_pos = at_pos 28 1 582, rule_name = ''Rule'', displayName = '''', rule_expr =
    (actionExpr (at_pos 28 8 591)
      (seqExpr (at_pos 28 8 591) [
        (labeledExpr (at_pos 28 8 591) ''name''
          (ruleRefExpr (at_pos 28 13 596) ''IdentifierName'')),
        (ruleRefExpr (at_pos 28 28 611) ''__''),
        (labeledExpr (at_pos 28 31 614) ''display''
          (zeroOrOneExpr (at_pos 28 41 624)
            (seqExpr (at_pos 28 41 624) [
              (ruleRefExpr (at_pos 28 41 624) ''StringLiteral''),
              (ruleRefExpr (at_pos 28 55 638) ''__'')]))),
        (ruleRefExpr (at_pos 28 61 644) ''RuleDefOp''),
        (ruleRefExpr (at_pos 28 71 654) ''__''),
        (labeledExpr (at_pos 28 74 657) ''expr''
          (ruleRefExpr (at_pos 28 79 662) ''Expression'')),
        (ruleRefExpr (at_pos 28 90 673) ''EOS'')])
      bp_callonRule1)\<rparr>"

definition bootstrapPigeon_Expression :: "astval rule" where
  "bootstrapPigeon_Expression = \<lparr>rule_pos = at_pos 41 1 957, rule_name = ''Expression'', displayName = '''', rule_expr =
    (ruleRefExpr (at_pos 41 14 972) ''ChoiceExpr'')\<rparr>"

definition bootstrapPigeon_ChoiceExpr :: "astval rule" where
  "bootstrapPigeon_ChoiceExpr = \<lparr>rule_pos = at_pos 43 1 984, rule_name = ''ChoiceExpr'', displayName = '''', rule_expr =
    (actionExpr (at_pos 43 14 999)
      (seqExpr (at_pos 43 14 999) [
        (labeledExpr (at_pos 43 14 999) ''first''
          (ruleRefExpr (at_pos 43 20 1005) ''ActionExpr'')),
        (labeledExpr (at_pos 43 31 1016) ''rest''
          (zeroOrMoreExpr (at_pos 43 38 1023)
            (seqExpr (at_pos 43 38 1023) [
              (ruleRefExpr (at_pos 43 38 1023) ''__''),
              (litMatcher (at_pos 43 41 1026) ''/'' False),
              (ruleRefExpr (at_pos 43 45 1030) ''__''),
              (ruleRefExpr (at_pos 43 48 1033) ''ActionExpr'')])))])
      bp_callonChoiceExpr1)\<rparr>"

definition bootstrapPigeon_ActionExpr :: "astval rule" where
  "bootstrapPigeon_ActionExpr = \<lparr>rule_pos = at_pos 58 1 1438, rule_name = ''ActionExpr'', displayName = '''', rule_expr =
    (actionExpr (at_pos 58 14 1453)
      (seqExpr (at_pos 58 14 1453) [
        (labeledExpr (at_pos 58 14 1453) ''expr''
          (ruleRefExpr (at_pos 58 19 1458) ''SeqExpr'')),
        (labeledExpr (at_pos 58 27 1466) ''code''
          (zeroOrOneExpr (at_pos 58 34 1473)
            (seqExpr (at_pos 58 34 1473) [
              (ruleRefExpr (at_pos 58 34 1473) ''__''),
              (ruleRefExpr (at_pos 58 37 1476) ''CodeBlock'')])))])
      bp_callonActionExpr1)\<rparr>"

definition bootstrapPigeon_SeqExpr :: "astval rule" where
  "bootstrapPigeon_SeqExpr = \<lparr>rule_pos = at_pos 72 1 1742, rule_name = ''SeqExpr'', displayName = '''', rule_expr =
    (actionExpr (at_pos 72 11 1754)
      (seqExpr (at_pos 72 11 1754) [
        (labeledExpr (at_pos 72 11 1754) ''first''
          (ruleRefExpr (at_pos 72 17 1760) ''LabeledExpr'')),
        (labeledExpr (at_pos 72 29 1772) ''rest''
          (zeroOrMoreExpr (at_pos 72 36 1779)
            (seqExpr (at_pos 72 36 1779) [
              (ruleRefExpr (at_pos 72 36 1779) ''__''),
              (ruleRefExpr (at_pos 72 39 1782) ''LabeledExpr'')])))])
      bp_callonSeqExpr1)\<rparr>"

definition bootstrapPigeon_LabeledExpr :: "astval rule" where
  "bootstrapPigeon_LabeledExpr = \<lparr>rule_pos = at_pos 85 1 2133, rule_name = ''LabeledExpr'', displayName = '''', rule_expr =
    (choiceExpr (at_pos 85 15 2149) [
      (actionExpr (at_pos 85 15 2149)
        (seqExpr (at_pos 85 15 2149) [
          (labeledExpr (at_pos 85 15 2149) ''label''
            (ruleRefExpr (at_pos 85 21 2155) ''Identifier'')),
          (ruleRefExpr (at_pos 85 32 2166) ''__''),
          (litMatcher (at_pos 85 35 2169) '':'' False),
          (ruleRefExpr (at_pos 85 39 2173) ''__''),
          (labeledExpr (at_pos 85 42 2176) ''expr''
            (ruleRefExpr (at_pos 85 47 2181) ''PrefixedExpr''))])
        bp_callonLabeledExpr2),
      (ruleRefExpr (at_pos 91 5 2354) ''PrefixedExpr'')])\<rparr>"

definition bootstrapPigeon_PrefixedExpr :: "astval rule" where
  "bootstrapPigeon_PrefixedExpr = \<lparr>rule_pos = at_pos 93 1 2368, rule_name = ''PrefixedExpr'', displayName = '''', rule_expr =
    (choiceExpr (at_pos 93 16 2385) [
      (actionExpr (at_pos 93 16 2385)
        (seqExpr (at_pos 93 16 2385) [
          (labeledExpr (at_pos 93 16 2385) ''op''
            (ruleRefExpr (at_pos 93 19 2388) ''PrefixedOp'')),
          (ruleRefExpr (at_pos 93 30 2399) ''__''),
          (labeledExpr (at_pos 93 33 2402) ''expr''
            (ruleRefExpr (at_pos 93 38 2407) ''SuffixedExpr''))])
        bp_callonPrefixedExpr2),
      (ruleRefExpr (at_pos 104 5 2689) ''SuffixedExpr'')])\<rparr>"

definition bootstrapPigeon_PrefixedOp :: "astval rule" where
  "bootstrapPigeon_PrefixedOp = \<lparr>rule_pos = at_pos 106 1 2703, rule_name = ''PrefixedOp'', displayName = '''', rule_expr =
    (actionExpr (at_pos 106 14 2718)
      (choiceExpr (at_pos 106 16 2720) [
        (litMatcher (at_pos 106 16 2720) ''&'' False),
        (litMatcher (at_pos 106 22 2726) ''!'' False)])
      bp_callonPrefixedOp1)\<rparr>"

definition bootstrapPigeon_SuffixedExpr :: "astval rule" where
  "bootstrapPigeon_SuffixedExpr = \<lparr>rule_pos = at_pos 110 1 2768, rule_name = ''SuffixedExpr'', displayName = '''', rule_expr =
    (choiceExpr (at_pos 110 16 2785) [
      (actionExpr (at_pos 110 16 2785)
        (seqExpr (at_pos 110 16 2785) [
          (labeledExpr (at_pos 110 16 2785) ''expr''
            (ruleRefExpr (at_pos 110 21 2790) ''PrimaryExpr'')),
          (ruleRefExpr (at_pos 110 33 2802) ''__''),
          (labeledExpr (at_pos 110 36 2805) ''op''
            (ruleRefExpr (at_pos 110 39 2808) ''SuffixedOp''))])
        bp_callonSuffixedExpr2),
      (ruleRefExpr (at_pos 129 5 3338) ''PrimaryExpr'')])\<rparr>"

definition bootstrapPigeon_SuffixedOp :: "astval rule" where
  "bootstrapPigeon_SuffixedOp = \<lparr>rule_pos = at_pos 131 1 3352, rule_name = ''SuffixedOp'', displayName = '''', rule_expr =
    (actionExpr (at_pos 131 14 3367)
      (choiceExpr (at_pos 131 16 3369) [
        (litMatcher (at_pos 131 16 3369) ''?'' False),
        (litMatcher (at_pos 131 22 3375) ''*'' False),
        (litMatcher (at_pos 131 28 3381) ''+'' False)])
      bp_callonSuffixedOp1)\<rparr>"

definition bootstrapPigeon_PrimaryExpr :: "astval rule" where
  "bootstrapPigeon_PrimaryExpr = \<lparr>rule_pos = at_pos 135 1 3423, rule_name = ''PrimaryExpr'', displayName = '''', rule_expr =
    (choiceExpr (at_pos 135 15 3439) [
      (ruleRefExpr (at_pos 135 15 3439) ''LitMatcher''),
      (ruleRefExpr (at_pos 135 28 3452) ''CharClassMatcher''),
      (ruleRefExpr (at_pos 135 47 3471) ''AnyMatcher''),
      (ruleRefExpr (at_pos 135 60 3484) ''RuleRefExpr''),
      (ruleRefExpr (at_pos 135 74 3498) ''SemanticPredExpr''),
      (actionExpr (at_pos 135 93 3517)
        (seqExpr (at_pos 135 93 3517) [
          (litMatcher (at_pos 135 93 3517) ''('' False),
          (ruleRefExpr (at_pos 135 97 3521) ''__''),
          (labeledExpr (at_pos 135 100 3524) ''expr''
            (ruleRefExpr (at_pos 135 105 3529) ''Expression'')),
          (ruleRefExpr (at_pos 135 116 3540) ''__''),
          (litMatcher (at_pos 135 119 3543) '')'' False)])
        bp_callonPrimaryExpr7)])\<rparr>"

definition bootstrapPigeon_RuleRefExpr :: "astval rule" where
  "bootstrapPigeon_RuleRefExpr = \<lparr>rule_pos = at_pos 138 1 3572, rule_name = ''RuleRefExpr'', displayName = '''', rule_expr =
    (actionExpr (at_pos 138 15 3588)
      (seqExpr (at_pos 138 15 3588) [
        (labeledExpr (at_pos 138 15 3588) ''name''
          (ruleRefExpr (at_pos 138 20 3593) ''IdentifierName'')),
        (notExpr (at_pos 138 35 3608)
          (seqExpr (at_pos 138 38 3611) [
            (ruleRefExpr (at_pos 138 38 3611) ''__''),
            (zeroOrOneExpr (at_pos 138 43 3616)
              (seqExpr (at_pos 138 43 3616) [
                (ruleRefExpr (at_pos 138 43 3616) ''StringLiteral''),
                (ruleRefExpr (at_pos 138 57 3630) ''__'')])),
            (ruleRefExpr (at_pos 138 63 3636) ''RuleDefOp'')]))])
      bp_callonRuleRefExpr1)\<rparr>"

definition bootstrapPigeon_SemanticPredExpr :: "astval rule" where
  "bootstrapPigeon_SemanticPredExpr = \<lparr>rule_pos = at_pos 143 1 3752, rule_name = ''SemanticPredExpr'', displayName = '''', rule_expr =
    (actionExpr (at_pos 143 20 3773)
      (seqExpr (at_pos 143 20 3773) [
        (labeledExpr (at_pos 143 20 3773) ''op''
          (ruleRefExpr (at_pos 143 23 3776) ''SemanticPredOp'')),
        (ruleRefExpr (at_pos 143 38 3791) ''__''),
        (labeledExpr (at_pos 143 41 3794) ''code''
          (ruleRefExpr (at_pos 143 46 3799) ''CodeBlock''))])
      bp_callonSemanticPredExpr1)\<rparr>"

definition bootstrapPigeon_SemanticPredOp :: "astval rule" where
  "bootstrapPigeon_SemanticPredOp = \<lparr>rule_pos = at_pos 154 1 4076, rule_name = ''SemanticPredOp'', displayName = '''', rule_expr =
    (actionExpr (at_pos 154 18 4095)
      (choiceExpr (at_pos 154 20 4097) [
        (litMatcher (at_pos 154 20 4097) ''&'' False),
        (litMatcher (at_pos 154 26 4103) ''!'' False)])
      bp_callonSemanticPredOp1)\<rparr>"

definition bootstrapPigeon_RuleDefOp :: "astval rule" where
  "bootstrapPigeon_RuleDefOp = \<lparr>rule_pos = at_pos 158 1 4145, rule_name = ''RuleDefOp'', displayName = '''', rule_expr =
    (choiceExpr (at_pos 158 13 4159) [
      (litMatcher (at_pos 158 13 4159) ''='' False),
      (litMatcher (at_pos 158 19 4165) ''<-'' False),
      (litMatcher (at_pos 158 26 4172) [CHR 0xE2, CHR 0x86, CHR 0x90] False),
      (litMatcher (at_pos 158 37 4183) [CHR 0xE2, CHR 0x9F, CHR 0xB5] False)])\<rparr>"

definition bootstrapPigeon_SourceChar :: "astval rule" where
  "bootstrapPigeon_SourceChar = \<lparr>rule_pos = at_pos 160 1 4193, rule_name = ''SourceChar'', displayName = '''', rule_expr =
    (anyMatcher (at_pos 160 14 4208))\<rparr>"

definition bootstrapPigeon_Comment :: "astval rule" where
  "bootstrapPigeon_Comment = \<lparr>rule_pos = at_pos 161 1 4210, rule_name = ''Comment'', displayName = '''', rule_expr =
    (choiceExpr (at_pos 161 11 4222) [
      (ruleRefExpr (at_pos 161 11 4222) ''MultiLineComment''),
      (ruleRefExpr (at_pos 161 30 4241) ''SingleLineComment'')])\<rparr>"

definition bootstrapPigeon_MultiLineComment :: "astval rule" where
  "bootstrapPigeon_MultiLineComment = \<lparr>rule_pos = at_pos 162 1 4259, rule_name = ''MultiLineComment'', displayName = '''', rule_expr =
    (seqExpr (at_pos 162 20 4280) [
      (litMatcher (at_pos 162 20 4280) ''/*'' False),
      (zeroOrMoreExpr (at_pos 162 27 4287)
        (seqExpr (at_pos 162 27 4287) [
          (notExpr (at_pos 162 27 4287)
            (litMatcher (at_pos 162 28 4288) ''*/'' False)),
          (ruleRefExpr (at_pos 162 33 4293) ''SourceChar'')])),
      (litMatcher (at_pos 162 47 4307) ''*/'' False)])\<rparr>"

definition bootstrapPigeon_MultiLineCommentNoLineTerminator :: "astval rule" where
  "bootstrapPigeon_MultiLineCommentNoLineTerminator = \<lparr>rule_pos = at_pos 163 1 4312, rule_name = ''MultiLineCommentNoLineTerminator'', displayName = '''', rule_expr =
    (seqExpr (at_pos 163 36 4349) [
      (litMatcher (at_pos 163 36 4349) ''/*'' False),
      (zeroOrMoreExpr (at_pos 163 43 4356)
        (seqExpr (at_pos 163 43 4356) [
          (notExpr (at_pos 163 43 4356)
            (choiceExpr (at_pos 163 46 4359) [
              (litMatcher (at_pos 163 46 4359) ''*/'' False),
              (ruleRefExpr (at_pos 163 53 4366) ''EOL'')])),
          (ruleRefExpr (at_pos 163 59 4372) ''SourceChar'')])),
      (litMatcher (at_pos 163 73 4386) ''*/'' False)])\<rparr>"

definition bootstrapPigeon_SingleLineComment :: "astval rule" where
  "bootstrapPigeon_SingleLineComment = \<lparr>rule_pos = at_pos 164 1 4391, rule_name = ''SingleLineComment'', displayName = '''', rule_expr =
    (seqExpr (at_pos 164 21 4413) [
      (litMatcher (at_pos 164 21 4413) ''//'' False),
      (zeroOrMoreExpr (at_pos 164 28 4420)
        (seqExpr (at_pos 164 28 4420) [
          (notExpr (at_pos 164 28 4420)
            (ruleRefExpr (at_pos 164 29 4421) ''EOL'')),
          (ruleRefExpr (at_pos 164 33 4425) ''SourceChar'')]))])\<rparr>"

definition bootstrapPigeon_Identifier :: "astval rule" where
  "bootstrapPigeon_Identifier = \<lparr>rule_pos = at_pos 166 1 4440, rule_name = ''Identifier'', displayName = '''', rule_expr =
    (ruleRefExpr (at_pos 166 14 4455) ''IdentifierName'')\<rparr>"

definition bootstrapPigeon_IdentifierName :: "astval rule" where
  "bootstrapPigeon_IdentifierName = \<lparr>rule_pos = at_pos 167 1 4470, rule_name = ''IdentifierName'', displayName = '''', rule_expr =
    (actionExpr (at_pos 167 18 4489)
      (seqExpr (at_pos 167 18 4489) [
        (ruleRefExpr (at_pos 167 18 4489) ''IdentifierStart''),
        (zeroOrMoreExpr (at_pos 167 34 4505)
          (ruleRefExpr (at_pos 167 34 4505) ''IdentifierPart''))])
      bp_callonIdentifierName1)\<rparr>"

definition bootstrapPigeon_IdentifierStart :: "astval rule" where
  "bootstrapPigeon_IdentifierStart = \<lparr>rule_pos = at_pos 170 1 4587, rule_name = ''IdentifierStart'', displayName = '''', rule_expr =
    (charClassMatcher \<lparr>cc_pos = at_pos 170 19 4607, cc_val = ''[a-z_]i'',
       chars = [95], ranges = [97, 122], classes = [],
       cc_ignoreCase = True, inverted = False\<rparr>)\<rparr>"

definition bootstrapPigeon_IdentifierPart :: "astval rule" where
  "bootstrapPigeon_IdentifierPart = \<lparr>rule_pos = at_pos 171 1 4615, rule_name = ''IdentifierPart'', displayName = '''', rule_expr =
    (choiceExpr (at_pos 171 18 4634) [
      (ruleRefExpr (at_pos 171 18 4634) ''IdentifierStart''),
      (charClassMatcher \<lparr>cc_pos = at_pos 171 36 4652, cc_val = ''[0-9]'',
         chars = [], ranges = [48, 57], classes = [],
         cc_ignoreCase = False, inverted = False\<rparr>)])\<rparr>"

definition bootstrapPigeon_LitMatcher :: "astval rule" where
  "bootstrapPigeon_LitMatcher = \<lparr>rule_pos = at_pos 173 1 4659, rule_name = ''LitMatcher'', displayName = '''', rule_expr =
    (actionExpr (at_pos 173 14 4674)
      (seqExpr (at_pos 173 14 4674) [
        (labeledExpr (at_pos 173 14 4674) ''lit''
          (ruleRefExpr (at_pos 173 18 4678) ''StringLiteral'')),
        (labeledExpr (at_pos 173 32 4692) ''ignore''
          (zeroOrOneExpr (at_pos 173 39 4699)
            (litMatcher (at_pos 173 39 4699) ''i'' False)))])
      bp_callonLitMatcher1)\<rparr>"

definition bootstrapPigeon_StringLiteral :: "astval rule" where
  "bootstrapPigeon_StringLiteral = \<lparr>rule_pos = at_pos 183 1 4925, rule_name = ''StringLiteral'', displayName = '''', rule_expr =
    (actionExpr (at_pos 183 17 4943)
      (choiceExpr (at_pos 183 19 4945) [
        (seqExpr (at_pos 183 19 4945) [
          (litMatcher (at_pos 183 19 4945) [CHR 0x22] False),
          (zeroOrMoreExpr (at_pos 183 23 4949)
            (ruleRefExpr (at_pos 183 23 4949) ''DoubleStringChar'')),
          (litMatcher (at_pos 183 41 4967) [CHR 0x22] False)]),
        (seqExpr (at_pos 183 47 4973) [
          (litMatcher (at_pos 183 47 4973) [CHR 0x27] False),
          (ruleRefExpr (at_pos 183 51 4977) ''SingleStringChar''),
          (litMatcher (at_pos 183 68 4994) [CHR 0x27] False)]),
        (seqExpr (at_pos 183 74 5000) [
          (litMatcher (at_pos 183 74 5000) [CHR 0x60] False),
          (ruleRefExpr (at_pos 183 78 5004) ''RawStringChar''),
          (litMatcher (at_pos 183 92 5018) [CHR 0x60] False)])])
      bp_callonStringLiteral1)\<rparr>"

definition bootstrapPigeon_DoubleStringChar :: "astval rule" where
  "bootstrapPigeon_DoubleStringChar = \<lparr>rule_pos = at_pos 186 1 5089, rule_name = ''DoubleStringChar'', displayName = '''', rule_expr =
    (choiceExpr (at_pos 186 20 5110) [
      (seqExpr (at_pos 186 20 5110) [
        (notExpr (at_pos 186 20 5110)
          (choiceExpr (at_pos 186 23 5113) [
            (litMatcher (at_pos 186 23 5113) [CHR 0x22] False),
            (litMatcher (at_pos 186 29 5119) [CHR 0x5C] False),
            (ruleRefExpr (at_pos 186 36 5126) ''EOL'')])),
        (ruleRefExpr (at_pos 186 42 5132) ''SourceChar'')]),
      (seqExpr (at_pos 186 55 5145) [
        (litMatcher (at_pos 186 55 5145) [CHR 0x5C] False),
        (ruleRefExpr (at_pos 186 60 5150) ''DoubleStringEscape'')])])\<rparr>"

definition bootstrapPigeon_SingleStringChar :: "astval rule" where
  "bootstrapPigeon_SingleStringChar = \<lparr>rule_pos = at_pos 187 1 5169, rule_name = ''SingleStringChar'', displayName = '''', rule_expr =
    (choiceExpr (at_pos 187 20 5190) [
      (seqExpr (at_pos 187 20 5190) [
        (notExpr (at_pos 187 20 5190)
          (choiceExpr (at_pos 187 23 5193) [
            (litMatcher (at_pos 187 23 5193) [CHR 0x27] False),
            (litMatcher (at_pos 187 29 5199) [CHR 0x5C] False),
            (ruleRefExpr (at_pos 187 36 5206) ''EOL'')])),
        (ruleRefExpr (at_pos 187 42 5212) ''SourceChar'')]),
      (seqExpr (at_pos 187 55 5225) [
        (litMatcher (at_pos 187 55 5225) [CHR 0x5C] False),
        (ruleRefExpr (at_pos 187 60 5230) ''SingleStringEscape'')])])\<rparr>"

definition bootstrapPigeon_RawStringChar :: "astval rule" where
  "bootstrapPigeon_RawStringChar = \<lparr>rule_pos = at_pos 188 1 5249, rule_name = ''RawStringChar'', displayName = '''', rule_expr =
    (seqExpr (at_pos 188 17 5267) [
      (notExpr (at_pos 188 17 5267)
        (litMatcher (at_pos 188 18 5268) [CHR 0x60] False)),
      (ruleRefExpr (at_pos 188 22 5272) ''SourceChar'')])\<rparr>"

definition bootstrapPigeon_DoubleStringEscape :: "astval rule" where
  "bootstrapPigeon_DoubleStringEscape = \<lparr>rule_pos = at_pos 190 1 5284, rule_name = ''DoubleStringEscape'', displayName = '''', rule_expr =
    (choiceExpr (at_pos 190 22 5307) [
      (litMatcher (at_pos 190 22 5307) [CHR 0x27] False),
      (ruleRefExpr (at_pos 190 28 5313) ''CommonEscapeSequence'')])\<rparr>"

definition bootstrapPigeon_SingleStringEscape :: "astval rule" where
  "bootstrapPigeon_SingleStringEscape = \<lparr>rule_pos = at_pos 191 1 5334, rule_name = ''SingleStringEscape'', displayName = '''', rule_expr =
    (choiceExpr (at_pos 191 22 5357) [
      (litMatcher (at_pos 191 22 5357) [CHR 0x22] False),
      (ruleRefExpr (at_pos 191 28 5363) ''CommonEscapeSequence'')])\<rparr>"

definition bootstrapPigeon_CommonEscapeSequence :: "astval rule" where
  "bootstrapPigeon_CommonEscapeSequence = \<lparr>rule_pos = at_pos 193 1 5385, rule_name = ''CommonEscapeSequence'', displayName = '''', rule_expr =
    (choiceExpr (at_pos 193 24 5410) [
      (ruleRefExpr (at_pos 193 24 5410) ''SingleCharEscape''),
      (ruleRefExpr (at_pos 193 43 5429) ''OctalEscape''),
      (ruleRefExpr (at_pos 193 57 5443) ''HexEscape''),
      (ruleRefExpr (at_pos 193 69 5455) ''LongUnicodeEscape''),
      (ruleRefExpr (at_pos 193 89 5475) ''ShortUnicodeEscape'')])\<rparr>"

definition bootstrapPigeon_SingleCharEscape :: "astval rule" where
  "bootstrapPigeon_SingleCharEscape = \<lparr>rule_pos = at_pos 194 1 5494, rule_name = ''SingleCharEscape'', displayName = '''', rule_expr =
    (choiceExpr (at_pos 194 20 5515) [
      (litMatcher (at_pos 194 20 5515) ''a'' False),
      (litMatcher (at_pos 194 26 5521) ''b'' False),
      (litMatcher (at_pos 194 32 5527) ''n'' False),
      (litMatcher (at_pos 194 38 5533) ''f'' False),
      (litMatcher (at_pos 194 44 5539) ''r'' False),
      (litMatcher (at_pos 194 50 5545) ''t'' False),
      (litMatcher (at_pos 194 56 5551) ''v'' False),
      (litMatcher (at_pos 194 62 5557) [CHR 0x5C] False)])\<rparr>"

definition bootstrapPigeon_OctalEscape :: "astval rule" where
  "bootstrapPigeon_OctalEscape = \<lparr>rule_pos = at_pos 195 1 5562, rule_name = ''OctalEscape'', displayName = '''', rule_expr =
    (seqExpr (at_pos 195 15 5578) [
      (ruleRefExpr (at_pos 195 15 5578) ''OctalDigit''),
      (ruleRefExpr (at_pos 195 26 5589) ''OctalDigit''),
      (ruleRefExpr (at_pos 195 37 5600) ''OctalDigit'')])\<rparr>"

definition bootstrapPigeon_HexEscape :: "astval rule" where
  "bootstrapPigeon_HexEscape = \<lparr>rule_pos = at_pos 196 1 5611, rule_name = ''HexEscape'', displayName = '''', rule_expr =
    (seqExpr (at_pos 196 13 5625) [
      (litMatcher (at_pos 196 13 5625) ''x'' False),
      (ruleRefExpr (at_pos 196 17 5629) ''HexDigit''),
      (ruleRefExpr (at_pos 196 26 5638) ''HexDigit'')])\<rparr>"

definition bootstrapPigeon_LongUnicodeEscape :: "astval rule" where
  "bootstrapPigeon_LongUnicodeEscape = \<lparr>rule_pos = at_pos 197 1 5647, rule_name = ''LongUnicodeEscape'', displayName = '''', rule_expr =
    (seqExpr (at_pos 197 21 5669) [
      (litMatcher (at_pos 197 21 5669) ''U'' False),
      (ruleRefExpr (at_pos 197 25 5673) ''HexDigit''),
      (ruleRefExpr (at_pos 197 34 5682) ''HexDigit''),
      (ruleRefExpr (at_pos 197 43 5691) ''HexDigit''),
      (ruleRefExpr (at_pos 197 52 5700) ''HexDigit''),
      (ruleRefExpr (at_pos 197 61 5709) ''HexDigit''),
      (ruleRefExpr (at_pos 197 70 5718) ''HexDigit''),
      (ruleRefExpr (at_pos 197 79 5727) ''HexDigit''),
      (ruleRefExpr (at_pos 197 88 5736) ''HexDigit'')])\<rparr>"

definition bootstrapPigeon_ShortUnicodeEscape :: "astval rule" where
  "bootstrapPigeon_ShortUnicodeEscape = \<lparr>rule_pos = at_pos 198 1 5745, rule_name = ''ShortUnicodeEscape'', displayName = '''', rule_expr =
    (seqExpr (at_pos 198 22 5768) [
      (litMatcher (at_pos 198 22 5768) ''u'' False),
      (ruleRefExpr (at_pos 198 26 5772) ''HexDigit''),
      (ruleRefExpr (at_pos 198 35 5781) ''HexDigit''),
      (ruleRefExpr (at_pos 198 44 5790) ''HexDigit''),
      (ruleRefExpr (at_pos 198 53 5799) ''HexDigit'')])\<rparr>"

definition bootstrapPigeon_OctalDigit :: "astval rule" where
  "bootstrapPigeon_OctalDigit = \<lparr>rule_pos = at_pos 200 1 5809, rule_name = ''OctalDigit'', displayName = '''', rule_expr =
    (charClassMatcher \<lparr>cc_pos = at_pos 200 14 5824, cc_val = ''[0-7]'',
       chars = [], ranges = [48, 55], classes = [],
       cc_ignoreCase = False, inverted = False\<rparr>)\<rparr>"

definition bootstrapPigeon_DecimalDigit :: "astval rule" where
  "bootstrapPigeon_DecimalDigit = \<lparr>rule_pos = at_pos 201 1 5830, rule_name = ''DecimalDigit'', displayName = '''', rule_expr =
    (charClassMatcher \<lparr>cc_pos = at_pos 201 16 5847, cc_val = ''[0-9]'',
       chars = [], ranges = [48, 57], classes = [],
       cc_ignoreCase = False, inverted = False\<rparr>)\<rparr>"

definition bootstrapPigeon_HexDigit :: "astval rule" where
  "bootstrapPigeon_HexDigit = \<lparr>rule_pos = at_pos 202 1 5853, rule_name = ''HexDigit'', displayName = '''', rule_expr =
    (charClassMatcher \<lparr>cc_pos = at_pos 202 12 5866, cc_val = ''[0-9a-f]i'',
       chars = [], ranges = [48, 57, 97, 102], classes = [],
       cc_ignoreCase = True, inverted = False\<rparr>)\<rparr>"

definition bootstrapPigeon_CharClassMatcher :: "astval rule" where
  "bootstrapPigeon_CharClassMatcher = \<lparr>rule_pos = at_pos 204 1 5877, rule_name = ''CharClassMatcher'', displayName = '''', rule_expr =
    (actionExpr (at_pos 204 20 5898)
      (seqExpr (at_pos 204 20 5898) [
        (litMatcher (at_pos 204 20 5898) ''['' False),
        (zeroOrMoreExpr (at_pos 204 26 5904)
          (choiceExpr (at_pos 204 26 5904) [
            (ruleRefExpr (at_pos 204 26 5904) ''ClassCharRange''),
            (ruleRefExpr (at_pos 204 43 5921) ''ClassChar''),
            (seqExpr (at_pos 204 55 5933) [
              (litMatcher (at_pos 204 55 5933) [CHR 0x5C] False),
              (ruleRefExpr (at_pos 204 60 5938) ''UnicodeClassEscape'')])])),
        (litMatcher (at_pos 204 82 5960) '']'' False),
        (zeroOrOneExpr (at_pos 204 86 5964)
          (litMatcher (at_pos 204 86 5964) ''i'' False))])
      bp_callonCharClassMatcher1)\<rparr>"

definition bootstrapPigeon_ClassCharRange :: "astval rule" where
  "bootstrapPigeon_ClassCharRange = \<lparr>rule_pos = at_pos 209 1 6069, rule_name = ''ClassCharRange'', displayName = '''', rule_expr =
    (seqExpr (at_pos 209 18 6088) [
      (ruleRefExpr (at_pos 209 18 6088) ''ClassChar''),
      (litMatcher (at_pos 209 28 6098) ''-'' False),
      (ruleRefExpr (at_pos 209 32 6102) ''ClassChar'')])\<rparr>"

definition bootstrapPigeon_ClassChar :: "astval rule" where
  "bootstrapPigeon_ClassChar = \<lparr>rule_pos = at_pos 210 1 6112, rule_name = ''ClassChar'', displayName = '''', rule_expr =
    (choiceExpr (at_pos 210 13 6126) [
      (seqExpr (at_pos 210 13 6126) [
        (notExpr (at_pos 210 13 6126)
          (choiceExpr (at_pos 210 16 6129) [
            (litMatcher (at_pos 210 16 6129) '']'' False),
            (litMatcher (at_pos 210 22 6135) [CHR 0x5C] False),
            (ruleRefExpr (at_pos 210 29 6142) ''EOL'')])),
        (ruleRefExpr (at_pos 210 35 6148) ''SourceChar'')]),
      (seqExpr (at_pos 210 48 6161) [
        (litMatcher (at_pos 210 48 6161) [CHR 0x5C] False),
        (ruleRefExpr (at_pos 210 53 6166) ''CharClassEscape'')])])\<rparr>"

definition bootstrapPigeon_CharClassEscape :: "astval rule" where
  "bootstrapPigeon_CharClassEscape = \<lparr>rule_pos = at_pos 211 1 6182, rule_name = ''CharClassEscape'', displayName = '''', rule_expr =
    (choiceExpr (at_pos 211 19 6202) [
      (litMatcher (at_pos 211 19 6202) '']'' False),
      (ruleRefExpr (at_pos 211 25 6208) ''CommonEscapeSequence'')])\<rparr>"

definition bootstrapPigeon_UnicodeClassEscape :: "astval rule" where
  "bootstrapPigeon_UnicodeClassEscape = \<lparr>rule_pos = at_pos 213 1 6230, rule_name = ''UnicodeClassEscape'', displayName = '''', rule_expr =
    (seqExpr (at_pos 213 22 6253) [
      (litMatcher (at_pos 213 22 6253) ''p'' False),
      (choiceExpr (at_pos 213 28 6259) [
        (ruleRefExpr (at_pos 213 28 6259) ''SingleCharUnicodeClass''),
        (seqExpr (at_pos 213 53 6284) [
          (litMatcher (at_pos 213 53 6284) ''{'' False),
          (ruleRefExpr (at_pos 213 57 6288) ''UnicodeClass''),
          (litMatcher (at_pos 213 70 6301) ''}'' False)])])])\<rparr>"

definition bootstrapPigeon_SingleCharUnicodeClass :: "astval rule" where
  "bootstrapPigeon_SingleCharUnicodeClass = \<lparr>rule_pos = at_pos 214 1 6307, rule_name = ''SingleCharUnicodeClass'', displayName = '''', rule_expr =
    (charClassMatcher \<lparr>cc_pos = at_pos 214 26 6334, cc_val = ''[LMNCPZS]'',
       chars = [76, 77, 78, 67, 80, 90, 83], ranges = [], classes = [],
       cc_ignoreCase = False, inverted = False\<rparr>)\<rparr>"

definition bootstrapPigeon_UnicodeClass :: "astval rule" where
  "bootstrapPigeon_UnicodeClass = \<lparr>rule_pos = at_pos 215 1 6344, rule_name = ''UnicodeClass'', displayName = '''', rule_expr =
    (oneOrMoreExpr (at_pos 215 16 6361)
      (charClassMatcher \<lparr>cc_pos = at_pos 215 16 6361, cc_val = ''[a-z_]i'',
         chars = [95], ranges = [97, 122], classes = [],
         cc_ignoreCase = True, inverted = False\<rparr>))\<rparr>"

definition bootstrapPigeon_AnyMatcher :: "astval rule" where
  "bootstrapPigeon_AnyMatcher = \<lparr>rule_pos = at_pos 217 1 6371, rule_name = ''AnyMatcher'', displayName = '''', rule_expr =
    (actionExpr (at_pos 217 14 6386)
      (litMatcher (at_pos 217 14 6386) ''.'' False)
      bp_callonAnyMatcher1)\<rparr>"

definition bootstrapPigeon_CodeBlock :: "astval rule" where
  "bootstrapPigeon_CodeBlock = \<lparr>rule_pos = at_pos 222 1 6461, rule_name = ''CodeBlock'', displayName = '''', rule_expr =
    (actionExpr (at_pos 222 13 6475)
      (seqExpr (at_pos 222 13 6475) [
        (litMatcher (at_pos 222 13 6475) ''{'' False),
        (ruleRefExpr (at_pos 222 17 6479) ''Code''),
        (litMatcher (at_pos 222 22 6484) ''}'' False)])
      bp_callonCodeBlock1)\<rparr>"

definition bootstrapPigeon_Code :: "astval rule" where
  "bootstrapPigeon_Code = \<lparr>rule_pos = at_pos 228 1 6582, rule_name = ''Code'', displayName = '''', rule_expr =
    (zeroOrMoreExpr (at_pos 228 10 6593)
      (choiceExpr (at_pos 228 10 6593) [
        (oneOrMoreExpr (at_pos 228 12 6595)
          (seqExpr (at_pos 228 12 6595) [
            (notExpr (at_pos 228 12 6595)
              (charClassMatcher \<lparr>cc_pos = at_pos 228 13 6596, cc_val = ''[{}]'',
                 chars = [123, 125], ranges = [], classes = [],
                 cc_ignoreCase = False, inverted = False\<rparr>)),
            (ruleRefExpr (at_pos 228 18 6601) ''SourceChar'')])),
        (seqExpr (at_pos 228 34 6617) [
          (litMatcher (at_pos 228 34 6617) ''{'' False),
          (ruleRefExpr (at_pos 228 38 6621) ''Code''),
          (litMatcher (at_pos 228 43 6626) ''}'' False)])]))\<rparr>"

definition bootstrapPigeon_underscore2 :: "astval rule" where
  "bootstrapPigeon_underscore2 = \<lparr>rule_pos = at_pos 230 1 6634, rule_name = ''__'', displayName = '''', rule_expr =
    (zeroOrMoreExpr (at_pos 230 8 6643)
      (choiceExpr (at_pos 230 8 6643) [
        (ruleRefExpr (at_pos 230 8 6643) ''Whitespace''),
        (ruleRefExpr (at_pos 230 21 6656) ''EOL''),
        (ruleRefExpr (at_pos 230 27 6662) ''Comment'')]))\<rparr>"

definition bootstrapPigeon_underscore :: "astval rule" where
  "bootstrapPigeon_underscore = \<lparr>rule_pos = at_pos 231 1 6673, rule_name = ''_'', displayName = '''', rule_expr =
    (zeroOrMoreExpr (at_pos 231 7 6681)
      (choiceExpr (at_pos 231 7 6681) [
        (ruleRefExpr (at_pos 231 7 6681) ''Whitespace''),
        (ruleRefExpr (at_pos 231 20 6694) ''MultiLineCommentNoLineTerminator'')]))\<rparr>"

definition bootstrapPigeon_Whitespace :: "astval rule" where
  "bootstrapPigeon_Whitespace = \<lparr>rule_pos = at_pos 233 1 6731, rule_name = ''Whitespace'', displayName = '''', rule_expr =
    (charClassMatcher \<lparr>cc_pos = at_pos 233 14 6746, cc_val = (''[ '' @ [CHR 0x5C] @ ''t'' @ [CHR 0x5C] @ ''r]''),
       chars = [32, 9, 13], ranges = [], classes = [],
       cc_ignoreCase = False, inverted = False\<rparr>)\<rparr>"

definition bootstrapPigeon_EOL :: "astval rule" where
  "bootstrapPigeon_EOL = \<lparr>rule_pos = at_pos 234 1 6754, rule_name = ''EOL'', displayName = '''', rule_expr =
    (litMatcher (at_pos 234 7 6762) [CHR 0x0A] False)\<rparr>"

definition bootstrapPigeon_EOS :: "astval rule" where
  "bootstrapPigeon_EOS = \<lparr>rule_pos = at_pos 235 1 6767, rule_name = ''EOS'', displayName = '''', rule_expr =
    (choiceExpr (at_pos 235 7 6775) [
      (seqExpr (at_pos 235 7 6775) [
        (ruleRefExpr (at_pos 235 7 6775) ''__''),
        (litMatcher (at_pos 235 10 6778) '';'' False)]),
      (seqExpr (at_pos 235 16 6784) [
        (ruleRefExpr (at_pos 235 16 6784) ''_''),
        (zeroOrOneExpr (at_pos 235 18 6786)
          (ruleRefExpr (at_pos 235 18 6786) ''SingleLineComment'')),
        (ruleRefExpr (at_pos 235 37 6805) ''EOL'')]),
      (seqExpr (at_pos 235 43 6811) [
        (ruleRefExpr (at_pos 235 43 6811) ''__''),
        (ruleRefExpr (at_pos 235 46 6814) ''EOF'')])])\<rparr>"

definition bootstrapPigeon_EOF :: "astval rule" where
  "bootstrapPigeon_EOF = \<lparr>rule_pos = at_pos 237 1 6819, rule_name = ''EOF'', displayName = '''', rule_expr =
    (notExpr (at_pos 237 7 6827)
      (anyMatcher (at_pos 237 8 6828)))\<rparr>"

definition bootstrapPigeon_g :: "astval grammar" where
  "bootstrapPigeon_g = \<lparr>grammar_pos = at_pos 0 0 0, grammar_rules =
     [bootstrapPigeon_Grammar,
      bootstrapPigeon_Initializer,
      bootstrapPigeon_Rule,
      bootstrapPigeon_Expression,
      bootstrapPigeon_ChoiceExpr,
      bootstrapPigeon_ActionExpr,
      bootstrapPigeon_SeqExpr,
      bootstrapPigeon_LabeledExpr,
      bootstrapPigeon_PrefixedExpr,
      bootstrapPigeon_PrefixedOp,
      bootstrapPigeon_SuffixedExpr,
      bootstrapPigeon_SuffixedOp,
      bootstrapPigeon_PrimaryExpr,
      bootstrapPigeon_RuleRefExpr,
      bootstrapPigeon_SemanticPredExpr,
      bootstrapPigeon_SemanticPredOp,
      bootstrapPigeon_RuleDefOp,
      bootstrapPigeon_SourceChar,
      bootstrapPigeon_Comment,
      bootstrapPigeon_MultiLineComment,
      bootstrapPigeon_MultiLineCommentNoLineTerminator,
      bootstrapPigeon_SingleLineComment,
      bootstrapPigeon_Identifier,
      bootstrapPigeon_IdentifierName,
      bootstrapPigeon_IdentifierStart,
      bootstrapPigeon_IdentifierPart,
      bootstrapPigeon_LitMatcher,
      bootstrapPigeon_StringLiteral,
      bootstrapPigeon_DoubleStringChar,
      bootstrapPigeon_SingleStringChar,
      bootstrapPigeon_RawStringChar,
      bootstrapPigeon_DoubleStringEscape,
      bootstrapPigeon_SingleStringEscape,
      bootstrapPigeon_CommonEscapeSequence,
      bootstrapPigeon_SingleCharEscape,
      bootstrapPigeon_OctalEscape,
      bootstrapPigeon_HexEscape,
      bootstrapPigeon_LongUnicodeEscape,
      bootstrapPigeon_ShortUnicodeEscape,
      bootstrapPigeon_OctalDigit,
      bootstrapPigeon_DecimalDigit,
      bootstrapPigeon_HexDigit,
      bootstrapPigeon_CharClassMatcher,
      bootstrapPigeon_ClassCharRange,
      bootstrapPigeon_ClassChar,
      bootstrapPigeon_CharClassEscape,
      bootstrapPigeon_UnicodeClassEscape,
      bootstrapPigeon_SingleCharUnicodeClass,
      bootstrapPigeon_UnicodeClass,
      bootstrapPigeon_AnyMatcher,
      bootstrapPigeon_CodeBlock,
      bootstrapPigeon_Code,
      bootstrapPigeon_underscore2,
      bootstrapPigeon_underscore,
      bootstrapPigeon_Whitespace,
      bootstrapPigeon_EOL,
      bootstrapPigeon_EOS,
      bootstrapPigeon_EOF]\<rparr>"

end
