(* ===== verification/Bootstrap_Pigeon_Properties.thy ===== *)
theory Bootstrap_Pigeon_Properties
  imports Bootstrap_Pigeon Pigeon_Properties
begin

text \<open>
  The parser of the bootstrapping command returns on every input, except where a character class makes the class
  parser loop. Unlike pigeon's, its block of a literal yields nil for a literal that cannot be unquoted, on which
  the block of an enclosing expression panics.
\<close>

section \<open>Termination\<close>










section \<open>No code block hangs\<close>




definition noHang :: "'x code \<Rightarrow> bool" where
  "noHang m \<longleftrightarrow> m \<noteq> Inl Hangs"

lemma noHang_simps [simp]: "noHang (Inr x)" "noHang (Inl e) \<longleftrightarrow> e \<noteq> Hangs"
  by (simp_all add: noHang_def)

lemma noHang_thenP [intro!]: "noHang m \<Longrightarrow> (\<And>x. noHang (f x)) \<Longrightarrow> noHang (thenP m f)"
  by (cases m) auto

lemma noHang_mapP [intro!]: "(\<And>x. noHang (f x)) \<Longrightarrow> noHang (mapP f xs)"
  by (induction xs) auto

lemma noHang_assertions [intro!]:
  "noHang (asSlice tn v)" "noHang (asString tn v)" "noHang (toIfaceSlice tn v)" "noHang (index vs i)"
  "noHang (asRule v)" "noHang (asIdentifier v)" "noHang (asStringLit v)" "noHang (asCodeBlock v)" "noHang (asExpression v)"
  by (auto simp: asSlice_def asString_def toIfaceSlice_def index_def asRule_def asIdentifier_def asStringLit_def
      asCodeBlock_def asExpression_def badNode_def badAssertion_def foreignNode_def indexPanic_def
      split: goval.split astval.split)

lemma noHang_elem [intro!]: "noHang (elem i v)"
  by (auto simp: elem_def)

lemma noHang_if [intro!]: "noHang x \<Longrightarrow> noHang y \<Longrightarrow> noHang (if b then x else y)"
  by simp






section \<open>The rules\<close>









text \<open>A literal that cannot be unquoted has no node, and the block of the expression around it panics.\<close>

lemma invalid_literal_panics:
  assumes "Unquote t = None"
  shows "bp_onLitMatcher1 c (VUser (NStringLit (NewStringLit p t))) u = Inr (VNil, Some ''invalid syntax'')"
    and "bp_onSeqExpr1 c VNil (VSlice (v # vs)) = Inl (PanicError ''interface conversion: interface is nil, not ast.Expression'')"
  using assms by (simp_all add: bp_onLitMatcher1_def NewStringLit_def bp_onSeqExpr1_def onSeqExpr1_def asExpression_def)

end
