(* ===== verification/Json.thy ===== *)
theory Json
  imports Fmt
begin

text \<open>
  What the juggler packages use of Go's \<^verbatim>\<open>encoding/json\<close>, on JSON values: the text of a document is parsed
  before, so a document here is a value, with the members of an object in their order. Decoding
  into a Go value starts from the value that is there; \<^verbatim>\<open>null\<close> leaves it as it is, a member goes to the field
  of that name or, failing that, to the field that has the name up to letter case, the last of several
  members for one field wins, and other members are ignored. The text of a document is its compact form, with the
  escapes of Go's encoder. Error texts are kept short.
\<close>

datatype json = JNull | JBool bool | JInt int | JDec string | JStr gobytes | JArr "json list" | JObj "(string \<times> json) list"

section \<open>Encoding\<close>

text \<open>Bytes that are not valid UTF-8 are replaced when a string is encoded.\<close>

definition jstr :: "gobytes \<Rightarrow> json" where
  "jstr s = JStr (string_of_runes (runes_of s))"

definition validString :: "gobytes \<Rightarrow> bool" where
  "validString s \<longleftrightarrow> string_of_runes (runes_of s) = s"

definition jraw :: "json option \<Rightarrow> json" where
  "jraw r = (case r of None \<Rightarrow> JNull | Some j \<Rightarrow> j)"

definition omitEmpty :: "string \<Rightarrow> gobytes \<Rightarrow> (string \<times> json) list" where
  "omitEmpty k s = (if s = [] then [] else [(k, jstr s)])"

section \<open>Text\<close>

definition jescape :: "rune \<Rightarrow> gobytes" where
  "jescape r =
     (if r = 0x22 then [CHR 0x5C, CHR 0x22] else if r = 0x5C then [CHR 0x5C, CHR 0x5C]
      else if r = 0x0A then [CHR 0x5C, CHR ''n''] else if r = 0x0D then [CHR 0x5C, CHR ''r''] else if r = 0x09 then [CHR 0x5C, CHR ''t'']
      else if r < 0x20 \<or> r = 0x3C \<or> r = 0x3E \<or> r = 0x26 \<or> r = 0x2028 \<or> r = 0x2029 then [CHR 0x5C, CHR ''u''] @ hexN 4 r
      else string_of_runes [r])"

definition jquote :: "gobytes \<Rightarrow> gobytes" where
  "jquote s = [CHR 0x22] @ concat (map jescape (runes_of s)) @ [CHR 0x22]"

fun jtext :: "json \<Rightarrow> gobytes" and jelems :: "json list \<Rightarrow> gobytes" and jmembers :: "(string \<times> json) list \<Rightarrow> gobytes" where
  "jtext JNull = ''null''"
| "jtext (JBool b) = (if b then ''true'' else ''false'')"
| "jtext (JInt i) = itoa i"
| "jtext (JDec d) = d"
| "jtext (JStr s) = jquote s"
| "jtext (JArr l) = ''['' @ jelems l @ '']''"
| "jtext (JObj ms) = ''{'' @ jmembers ms @ ''}''"
| "jelems [] = []"
| "jelems [j] = jtext j"
| "jelems (j # js) = jtext j @ '','' @ jelems js"
| "jmembers [] = []"
| "jmembers [(k, j)] = jquote k @ '':'' @ jtext j"
| "jmembers ((k, j) # ms) = jquote k @ '':'' @ jtext j @ '','' @ jmembers ms"

section \<open>Decoding\<close>

type_synonym 's decoder = "json \<Rightarrow> 's \<Rightarrow> string + 's"

definition int64 :: "int \<Rightarrow> bool" where
  "int64 i \<longleftrightarrow> - (2 ^ 63) \<le> i \<and> i < 2 ^ 63"

definition decInt :: "int decoder" where
  "decInt j old = (case j of JNull \<Rightarrow> Inr old | JInt i \<Rightarrow> if int64 i then Inr i else Inl ''number out of range'' | _ \<Rightarrow> Inl ''not a number'')"

definition decString :: "gobytes decoder" where
  "decString j old = (case j of JNull \<Rightarrow> Inr old | JStr s \<Rightarrow> Inr s | _ \<Rightarrow> Inl ''not a string'')"

definition decBool :: "bool decoder" where
  "decBool j old = (case j of JNull \<Rightarrow> Inr old | JBool b \<Rightarrow> Inr b | _ \<Rightarrow> Inl ''not a bool'')"

definition decRaw :: "json option decoder" where
  "decRaw j old = Inr (Some j)"

definition foldRune :: "rune \<Rightarrow> rune" where
  "foldRune r = (if 0x41 \<le> r \<and> r \<le> 0x5A then r + 32 else if r = 0x17F then 0x73 else if r = 0x212A then 0x6B else r)"

definition foldEq :: "gobytes \<Rightarrow> gobytes \<Rightarrow> bool" where
  "foldEq a b \<longleftrightarrow> map foldRune (runes_of a) = map foldRune (runes_of b)"

definition findField :: "(string \<times> 's decoder) list \<Rightarrow> string \<Rightarrow> 's decoder option" where
  "findField fs k =
     (case map_of fs k of
        Some d \<Rightarrow> Some d
      | None \<Rightarrow> map_option snd (List.find (\<lambda>(n, d). foldEq k n) fs))"

fun decMembers :: "(string \<times> 's decoder) list \<Rightarrow> (string \<times> json) list \<Rightarrow> 's \<Rightarrow> string + 's" where
  "decMembers fs [] s = Inr s"
| "decMembers fs ((k, j) # ms) s =
     (case findField fs k of
        None \<Rightarrow> decMembers fs ms s
      | Some d \<Rightarrow> (case d j s of Inl e \<Rightarrow> Inl e | Inr s1 \<Rightarrow> decMembers fs ms s1))"

definition decStruct :: "(string \<times> 's decoder) list \<Rightarrow> 's decoder" where
  "decStruct fs j old = (case j of JNull \<Rightarrow> Inr old | JObj ms \<Rightarrow> decMembers fs ms old | _ \<Rightarrow> Inl ''not an object'')"

definition field :: "'a decoder \<Rightarrow> ('s \<Rightarrow> 'a) \<Rightarrow> ('a \<Rightarrow> 's \<Rightarrow> 's) \<Rightarrow> 's decoder" where
  "field d get put j s = (case d j (get s) of Inl e \<Rightarrow> Inl e | Inr v \<Rightarrow> Inr (put v s))"

section \<open>Round trips\<close>

lemma decString_jstr [simp]: "validString s \<Longrightarrow> decString (jstr s) old = Inr s"
  by (simp add: decString_def jstr_def validString_def)

lemma decInt_JInt [simp]: "int64 i \<Longrightarrow> decInt (JInt i) old = Inr i"
  by (simp add: decInt_def)

lemma decBool_JBool [simp]: "decBool (JBool b) old = Inr b"
  by (simp add: decBool_def)

lemma decRaw_jraw [simp]: "decRaw (jraw (Some j)) old = Inr (Some j)"
  by (simp add: decRaw_def jraw_def)

lemma decMembers_exact:
  "map_of fs k = Some d \<Longrightarrow> decMembers fs ((k, j) # ms) s = (case d j s of Inl e \<Rightarrow> Inl e | Inr s1 \<Rightarrow> decMembers fs ms s1)"
  by (simp add: findField_def)

lemma decMembers_omit:
  assumes "map_of fs k = Some (field decString get put)" "validString v" "get s = []" "put [] s = s"
  shows "decMembers fs (omitEmpty k v @ ms) s = decMembers fs ms (put v s)"
  using assms by (auto simp: omitEmpty_def findField_def field_def)

end
