(* ===== verification/Juggler_Msg.thy ===== *)
theory Juggler_Msg
  imports Json Loops "HOL-Library.AList"
begin

text \<open>
  The messages of the juggler protocol, \<^verbatim>\<open>juggler/msg/msg.go\<close> and \<^verbatim>\<open>payload.go\<close>. The package
  \<^verbatim>\<open>pborman/uuid\<close> is not part of the repository: its JSON coding is an argument, and a new random
  identifier is an argument of the constructors. An error value is its text.
\<close>

section \<open>Message types\<close>

type_synonym MessageType = int

definition startRead :: MessageType where "startRead = 0"
definition CallMsg :: MessageType where "CallMsg = 1"
definition PubMsg :: MessageType where "PubMsg = 2"
definition SubMsg :: MessageType where "SubMsg = 3"
definition UnsbMsg :: MessageType where "UnsbMsg = 4"
definition endRead :: MessageType where "endRead = 5"
definition startWrite :: MessageType where "startWrite = 6"
definition ErrMsg :: MessageType where "ErrMsg = 7"
definition OKMsg :: MessageType where "OKMsg = 8"
definition ResMsg :: MessageType where "ResMsg = 9"
definition EvntMsg :: MessageType where "EvntMsg = 10"
definition endWrite :: MessageType where "endWrite = 11"
definition customMsg :: MessageType where "customMsg = 256"

lemmas type_defs = startRead_def CallMsg_def PubMsg_def SubMsg_def UnsbMsg_def endRead_def startWrite_def
  ErrMsg_def OKMsg_def ResMsg_def EvntMsg_def endWrite_def customMsg_def

record registry =
  nextCustomMsg :: MessageType
  lookupMessageType :: "(MessageType \<times> string) list"

definition initRegistry :: registry where
  "initRegistry = \<lparr>nextCustomMsg = customMsg, lookupMessageType =
     [(CallMsg, ''CALL''), (PubMsg, ''PUB''), (SubMsg, ''SUB''), (UnsbMsg, ''UNSB''),
      (ErrMsg, ''ERR''), (OKMsg, ''OK''), (ResMsg, ''RES''), (EvntMsg, ''EVNT'')]\<rparr>"

definition RegisterCustomMsg :: "string \<Rightarrow> registry \<Rightarrow> (registry, MessageType) result" where
  "RegisterCustomMsg name r =
     (if name \<in> snd ` set (lookupMessageType r) then Panic (PanicValue (''RegisterCustomMsg called twice for '' @ name)) r
      else let mt = nextCustomMsg r
        in Ret mt (r\<lparr>nextCustomMsg := mt + 1, lookupMessageType := AList.update mt name (lookupMessageType r)\<rparr>))"

definition MessageType_String :: "registry \<Rightarrow> MessageType \<Rightarrow> string" where
  "MessageType_String r mt =
     (case map_of (lookupMessageType r) mt of
        Some s \<Rightarrow> if s \<noteq> [] then s else ''<unknown: '' @ itoa mt @ ''>''
      | None \<Rightarrow> ''<unknown: '' @ itoa mt @ ''>'')"

definition IsRead :: "MessageType \<Rightarrow> bool" where
  "IsRead mt \<longleftrightarrow> startRead < mt \<and> mt < endRead"

definition IsWrite :: "MessageType \<Rightarrow> bool" where
  "IsWrite mt \<longleftrightarrow> startWrite < mt \<and> mt < endWrite"

section \<open>Messages\<close>

type_synonym uuid = gobytes

record Meta =
  T :: MessageType
  U :: uuid

definition NewMeta :: "MessageType \<Rightarrow> uuid \<Rightarrow> Meta" where
  "NewMeta t u = \<lparr>T = t, U = u\<rparr>"

record CallPld =
  c_URI :: gobytes
  c_Timeout :: int
  c_Args :: "json option"

record SubPld =
  s_Channel :: gobytes
  s_Pattern :: bool

record PubPld =
  p_Channel :: gobytes
  p_Args :: "json option"

record OKPld =
  o_For :: uuid
  o_ForType :: MessageType
  o_URI :: gobytes
  o_Channel :: gobytes

record ErrPld = OKPld +
  e_Code :: int
  e_Message :: gobytes
  e_Err :: "string option"

record ResPld =
  r_For :: uuid
  r_URI :: gobytes
  r_Args :: "json option"

record EvntPld =
  v_For :: uuid
  v_Channel :: gobytes
  v_Pattern :: gobytes
  v_Args :: "json option"

datatype Msg =
    Call Meta CallPld
  | Sub Meta SubPld
  | Unsb Meta SubPld
  | Pub Meta PubPld
  | Err Meta ErrPld
  | OK Meta OKPld
  | Res Meta ResPld
  | Evnt Meta EvntPld
  | OtherMsg Meta string

fun Msg_Meta :: "Msg \<Rightarrow> Meta" where
  "Msg_Meta (Call m _) = m"
| "Msg_Meta (Sub m _) = m"
| "Msg_Meta (Unsb m _) = m"
| "Msg_Meta (Pub m _) = m"
| "Msg_Meta (Err m _) = m"
| "Msg_Meta (OK m _) = m"
| "Msg_Meta (Res m _) = m"
| "Msg_Meta (Evnt m _) = m"
| "Msg_Meta (OtherMsg m _) = m"

definition Type :: "Msg \<Rightarrow> MessageType" where
  "Type m = T (Msg_Meta m)"

definition UUID :: "Msg \<Rightarrow> uuid" where
  "UUID m = U (Msg_Meta m)"

section \<open>Payloads kept by the broker\<close>

record CallPayload =
  cp_ConnUUID :: uuid
  cp_MsgUUID :: uuid
  cp_URI :: gobytes
  cp_Args :: "json option"
  TTLAfterRead :: int
  ReadTimestamp :: int

record ResPayload =
  rp_ConnUUID :: uuid
  rp_MsgUUID :: uuid
  rp_URI :: gobytes
  rp_Args :: "json option"

record PubPayload =
  pp_MsgUUID :: uuid
  pp_Args :: "json option"

record EvntPayload =
  ep_MsgUUID :: uuid
  ep_Channel :: gobytes
  ep_Pattern :: gobytes
  ep_Args :: "json option"

section \<open>Constructors\<close>

text \<open>The arguments of a call or a publication are already a JSON value, or the error of \<^verbatim>\<open>json.Marshal\<close>.\<close>

definition NewCall :: "uuid \<Rightarrow> gobytes \<Rightarrow> string + json \<Rightarrow> int \<Rightarrow> string + Msg" where
  "NewCall u uri args timeout =
     (case args of
        Inl e \<Rightarrow> Inl e
      | Inr b \<Rightarrow> Inr (Call (NewMeta CallMsg u) \<lparr>c_URI = uri, c_Timeout = timeout, c_Args = Some b\<rparr>))"

definition NewSub :: "uuid \<Rightarrow> gobytes \<Rightarrow> bool \<Rightarrow> Msg" where
  "NewSub u channel pattern = Sub (NewMeta SubMsg u) \<lparr>s_Channel = channel, s_Pattern = pattern\<rparr>"

definition NewUnsb :: "uuid \<Rightarrow> gobytes \<Rightarrow> bool \<Rightarrow> Msg" where
  "NewUnsb u channel pattern = Unsb (NewMeta UnsbMsg u) \<lparr>s_Channel = channel, s_Pattern = pattern\<rparr>"

definition NewPub :: "uuid \<Rightarrow> gobytes \<Rightarrow> string + json \<Rightarrow> string + Msg" where
  "NewPub u channel args =
     (case args of
        Inl e \<Rightarrow> Inl e
      | Inr b \<Rightarrow> Inr (Pub (NewMeta PubMsg u) \<lparr>p_Channel = channel, p_Args = Some b\<rparr>))"

definition errOrigin :: "Msg \<Rightarrow> ErrPld \<Rightarrow> ErrPld" where
  "errOrigin from e =
     (case from of
        Call _ p \<Rightarrow> e\<lparr>o_URI := c_URI p\<rparr>
      | Pub _ p \<Rightarrow> e\<lparr>o_Channel := p_Channel p\<rparr>
      | Sub _ p \<Rightarrow> e\<lparr>o_Channel := s_Channel p\<rparr>
      | Unsb _ p \<Rightarrow> e\<lparr>o_Channel := s_Channel p\<rparr>
      | OK _ p \<Rightarrow> e\<lparr>o_For := o_For p, o_ForType := o_ForType p, o_URI := o_URI p, o_Channel := o_Channel p\<rparr>
      | Err _ p \<Rightarrow> e\<lparr>o_For := o_For p, o_ForType := o_ForType p, o_URI := o_URI p, o_Channel := o_Channel p\<rparr>
      | Evnt _ p \<Rightarrow> e\<lparr>o_For := v_For p, o_ForType := PubMsg, o_Channel := v_Channel p\<rparr>
      | Res _ p \<Rightarrow> e\<lparr>o_For := r_For p, o_ForType := CallMsg, o_URI := r_URI p\<rparr>
      | OtherMsg _ _ \<Rightarrow> e)"

definition NewErr :: "uuid \<Rightarrow> Msg \<Rightarrow> int \<Rightarrow> string \<Rightarrow> Msg" where
  "NewErr u from code e =
     Err (NewMeta ErrMsg u) (errOrigin from
       \<lparr>o_For = UUID from, o_ForType = Type from, o_URI = [], o_Channel = [], e_Code = code, e_Message = e, e_Err = Some e\<rparr>)"

definition NewOK :: "uuid \<Rightarrow> Msg \<Rightarrow> Msg" where
  "NewOK u from =
     OK (NewMeta OKMsg u)
       \<lparr>o_For = UUID from, o_ForType = Type from,
        o_URI = (case from of Call _ p \<Rightarrow> c_URI p | _ \<Rightarrow> []),
        o_Channel = (case from of Pub _ p \<Rightarrow> p_Channel p | Sub _ p \<Rightarrow> s_Channel p | Unsb _ p \<Rightarrow> s_Channel p | _ \<Rightarrow> [])\<rparr>"

definition NewRes :: "uuid \<Rightarrow> ResPayload \<Rightarrow> Msg" where
  "NewRes u pld = Res (NewMeta ResMsg u) \<lparr>r_For = rp_MsgUUID pld, r_URI = rp_URI pld, r_Args = rp_Args pld\<rparr>"

definition NewEvnt :: "uuid \<Rightarrow> EvntPayload \<Rightarrow> Msg" where
  "NewEvnt u pld =
     Evnt (NewMeta EvntMsg u)
       \<lparr>v_For = ep_MsgUUID pld, v_Channel = ep_Channel pld, v_Pattern = ep_Pattern pld, v_Args = ep_Args pld\<rparr>"

section \<open>Marshaling\<close>

record uuidCodec =
  uenc :: "uuid \<Rightarrow> json"
  udec :: "uuid decoder"
  ustring :: "uuid \<Rightarrow> string"

definition marshalMeta :: "uuidCodec \<Rightarrow> Meta \<Rightarrow> json" where
  "marshalMeta C m = JObj [(''type'', JInt (T m)), (''uuid'', uenc C (U m))]"

definition marshalFor :: "uuidCodec \<Rightarrow> 'a OKPld_scheme \<Rightarrow> (string \<times> json) list" where
  "marshalFor C p = [(''for'', uenc C (o_For p)), (''for_type'', JInt (o_ForType p))] @ omitEmpty ''uri'' (o_URI p) @ omitEmpty ''channel'' (o_Channel p)"

fun marshalPayload :: "uuidCodec \<Rightarrow> Msg \<Rightarrow> json" where
  "marshalPayload C (Call _ p) = JObj [(''uri'', jstr (c_URI p)), (''timeout'', JInt (c_Timeout p)), (''args'', jraw (c_Args p))]"
| "marshalPayload C (Sub _ p) = JObj [(''channel'', jstr (s_Channel p)), (''pattern'', JBool (s_Pattern p))]"
| "marshalPayload C (Unsb _ p) = JObj [(''channel'', jstr (s_Channel p)), (''pattern'', JBool (s_Pattern p))]"
| "marshalPayload C (Pub _ p) = JObj [(''channel'', jstr (p_Channel p)), (''args'', jraw (p_Args p))]"
| "marshalPayload C (Err _ p) = JObj (marshalFor C p @ [(''code'', JInt (e_Code p)), (''message'', jstr (e_Message p))])"
| "marshalPayload C (OK _ p) = JObj (marshalFor C p)"
| "marshalPayload C (Res _ p) = JObj ([(''for'', uenc C (r_For p))] @ omitEmpty ''uri'' (r_URI p) @ [(''args'', jraw (r_Args p))])"
| "marshalPayload C (Evnt _ p) = JObj ([(''for'', uenc C (v_For p))] @ omitEmpty ''channel'' (v_Channel p) @
     omitEmpty ''pattern'' (v_Pattern p) @ [(''args'', jraw (v_Args p))])"
| "marshalPayload C (OtherMsg _ _) = JNull"

definition marshal :: "uuidCodec \<Rightarrow> Msg \<Rightarrow> json" where
  "marshal C m = JObj [(''meta'', marshalMeta C (Msg_Meta m)), (''payload'', marshalPayload C m)]"

section \<open>Unmarshaling\<close>

record partialMsg =
  pm_Meta :: Meta
  pm_Payload :: "json option"

definition zeroMeta :: Meta where
  "zeroMeta = \<lparr>T = 0, U = []\<rparr>"

definition decMeta :: "uuidCodec \<Rightarrow> Meta decoder" where
  "decMeta C = decStruct [(''type'', field decInt T (\<lambda>v m. m\<lparr>T := v\<rparr>)), (''uuid'', field (udec C) U (\<lambda>v m. m\<lparr>U := v\<rparr>))]"

definition decPartial :: "uuidCodec \<Rightarrow> partialMsg decoder" where
  "decPartial C = decStruct [(''meta'', field (decMeta C) pm_Meta (\<lambda>v m. m\<lparr>pm_Meta := v\<rparr>)),
     (''payload'', field decRaw pm_Payload (\<lambda>v m. m\<lparr>pm_Payload := v\<rparr>))]"

definition decCall :: "CallPld decoder" where
  "decCall = decStruct [(''uri'', field decString c_URI (\<lambda>v p. p\<lparr>c_URI := v\<rparr>)),
     (''timeout'', field decInt c_Timeout (\<lambda>v p. p\<lparr>c_Timeout := v\<rparr>)), (''args'', field decRaw c_Args (\<lambda>v p. p\<lparr>c_Args := v\<rparr>))]"

definition decSub :: "SubPld decoder" where
  "decSub = decStruct [(''channel'', field decString s_Channel (\<lambda>v p. p\<lparr>s_Channel := v\<rparr>)),
     (''pattern'', field decBool s_Pattern (\<lambda>v p. p\<lparr>s_Pattern := v\<rparr>))]"

definition decPub :: "PubPld decoder" where
  "decPub = decStruct [(''channel'', field decString p_Channel (\<lambda>v p. p\<lparr>p_Channel := v\<rparr>)),
     (''args'', field decRaw p_Args (\<lambda>v p. p\<lparr>p_Args := v\<rparr>))]"

definition forFields :: "uuidCodec \<Rightarrow> (string \<times> 'a OKPld_scheme decoder) list" where
  "forFields C = [(''for'', field (udec C) o_For (\<lambda>v p. p\<lparr>o_For := v\<rparr>)),
     (''for_type'', field decInt o_ForType (\<lambda>v p. p\<lparr>o_ForType := v\<rparr>)),
     (''uri'', field decString o_URI (\<lambda>v p. p\<lparr>o_URI := v\<rparr>)), (''channel'', field decString o_Channel (\<lambda>v p. p\<lparr>o_Channel := v\<rparr>))]"

definition decOK :: "uuidCodec \<Rightarrow> OKPld decoder" where
  "decOK C = decStruct (forFields C)"

definition decErr :: "uuidCodec \<Rightarrow> ErrPld decoder" where
  "decErr C = decStruct (forFields C @ [(''code'', field decInt e_Code (\<lambda>v p. p\<lparr>e_Code := v\<rparr>)),
     (''message'', field decString e_Message (\<lambda>v p. p\<lparr>e_Message := v\<rparr>))])"

definition decRes :: "uuidCodec \<Rightarrow> ResPld decoder" where
  "decRes C = decStruct [(''for'', field (udec C) r_For (\<lambda>v p. p\<lparr>r_For := v\<rparr>)),
     (''uri'', field decString r_URI (\<lambda>v p. p\<lparr>r_URI := v\<rparr>)), (''args'', field decRaw r_Args (\<lambda>v p. p\<lparr>r_Args := v\<rparr>))]"

definition decEvnt :: "uuidCodec \<Rightarrow> EvntPld decoder" where
  "decEvnt C = decStruct [(''for'', field (udec C) v_For (\<lambda>v p. p\<lparr>v_For := v\<rparr>)),
     (''channel'', field decString v_Channel (\<lambda>v p. p\<lparr>v_Channel := v\<rparr>)),
     (''pattern'', field decString v_Pattern (\<lambda>v p. p\<lparr>v_Pattern := v\<rparr>)), (''args'', field decRaw v_Args (\<lambda>v p. p\<lparr>v_Args := v\<rparr>))]"

definition isIn :: "MessageType list \<Rightarrow> MessageType \<Rightarrow> bool" where
  "isIn l v \<longleftrightarrow> v \<in> set l"

definition genericUnmarshal :: "registry \<Rightarrow> partialMsg \<Rightarrow> 'p decoder \<Rightarrow> 'p \<Rightarrow> (Meta \<Rightarrow> 'p \<Rightarrow> Msg) \<Rightarrow> string + Msg" where
  "genericUnmarshal R pm dec zero mk =
     (case pm_Payload pm of
        None \<Rightarrow> Inl (''invalid '' @ MessageType_String R (T (pm_Meta pm)) @ '' message: '' @ ''invalid character'')
      | Some j \<Rightarrow>
          (case dec j zero of
             Inl e \<Rightarrow> Inl (''invalid '' @ MessageType_String R (T (pm_Meta pm)) @ '' message: '' @ e)
           | Inr p \<Rightarrow> Inr (mk (pm_Meta pm) p)))"

definition unmarshalBody :: "uuidCodec \<Rightarrow> registry \<Rightarrow> partialMsg \<Rightarrow> string + Msg" where
  "unmarshalBody C R pm =
     (let t = T (pm_Meta pm) in
      if t = CallMsg then genericUnmarshal R pm decCall \<lparr>c_URI = [], c_Timeout = 0, c_Args = None\<rparr> Call
      else if t = SubMsg then genericUnmarshal R pm decSub \<lparr>s_Channel = [], s_Pattern = False\<rparr> Sub
      else if t = UnsbMsg then genericUnmarshal R pm decSub \<lparr>s_Channel = [], s_Pattern = False\<rparr> Unsb
      else if t = PubMsg then genericUnmarshal R pm decPub \<lparr>p_Channel = [], p_Args = None\<rparr> Pub
      else if t = ErrMsg then genericUnmarshal R pm (decErr C)
        \<lparr>o_For = [], o_ForType = 0, o_URI = [], o_Channel = [], e_Code = 0, e_Message = [], e_Err = None\<rparr> Err
      else if t = OKMsg then genericUnmarshal R pm (decOK C) \<lparr>o_For = [], o_ForType = 0, o_URI = [], o_Channel = []\<rparr> OK
      else if t = ResMsg then genericUnmarshal R pm (decRes C) \<lparr>r_For = [], r_URI = [], r_Args = None\<rparr> Res
      else if t = EvntMsg then genericUnmarshal R pm (decEvnt C) \<lparr>v_For = [], v_Channel = [], v_Pattern = [], v_Args = None\<rparr> Evnt
      else Inl (''unknown message '' @ MessageType_String R t))"

text \<open>The reader gives a document, or the error of the JSON decoder.\<close>

definition unmarshalIf :: "uuidCodec \<Rightarrow> registry \<Rightarrow> string + json \<Rightarrow> MessageType list \<Rightarrow> string + Msg" where
  "unmarshalIf C R r allowed =
     (case (case r of Inl e \<Rightarrow> Inl e | Inr j \<Rightarrow> decPartial C j \<lparr>pm_Meta = zeroMeta, pm_Payload = None\<rparr>) of
        Inl e \<Rightarrow> Inl (''invalid JSON message: '' @ e)
      | Inr pm \<Rightarrow>
          if length allowed > 0 \<and> \<not> isIn allowed (T (pm_Meta pm))
          then Inl (''invalid message '' @ MessageType_String R (T (pm_Meta pm)) @ '' for this peer'')
          else unmarshalBody C R pm)"

definition UnmarshalRequest :: "uuidCodec \<Rightarrow> registry \<Rightarrow> string + json \<Rightarrow> string + Msg" where
  "UnmarshalRequest C R r = unmarshalIf C R r [CallMsg, SubMsg, UnsbMsg, PubMsg]"

definition UnmarshalResponse :: "uuidCodec \<Rightarrow> registry \<Rightarrow> string + json \<Rightarrow> string + Msg" where
  "UnmarshalResponse C R r = unmarshalIf C R r [ErrMsg, OKMsg, EvntMsg, ResMsg]"

definition Unmarshal :: "uuidCodec \<Rightarrow> registry \<Rightarrow> string + json \<Rightarrow> string + Msg" where
  "Unmarshal C R r = unmarshalIf C R r []"

end
