(* ===== verification/Juggler_Msg_Properties.thy ===== *)
theory Juggler_Msg_Properties
  imports Juggler_Msg
begin

text \<open>
  Properties of the messages: what is marshaled is unmarshaled to the same message, each peer accepts exactly
  the messages meant for it, custom types never collide, and an error message names the request it is about.
\<close>

section \<open>Round trip\<close>

definition wf_meta :: "MessageType \<Rightarrow> Meta \<Rightarrow> bool" where
  "wf_meta t m \<longleftrightarrow> T m = t"

definition wf_for :: "'a OKPld_scheme \<Rightarrow> bool" where
  "wf_for p \<longleftrightarrow> int64 (o_ForType p) \<and> validString (o_URI p) \<and> validString (o_Channel p)"

fun wf_msg :: "Msg \<Rightarrow> bool" where
  "wf_msg (Call m p) \<longleftrightarrow> wf_meta CallMsg m \<and> validString (c_URI p) \<and> int64 (c_Timeout p) \<and> c_Args p \<noteq> None"
| "wf_msg (Sub m p) \<longleftrightarrow> wf_meta SubMsg m \<and> validString (s_Channel p)"
| "wf_msg (Unsb m p) \<longleftrightarrow> wf_meta UnsbMsg m \<and> validString (s_Channel p)"
| "wf_msg (Pub m p) \<longleftrightarrow> wf_meta PubMsg m \<and> validString (p_Channel p) \<and> p_Args p \<noteq> None"
| "wf_msg (Err m p) \<longleftrightarrow> wf_meta ErrMsg m \<and> wf_for p \<and> int64 (e_Code p) \<and> validString (e_Message p)"
| "wf_msg (OK m p) \<longleftrightarrow> wf_meta OKMsg m \<and> wf_for p"
| "wf_msg (Res m p) \<longleftrightarrow> wf_meta ResMsg m \<and> validString (r_URI p) \<and> r_Args p \<noteq> None"
| "wf_msg (Evnt m p) \<longleftrightarrow> wf_meta EvntMsg m \<and> validString (v_Channel p) \<and> validString (v_Pattern p) \<and> v_Args p \<noteq> None"
| "wf_msg (OtherMsg _ _) \<longleftrightarrow> False"

text \<open>The wrapped Go error of an error message stays at home.\<close>

fun wire :: "Msg \<Rightarrow> Msg" where
  "wire (Err m p) = Err m (p\<lparr>e_Err := None\<rparr>)"
| "wire m = m"

text \<open>The identifiers of a message, and what is relied on of the package that renders them: a UUID is 16 bytes.\<close>

fun uuidsOf :: "Msg \<Rightarrow> uuid list" where
  "uuidsOf (Err m p) = [U m, o_For p]"
| "uuidsOf (OK m p) = [U m, o_For p]"
| "uuidsOf (Res m p) = [U m, r_For p]"
| "uuidsOf (Evnt m p) = [U m, v_For p]"
| "uuidsOf m = [U (Msg_Meta m)]"

definition wf_uuid :: "uuid \<Rightarrow> bool" where
  "wf_uuid u \<longleftrightarrow> length u = 16"

definition uuid_laws :: "uuidCodec \<Rightarrow> bool" where
  "uuid_laws C \<longleftrightarrow> (\<forall>u old. wf_uuid u \<longrightarrow> udec C (uenc C u) old = Inr u)"

lemma uuid_back [simp]: "uuid_laws C \<Longrightarrow> wf_uuid u \<Longrightarrow> udec C (uenc C u) old = Inr u"
  by (simp add: uuid_laws_def)

lemma decMembers_step:
  "map_of fs k = Some (field d get put) \<Longrightarrow> d j (get s) = Inr v \<Longrightarrow> decMembers fs ((k, j) # ms) s = decMembers fs ms (put v s)"
  by (simp add: findField_def field_def)

lemmas member_simps = findField_def field_def

lemma decMeta_marshal [simp]: "uuid_laws C \<Longrightarrow> wf_uuid (U m) \<Longrightarrow> int64 (T m) \<Longrightarrow> decMeta C (marshalMeta C m) old = Inr m"
  by (simp add: decMeta_def marshalMeta_def decStruct_def member_simps)

lemma decPartial_marshal [simp]:
  "uuid_laws C \<Longrightarrow> wf_uuid (U (Msg_Meta m)) \<Longrightarrow> int64 (T (Msg_Meta m)) \<Longrightarrow>
    decPartial C (marshal C m) old = Inr \<lparr>pm_Meta = Msg_Meta m, pm_Payload = Some (marshalPayload C m)\<rparr>"
  by (simp add: decPartial_def marshal_def decStruct_def member_simps decRaw_def)

lemma decFor_marshal:
  assumes "uuid_laws C" "wf_uuid (o_For p)" "wf_for p" "o_URI s = []" "o_Channel s = []"
  shows "decMembers (forFields C @ fs) (marshalFor C p @ ms) s =
    decMembers (forFields C @ fs) ms (s\<lparr>o_For := o_For p, o_ForType := o_ForType p, o_URI := o_URI p, o_Channel := o_Channel p\<rparr>)"
proof -
  let ?s = "s\<lparr>o_For := o_For p, o_ForType := o_ForType p\<rparr>"
  have u: "map_of (forFields C @ fs) ''uri'' = Some (field decString o_URI (\<lambda>v p. p\<lparr>o_URI := v\<rparr>))"
    and c: "map_of (forFields C @ fs) ''channel'' = Some (field decString o_Channel (\<lambda>v p. p\<lparr>o_Channel := v\<rparr>))"
    by (simp_all add: forFields_def)
  have "decMembers (forFields C @ fs) (marshalFor C p @ ms) s =
      decMembers (forFields C @ fs) (omitEmpty ''uri'' (o_URI p) @ omitEmpty ''channel'' (o_Channel p) @ ms) ?s"
    using assms(1-3) by (simp add: marshalFor_def forFields_def findField_def field_def wf_for_def)
  also have "\<dots> = decMembers (forFields C @ fs) (omitEmpty ''channel'' (o_Channel p) @ ms) (?s\<lparr>o_URI := o_URI p\<rparr>)"
    by (rule decMembers_omit [OF u]) (use assms in \<open>simp_all add: wf_for_def\<close>)
  also have "\<dots> = decMembers (forFields C @ fs) ms (?s\<lparr>o_URI := o_URI p, o_Channel := o_Channel p\<rparr>)"
    by (rule decMembers_omit [OF c]) (use assms in \<open>simp_all add: wf_for_def\<close>)
  finally show ?thesis by simp
qed

lemma type_int64: "int64 CallMsg" "int64 SubMsg" "int64 UnsbMsg" "int64 PubMsg" "int64 ErrMsg" "int64 OKMsg" "int64 ResMsg" "int64 EvntMsg"
  by (simp_all add: int64_def type_defs)

lemma unmarshal_marshal:
  assumes "uuid_laws C" "wf_uuid (U (Msg_Meta m))" "int64 (T (Msg_Meta m))"
  shows "Unmarshal C R (Inr (marshal C m)) = unmarshalBody C R \<lparr>pm_Meta = Msg_Meta m, pm_Payload = Some (marshalPayload C m)\<rparr>"
  using assms by (simp add: Unmarshal_def unmarshalIf_def)

lemma unmarshal_wire:
  assumes "uuid_laws C" "\<forall>u\<in>set (uuidsOf m). wf_uuid u" "wf_msg m"
  shows "Unmarshal C R (Inr (marshal C m)) = Inr (wire m)"
proof (cases m)
  case (Call mt p)
  with assms obtain a where "c_Args p = Some a" "T mt = CallMsg" by (auto simp: wf_meta_def)
  with Call assms show ?thesis
    by (simp add: unmarshal_marshal type_int64 unmarshalBody_def genericUnmarshal_def decCall_def decStruct_def member_simps)
next
  case (Sub mt p)
  then have "T mt = SubMsg" using assms by (simp add: wf_meta_def)
  with Sub assms show ?thesis
    by (simp add: unmarshal_marshal type_int64 unmarshalBody_def genericUnmarshal_def decSub_def decStruct_def member_simps) (simp add: type_defs)
next
  case (Unsb mt p)
  then have "T mt = UnsbMsg" using assms by (simp add: wf_meta_def)
  with Unsb assms show ?thesis
    by (simp add: unmarshal_marshal type_int64 unmarshalBody_def genericUnmarshal_def decSub_def decStruct_def member_simps) (simp add: type_defs)
next
  case (Pub mt p)
  with assms obtain a where "p_Args p = Some a" "T mt = PubMsg" by (auto simp: wf_meta_def)
  with Pub assms show ?thesis
    by (simp add: unmarshal_marshal type_int64 unmarshalBody_def genericUnmarshal_def decPub_def decStruct_def member_simps) (simp add: type_defs)
next
  case (Err mt p)
  then have "T mt = ErrMsg" using assms by (simp add: wf_meta_def)
  moreover have "decErr C (marshalPayload C m)
      \<lparr>o_For = [], o_ForType = 0, o_URI = [], o_Channel = [], e_Code = 0, e_Message = [], e_Err = None\<rparr> = Inr (p\<lparr>e_Err := None\<rparr>)"
    using Err assms by (simp add: decErr_def decStruct_def decFor_marshal) (simp add: forFields_def member_simps)
  ultimately show ?thesis using Err assms
    by (simp add: unmarshal_marshal type_int64 unmarshalBody_def genericUnmarshal_def) (simp add: type_defs)
next
  case (OK mt p)
  then have "T mt = OKMsg" using assms by (simp add: wf_meta_def)
  moreover have "decOK C (marshalPayload C m) \<lparr>o_For = [], o_ForType = 0, o_URI = [], o_Channel = []\<rparr> = Inr p"
    using OK assms decFor_marshal [of C p "\<lparr>o_For = [], o_ForType = 0, o_URI = [], o_Channel = []\<rparr>" "[]" "[]"]
    by (cases p) (simp add: decOK_def decStruct_def)
  ultimately show ?thesis using OK assms
    by (simp add: unmarshal_marshal type_int64 unmarshalBody_def genericUnmarshal_def) (simp add: type_defs)
next
  case (Res mt p)
  with assms obtain a where a: "r_Args p = Some a" "T mt = ResMsg" by (auto simp: wf_meta_def)
  have "decRes C (marshalPayload C m) \<lparr>r_For = [], r_URI = [], r_Args = None\<rparr> = Inr p"
    using Res assms a by (simp add: decRes_def decStruct_def omitEmpty_def member_simps)
  with a Res assms show ?thesis
    by (simp add: unmarshal_marshal type_int64 unmarshalBody_def genericUnmarshal_def) (simp add: type_defs)
next
  case (Evnt mt p)
  with assms obtain a where a: "v_Args p = Some a" "T mt = EvntMsg" by (auto simp: wf_meta_def)
  have "decEvnt C (marshalPayload C m) \<lparr>v_For = [], v_Channel = [], v_Pattern = [], v_Args = None\<rparr> = Inr p"
    using Evnt assms a by (simp add: decEvnt_def decStruct_def omitEmpty_def member_simps)
  with a Evnt assms show ?thesis
    by (simp add: unmarshal_marshal type_int64 unmarshalBody_def genericUnmarshal_def) (simp add: type_defs)
qed (use assms in simp)

text \<open>
  C26. Every message of the protocol with 16-byte identifiers, valid text and integers in range, and with arguments where its kind
  has them, is unmarshaled from its JSON form to the same message; only the wrapped error of an error message is left out.
  Of the UUID package it is relied on that a UUID of 16 bytes is read back from its JSON form.
\<close>

theorem message_round_trip:
  assumes "uuid_laws C" "\<forall>u\<in>set (uuidsOf m). wf_uuid u" "wf_msg m"
  shows "Unmarshal C R (Inr (marshal C m)) = Inr (wire m)"
  by (rule unmarshal_wire [OF assms])

section \<open>Peers\<close>

lemma unmarshalBody_type: "unmarshalBody C R pm = Inr m \<Longrightarrow> Type m = T (pm_Meta pm) \<and> (IsRead (Type m) \<or> IsWrite (Type m))"
  by (auto simp: unmarshalBody_def genericUnmarshal_def Let_def Type_def IsRead_def IsWrite_def type_defs split: if_splits option.splits sum.splits)

text \<open>
  C27. Of the messages that can be unmarshaled at all, the server's end accepts exactly those that are reads and the client's
  end exactly those that are writes; every message is one or the other and none is both.
\<close>

theorem peers_split_messages:
  assumes "Unmarshal C R r = Inr m"
  shows "(UnmarshalRequest C R r = Inr m \<longleftrightarrow> IsRead (Type m)) \<and> (UnmarshalResponse C R r = Inr m \<longleftrightarrow> IsWrite (Type m)) \<and>
    (IsRead (Type m) \<longleftrightarrow> \<not> IsWrite (Type m))"
proof -
  obtain pm where pm: "(case r of Inl e \<Rightarrow> Inl e | Inr j \<Rightarrow> decPartial C j \<lparr>pm_Meta = zeroMeta, pm_Payload = None\<rparr>) = Inr pm"
      "unmarshalBody C R pm = Inr m"
    using assms by (auto simp: Unmarshal_def unmarshalIf_def split: sum.splits)
  have t: "T (pm_Meta pm) = Type m" "IsRead (Type m) \<or> IsWrite (Type m)" using unmarshalBody_type [OF pm(2)] by auto
  have "isIn [CallMsg, SubMsg, UnsbMsg, PubMsg] (Type m) \<longleftrightarrow> IsRead (Type m)"
    "isIn [ErrMsg, OKMsg, EvntMsg, ResMsg] (Type m) \<longleftrightarrow> IsWrite (Type m)"
    by (auto simp: isIn_def IsRead_def IsWrite_def type_defs)
  moreover have "\<not> (IsRead (Type m) \<and> IsWrite (Type m))" by (simp add: IsRead_def IsWrite_def type_defs)
  ultimately show ?thesis using pm t by (auto simp: UnmarshalRequest_def UnmarshalResponse_def unmarshalIf_def)
qed

section \<open>Custom types\<close>

lemma update_nonkey: "k \<notin> fst ` set al \<Longrightarrow> AList.update k v al = al @ [(k, v)]"
  by (induction al) auto

inductive registered :: "registry \<Rightarrow> bool" where
  init: "registered initRegistry"
| custom: "registered r \<Longrightarrow> RegisterCustomMsg name r = Ret mt r' \<Longrightarrow> registered r'"

lemma registered_inv:
  "registered r \<Longrightarrow> customMsg \<le> nextCustomMsg r \<and> (\<forall>x\<in>set (lookupMessageType r). fst x < nextCustomMsg r) \<and>
    inj_on snd (set (lookupMessageType r))"
proof (induction rule: registered.induct)
  case init
  show ?case by (simp add: initRegistry_def type_defs)
next
  case (custom r name mt r')
  have r: "r' = r\<lparr>nextCustomMsg := nextCustomMsg r + 1, lookupMessageType := AList.update (nextCustomMsg r) name (lookupMessageType r)\<rparr>"
      "name \<notin> snd ` set (lookupMessageType r)"
    using custom.hyps(2) by (auto simp: RegisterCustomMsg_def Let_def split: if_splits)
  have "nextCustomMsg r \<notin> fst ` set (lookupMessageType r)" using custom.IH by fastforce
  then have "AList.update (nextCustomMsg r) name (lookupMessageType r) = lookupMessageType r @ [(nextCustomMsg r, name)]"
    by (rule update_nonkey)
  then show ?case using custom.IH r by (fastforce simp: inj_on_def)
qed

text \<open>
  Registering a name that is not taken gives a type of its own: at least 256, neither a read nor a write, printed by its
  name, with every other type printed as before; registering the name again panics.
\<close>

lemma custom_type_fresh:
  assumes "registered r" "RegisterCustomMsg name r = Ret mt r'"
  shows "256 \<le> mt \<and> map_of (lookupMessageType r) mt = None \<and> \<not> IsRead mt \<and> \<not> IsWrite mt \<and>
    (name \<noteq> [] \<longrightarrow> MessageType_String r' mt = name) \<and> (\<forall>t. t \<noteq> mt \<longrightarrow> MessageType_String r' t = MessageType_String r t) \<and>
    (\<exists>x. RegisterCustomMsg name r' = Panic x r')"
proof -
  note i = registered_inv [OF assms(1)]
  have r: "r' = r\<lparr>nextCustomMsg := nextCustomMsg r + 1, lookupMessageType := AList.update (nextCustomMsg r) name (lookupMessageType r)\<rparr>" "mt = nextCustomMsg r"
    using assms(2) by (auto simp: RegisterCustomMsg_def Let_def split: if_splits)
  have n: "nextCustomMsg r \<notin> fst ` set (lookupMessageType r)" using i by fastforce
  then have "lookupMessageType r' = lookupMessageType r @ [(mt, name)]" using r update_nonkey by fastforce
  then have "name \<in> snd ` set (lookupMessageType r')" by simp
  then show ?thesis using i n r
    by (auto simp: MessageType_String_def update_conv' map_of_eq_None_iff IsRead_def IsWrite_def type_defs RegisterCustomMsg_def)
qed

section \<open>Errors\<close>

definition about :: "Msg \<Rightarrow> uuid \<times> MessageType \<times> gobytes \<times> gobytes" where
  "about m =
     (case m of
        Call mt p \<Rightarrow> (U mt, T mt, c_URI p, [])
      | Pub mt p \<Rightarrow> (U mt, T mt, [], p_Channel p)
      | Sub mt p \<Rightarrow> (U mt, T mt, [], s_Channel p)
      | Unsb mt p \<Rightarrow> (U mt, T mt, [], s_Channel p)
      | OK mt p \<Rightarrow> (o_For p, o_ForType p, o_URI p, o_Channel p)
      | Err mt p \<Rightarrow> (o_For p, o_ForType p, o_URI p, o_Channel p)
      | Evnt mt p \<Rightarrow> (v_For p, PubMsg, [], v_Channel p)
      | Res mt p \<Rightarrow> (r_For p, CallMsg, r_URI p, [])
      | OtherMsg mt _ \<Rightarrow> (U mt, T mt, [], []))"

lemma about_NewErr: "about (NewErr u m c e) = about m"
  by (cases m) (simp_all add: about_def NewErr_def errOrigin_def UUID_def Type_def)

lemma about_NewOK: "IsRead (Type m) \<Longrightarrow> wf_msg m \<Longrightarrow> about (NewOK u m) = about m"
  by (cases m) (simp_all add: about_def NewOK_def UUID_def Type_def wf_meta_def IsRead_def type_defs)

text \<open>
  C28. An error or acknowledgement of a client's message names that message, its kind and its URI or channel; an error
  about a server's message, and an error about that error, name the client's message the server's message was about.
\<close>

theorem errors_name_origin:
  "about (NewErr u m c e) = about m \<and> about (NewErr u' (NewErr u m c e) c' e') = about m \<and>
   about (NewErr u' (NewOK u m) c' e') = about (NewOK u m) \<and>
   (IsRead (Type m) \<longrightarrow> wf_msg m \<longrightarrow> about (NewOK u m) = about m)"
  by (simp add: about_NewErr about_NewOK)

section \<open>Concrete runs\<close>

text \<open>
  UUIDs the way the package renders them: 16 bytes in groups of hexadecimal digits, any other as the empty string, which is
  read as no UUID.
\<close>

definition hexDigits :: string where
  "hexDigits = ''0123456789abcdef''"

definition hexByte :: "char \<Rightarrow> string" where
  "hexByte c = [hexDigits ! (of_char c div 16), hexDigits ! (of_char c mod 16)]"

definition hexValue :: "char \<Rightarrow> nat" where
  "hexValue c = length (takeWhile (\<lambda>d. d \<noteq> c) hexDigits)"

fun hexBytes :: "string \<Rightarrow> gobytes" where
  "hexBytes (a # b # s) = char_of (hexValue a * 16 + hexValue b) # hexBytes s"
| "hexBytes _ = []"

definition uuidText :: "uuid \<Rightarrow> string" where
  "uuidText u =
     (if length u \<noteq> 16 then []
      else (let h = concat (map hexByte u)
            in take 8 h @ ''-'' @ take 4 (drop 8 h) @ ''-'' @ take 4 (drop 12 h) @ ''-'' @ take 4 (drop 16 h) @ ''-'' @ drop 20 h))"

definition uuidShape :: "bool list" where
  "uuidShape = replicate 8 True @ [False] @ replicate 4 True @ [False] @ replicate 4 True @ [False] @ replicate 4 True @ [False] @ replicate 12 True"

definition uuidChar :: "bool \<Rightarrow> char \<Rightarrow> bool" where
  "uuidChar digit c \<longleftrightarrow> (if digit then c \<in> set hexDigits else c = CHR ''-'')"

definition hexCodec :: uuidCodec where
  "hexCodec = \<lparr>uenc = (\<lambda>u. JStr (uuidText u)),
     udec = (\<lambda>j old. case j of
         JStr s \<Rightarrow>
           (if s = [] then Inr old
            else if list_all2 uuidChar uuidShape s
            then Inr (hexBytes (filter (\<lambda>c. c \<noteq> CHR ''-'') s))
            else Inl ''invalid UUID'')
       | _ \<Rightarrow> Inl ''invalid UUID''),
     ustring = uuidText\<rparr>"

lemma hexValue_digit: "n < 16 \<Longrightarrow> hexValue (hexDigits ! n) = n"
  by (auto simp: hexValue_def hexDigits_def less_Suc_eq numeral_eq_Suc)

lemma hexDigit_in: "n < 16 \<Longrightarrow> hexDigits ! n \<in> set hexDigits"
  by (rule nth_mem) (simp add: hexDigits_def)

lemma nibbles: "of_char c div 16 < (16 :: nat)" "of_char c mod 16 < (16 :: nat)"
  using nat_of_char_less_256 [of c] by (simp_all add: less_mult_imp_div_less)

lemma hexBytes_hex: "hexBytes (concat (map hexByte u)) = u"
  by (induction u) (simp_all add: hexByte_def hexValue_digit nibbles)

lemma hex_digits: "c \<in> set (concat (map hexByte u)) \<Longrightarrow> c \<in> set hexDigits"
  by (auto simp: hexByte_def hexDigit_in nibbles)

lemma hex_length: "length (concat (map hexByte u)) = 2 * length u"
  by (induction u) (simp_all add: hexByte_def)

lemma uuidChar_all: "list_all2 uuidChar (replicate n True) s \<longleftrightarrow> length s = n \<and> set s \<subseteq> set hexDigits"
  by (auto simp: list_all2_conv_all_nth uuidChar_def in_set_conv_nth subset_iff)

lemma uuidChar_group:
  "length l = n \<Longrightarrow> set l \<subseteq> set hexDigits \<Longrightarrow> list_all2 uuidChar xs s \<Longrightarrow> list_all2 uuidChar (replicate n True @ [False] @ xs) (l @ ''-'' @ s)"
  by (simp add: list_all2_append uuidChar_all) (simp add: uuidChar_def)

lemma hexCodec_laws: "uuid_laws hexCodec"
proof -
  have "udec hexCodec (uenc hexCodec u) old = Inr u" if u: "wf_uuid u" for u old
  proof -
    define h where "h = concat (map hexByte u)"
    have h: "length h = 32" "hexBytes h = u" "set h \<subseteq> set hexDigits"
      using u hex_length [of u] hex_digits [of _ u] by (auto simp: h_def wf_uuid_def hexBytes_hex)
    let ?p = "[take 8 h, take 4 (drop 8 h), take 4 (drop 12 h), take 4 (drop 16 h), drop 20 h]"
    have t: "uuidText u = take 8 h @ ''-'' @ take 4 (drop 8 h) @ ''-'' @ take 4 (drop 12 h) @ ''-'' @ take 4 (drop 16 h) @ ''-'' @ drop 20 h"
      using u by (simp add: uuidText_def wf_uuid_def h_def Let_def)
    have s: "drop k h = take n (drop k h) @ drop (n + k) h" for n k by (simp flip: drop_drop)
    have p: "concat ?p = h" using s [of 0 8] s [of 8 4] s [of 12 4] s [of 16 4] by simp
    have d: "\<forall>x\<in>set ?p. set x \<subseteq> set hexDigits" using h(3) by (auto dest: in_set_takeD in_set_dropD)
    have "CHR ''-'' \<notin> set hexDigits" by (simp add: hexDigits_def)
    then have f: "filter (\<lambda>c. c \<noteq> CHR ''-'') x = x" if "x \<in> set ?p" for x using bspec [OF d that] by (intro filter_True) auto
    then have "filter (\<lambda>c. c \<noteq> CHR ''-'') (uuidText u) = concat ?p" unfolding t by (simp add: f)
    from trans [OF this p] have "hexBytes (filter (\<lambda>c. c \<noteq> CHR ''-'') (uuidText u)) = u" by (simp only: h(2))
    moreover have "list_all2 uuidChar uuidShape (uuidText u)"
      unfolding t uuidShape_def
      by (intro uuidChar_group) (use d h(1) in \<open>simp_all add: uuidChar_all\<close>)
    moreover have "uuidText u \<noteq> []" unfolding t by simp
    ultimately show ?thesis by (simp add: hexCodec_def)
  qed
  then show ?thesis unfolding uuid_laws_def by blast
qed

definition plainCodec :: uuidCodec where
  "plainCodec = \<lparr>uenc = JStr, udec = decString, ustring = (\<lambda>u. u)\<rparr>"

definition aCall :: Msg where
  "aCall = Call \<lparr>T = 1, U = ''0123456789abcdef''\<rparr> \<lparr>c_URI = ''x.add'', c_Timeout = 1000, c_Args = Some (JArr [JInt 1, JInt 2])\<rparr>"

lemma aCall_wf: "wf_msg aCall"
proof -
  have "validString ''x.add''" by code_simp
  then show ?thesis by (simp add: aCall_def wf_meta_def type_defs int64_def)
qed

lemma aCall_uuids: "\<forall>u\<in>set (uuidsOf aCall). wf_uuid u"
  by (simp add: aCall_def wf_uuid_def)

theorem message_round_trip_witness: "Unmarshal hexCodec initRegistry (Inr (marshal hexCodec aCall)) = Inr aCall"
  using message_round_trip [OF hexCodec_laws aCall_uuids aCall_wf] by (simp add: aCall_def)

theorem peers_split_messages_witness:
  "UnmarshalRequest hexCodec initRegistry (Inr (marshal hexCodec aCall)) = Inr aCall \<and>
   UnmarshalResponse hexCodec initRegistry (Inr (marshal hexCodec aCall)) \<noteq> Inr aCall"
proof -
  have u: "Unmarshal hexCodec initRegistry (Inr (marshal hexCodec aCall)) = Inr aCall"
    using unmarshal_wire [OF hexCodec_laws aCall_uuids aCall_wf] by (simp add: aCall_def)
  have "IsRead (Type aCall)" by (simp add: aCall_def Type_def IsRead_def type_defs)
  with peers_split_messages [OF u] show ?thesis by simp
qed

theorem errors_name_origin_witness:
  "about (NewOK ''v'' aCall) = (''0123456789abcdef'', 1, ''x.add'', [])"
proof -
  have "IsRead (Type aCall)" by (simp add: aCall_def Type_def IsRead_def type_defs)
  with errors_name_origin [where m = aCall and u = "''v''"] aCall_wf show ?thesis by (simp add: about_def aCall_def)
qed

end
