(* ===== verification/Juggler_Broker.thy ===== *)
theory Juggler_Broker
  imports Juggler_Msg
begin

text \<open>
  The Redis broker, \<^verbatim>\<open>juggler/broker/redisbroker\<close>, and the Lua scripts it sends. The Redis server is not part
  of the repository: its commands are an argument, a record of functions on an abstract server
  state, and the locale \<open>redis_server\<close> states what the documentation of the commands says of them. Time passes at the
  server between two commands: \<open>rWait\<close> is the server after some milliseconds in which keys expire. Durations of the
  broker are nanoseconds, as in Go.
\<close>

section \<open>Redis\<close>

datatype rval = RStr string | RList "json list"

datatype popped = PopNil | PopErr string | PopVal string json

record 's redis =
  rSETPX :: "string \<Rightarrow> string \<Rightarrow> int \<Rightarrow> 's \<Rightarrow> string option \<times> 's"
  rLPUSH :: "string \<Rightarrow> json \<Rightarrow> 's \<Rightarrow> (string + int) \<times> 's"
  rLTRIM :: "string \<Rightarrow> int \<Rightarrow> int \<Rightarrow> 's \<Rightarrow> string option \<times> 's"
  rPTTL :: "string \<Rightarrow> 's \<Rightarrow> string + int"
  rDEL :: "string \<Rightarrow> 's \<Rightarrow> string option \<times> 's"
  rBRPOP :: "string list \<Rightarrow> int \<Rightarrow> 's \<Rightarrow> popped \<times> 's"
  rPUBLISH :: "gobytes \<Rightarrow> json \<Rightarrow> 's \<Rightarrow> string option \<times> 's"
  rWait :: "int \<Rightarrow> 's \<Rightarrow> 's"

definition listOf :: "rval option \<Rightarrow> json list" where
  "listOf v = (case v of Some (RList l) \<Rightarrow> l | _ \<Rightarrow> [])"

definition mkList :: "json list \<Rightarrow> rval option" where
  "mkList l = (if l = [] then None else Some (RList l))"

section \<open>Keys and scripts\<close>

definition callKey :: "gobytes \<Rightarrow> string" where
  "callKey uri = ''juggler:calls:{'' @ uri @ ''}''"

definition callTimeoutKey :: "gobytes \<Rightarrow> string \<Rightarrow> string" where
  "callTimeoutKey uri mUUID = ''juggler:calls:timeout:{'' @ uri @ ''}:'' @ mUUID"

definition resKey :: "string \<Rightarrow> string" where
  "resKey cUUID = ''juggler:results:{'' @ cUUID @ ''}''"

definition resTimeoutKey :: "string \<Rightarrow> string \<Rightarrow> string" where
  "resTimeoutKey cUUID mUUID = ''juggler:results:timeout:{'' @ cUUID @ ''}:'' @ mUUID"

text \<open>An error of a command ends the script, with the effects it has had so far.\<close>

definition callOrResScript :: "'s redis \<Rightarrow> string \<Rightarrow> string \<Rightarrow> int \<Rightarrow> json \<Rightarrow> int \<Rightarrow> 's \<Rightarrow> (string + int) \<times> 's" where
  "callOrResScript R k1 k2 to p limit s =
     (case rSETPX R k1 (itoa to) to s of
        (Some e, s1) \<Rightarrow> (Inl e, s1)
      | (None, s1) \<Rightarrow>
          (case rLPUSH R k2 p s1 of
             (Inl e, s2) \<Rightarrow> (Inl e, s2)
           | (Inr res, s2) \<Rightarrow>
               if res > limit \<and> limit > 0 then
                 (let diff = res - limit in
                  case rLTRIM R k2 diff (limit + diff) s2 of
                    (Some e, s3) \<Rightarrow> (Inl e, s3)
                  | (None, s3) \<Rightarrow> (Inl ''list capacity exceeded'', s3))
               else (Inr res, s2)))"

definition delAndPTTLScript :: "'s redis \<Rightarrow> string \<Rightarrow> 's \<Rightarrow> (string + int) \<times> 's" where
  "delAndPTTLScript R k s =
     (case rPTTL R k s of
        Inl e \<Rightarrow> (Inl e, s)
      | Inr res \<Rightarrow> (case rDEL R k s of (Some e, s1) \<Rightarrow> (Inl e, s1) | (None, s1) \<Rightarrow> (Inr res, s1)))"

section \<open>Payloads\<close>

definition omitRaw :: "string \<Rightarrow> json option \<Rightarrow> (string \<times> json) list" where
  "omitRaw k r = (case r of None \<Rightarrow> [] | Some j \<Rightarrow> [(k, j)])"

definition marshalCallPayload :: "uuidCodec \<Rightarrow> CallPayload \<Rightarrow> json" where
  "marshalCallPayload C cp = JObj ([(''conn_uuid'', uenc C (cp_ConnUUID cp)), (''msg_uuid'', uenc C (cp_MsgUUID cp)),
     (''uri'', jstr (cp_URI cp))] @ omitRaw ''args'' (cp_Args cp))"

definition decCallPayload :: "uuidCodec \<Rightarrow> CallPayload decoder" where
  "decCallPayload C = decStruct [(''conn_uuid'', field (udec C) cp_ConnUUID (\<lambda>v p. p\<lparr>cp_ConnUUID := v\<rparr>)),
     (''msg_uuid'', field (udec C) cp_MsgUUID (\<lambda>v p. p\<lparr>cp_MsgUUID := v\<rparr>)), (''uri'', field decString cp_URI (\<lambda>v p. p\<lparr>cp_URI := v\<rparr>)),
     (''args'', field decRaw cp_Args (\<lambda>v p. p\<lparr>cp_Args := v\<rparr>))]"

definition zeroCallPayload :: CallPayload where
  "zeroCallPayload = \<lparr>cp_ConnUUID = [], cp_MsgUUID = [], cp_URI = [], cp_Args = None, TTLAfterRead = 0, ReadTimestamp = 0\<rparr>"

definition marshalResPayload :: "uuidCodec \<Rightarrow> ResPayload \<Rightarrow> json" where
  "marshalResPayload C rp = JObj ([(''conn_uuid'', uenc C (rp_ConnUUID rp)), (''msg_uuid'', uenc C (rp_MsgUUID rp)),
     (''uri'', jstr (rp_URI rp))] @ omitRaw ''args'' (rp_Args rp))"

definition decResPayload :: "uuidCodec \<Rightarrow> ResPayload decoder" where
  "decResPayload C = decStruct [(''conn_uuid'', field (udec C) rp_ConnUUID (\<lambda>v p. p\<lparr>rp_ConnUUID := v\<rparr>)),
     (''msg_uuid'', field (udec C) rp_MsgUUID (\<lambda>v p. p\<lparr>rp_MsgUUID := v\<rparr>)), (''uri'', field decString rp_URI (\<lambda>v p. p\<lparr>rp_URI := v\<rparr>)),
     (''args'', field decRaw rp_Args (\<lambda>v p. p\<lparr>rp_Args := v\<rparr>))]"

definition zeroResPayload :: ResPayload where
  "zeroResPayload = \<lparr>rp_ConnUUID = [], rp_MsgUUID = [], rp_URI = [], rp_Args = None\<rparr>"

definition marshalPubPayload :: "uuidCodec \<Rightarrow> PubPayload \<Rightarrow> json" where
  "marshalPubPayload C pp = JObj ((''msg_uuid'', uenc C (pp_MsgUUID pp)) # omitRaw ''args'' (pp_Args pp))"

definition decPubPayload :: "uuidCodec \<Rightarrow> PubPayload decoder" where
  "decPubPayload C = decStruct [(''msg_uuid'', field (udec C) pp_MsgUUID (\<lambda>v p. p\<lparr>pp_MsgUUID := v\<rparr>)),
     (''args'', field decRaw pp_Args (\<lambda>v p. p\<lparr>pp_Args := v\<rparr>))]"

section \<open>Registering calls and results\<close>

definition Millisecond :: int where "Millisecond = 1000000"
definition Second :: int where "Second = 1000 * Millisecond"
definition DefaultCallTimeout :: int where "DefaultCallTimeout = 60 * Second"

text \<open>Go's integer division truncates towards zero.\<close>

definition quot :: "int \<Rightarrow> int \<Rightarrow> int" where
  "quot a b = sgn a * (\<bar>a\<bar> div b)"

definition millis :: "int \<Rightarrow> int" where
  "millis timeout =
     (let to = quot timeout Millisecond in if to = 0 then quot DefaultCallTimeout Millisecond else to)"

definition registerCallOrRes :: "'s redis \<Rightarrow> json \<Rightarrow> int \<Rightarrow> int \<Rightarrow> string \<Rightarrow> string \<Rightarrow> 's \<Rightarrow> string option \<times> 's" where
  "registerCallOrRes R pld timeout cap k1 k2 s =
     (case callOrResScript R k1 k2 (millis timeout) pld cap s of
        (Inl e, s1) \<Rightarrow> (Some e, s1)
      | (Inr _, s1) \<Rightarrow> (None, s1))"

record brokerCfg =
  BlockingTimeout :: int
  CallCap :: int
  ResultCap :: int

definition Broker_Call :: "uuidCodec \<Rightarrow> 's redis \<Rightarrow> brokerCfg \<Rightarrow> CallPayload \<Rightarrow> int \<Rightarrow> 's \<Rightarrow> string option \<times> 's" where
  "Broker_Call C R b cp timeout s =
     (let k1 = callTimeoutKey (cp_URI cp) (ustring C (cp_MsgUUID cp)); k2 = callKey (cp_URI cp)
      in registerCallOrRes R (marshalCallPayload C cp) timeout (CallCap b) k1 k2 s)"

definition Broker_Result :: "uuidCodec \<Rightarrow> 's redis \<Rightarrow> brokerCfg \<Rightarrow> ResPayload \<Rightarrow> int \<Rightarrow> 's \<Rightarrow> string option \<times> 's" where
  "Broker_Result C R b rp timeout s =
     (let k1 = resTimeoutKey (ustring C (rp_ConnUUID rp)) (ustring C (rp_MsgUUID rp)); k2 = resKey (ustring C (rp_ConnUUID rp))
      in registerCallOrRes R (marshalResPayload C rp) timeout (ResultCap b) k1 k2 s)"

definition Broker_Publish :: "uuidCodec \<Rightarrow> 's redis \<Rightarrow> gobytes \<Rightarrow> PubPayload \<Rightarrow> 's \<Rightarrow> string option \<times> 's" where
  "Broker_Publish C R channel pp s = rPUBLISH R channel (marshalPubPayload C pp) s"

section \<open>The loops that read calls and results\<close>

text \<open>One round of a loop: a value for the channel, a round without one, or the error that ends the loop.\<close>

datatype 'p round = Deliver 'p | Skip | Stop string

text \<open>
  The time of a round: the milliseconds before it, in which the previous value is handed over, the milliseconds between the
  answer to \<^verbatim>\<open>BRPOP\<close> and the script, and what \<^verbatim>\<open>time.Now\<close> gives.
\<close>

record delay =
  before :: int
  between :: int
  clockAt :: int

definition callsRound :: "uuidCodec \<Rightarrow> 's redis \<Rightarrow> brokerCfg \<Rightarrow> gobytes list \<Rightarrow> delay \<Rightarrow> 's \<Rightarrow> CallPayload round \<times> 's" where
  "callsRound C R b uris d s =
     (case rBRPOP R (map callKey uris) (quot (BlockingTimeout b) Second) (rWait R (before d) s) of
        (PopNil, s1) \<Rightarrow> (Skip, s1)
      | (PopErr e, s1) \<Rightarrow> (Stop e, s1)
      | (PopVal _ j, s1) \<Rightarrow>
          (case decCallPayload C j zeroCallPayload of
             Inl _ \<Rightarrow> (Skip, s1)
           | Inr cp \<Rightarrow>
               (case delAndPTTLScript R (callTimeoutKey (cp_URI cp) (ustring C (cp_MsgUUID cp))) (rWait R (between d) s1) of
                  (Inl _, s2) \<Rightarrow> (Skip, s2)
                | (Inr pttl, s2) \<Rightarrow>
                    if pttl \<le> 0 then (Skip, s2)
                    else (Deliver (cp\<lparr>ReadTimestamp := clockAt d, TTLAfterRead := pttl * Millisecond\<rparr>), s2))))"

definition resultsRound :: "uuidCodec \<Rightarrow> 's redis \<Rightarrow> brokerCfg \<Rightarrow> uuid \<Rightarrow> delay \<Rightarrow> 's \<Rightarrow> ResPayload round \<times> 's" where
  "resultsRound C R b connUUID d s =
     (case rBRPOP R [resKey (ustring C connUUID)] (quot (BlockingTimeout b) Second) (rWait R (before d) s) of
        (PopNil, s1) \<Rightarrow> (Skip, s1)
      | (PopErr e, s1) \<Rightarrow> (Stop e, s1)
      | (PopVal _ j, s1) \<Rightarrow>
          (case decResPayload C j zeroResPayload of
             Inl _ \<Rightarrow> (Skip, s1)
           | Inr rp \<Rightarrow>
               (case delAndPTTLScript R (resTimeoutKey (ustring C (rp_ConnUUID rp)) (ustring C (rp_MsgUUID rp))) (rWait R (between d) s1) of
                  (Inl _, s2) \<Rightarrow> (Skip, s2)
                | (Inr pttl, s2) \<Rightarrow> if pttl \<le> 0 then (Skip, s2) else (Deliver rp, s2))))"

text \<open>The channel of a loop after as many rounds as there are delays, and the error of the loop once it has stopped.\<close>

fun rounds :: "(delay \<Rightarrow> 's \<Rightarrow> 'p round \<times> 's) \<Rightarrow> delay list \<Rightarrow> 's \<Rightarrow> 'p list \<times> string option \<times> 's" where
  "rounds f [] s = ([], None, s)"
| "rounds f (d # ds) s =
     (case f d s of
        (Stop e, s1) \<Rightarrow> ([], Some e, s1)
      | (Skip, s1) \<Rightarrow> rounds f ds s1
      | (Deliver p, s1) \<Rightarrow> (case rounds f ds s1 of (ps, e, s2) \<Rightarrow> (p # ps, e, s2)))"

definition Calls :: "uuidCodec \<Rightarrow> 's redis \<Rightarrow> brokerCfg \<Rightarrow> gobytes list \<Rightarrow> delay list \<Rightarrow> 's \<Rightarrow> CallPayload list \<times> string option \<times> 's" where
  "Calls C R b uris ds s = rounds (callsRound C R b uris) ds s"

definition Results :: "uuidCodec \<Rightarrow> 's redis \<Rightarrow> brokerCfg \<Rightarrow> uuid \<Rightarrow> delay list \<Rightarrow> 's \<Rightarrow> ResPayload list \<times> string option \<times> 's" where
  "Results C R b connUUID ds s = rounds (resultsRound C R b connUUID) ds s"

section \<open>Publish and subscribe\<close>

datatype subCmd = PSubscribe gobytes | PUnsubscribe gobytes | Subscribe gobytes | Unsubscribe gobytes

definition subUnsub :: "gobytes \<Rightarrow> bool \<Rightarrow> bool \<Rightarrow> subCmd" where
  "subUnsub ch pat sub =
     (if pat \<and> sub then PSubscribe ch else if pat \<and> \<not> sub then PUnsubscribe ch else if \<not> pat \<and> sub then Subscribe ch else Unsubscribe ch)"

datatype received = Message gobytes json | PMessage gobytes gobytes json | RecvError string | OtherRecv

definition newEvntPayload :: "uuidCodec \<Rightarrow> gobytes \<Rightarrow> gobytes \<Rightarrow> json \<Rightarrow> string + EvntPayload" where
  "newEvntPayload C channel pattern pld =
     (case decPubPayload C pld \<lparr>pp_MsgUUID = [], pp_Args = None\<rparr> of
        Inl e \<Rightarrow> Inl e
      | Inr pp \<Rightarrow> Inr \<lparr>ep_MsgUUID = pp_MsgUUID pp, ep_Channel = channel, ep_Pattern = pattern, ep_Args = pp_Args pp\<rparr>)"

fun eventsRound :: "uuidCodec \<Rightarrow> received \<Rightarrow> EvntPayload round" where
  "eventsRound C (Message ch d) = (case newEvntPayload C ch [] d of Inl _ \<Rightarrow> Skip | Inr ep \<Rightarrow> Deliver ep)"
| "eventsRound C (PMessage ch pat d) = (case newEvntPayload C ch pat d of Inl _ \<Rightarrow> Skip | Inr ep \<Rightarrow> Deliver ep)"
| "eventsRound C (RecvError e) = Stop e"
| "eventsRound C OtherRecv = Skip"

fun Events :: "uuidCodec \<Rightarrow> received list \<Rightarrow> EvntPayload list \<times> string option" where
  "Events C [] = ([], None)"
| "Events C (v # vs) =
     (case eventsRound C v of
        Stop e \<Rightarrow> ([], Some e)
      | Skip \<Rightarrow> Events C vs
      | Deliver ep \<Rightarrow> (case Events C vs of (eps, e) \<Rightarrow> (ep # eps, e)))"

end
