(* ===== verification/Juggler_Broker_Properties.thy ===== *)
theory Juggler_Broker_Properties
  imports Juggler_Broker Juggler_Msg_Properties
begin

text \<open>
  Properties of the broker on a Redis server that works as documented: the capacity of the queues, the timeouts,
  and the order in which registered calls reach the callee.
\<close>

section \<open>What the broker relies on\<close>

definition notStr :: "rval option \<Rightarrow> bool" where
  "notStr v \<longleftrightarrow> (\<forall>t. v \<noteq> Some (RStr t))"

text \<open>What some milliseconds do to the time a key has left, None for a key that does not expire.\<close>

definition expires :: "int \<Rightarrow> int option \<Rightarrow> bool" where
  "expires ms t \<longleftrightarrow> (case t of None \<Rightarrow> False | Some left \<Rightarrow> left \<le> ms)"

definition aged :: "int \<Rightarrow> int option \<Rightarrow> int option" where
  "aged ms t = (case t of None \<Rightarrow> None | Some left \<Rightarrow> if left \<le> ms then None else Some (left - ms))"

text \<open>
  The commands as the documentation of Redis describes them. \<^verbatim>\<open>BRPOP\<close> takes the last element of the first
  list that has one; its timeout is 0, for no timeout, or positive. A list without elements is no key. A key with a time to
  live is gone when the time is over.
\<close>

locale redis_server =
  fixes R :: "'s redis" and val :: "'s \<Rightarrow> string \<Rightarrow> rval option" and ttl :: "'s \<Rightarrow> string \<Rightarrow> int option"
  assumes setpx: "0 < ms \<Longrightarrow> \<exists>s'. rSETPX R k v ms s = (None, s') \<and> val s' = (val s)(k \<mapsto> RStr v) \<and> ttl s' = (ttl s)(k \<mapsto> ms)"
    and setpx_bad: "ms \<le> 0 \<Longrightarrow> \<exists>e. rSETPX R k v ms s = (Some e, s)"
    and lpush: "notStr (val s k) \<Longrightarrow> \<exists>s'. rLPUSH R k x s = (Inr (int (length (listOf (val s k))) + 1), s') \<and>
      val s' = (val s)(k \<mapsto> RList (x # listOf (val s k))) \<and> ttl s' = ttl s"
    and ltrim: "0 \<le> a \<Longrightarrow> 0 \<le> z \<Longrightarrow> notStr (val s k) \<Longrightarrow> \<exists>s' l. rLTRIM R k a z s = (None, s') \<and>
      l = take (nat (z - a + 1)) (drop (nat a) (listOf (val s k))) \<and> val s' = (val s)(k := mkList l) \<and>
      ttl s' = (if l = [] then (ttl s)(k := None) else ttl s)"
    and pttl: "rPTTL R k s = Inr (case ttl s k of Some t \<Rightarrow> t | None \<Rightarrow> if val s k = None then -2 else -1)"
    and del: "\<exists>s'. rDEL R k s = (None, s') \<and> val s' = (val s)(k := None) \<and> ttl s' = (ttl s)(k := None)"
    and brpop: "0 \<le> to \<Longrightarrow> notStr (val s k) \<Longrightarrow> listOf (val s k) \<noteq> [] \<Longrightarrow> \<forall>j\<in>set ks. val s j = None \<Longrightarrow>
      \<exists>s' l. rBRPOP R (ks @ k # ks') to s = (PopVal k (last (listOf (val s k))), s') \<and> l = butlast (listOf (val s k)) \<and>
        val s' = (val s)(k := mkList l) \<and> ttl s' = (if l = [] then (ttl s)(k := None) else ttl s)"
    and wait: "0 \<le> ms \<Longrightarrow> val (rWait R ms s) = (\<lambda>k. if expires ms (ttl s k) then None else val s k) \<and>
      ttl (rWait R ms s) = (\<lambda>k. aged ms (ttl s k))"

lemma listOf_simps [simp]: "listOf (Some (RList l)) = l" "listOf None = []" "listOf (mkList l) = l"
  by (simp_all add: listOf_def mkList_def)

lemma notStr_simps [simp]: "notStr None" "notStr (Some (RList l))" "notStr (mkList l)"
  by (simp_all add: notStr_def mkList_def)

lemma keys_differ [simp]:
  "callTimeoutKey u m \<noteq> callKey v" "callKey v \<noteq> callTimeoutKey u m" "callKey u = callKey v \<longleftrightarrow> u = v"
  "resTimeoutKey u m \<noteq> resKey v" "resKey v \<noteq> resTimeoutKey u m" "resKey u = resKey v \<longleftrightarrow> u = v"
  by (simp_all add: callKey_def callTimeoutKey_def resKey_def resTimeoutKey_def)

section \<open>Timeouts\<close>

lemma quot_pos: "0 \<le> a \<Longrightarrow> 0 < z \<Longrightarrow> quot a z = a div z"
  by (cases "a = 0") (simp_all add: quot_def)

lemma millis_cases:
  "Millisecond \<le> t \<Longrightarrow> millis t = t div Millisecond \<and> 0 < millis t"
  "\<bar>t\<bar> < Millisecond \<Longrightarrow> millis t = 60000"
  "t \<le> - Millisecond \<Longrightarrow> millis t < 0"
proof -
  show "Millisecond \<le> t \<Longrightarrow> millis t = t div Millisecond \<and> 0 < millis t"
    by (simp add: millis_def quot_pos Millisecond_def pos_imp_zdiv_pos_iff pos_imp_zdiv_nonneg_iff Let_def)
  show "\<bar>t\<bar> < Millisecond \<Longrightarrow> millis t = 60000"
    by (simp add: millis_def quot_def Millisecond_def DefaultCallTimeout_def Second_def Let_def)
  assume t: "t \<le> - Millisecond"
  then have "0 < \<bar>t\<bar> div Millisecond" by (simp add: Millisecond_def pos_imp_zdiv_pos_iff)
  with t show "millis t < 0" by (simp add: millis_def quot_def Millisecond_def Let_def sgn_if)
qed

lemma millis_pos: "\<not> t \<le> - Millisecond \<Longrightarrow> 0 < millis t"
  using millis_cases(1,2) [of t] by (cases "t < Millisecond"; force)

lemma millis_eq: "- Millisecond < t \<Longrightarrow> millis t = (if t < Millisecond then 60000 else t div Millisecond)"
  using millis_cases(1,2) [of t] by (cases "t < Millisecond"; force)

section \<open>Registering\<close>

context redis_server
begin

lemma script_pushes:
  assumes "0 < to" "notStr (val s k2)" "k1 \<noteq> k2" "\<not> (limit > 0 \<and> int (length (listOf (val s k2))) + 1 > limit)"
  shows "\<exists>n s'. callOrResScript R k1 k2 to p limit s = (Inr n, s') \<and>
    val s' = (val s)(k1 \<mapsto> RStr (itoa to), k2 \<mapsto> RList (p # listOf (val s k2))) \<and> ttl s' = (ttl s)(k1 \<mapsto> to)"
proof -
  obtain s1 where s1: "rSETPX R k1 (itoa to) to s = (None, s1)" "val s1 = (val s)(k1 \<mapsto> RStr (itoa to))" "ttl s1 = (ttl s)(k1 \<mapsto> to)"
    using setpx [OF assms(1)] by blast
  have k: "val s1 k2 = val s k2" using s1(2) assms(3) by simp
  obtain s2 where s2: "rLPUSH R k2 p s1 = (Inr (int (length (listOf (val s k2))) + 1), s2)"
      "val s2 = (val s1)(k2 \<mapsto> RList (p # listOf (val s k2)))" "ttl s2 = ttl s1"
    using lpush [of s1 k2 p] assms(2) unfolding k by blast
  show ?thesis using assms(4) s1 s2 by (auto simp: callOrResScript_def)
qed

lemma script_full:
  assumes "0 < to" "notStr (val s k2)" "k1 \<noteq> k2" "limit > 0" "limit \<le> int (length (listOf (val s k2)))"
  shows "\<exists>s'. callOrResScript R k1 k2 to p limit s = (Inl ''list capacity exceeded'', s') \<and>
    val s' = (val s)(k1 \<mapsto> RStr (itoa to), k2 := mkList (drop (length (listOf (val s k2)) - nat limit) (listOf (val s k2)))) \<and>
    ttl s' = (ttl s)(k1 \<mapsto> to)"
proof -
  let ?l = "listOf (val s k2)"
  define diff where "diff = int (length ?l) + 1 - limit"
  obtain s1 where s1: "rSETPX R k1 (itoa to) to s = (None, s1)" "val s1 = (val s)(k1 \<mapsto> RStr (itoa to))" "ttl s1 = (ttl s)(k1 \<mapsto> to)"
    using setpx [OF assms(1)] by blast
  have k: "val s1 k2 = val s k2" using s1(2) assms(3) by simp
  obtain s2 where s2: "rLPUSH R k2 p s1 = (Inr (int (length ?l) + 1), s2)" "val s2 = (val s1)(k2 \<mapsto> RList (p # ?l))" "ttl s2 = ttl s1"
    using lpush [of s1 k2 p] assms(2) unfolding k by blast
  have d: "0 \<le> diff" "0 \<le> limit + diff" "0 < diff" using assms(4,5) by (simp_all add: diff_def)
  have "notStr (val s2 k2)" "listOf (val s2 k2) = p # ?l" using s2(2) by simp_all
  with ltrim [OF d(1,2), of s2 k2] obtain s3 l where s3: "rLTRIM R k2 diff (limit + diff) s2 = (None, s3)"
      "l = take (nat (limit + diff - diff + 1)) (drop (nat diff) (p # ?l))" "val s3 = (val s2)(k2 := mkList l)"
      "ttl s3 = (if l = [] then (ttl s2)(k2 := None) else ttl s2)"
    by auto
  have "nat diff = Suc (length ?l - nat limit)" using assms(4,5) by (simp add: diff_def nat_eq_iff)
  then have "drop (nat diff) (p # ?l) = drop (length ?l - nat limit) ?l" by simp
  moreover have "length (drop (length ?l - nat limit) ?l) \<le> nat (limit + diff - diff + 1)" by simp
  ultimately have "take (nat (limit + diff - diff + 1)) (drop (nat diff) (p # ?l)) = drop (length ?l - nat limit) ?l"
    by (metis take_all)
  then have l: "l = drop (length ?l - nat limit) ?l" "l \<noteq> []" using s3(2) assms(4,5) by auto
  with s1 s2 s3(1,3,4) assms(4) d(3) show ?thesis by (auto simp: callOrResScript_def Let_def diff_def)
qed

lemma refused_call: "timeout \<le> - Millisecond \<Longrightarrow> \<exists>e. Broker_Call C R b cp timeout s = (Some e, s)"
  using millis_cases(3) [of timeout] setpx_bad [of "millis timeout" "callTimeoutKey (cp_URI cp) (ustring C (cp_MsgUUID cp))" "itoa (millis timeout)" s]
  by (auto simp: Broker_Call_def registerCallOrRes_def callOrResScript_def Let_def)

end

text \<open>
  C29. On a queue with a capacity, a call with a timeout of minus one millisecond or less is refused and nothing changes. Any other
  call, one without a timeout of its own included, is accepted exactly when the queue has room: then it is the newest entry of its
  queue; otherwise the error says that the capacity is exceeded and the queue keeps its oldest entries, up to the capacity.
  In no case does a queue of another URI change or the queue grow beyond its capacity, if it was within it.
\<close>

theorem call_queue_capacity:
  assumes "redis_server R val ttl" "0 < CallCap b" "notStr (val s (callKey (cp_URI cp)))"
  shows "if timeout \<le> - Millisecond then \<exists>e. Broker_Call C R b cp timeout s = (Some e, s)
    else \<exists>r s'. Broker_Call C R b cp timeout s = (r, s') \<and>
      (let l = listOf (val s (callKey (cp_URI cp))); l' = listOf (val s' (callKey (cp_URI cp)))
       in (if int (length l) < CallCap b then r = None \<and> l' = marshalCallPayload C cp # l
           else r = Some ''list capacity exceeded'' \<and> l' = drop (length l - nat (CallCap b)) l) \<and>
          int (length l') \<le> CallCap b) \<and>
      (\<forall>u. u \<noteq> cp_URI cp \<longrightarrow> val s' (callKey u) = val s (callKey u))"
proof (cases "timeout \<le> - Millisecond")
  case True
  then show ?thesis using redis_server.refused_call [OF assms(1) True] by simp
next
  case accept: False
  let ?k1 = "callTimeoutKey (cp_URI cp) (ustring C (cp_MsgUUID cp))" and ?k2 = "callKey (cp_URI cp)" and ?j = "marshalCallPayload C cp"
  have m: "0 < millis timeout" by (rule millis_pos [OF accept])
  show ?thesis
  proof (cases "int (length (listOf (val s ?k2))) < CallCap b")
    case True
    then have "\<not> (CallCap b > 0 \<and> int (length (listOf (val s ?k2))) + 1 > CallCap b)" by simp
    from redis_server.script_pushes [OF assms(1) m assms(3) keys_differ(1) this, where p = ?j]
    obtain n s' where s': "callOrResScript R ?k1 ?k2 (millis timeout) ?j (CallCap b) s = (Inr n, s')"
      "val s' = (val s)(?k1 \<mapsto> RStr (itoa (millis timeout)), ?k2 \<mapsto> RList (?j # listOf (val s ?k2)))" by blast
    then have "Broker_Call C R b cp timeout s = (None, s')" by (simp add: Broker_Call_def registerCallOrRes_def Let_def)
    with True s'(2) accept show ?thesis by (simp add: Let_def)
  next
    case False
    then have "CallCap b \<le> int (length (listOf (val s ?k2)))" by simp
    from redis_server.script_full [OF assms(1) m assms(3) keys_differ(1) assms(2) this, where p = ?j]
    obtain s' where s': "callOrResScript R ?k1 ?k2 (millis timeout) ?j (CallCap b) s = (Inl ''list capacity exceeded'', s')"
      "val s' = (val s)(?k1 \<mapsto> RStr (itoa (millis timeout)),
         ?k2 := mkList (drop (length (listOf (val s ?k2)) - nat (CallCap b)) (listOf (val s ?k2))))" by blast
    then have "Broker_Call C R b cp timeout s = (Some ''list capacity exceeded'', s')"
      by (simp add: Broker_Call_def registerCallOrRes_def Let_def)
    with False s'(2) assms(2) accept show ?thesis by (simp add: Let_def)
  qed
qed

section \<open>Timeouts of a registered call\<close>

definition msgKey :: "uuidCodec \<Rightarrow> CallPayload \<Rightarrow> string" where
  "msgKey C cp = callTimeoutKey (cp_URI cp) (ustring C (cp_MsgUUID cp))"

text \<open>
  C31. A call is registered with its timeout in whole milliseconds; a timeout shorter than a millisecond, of either sign, counts
  as none and gets the default of one minute; a timeout of minus one millisecond or less is refused and nothing changes.
\<close>

theorem call_timeout_bounds:
  assumes "redis_server R val ttl" "notStr (val s (callKey (cp_URI cp)))"
    "\<not> (0 < CallCap b \<and> CallCap b \<le> int (length (listOf (val s (callKey (cp_URI cp))))))"
  shows "if timeout \<le> - Millisecond then \<exists>e. Broker_Call C R b cp timeout s = (Some e, s)
    else \<exists>s'. Broker_Call C R b cp timeout s = (None, s') \<and>
      ttl s' = (ttl s)(msgKey C cp \<mapsto> (if timeout < Millisecond then 60000 else timeout div Millisecond))"
proof (cases "timeout \<le> - Millisecond")
  case True
  then show ?thesis using redis_server.refused_call [OF assms(1) True] by simp
next
  case False
  then have m: "0 < millis timeout" "millis timeout = (if timeout < Millisecond then 60000 else timeout div Millisecond)"
    using millis_pos [OF False] millis_cases(1,2) [of timeout] by (cases "timeout < Millisecond"; force)+
  have "\<not> (CallCap b > 0 \<and> int (length (listOf (val s (callKey (cp_URI cp))))) + 1 > CallCap b)" using assms(3) by linarith
  from redis_server.script_pushes [OF assms(1) m(1) assms(2) keys_differ(1) this, where p = "marshalCallPayload C cp"]
  obtain n s' where "callOrResScript R (msgKey C cp) (callKey (cp_URI cp)) (millis timeout) (marshalCallPayload C cp) (CallCap b) s = (Inr n, s')"
    "ttl s' = (ttl s)(msgKey C cp \<mapsto> millis timeout)" unfolding msgKey_def by blast
  then show ?thesis using False m(2) by (simp add: Broker_Call_def registerCallOrRes_def Let_def msgKey_def)
qed

section \<open>Reading calls\<close>

definition wf_payload :: "CallPayload \<Rightarrow> bool" where
  "wf_payload cp \<longleftrightarrow> validString (cp_URI cp) \<and> wf_uuid (cp_ConnUUID cp) \<and> wf_uuid (cp_MsgUUID cp)"

lemma decCallPayload_marshal:
  "uuid_laws C \<Longrightarrow> wf_payload cp \<Longrightarrow>
    decCallPayload C (marshalCallPayload C cp) zeroCallPayload = Inr (cp\<lparr>TTLAfterRead := 0, ReadTimestamp := 0\<rparr>)"
  by (cases "cp_Args cp") (simp_all add: decCallPayload_def marshalCallPayload_def decStruct_def omitRaw_def findField_def field_def
      wf_payload_def decRaw_def zeroCallPayload_def)

definition delays :: "delay list \<Rightarrow> bool" where
  "delays ds \<longleftrightarrow> list_all (\<lambda>d. 0 \<le> before d \<and> 0 \<le> between d) ds"

definition spent :: "delay list \<Rightarrow> int" where
  "spent ds = sum_list (map (\<lambda>d. before d + between d) ds)"

text \<open>
  What the rounds deliver of a queue, oldest call first, given the time each call has left at the start and the milliseconds that
  have passed: a call is delivered if it has time left when its round asks for it, with what is left.
\<close>

fun inTime :: "uuidCodec \<Rightarrow> (string \<Rightarrow> int option) \<Rightarrow> int \<Rightarrow> CallPayload list \<Rightarrow> delay list \<Rightarrow> CallPayload list" where
  "inTime C t e (cp # cps) (d # ds) =
     (let e1 = e + before d + between d; later = inTime C t e1 cps ds
      in case t (msgKey C cp) of
           Some left \<Rightarrow> if e1 < left then cp\<lparr>ReadTimestamp := clockAt d, TTLAfterRead := (left - e1) * Millisecond\<rparr> # later else later
         | None \<Rightarrow> later)"
| "inTime C t e _ _ = []"

lemma aged_simps [simp]: "aged ms None = None" "expires ms None = False"
  by (simp_all add: aged_def expires_def)

lemma aged_aged: "0 \<le> b \<Longrightarrow> aged b (aged a t) = aged (a + b) t"
  by (auto simp: aged_def split: option.splits)

lemma inTime_cong: "(\<And>cp. cp \<in> set cps \<Longrightarrow> t (msgKey C cp) = t' (msgKey C cp)) \<Longrightarrow> inTime C t e cps ds = inTime C t' e cps ds"
  by (induction C t e cps ds rule: inTime.induct) (auto simp: Let_def split: option.splits)

lemma inTime_aged: "delays ds \<Longrightarrow> 0 \<le> e \<Longrightarrow> inTime C (\<lambda>k. aged a (t k)) e cps ds = inTime C t (a + e) cps ds"
proof (induction cps arbitrary: e ds)
  case (Cons cp cps)
  show ?case
  proof (cases ds)
    case d: (Cons d ds')
    have p: "0 \<le> before d" "0 \<le> between d" "delays ds'" using Cons.prems(1) d by (simp_all add: delays_def)
    have "inTime C (\<lambda>k. aged a (t k)) (e + before d + between d) cps ds' = inTime C t (a + (e + before d + between d)) cps ds'"
      using Cons.IH [OF p(3)] Cons.prems(2) p by simp
    with d p Cons.prems(2) show ?thesis by (auto simp: Let_def aged_def algebra_simps split: option.splits)
  qed simp
qed simp

context redis_server
begin

lemma delAndPTTL:
  "\<exists>n s'. delAndPTTLScript R k s = (Inr n, s') \<and> (case ttl s k of Some t \<Rightarrow> n = t | None \<Rightarrow> n < 0) \<and>
    val s' = (val s)(k := None) \<and> ttl s' = (ttl s)(k := None)"
proof -
  obtain s' where "rDEL R k s = (None, s')" "val s' = (val s)(k := None)" "ttl s' = (ttl s)(k := None)" using del by blast
  then show ?thesis by (auto simp: delAndPTTLScript_def pttl split: option.splits)
qed

lemma blocking: "0 \<le> BlockingTimeout b \<Longrightarrow> 0 \<le> quot (BlockingTimeout b) Second"
  by (simp add: quot_pos Second_def Millisecond_def pos_imp_zdiv_nonneg_iff)

text \<open>Waiting, taking the last element of a list that does not expire, and waiting again.\<close>

lemma wait_pop_wait:
  assumes "0 \<le> before d" "0 \<le> between d" "0 \<le> to" "val s k = Some (RList (q @ [x]))" "ttl s k = None"
  shows "\<exists>s1. rBRPOP R [k] to (rWait R (before d) s) = (PopVal k x, s1) \<and>
    val (rWait R (between d) s1) = (\<lambda>j. if expires (before d + between d) (ttl s j) then None else val s j)(k := mkList q) \<and>
    ttl (rWait R (between d) s1) = (\<lambda>j. aged (before d + between d) (ttl s j))"
proof -
  let ?s = "rWait R (before d) s"
  have w: "val ?s k = Some (RList (q @ [x]))" "ttl ?s k = None" using wait [OF assms(1), of s] assms(4,5) by simp_all
  then obtain s1 where s1: "rBRPOP R [k] to ?s = (PopVal k x, s1)" "val s1 = (val ?s)(k := mkList q)" "ttl s1 = ttl ?s"
    using brpop [OF assms(3), of ?s k "[]" "[]"] by (auto simp: fun_upd_idem_iff)
  have "ttl s1 j = aged (before d) (ttl s j)" for j using s1(3) wait [OF assms(1), of s] by simp
  moreover have "expires (before d) (ttl s j) \<or> expires (between d) (aged (before d) (ttl s j)) \<longleftrightarrow> expires (before d + between d) (ttl s j)" for j
    using assms(1,2) by (auto simp: expires_def aged_def split: option.splits)
  ultimately show ?thesis
    using s1(1,2) wait [OF assms(2), of s1] wait [OF assms(1), of s] w assms(2,5) by (auto simp: aged_aged fun_eq_iff)
qed

lemma callsRound_pops:
  assumes "uuid_laws C" "wf_payload cp" "cp_URI cp = uri" "0 \<le> before d" "0 \<le> between d" "0 \<le> BlockingTimeout b"
    "val s (callKey uri) = Some (RList (q @ [marshalCallPayload C cp]))" "ttl s (callKey uri) = None"
  shows "\<exists>s'. callsRound C R b [uri] d s =
      (case inTime C (ttl s) 0 [cp] [d] of [] \<Rightarrow> Skip | cp' # _ \<Rightarrow> Deliver cp', s') \<and>
    val s' = (\<lambda>j. if expires (before d + between d) (ttl s j) then None else val s j)(callKey uri := mkList q, msgKey C cp := None) \<and>
    ttl s' = (\<lambda>j. aged (before d + between d) (ttl s j))(msgKey C cp := None)"
proof -
  from wait_pop_wait [OF assms(4,5) blocking [OF assms(6)] assms(7,8)]
  obtain s1 where s1: "rBRPOP R [callKey uri] (quot (BlockingTimeout b) Second) (rWait R (before d) s) = (PopVal (callKey uri) (marshalCallPayload C cp), s1)"
    "val (rWait R (between d) s1) = (\<lambda>j. if expires (before d + between d) (ttl s j) then None else val s j)(callKey uri := mkList q)"
    "ttl (rWait R (between d) s1) = (\<lambda>j. aged (before d + between d) (ttl s j))" by blast
  obtain n s2 where s2: "delAndPTTLScript R (msgKey C cp) (rWait R (between d) s1) = (Inr n, s2)"
    "case ttl (rWait R (between d) s1) (msgKey C cp) of Some t \<Rightarrow> n = t | None \<Rightarrow> n < 0"
    "val s2 = (val (rWait R (between d) s1))(msgKey C cp := None)" "ttl s2 = (ttl (rWait R (between d) s1))(msgKey C cp := None)"
    using delAndPTTL [of "msgKey C cp" "rWait R (between d) s1"] by blast
  have "callsRound C R b [uri] d s = (case inTime C (ttl s) 0 [cp] [d] of [] \<Rightarrow> Skip | cp' # _ \<Rightarrow> Deliver cp', s2)"
    using s1(1) s2(1,2) assms(1-3) unfolding s1(3)
    by (auto simp: callsRound_def decCallPayload_marshal aged_def msgKey_def Let_def split: option.splits if_splits)
  with s1 s2 show ?thesis by auto
qed

lemma calls_in_order:
  assumes "uuid_laws C" "\<forall>cp\<in>set cps. wf_payload cp \<and> cp_URI cp = uri" "distinct (map (msgKey C) cps)"
    "0 \<le> BlockingTimeout b" "delays ds" "length ds = length cps"
    "val s (callKey uri) = mkList (rev (map (marshalCallPayload C) cps))" "ttl s (callKey uri) = None"
  shows "\<exists>s'. Calls C R b [uri] ds s = (inTime C (ttl s) 0 cps ds, None, s') \<and>
    val s' (callKey uri) = None \<and> (\<forall>cp\<in>set cps. ttl s' (msgKey C cp) = None) \<and>
    (cps \<noteq> [] \<longrightarrow> (\<forall>k. k \<notin> msgKey C ` set cps \<longrightarrow> ttl s' k = aged (spent ds) (ttl s k)))"
  using assms
proof (induction cps arbitrary: s ds)
  case Nil
  then show ?case by (simp add: Calls_def mkList_def)
next
  case (Cons cp cps)
  obtain d ds' where ds: "ds = d # ds'" "length ds' = length cps" using Cons.prems(6) by (cases ds) auto
  have d: "0 \<le> before d" "0 \<le> between d" "delays ds'" using Cons.prems(5) ds by (simp_all add: delays_def)
  define e where "e = before d + between d"
  from callsRound_pops [of C cp uri d b s "rev (map (marshalCallPayload C) cps)"] Cons.prems d
  obtain s1 where s1: "callsRound C R b [uri] d s = (case inTime C (ttl s) 0 [cp] [d] of [] \<Rightarrow> Skip | cp' # _ \<Rightarrow> Deliver cp', s1)"
    "val s1 = (\<lambda>j. if expires e (ttl s j) then None else val s j)(callKey uri := mkList (rev (map (marshalCallPayload C) cps)), msgKey C cp := None)"
    "ttl s1 = (\<lambda>j. aged e (ttl s j))(msgKey C cp := None)" by (auto simp: mkList_def e_def)
  have "val s1 (callKey uri) = mkList (rev (map (marshalCallPayload C) cps))" "ttl s1 (callKey uri) = None"
    using Cons.prems(8) by (simp_all add: s1 msgKey_def)
  from Cons.IH [OF Cons.prems(1) _ _ Cons.prems(4) d(3) ds(2) this] Cons.prems(2,3)
  obtain s2 where s2: "Calls C R b [uri] ds' s1 = (inTime C (ttl s1) 0 cps ds', None, s2)"
    "val s2 (callKey uri) = None" "\<forall>cp\<in>set cps. ttl s2 (msgKey C cp) = None"
    "cps \<noteq> [] \<longrightarrow> (\<forall>k. k \<notin> msgKey C ` set cps \<longrightarrow> ttl s2 k = aged (spent ds') (ttl s1 k))" by auto
  have "inTime C (ttl s1) 0 cps ds' = inTime C (\<lambda>k. aged e (ttl s k)) 0 cps ds'"
    using Cons.prems(3) by (intro inTime_cong) (auto simp: s1(3) image_iff)
  also have "\<dots> = inTime C (ttl s) e cps ds'" using inTime_aged [OF d(3), of 0 C e] by simp
  finally have "Calls C R b [uri] ds s = (inTime C (ttl s) 0 (cp # cps) ds, None, s2)"
    using s1(1) s2(1) by (auto simp: Calls_def ds e_def Let_def split: option.splits)
  moreover have "0 \<le> spent ds'" using d(3) unfolding spent_def delays_def by (induction ds') auto
  ultimately show ?case
    using s2 s1(3) Cons.prems(3) ds by (cases "cps = []") (auto simp: image_iff aged_aged spent_def e_def Calls_def)
qed

end

text \<open>
  C30. Calls of one URI reach the callee in the order they were registered, while time passes: as many rounds as the queue has
  entries, each after some delay and with some delay between taking the call and asking for its timeout, deliver exactly the calls
  whose timeout is still running when it is asked for, each with what is left of it then, never an expired one. Afterwards the
  queue is empty, no timeout of these calls is left, and every other timeout has run on for the time that has passed.
\<close>

theorem calls_fifo:
  assumes "redis_server R val ttl" "uuid_laws C" "\<forall>cp\<in>set cps. wf_payload cp \<and> cp_URI cp = uri" "distinct (map (msgKey C) cps)"
    "0 \<le> BlockingTimeout b" "delays ds" "length ds = length cps"
    "val s (callKey uri) = mkList (rev (map (marshalCallPayload C) cps))" "ttl s (callKey uri) = None"
  shows "\<exists>s'. Calls C R b [uri] ds s = (inTime C (ttl s) 0 cps ds, None, s') \<and>
    val s' (callKey uri) = None \<and> (\<forall>cp\<in>set cps. ttl s' (msgKey C cp) = None) \<and>
    (cps \<noteq> [] \<longrightarrow> (\<forall>k. k \<notin> msgKey C ` set cps \<longrightarrow> ttl s' k = aged (spent ds) (ttl s k)))"
  by (rule redis_server.calls_in_order [OF assms])

section \<open>A server in memory\<close>

record memory =
  mem :: "string \<Rightarrow> rval option"
  px :: "string \<Rightarrow> int option"

definition memAge :: "int \<Rightarrow> memory \<Rightarrow> memory" where
  "memAge ms s = s\<lparr>mem := (\<lambda>k. if expires ms (px s k) then None else mem s k), px := (\<lambda>k. aged ms (px s k))\<rparr>"

definition memList :: "string \<Rightarrow> json list \<Rightarrow> memory \<Rightarrow> memory" where
  "memList k l s = s\<lparr>mem := (mem s)(k := mkList l), px := (if l = [] then (px s)(k := None) else px s)\<rparr>"

text \<open>Asked to wait for a list without elements, the server gives nothing after the timeout; it never waits without end.\<close>

definition memoryRedis :: "memory redis" where
  "memoryRedis = \<lparr>
     rSETPX = (\<lambda>k v ms s. if ms \<le> 0 then (Some ''invalid expire time'', s) else (None, s\<lparr>mem := (mem s)(k \<mapsto> RStr v), px := (px s)(k \<mapsto> ms)\<rparr>)),
     rLPUSH = (\<lambda>k x s. case mem s k of Some (RStr _) \<Rightarrow> (Inl ''WRONGTYPE'', s)
       | v \<Rightarrow> (Inr (int (length (listOf v)) + 1), s\<lparr>mem := (mem s)(k \<mapsto> RList (x # listOf v))\<rparr>)),
     rLTRIM = (\<lambda>k a z s. (None, memList k (take (nat (z - a + 1)) (drop (nat a) (listOf (mem s k)))) s)),
     rPTTL = (\<lambda>k s. Inr (case px s k of Some t \<Rightarrow> t | None \<Rightarrow> if mem s k = None then -2 else -1)),
     rDEL = (\<lambda>k s. (None, s\<lparr>mem := (mem s)(k := None), px := (px s)(k := None)\<rparr>)),
     rBRPOP = (\<lambda>ks to s. if to < 0 then (PopErr ''timeout is negative'', s) else
       case List.find (\<lambda>k. mem s k \<noteq> None) ks of
         None \<Rightarrow> (PopNil, memAge (1000 * to) s)
       | Some k \<Rightarrow> (let l = listOf (mem s k) in if l = [] then (PopErr ''WRONGTYPE'', s) else (PopVal k (last l), memList k (butlast l) s))),
     rPUBLISH = (\<lambda>ch p s. (None, s)),
     rWait = memAge\<rparr>"

lemma find_skip: "\<forall>j\<in>set ks. \<not> P j \<Longrightarrow> P k \<Longrightarrow> List.find P (ks @ k # ks') = Some k"
  by (induction ks) auto

interpretation memServer: redis_server memoryRedis mem px
proof
  fix s :: memory and k x
  show "notStr (mem s k) \<Longrightarrow> \<exists>s'. rLPUSH memoryRedis k x s = (Inr (int (length (listOf (mem s k))) + 1), s') \<and>
      mem s' = (mem s)(k \<mapsto> RList (x # listOf (mem s k))) \<and> px s' = px s"
    by (cases "mem s k"; cases "the (mem s k)") (auto simp: memoryRedis_def notStr_def)
next
  fix s :: memory and k ks ks' and "to" :: int
  assume a: "0 \<le> to" "notStr (mem s k)" "listOf (mem s k) \<noteq> []" "\<forall>j\<in>set ks. mem s j = None"
  then have "List.find (\<lambda>k. mem s k \<noteq> None) (ks @ k # ks') = Some k" by (intro find_skip) (auto simp: listOf_def split: option.splits)
  with a(1,3) show "\<exists>s' l. rBRPOP memoryRedis (ks @ k # ks') to s = (PopVal k (last (listOf (mem s k))), s') \<and> l = butlast (listOf (mem s k)) \<and>
      mem s' = (mem s)(k := mkList l) \<and> px s' = (if l = [] then (px s)(k := None) else px s)"
    by (simp add: memoryRedis_def memList_def Let_def)
qed (auto simp: memoryRedis_def memList_def memAge_def)

section \<open>Concrete runs\<close>

definition aPayload :: "string \<Rightarrow> CallPayload" where
  "aPayload m = zeroCallPayload\<lparr>cp_ConnUUID := ''a connection 123'', cp_MsgUUID := ''one call number'' @ m, cp_URI := ''f'', cp_Args := Some JNull\<rparr>"

definition aBroker :: brokerCfg where
  "aBroker = \<lparr>BlockingTimeout = 0, CallCap = 1, ResultCap = 0\<rparr>"

text \<open>The queue of the URI has three calls, with 2, 50 and 5 milliseconds left.\<close>

definition aMemory :: memory where
  "aMemory = \<lparr>mem = (\<lambda>k. None)(callKey ''f'' \<mapsto> RList (map (\<lambda>m. marshalCallPayload hexCodec (aPayload m)) [''3'', ''2'', ''1''])),
     px = (\<lambda>k. None)(msgKey hexCodec (aPayload ''1'') \<mapsto> 2, msgKey hexCodec (aPayload ''2'') \<mapsto> 50, msgKey hexCodec (aPayload ''3'') \<mapsto> 5)\<rparr>"

lemma aPayload_wf: "length m = 1 \<Longrightarrow> wf_payload (aPayload m)" "cp_URI (aPayload m) = ''f''"
proof -
  have "validString ''f''" by code_simp
  then show "length m = 1 \<Longrightarrow> wf_payload (aPayload m)" by (simp add: aPayload_def wf_payload_def wf_uuid_def)
qed (simp add: aPayload_def)

lemma uuidText_inj: "wf_uuid u \<Longrightarrow> wf_uuid v \<Longrightarrow> uuidText u = uuidText v \<longleftrightarrow> u = v"
  using uuid_back [OF hexCodec_laws, of u "[]"] uuid_back [OF hexCodec_laws, of v "[]"] by (fastforce simp: hexCodec_def)

lemma aPayload_keys: "length m = 1 \<Longrightarrow> length n = 1 \<Longrightarrow> msgKey hexCodec (aPayload m) = msgKey hexCodec (aPayload n) \<longleftrightarrow> m = n"
  by (simp add: msgKey_def callTimeoutKey_def aPayload_def uuidText_inj wf_uuid_def hexCodec_def)

theorem call_queue_capacity_witness:
  "fst (Broker_Call hexCodec memoryRedis aBroker (aPayload ''4'') 0 aMemory) = Some ''list capacity exceeded'' \<and>
   snd (Broker_Call hexCodec memoryRedis aBroker (aPayload ''4'') (- Second) aMemory) = aMemory"
proof -
  have "0 < CallCap aBroker" "notStr (mem aMemory (callKey (cp_URI (aPayload ''4''))))" by (simp_all add: aBroker_def aPayload_wf aMemory_def)
  note c = call_queue_capacity [OF memServer.redis_server_axioms this, where C = hexCodec]
  show ?thesis using c [of 0] c [of "- Second"] by (auto simp: aMemory_def aPayload_wf aBroker_def Let_def Second_def Millisecond_def)
qed

theorem call_timeout_bounds_witness:
  "\<exists>s'. Broker_Call hexCodec memoryRedis (aBroker\<lparr>CallCap := 0\<rparr>) (aPayload ''4'') 999999 aMemory = (None, s') \<and>
     px s' (msgKey hexCodec (aPayload ''4'')) = Some 60000"
  using call_timeout_bounds [OF memServer.redis_server_axioms, of aMemory "aPayload ''4''" "aBroker\<lparr>CallCap := 0\<rparr>" 999999 hexCodec]
  by (auto simp: aMemory_def aPayload_wf Millisecond_def)

text \<open>The first call has expired when it is read, the third expires while the others are read.\<close>

theorem calls_fifo_witness:
  "\<exists>s'. Calls hexCodec memoryRedis aBroker [''f''] (replicate 3 \<lparr>before = 1, between = 1, clockAt = 7\<rparr>) aMemory =
     ([(aPayload ''2'')\<lparr>ReadTimestamp := 7, TTLAfterRead := 46 * Millisecond\<rparr>], None, s') \<and> mem s' (callKey ''f'') = None"
proof -
  let ?cps = "map aPayload [''1'', ''2'', ''3'']" and ?ds = "replicate 3 \<lparr>before = 1, between = 1, clockAt = 7\<rparr>"
  have m: "mem aMemory (callKey ''f'') = mkList (rev (map (marshalCallPayload hexCodec) ?cps))" "px aMemory (callKey ''f'') = None"
    by (simp_all add: aMemory_def mkList_def msgKey_def)
  have c: "\<forall>cp\<in>set ?cps. wf_payload cp \<and> cp_URI cp = ''f''" "distinct (map (msgKey hexCodec) ?cps)" "0 \<le> BlockingTimeout aBroker"
    "delays ?ds" "length ?ds = length ?cps"
    by (simp_all add: aPayload_wf aPayload_keys aBroker_def delays_def numeral_3_eq_3)
  have "inTime hexCodec (px aMemory) 0 ?cps ?ds = [(aPayload ''2'')\<lparr>ReadTimestamp := 7, TTLAfterRead := 46 * Millisecond\<rparr>]"
    by (simp add: aMemory_def aPayload_keys numeral_3_eq_3)
  with calls_fifo [OF memServer.redis_server_axioms hexCodec_laws c m] show ?thesis by (metis (no_types))
qed

end
