(* ===== verification/Juggler_Client.thy ===== *)
theory Juggler_Client
  imports Juggler_Broker
begin

text \<open>
  The client, \<^verbatim>\<open>juggler/client/client.go\<close>. A state of the client holds the pending calls, the goroutines
  that wait for the timeout of a call, and what was sent and given to the handler, each with its time. The steps are the
  parts of the methods between which other goroutines can run: \<^verbatim>\<open>Call\<close> up to the end of \<^verbatim>\<open>WriteJSON\<close>, the
  rest of \<^verbatim>\<open>Call\<close>, one round of the read loop, the end of a wait, and the passing of time. A map access under the lock is
  one step. The websocket is not part of the repository: whether a write succeeds and what is read are arguments.
\<close>

section \<open>Expired calls\<close>

definition ExpMsg :: MessageType where
  "ExpMsg = (case RegisterCustomMsg ''EXP'' initRegistry of Ret mt _ \<Rightarrow> mt | _ \<Rightarrow> 0)"

datatype cmsg = FromServer Msg | Exp Meta ResPld

fun newExp :: "uuid \<Rightarrow> Msg \<Rightarrow> cmsg" where
  "newExp u (Call mt p) = Exp (NewMeta ExpMsg u) \<lparr>r_For = U mt, r_URI = c_URI p, r_Args = c_Args p\<rparr>"
| "newExp u m = FromServer m"

section \<open>State\<close>

record client =
  callTimeout :: int
  results :: "string set"
  stopped :: bool
  clock :: int
  written :: "(Msg \<times> int) list"
  waiting :: "(Msg \<times> int) list"
  sent :: "(Msg \<times> int) list"
  handled :: "(cmsg \<times> int) list"

definition SetCallTimeout :: "int \<Rightarrow> client \<Rightarrow> client" where
  "SetCallTimeout timeout c = c\<lparr>callTimeout := timeout\<rparr>"

definition NewClient :: "(client \<Rightarrow> client) list \<Rightarrow> int \<Rightarrow> client" where
  "NewClient opts now = fold (\<lambda>opt. opt) opts
     \<lparr>callTimeout = 0, results = {}, stopped = False, clock = now, written = [], waiting = [], sent = [], handled = []\<rparr>"

definition addPending :: "string \<Rightarrow> client \<Rightarrow> client" where
  "addPending key c = c\<lparr>results := insert key (results c)\<rparr>"

definition deletePending :: "string \<Rightarrow> client \<Rightarrow> bool \<times> client" where
  "deletePending key c = (key \<in> results c, c\<lparr>results := results c - {key}\<rparr>)"

definition Handle :: "cmsg \<Rightarrow> client \<Rightarrow> client" where
  "Handle m c = c\<lparr>handled := handled c @ [(m, clock c)]\<rparr>"

section \<open>The read loop\<close>

datatype wsRead = ReadFailed | ReadMsg "string + json"

definition handleMessages :: "uuidCodec \<Rightarrow> registry \<Rightarrow> wsRead \<Rightarrow> client \<Rightarrow> client" where
  "handleMessages C R rd c =
     (case rd of
        ReadFailed \<Rightarrow> c\<lparr>stopped := True\<rparr>
      | ReadMsg r \<Rightarrow>
          (case UnmarshalResponse C R r of
             Inl _ \<Rightarrow> c
           | Inr m \<Rightarrow>
               (case m of
                  Res _ p \<Rightarrow> (case deletePending (ustring C (r_For p)) c of (ok, c1) \<Rightarrow> if \<not> ok then c1 else Handle (FromServer m) c1)
                | Err _ p \<Rightarrow>
                    if o_ForType p = CallMsg then Handle (FromServer m) (snd (deletePending (ustring C (o_For p)) c))
                    else Handle (FromServer m) c
                | _ \<Rightarrow> Handle (FromServer m) c)))"

section \<open>Requests\<close>

text \<open>Of a request, \<open>u\<close> is the new identifier and \<open>w\<close> the error of the write, if any.\<close>

definition WriteJSON :: "string option \<Rightarrow> Msg \<Rightarrow> client \<Rightarrow> (string + uuid) \<times> client" where
  "WriteJSON w m c = (case w of Some e \<Rightarrow> (Inl e, c) | None \<Rightarrow> (Inr (UUID m), c\<lparr>sent := sent c @ [(m, clock c)]\<rparr>))"

definition Client_Call :: "uuid \<Rightarrow> gobytes \<Rightarrow> string + json \<Rightarrow> int \<Rightarrow> string option \<Rightarrow> client \<Rightarrow> (string + uuid) \<times> client" where
  "Client_Call u uri v timeout w c =
     (let timeout = (if timeout = 0 then callTimeout c else timeout) in
      case NewCall u uri v timeout of
        Inl e \<Rightarrow> (Inl e, c)
      | Inr m \<Rightarrow>
          (case WriteJSON w m c of
             (Inl e, c1) \<Rightarrow> (Inl e, c1)
           | (Inr i, c1) \<Rightarrow> (Inr i, c1\<lparr>written := (m, timeout) # written c1\<rparr>)))"

definition waitTime :: "int \<Rightarrow> int" where
  "waitTime timeout = (if timeout \<le> 0 then DefaultCallTimeout else timeout)"

text \<open>The rest of \<^verbatim>\<open>Call\<close>, after the write.\<close>

definition Call_pending :: "uuidCodec \<Rightarrow> Msg \<Rightarrow> int \<Rightarrow> client \<Rightarrow> client" where
  "Call_pending C m timeout c =
     (let c1 = addPending (ustring C (UUID m)) (c\<lparr>written := remove1 (m, timeout) (written c)\<rparr>)
      in c1\<lparr>waiting := (m, clock c1 + waitTime timeout) # waiting c1\<rparr>)"

text \<open>The end of the wait for the call: by its timeout, or because the client has stopped.\<close>

definition handleExpiredCall :: "uuidCodec \<Rightarrow> uuid \<Rightarrow> Msg \<Rightarrow> int \<Rightarrow> client \<Rightarrow> client" where
  "handleExpiredCall C u m d c =
     (case deletePending (ustring C (UUID m)) (c\<lparr>waiting := remove1 (m, d) (waiting c)\<rparr>) of
        (ok, c1) \<Rightarrow> if ok then Handle (newExp u m) c1 else c1)"

definition stopWaiting :: "Msg \<Rightarrow> int \<Rightarrow> client \<Rightarrow> client" where
  "stopWaiting m d c = c\<lparr>waiting := remove1 (m, d) (waiting c)\<rparr>"

definition Client_Sub :: "uuid \<Rightarrow> gobytes \<Rightarrow> bool \<Rightarrow> string option \<Rightarrow> client \<Rightarrow> (string + uuid) \<times> client" where
  "Client_Sub u channel pattern w c = WriteJSON w (NewSub u channel pattern) c"

definition Client_Unsb :: "uuid \<Rightarrow> gobytes \<Rightarrow> bool \<Rightarrow> string option \<Rightarrow> client \<Rightarrow> (string + uuid) \<times> client" where
  "Client_Unsb u channel pattern w c = WriteJSON w (NewUnsb u channel pattern) c"

definition Client_Pub :: "uuid \<Rightarrow> gobytes \<Rightarrow> string + json \<Rightarrow> string option \<Rightarrow> client \<Rightarrow> (string + uuid) \<times> client" where
  "Client_Pub u channel v w c = (case NewPub u channel v of Inl e \<Rightarrow> (Inl e, c) | Inr m \<Rightarrow> WriteJSON w m c)"

section \<open>Steps\<close>

text \<open>A new identifier is one that no message sent before has; this is what random identifiers are for.\<close>

definition fresh :: "uuidCodec \<Rightarrow> uuid \<Rightarrow> client \<Rightarrow> bool" where
  "fresh C u c \<longleftrightarrow> (\<forall>x\<in>set (sent c). ustring C (UUID (fst x)) \<noteq> ustring C u)"

inductive step :: "uuidCodec \<Rightarrow> registry \<Rightarrow> client \<Rightarrow> client \<Rightarrow> bool" for C R where
  call: "fresh C u c \<Longrightarrow> Client_Call u uri v timeout w c = (r, c') \<Longrightarrow> step C R c c'"
| pending: "(m, timeout) \<in> set (written c) \<Longrightarrow> step C R c (Call_pending C m timeout c)"
| sub: "fresh C u c \<Longrightarrow> Client_Sub u channel pattern w c = (r, c') \<Longrightarrow> step C R c c'"
| unsb: "fresh C u c \<Longrightarrow> Client_Unsb u channel pattern w c = (r, c') \<Longrightarrow> step C R c c'"
| pub: "fresh C u c \<Longrightarrow> Client_Pub u channel v w c = (r, c') \<Longrightarrow> step C R c c'"
| read: "\<not> stopped c \<Longrightarrow> step C R c (handleMessages C R rd c)"
| expired: "(m, d) \<in> set (waiting c) \<Longrightarrow> d \<le> clock c \<Longrightarrow> step C R c (handleExpiredCall C u m d c)"
| closed: "(m, d) \<in> set (waiting c) \<Longrightarrow> stopped c \<Longrightarrow> step C R c (stopWaiting m d c)"
| tick: "0 \<le> dt \<Longrightarrow> step C R c (c\<lparr>clock := clock c + dt\<rparr>)"

inductive reachable :: "uuidCodec \<Rightarrow> registry \<Rightarrow> client \<Rightarrow> bool" for C R where
  new: "reachable C R (NewClient [SetCallTimeout t] now)"
| step: "reachable C R c \<Longrightarrow> step C R c c' \<Longrightarrow> reachable C R c'"

end
