(* ===== verification/Juggler_Client_Properties.thy ===== *)
theory Juggler_Client_Properties
  imports Juggler_Client Juggler_Msg_Properties
begin

text \<open>
  Properties of the client: in every interleaving of its goroutines a call has at most one outcome, a result or
  an expiration, the expiration comes no earlier than the timeout, and while the client is open every call that the server has not
  refused gets its outcome.
\<close>

section \<open>Outcomes\<close>

definition keyOf :: "uuidCodec \<Rightarrow> Msg \<times> int \<Rightarrow> string" where
  "keyOf C x = ustring C (UUID (fst x))"

definition callsOf :: "uuidCodec \<Rightarrow> client \<Rightarrow> string set" where
  "callsOf C c = {ustring C (U mt) | mt p t. (Call mt p, t) \<in> set (sent c)}"

definition outcomeFor :: "uuidCodec \<Rightarrow> string \<Rightarrow> cmsg \<times> int \<Rightarrow> bool" where
  "outcomeFor C k h \<longleftrightarrow>
     (case fst h of FromServer (Res _ p) \<Rightarrow> ustring C (r_For p) = k | Exp _ p \<Rightarrow> ustring C (r_For p) = k | _ \<Rightarrow> False)"

definition outcomes :: "uuidCodec \<Rightarrow> string \<Rightarrow> client \<Rightarrow> nat" where
  "outcomes C k c = length (filter (outcomeFor C k) (handled c))"

definition refusal :: "uuidCodec \<Rightarrow> string \<Rightarrow> cmsg \<times> int \<Rightarrow> bool" where
  "refusal C k h \<longleftrightarrow> (case fst h of FromServer (Err _ p) \<Rightarrow> o_ForType p = CallMsg \<and> ustring C (o_For p) = k | _ \<Rightarrow> False)"

definition refused :: "uuidCodec \<Rightarrow> string \<Rightarrow> client \<Rightarrow> bool" where
  "refused C k c \<longleftrightarrow> (\<exists>h\<in>set (handled c). refusal C k h)"

section \<open>Invariant\<close>

definition isWritten :: "(Msg \<times> int) list \<Rightarrow> Msg \<times> int \<Rightarrow> bool" where
  "isWritten l x \<longleftrightarrow> (\<exists>mt p t. fst x = Call mt p \<and> snd x = c_Timeout p \<and> (fst x, t) \<in> set l)"

definition isDue :: "(Msg \<times> int) list \<Rightarrow> Msg \<times> int \<Rightarrow> bool" where
  "isDue l x \<longleftrightarrow> (\<exists>mt p t. fst x = Call mt p \<and> (fst x, t) \<in> set l \<and> t + waitTime (c_Timeout p) \<le> snd x)"

definition expiresLate :: "(Msg \<times> int) list \<Rightarrow> cmsg \<times> int \<Rightarrow> bool" where
  "expiresLate l h \<longleftrightarrow>
     (case fst h of
        Exp _ p \<Rightarrow> \<exists>mt q t. (Call mt q, t) \<in> set l \<and> U mt = r_For p \<and> t + waitTime (c_Timeout q) \<le> snd h
      | FromServer _ \<Rightarrow> True)"

definition goroutines_ok :: "uuidCodec \<Rightarrow> client \<Rightarrow> bool" where
  "goroutines_ok C c \<longleftrightarrow>
     distinct (map (keyOf C) (written c) @ map (keyOf C) (waiting c)) \<and> (\<forall>x\<in>set (sent c). snd x \<le> clock c) \<and>
     (\<forall>x\<in>set (written c). isWritten (sent c) x) \<and> (\<forall>x\<in>set (waiting c). isDue (sent c) x) \<and>
     (\<forall>h\<in>set (handled c). expiresLate (sent c) h)"

lemma more_sent: "isWritten l x \<Longrightarrow> isWritten (l @ l') x" "isDue l x \<Longrightarrow> isDue (l @ l') x" "expiresLate l h \<Longrightarrow> expiresLate (l @ l') h"
  by (fastforce simp: isWritten_def isDue_def expiresLate_def split: cmsg.splits)+

text \<open>The pending calls, the calls written, the calls waited for and all calls, with the outcomes and the refusals.\<close>

definition balanced :: "string set \<Rightarrow> string set \<Rightarrow> string set \<Rightarrow> string set \<Rightarrow> bool \<Rightarrow> (string \<Rightarrow> nat) \<Rightarrow> (string \<Rightarrow> bool) \<Rightarrow> bool" where
  "balanced P W Q S st out ref \<longleftrightarrow>
     P \<subseteq> S \<and> W \<subseteq> S \<and> P \<inter> W = {} \<and> (\<not> st \<longrightarrow> P \<subseteq> Q) \<and> (\<forall>k. k \<in> P \<or> k \<in> W \<or> k \<notin> S \<longrightarrow> out k = 0) \<and> (\<forall>k. out k \<le> 1) \<and>
     (\<forall>k\<in>S. k \<notin> W \<longrightarrow> k \<notin> P \<longrightarrow> out k = 1 \<or> ref k)"

lemma balanced_steps:
  assumes "balanced P W Q S st out ref"
  shows "k \<notin> S \<Longrightarrow> balanced P (insert k W) Q (insert k S) st out ref"
    and "k \<in> W \<Longrightarrow> balanced (insert k P) (W - {k}) (insert k Q) S st out ref"
    and "k \<in> P \<Longrightarrow> balanced (P - {k}) W Q S st (out(k := 1)) ref"
    and "k \<in> P \<Longrightarrow> balanced (P - {k}) W (Q - {k}) S st (out(k := 1)) ref"
    and "k \<notin> P \<Longrightarrow> balanced P W (Q - {k}) S st out ref"
    and "balanced (P - {k}) W Q S st out (ref(k := True))"
    and "balanced P W Q' S True out ref"
  using assms unfolding balanced_def by (auto split: if_splits)

definition pending_ok :: "uuidCodec \<Rightarrow> client \<Rightarrow> bool" where
  "pending_ok C c \<longleftrightarrow>
     balanced (results c) (keyOf C ` set (written c)) (keyOf C ` set (waiting c)) (callsOf C c) (stopped c)
       (\<lambda>k. outcomes C k c) (\<lambda>k. refused C k c)"

lemmas outcome_simps = outcomes_def outcomeFor_def refused_def refusal_def

lemma waiting_calls: "goroutines_ok C c \<Longrightarrow> keyOf C ` set (waiting c) \<subseteq> callsOf C c"
  by (fastforce simp: goroutines_ok_def isWritten_def isDue_def callsOf_def keyOf_def UUID_def)

lemma written_calls: "goroutines_ok C c \<Longrightarrow> keyOf C ` set (written c) \<subseteq> callsOf C c"
  by (fastforce simp: goroutines_ok_def isWritten_def isDue_def callsOf_def keyOf_def UUID_def)

subsection \<open>Sending\<close>

lemma fresh_calls: "fresh C u c \<Longrightarrow> ustring C u \<notin> callsOf C c"
  by (auto simp: fresh_def callsOf_def UUID_def)

lemma outcomes_sent [simp]:
  "outcomes C k (c\<lparr>sent := x\<rparr>) = outcomes C k c" "outcomes C k (c\<lparr>written := y\<rparr>) = outcomes C k c"
  "outcomes C k (c\<lparr>waiting := z\<rparr>) = outcomes C k c" "outcomes C k (c\<lparr>results := r\<rparr>) = outcomes C k c"
  "outcomes C k (c\<lparr>clock := n\<rparr>) = outcomes C k c" "outcomes C k (c\<lparr>stopped := st\<rparr>) = outcomes C k c"
  by (simp_all add: outcomes_def)

lemma refused_sent [simp]:
  "refused C k (c\<lparr>sent := x\<rparr>) = refused C k c" "refused C k (c\<lparr>written := y\<rparr>) = refused C k c"
  "refused C k (c\<lparr>waiting := z\<rparr>) = refused C k c" "refused C k (c\<lparr>results := r\<rparr>) = refused C k c"
  "refused C k (c\<lparr>clock := n\<rparr>) = refused C k c" "refused C k (c\<lparr>stopped := st\<rparr>) = refused C k c"
  by (simp_all add: refused_def)

lemma callsOf_simps [simp]:
  "callsOf C (c\<lparr>results := r\<rparr>) = callsOf C c" "callsOf C (c\<lparr>written := y\<rparr>) = callsOf C c" "callsOf C (c\<lparr>waiting := z\<rparr>) = callsOf C c"
  "callsOf C (c\<lparr>handled := h\<rparr>) = callsOf C c" "callsOf C (c\<lparr>clock := n\<rparr>) = callsOf C c" "callsOf C (c\<lparr>stopped := st\<rparr>) = callsOf C c"
  by (simp_all add: callsOf_def)

lemma callsOf_sent: "callsOf C (c\<lparr>sent := sent c @ [(m, t)]\<rparr>) = (case m of Call mt p \<Rightarrow> insert (ustring C (U mt)) (callsOf C c) | _ \<Rightarrow> callsOf C c)"
  by (cases m) (auto simp: callsOf_def)

definition ok :: "uuidCodec \<Rightarrow> client \<Rightarrow> bool" where
  "ok C c \<longleftrightarrow> goroutines_ok C c \<and> pending_ok C c"

lemma ok_other:
  assumes "ok C c" "\<forall>mt p. m \<noteq> Call mt p"
  shows "ok C (c\<lparr>sent := sent c @ [(m, clock c)]\<rparr>)"
proof -
  have "callsOf C (c\<lparr>sent := sent c @ [(m, clock c)]\<rparr>) = callsOf C c" using assms(2) by (cases m) (auto simp: callsOf_sent)
  with assms(1) show ?thesis by (auto simp: ok_def goroutines_ok_def pending_ok_def more_sent)
qed

lemma ok_call:
  assumes o: "ok C c" and f: "fresh C u c" and m: "m = Call (NewMeta CallMsg u) p"
  shows "ok C (c\<lparr>sent := sent c @ [(m, clock c)], written := (m, c_Timeout p) # written c\<rparr>)"
proof -
  let ?k = "ustring C u" and ?c = "c\<lparr>sent := sent c @ [(m, clock c)], written := (m, c_Timeout p) # written c\<rparr>"
  have k: "keyOf C (m, x) = ?k" for x by (simp add: keyOf_def m NewMeta_def UUID_def)
  have cs: "callsOf C ?c = insert ?k (callsOf C c)" by (simp add: callsOf_sent m NewMeta_def)
  have n: "?k \<notin> callsOf C c" by (rule fresh_calls [OF f])
  have g: "goroutines_ok C c" and pe: "pending_ok C c" using o by (simp_all add: ok_def)
  have "?k \<notin> keyOf C ` set (written c)" "?k \<notin> keyOf C ` set (waiting c)"
    using n waiting_calls [OF g] written_calls [OF g] by auto
  moreover have "isWritten (sent c @ [(m, clock c)]) (m, c_Timeout p)" by (auto simp: isWritten_def m)
  ultimately have "goroutines_ok C ?c" using g by (simp add: goroutines_ok_def k more_sent)
  moreover have "pending_ok C ?c" using balanced_steps(1) [OF pe [unfolded pending_ok_def] n] by (simp add: pending_ok_def cs [simplified] k)
  ultimately show ?thesis by (simp add: ok_def)
qed

subsection \<open>Waiting\<close>

lemma remove1_key: "distinct (map f xs) \<Longrightarrow> x \<in> set xs \<Longrightarrow> f ` set (remove1 x xs) = f ` set xs - {f x} \<and> distinct (map f (remove1 x xs))"
  by (induction xs) (auto simp: distinct_remove1)

lemma ok_pending:
  assumes o: "ok C c" and m: "(m, timeout) \<in> set (written c)"
  shows "ok C (Call_pending C m timeout c)"
proof -
  let ?k = "ustring C (UUID m)" and ?w = "remove1 (m, timeout) (written c)"
  have g: "goroutines_ok C c" and pe: "pending_ok C c" using o by (simp_all add: ok_def)
  have due: "isDue (sent c) (m, clock c + waitTime timeout)"
    using g m unfolding goroutines_ok_def isWritten_def isDue_def by fastforce
  have kx: "keyOf C (m, x) = ?k" for x by (simp add: keyOf_def)
  have r: "keyOf C ` set ?w = keyOf C ` set (written c) - {?k}" "distinct (map (keyOf C) ?w)" "set ?w \<subseteq> set (written c)"
    using remove1_key [of "keyOf C" "written c", OF _ m] g by (auto simp: goroutines_ok_def set_remove1_subset kx)
  have "?k \<in> keyOf C ` set (written c)" using imageI [OF m, of "keyOf C"] by (simp add: kx)
  then have k: "?k \<notin> keyOf C ` set (waiting c)" "?k \<in> callsOf C c" "?k \<in> keyOf C ` set (written c)"
    using g written_calls [OF g] by (auto simp: goroutines_ok_def simp del: imageE)
  have c: "Call_pending C m timeout c = c\<lparr>written := ?w, results := insert ?k (results c), waiting := (m, clock c + waitTime timeout) # waiting c\<rparr>"
    by (simp add: Call_pending_def addPending_def Let_def)
  have "goroutines_ok C (Call_pending C m timeout c)"
    using g k r due unfolding goroutines_ok_def c by (simp add: kx) blast
  moreover have "pending_ok C (Call_pending C m timeout c)"
    using balanced_steps(2) [OF pe [unfolded pending_ok_def] k(3)] r(1) by (simp add: pending_ok_def c kx)
  ultimately show ?thesis by (simp add: ok_def)
qed

lemma waiting_remove1:
  assumes g: "goroutines_ok C c" and m: "(m, d) \<in> set (waiting c)"
  shows "keyOf C ` set (remove1 (m, d) (waiting c)) = keyOf C ` set (waiting c) - {ustring C (UUID m)}"
    and "goroutines_ok C (c\<lparr>waiting := remove1 (m, d) (waiting c)\<rparr>)"
proof -
  let ?w = "remove1 (m, d) (waiting c)"
  have kx: "keyOf C (m, x) = ustring C (UUID m)" for x by (simp add: keyOf_def)
  have r: "keyOf C ` set ?w = keyOf C ` set (waiting c) - {ustring C (UUID m)}" "distinct (map (keyOf C) ?w)" "set ?w \<subseteq> set (waiting c)"
    using remove1_key [of "keyOf C" "waiting c", OF _ m] g by (auto simp: goroutines_ok_def set_remove1_subset kx)
  then show "keyOf C ` set ?w = keyOf C ` set (waiting c) - {ustring C (UUID m)}" by blast
  show "goroutines_ok C (c\<lparr>waiting := ?w\<rparr>)" using g r unfolding goroutines_ok_def by simp blast
qed

lemma ok_expired:
  assumes o: "ok C c" and m: "(m, d) \<in> set (waiting c)" and d: "d \<le> clock c"
  shows "ok C (handleExpiredCall C u m d c)"
proof -
  let ?k = "ustring C (UUID m)" and ?w = "remove1 (m, d) (waiting c)"
  have g: "goroutines_ok C c" and pe: "pending_ok C c" using o by (simp_all add: ok_def)
  note r = waiting_remove1 [OF g m]
  obtain mt p t where mt: "m = Call mt p" "(m, t) \<in> set (sent c)" "t + waitTime (c_Timeout p) \<le> d"
    using g m by (fastforce simp: goroutines_ok_def isDue_def)
  define e where "e = \<lparr>r_For = U mt, r_URI = c_URI p, r_Args = c_Args p\<rparr>"
  have ne: "newExp u m = Exp (NewMeta ExpMsg u) e" by (simp add: mt(1) e_def)
  have k: "ustring C (r_For e) = ?k" by (simp add: e_def mt(1) UUID_def)
  have late: "expiresLate (sent c) (Exp (NewMeta ExpMsg u) e, clock c)"
    using mt d by (force simp: expiresLate_def e_def)
  show ?thesis
  proof (cases "?k \<in> results c")
    case True
    then have c: "handleExpiredCall C u m d c =
        c\<lparr>waiting := ?w, results := results c - {?k}, handled := handled c @ [(Exp (NewMeta ExpMsg u) e, clock c)]\<rparr>" (is "_ = ?c")
      by (simp add: handleExpiredCall_def deletePending_def Handle_def ne)
    have "outcomes C ?k c = 0" using True pe by (simp add: pending_ok_def balanced_def)
    then have "(\<lambda>x. outcomes C x ?c) = (\<lambda>x. outcomes C x c)(?k := 1)" by (auto simp: outcomes_def outcomeFor_def k)
    moreover have "(\<lambda>x. refused C x ?c) = (\<lambda>x. refused C x c)" by (auto simp: refused_def refusal_def)
    ultimately have "pending_ok C ?c"
      using balanced_steps(4) [OF pe [unfolded pending_ok_def] True] r(1) by (simp add: pending_ok_def)
    moreover have "goroutines_ok C ?c" using r(2) late by (simp add: goroutines_ok_def)
    ultimately show ?thesis by (simp add: ok_def c)
  next
    case False
    then have c: "handleExpiredCall C u m d c = c\<lparr>waiting := ?w\<rparr>" by (simp add: handleExpiredCall_def deletePending_def)
    have "pending_ok C (c\<lparr>waiting := ?w\<rparr>)"
      using balanced_steps(5) [OF pe [unfolded pending_ok_def] False] r(1) by (simp add: pending_ok_def)
    with r(2) show ?thesis by (simp add: ok_def c)
  qed
qed

lemma ok_closed:
  assumes o: "ok C c" and m: "(m, d) \<in> set (waiting c)" and st: "stopped c"
  shows "ok C (stopWaiting m d c)"
proof -
  have "goroutines_ok C (stopWaiting m d c)" using o waiting_remove1(2) [OF _ m] by (simp add: ok_def stopWaiting_def)
  moreover have "pending_ok C (stopWaiting m d c)"
    using o st by (simp add: ok_def pending_ok_def stopWaiting_def) (rule balanced_steps(7), blast)
  ultimately show ?thesis by (simp add: ok_def)
qed

subsection \<open>Reading\<close>

lemma ok_handle:
  assumes "ok C c" "\<And>k. \<not> outcomeFor C k (FromServer m, clock c)"
  shows "ok C (Handle (FromServer m) c)"
proof -
  have "(\<lambda>x. outcomes C x (Handle (FromServer m) c)) = (\<lambda>x. outcomes C x c)" using assms(2) by (simp add: outcomes_def Handle_def)
  moreover have "refused C k c \<Longrightarrow> refused C k (Handle (FromServer m) c)" for k by (auto simp: refused_def Handle_def)
  ultimately show ?thesis using assms(1)
    by (auto simp: ok_def pending_ok_def goroutines_ok_def balanced_def Handle_def expiresLate_def)
qed

lemma ok_res:
  assumes o: "ok C c"
  shows "ok C (case deletePending (ustring C (r_For p)) c of (b, c1) \<Rightarrow> if \<not> b then c1 else Handle (FromServer (Res mt p)) c1)"
proof (cases "ustring C (r_For p) \<in> results c")
  case True
  let ?k = "ustring C (r_For p)"
  let ?c = "c\<lparr>results := results c - {?k}, handled := handled c @ [(FromServer (Res mt p), clock c)]\<rparr>"
  have pe: "pending_ok C c" using o by (simp add: ok_def)
  then have "outcomes C ?k c = 0" using True by (simp add: pending_ok_def balanced_def)
  then have "(\<lambda>x. outcomes C x ?c) = (\<lambda>x. outcomes C x c)(?k := 1)" by (auto simp: outcomes_def outcomeFor_def)
  moreover have "(\<lambda>x. refused C x ?c) = (\<lambda>x. refused C x c)" by (auto simp: refused_def refusal_def)
  ultimately have "pending_ok C ?c" using balanced_steps(3) [OF pe [unfolded pending_ok_def] True] by (simp add: pending_ok_def)
  moreover have "goroutines_ok C ?c" using o by (simp add: ok_def goroutines_ok_def expiresLate_def)
  ultimately show ?thesis using True by (simp add: ok_def deletePending_def Handle_def)
next
  case False
  then show ?thesis using o by (simp add: deletePending_def)
qed

lemma ok_err:
  assumes o: "ok C c" and f: "o_ForType p = CallMsg"
  shows "ok C (Handle (FromServer (Err mt p)) (snd (deletePending (ustring C (o_For p)) c)))"
proof -
  let ?k = "ustring C (o_For p)"
  let ?c = "c\<lparr>results := results c - {?k}, handled := handled c @ [(FromServer (Err mt p), clock c)]\<rparr>"
  have pe: "pending_ok C c" using o by (simp add: ok_def)
  have "(\<lambda>x. outcomes C x ?c) = (\<lambda>x. outcomes C x c)" by (auto simp: outcomes_def outcomeFor_def)
  moreover have "(\<lambda>x. refused C x ?c) = (\<lambda>x. refused C x c)(?k := True)" using f by (auto simp: refused_def refusal_def fun_eq_iff)
  ultimately have "pending_ok C ?c" using balanced_steps(6) [OF pe [unfolded pending_ok_def], of ?k] by (simp add: pending_ok_def)
  moreover have "goroutines_ok C ?c" using o by (simp add: ok_def goroutines_ok_def expiresLate_def)
  ultimately show ?thesis by (simp add: ok_def deletePending_def Handle_def)
qed

lemma ok_read: "ok C c \<Longrightarrow> ok C (handleMessages C R rd c)"
proof (cases rd)
  case ReadFailed
  assume "ok C c"
  then show ?thesis using balanced_steps(7) [of "results c"] by (auto simp: ReadFailed handleMessages_def ok_def goroutines_ok_def pending_ok_def)
next
  case (ReadMsg r)
  assume o: "ok C c"
  show ?thesis
  proof (cases "UnmarshalResponse C R r")
    case (Inr m)
    show ?thesis
    proof (cases m)
      case (Err mt p)
      then show ?thesis using ok_err [OF o] ok_handle [OF o, of m]
        by (cases "o_ForType p = CallMsg") (simp_all add: handleMessages_def ReadMsg Inr outcomeFor_def)
    next
      case (Res mt p)
      then show ?thesis using ok_res [OF o, where p = p and mt = mt] by (simp add: handleMessages_def ReadMsg Inr)
    qed (use ok_handle [OF o, of m] in \<open>simp_all add: handleMessages_def ReadMsg Inr outcomeFor_def\<close>)
  qed (simp add: handleMessages_def ReadMsg o)
qed

subsection \<open>Every state\<close>

lemma ok_step: "step C R c c' \<Longrightarrow> ok C c \<Longrightarrow> ok C c'"
proof (induction rule: step.induct)
  case (call u c uri v timeout w r c')
  note o = ok_call [OF call.prems call.hyps(1) refl, of "\<lparr>c_URI = uri, c_Timeout = (if timeout = 0 then callTimeout c else timeout), c_Args = Some b\<rparr>" for b]
  from call o show ?case by (auto simp: Client_Call_def NewCall_def WriteJSON_def Let_def split: sum.splits option.splits)
next
  case (sub u c channel pattern w r c')
  then show ?case using ok_other [of C c "NewSub u channel pattern"]
    by (auto simp: Client_Sub_def WriteJSON_def NewSub_def split: option.splits)
next
  case (unsb u c channel pattern w r c')
  then show ?case using ok_other [of C c "NewUnsb u channel pattern"]
    by (auto simp: Client_Unsb_def WriteJSON_def NewUnsb_def split: option.splits)
next
  case (pub u c channel v w r c')
  then show ?case using ok_other [of C c] by (auto simp: Client_Pub_def WriteJSON_def NewPub_def split: option.splits sum.splits)
next
  case (tick dt c)
  then show ?case by (force simp: ok_def goroutines_ok_def pending_ok_def)
qed (auto intro: ok_pending ok_read ok_expired ok_closed)

lemma ok_reachable: "reachable C R c \<Longrightarrow> ok C c"
proof (induction rule: reachable.induct)
  case (new t now)
  show ?case by (simp add: NewClient_def SetCallTimeout_def ok_def goroutines_ok_def pending_ok_def balanced_def callsOf_def outcomes_def)
qed (rule ok_step)

text \<open>
  C32. In every interleaving of requests, reads and expirations, a call has at most one outcome, a result or an expiration given to the
  handler; only calls that were sent have one; and an expiration comes no earlier than the timeout of its call (one minute if the
  timeout is not positive) after the call was sent.
\<close>

theorem one_outcome_per_call:
  assumes "reachable C R c"
  shows "outcomes C k c \<le> 1 \<and> (k \<notin> callsOf C c \<longrightarrow> outcomes C k c = 0) \<and>
    (\<forall>mt p t. (Exp mt p, t) \<in> set (handled c) \<longrightarrow>
       (\<exists>mt' q t'. (Call mt' q, t') \<in> set (sent c) \<and> U mt' = r_For p \<and> t' + waitTime (c_Timeout q) \<le> t))"
proof -
  note o = ok_reachable [OF assms]
  have "\<forall>h\<in>set (handled c). expiresLate (sent c) h" using o by (simp add: ok_def goroutines_ok_def)
  then have "\<forall>mt p t. (Exp mt p, t) \<in> set (handled c) \<longrightarrow>
      (\<exists>mt' q t'. (Call mt' q, t') \<in> set (sent c) \<and> U mt' = r_For p \<and> t' + waitTime (c_Timeout q) \<le> t)"
    by (force simp: expiresLate_def)
  with o show ?thesis by (simp add: ok_def pending_ok_def balanced_def)
qed

section \<open>Settling\<close>

lemma settled:
  assumes "reachable C R c" "\<not> stopped c" "written c = []" "waiting c = []"
  shows "\<forall>k\<in>callsOf C c. outcomes C k c = 1 \<or> refused C k c"
  using ok_reachable [OF assms(1)] assms(2-4) by (auto simp: ok_def pending_ok_def balanced_def)

lemma rtranclp_reachable: "rtranclp (step C R) c c' \<Longrightarrow> reachable C R c \<Longrightarrow> reachable C R c'"
  by (induction rule: rtranclp_induct) (auto intro: reachable.step)

lemma settle_written: "\<exists>c'. rtranclp (step C R) c c' \<and> written c' = [] \<and> sent c' = sent c \<and> stopped c' = stopped c"
proof (induction "length (written c)" arbitrary: c)
  case (Suc n)
  obtain m timeout ws where w: "written c = (m, timeout) # ws" using Suc.hyps(2) by (cases "written c") auto
  then have st: "step C R c (Call_pending C m timeout c)" by (auto intro: step.pending)
  have e: "written (Call_pending C m timeout c) = ws" "sent (Call_pending C m timeout c) = sent c" "stopped (Call_pending C m timeout c) = stopped c"
    using w by (simp_all add: Call_pending_def addPending_def Let_def)
  then have "n = length (written (Call_pending C m timeout c))" using Suc.hyps(2) w by simp
  from Suc.hyps(1) [OF this] e
  obtain c' where "rtranclp (step C R) (Call_pending C m timeout c) c'" "written c' = []" "sent c' = sent c" "stopped c' = stopped c" by auto
  with st show ?case by (meson converse_rtranclp_into_rtranclp)
qed auto

lemma settle_waiting:
  "written c = [] \<Longrightarrow> \<exists>c'. rtranclp (step C R) c c' \<and> written c' = [] \<and> waiting c' = [] \<and> sent c' = sent c \<and> stopped c' = stopped c"
proof (induction "length (waiting c)" arbitrary: c)
  case (Suc n)
  obtain m d ws where w: "waiting c = (m, d) # ws" using Suc.hyps(2) by (cases "waiting c") auto
  define c1 where "c1 = c\<lparr>clock := clock c + max 0 (d - clock c)\<rparr>"
  define c2 where "c2 = handleExpiredCall C [] m d c1"
  have "step C R c c1" unfolding c1_def by (rule step.tick) simp
  moreover have "step C R c1 c2" unfolding c2_def by (rule step.expired) (simp_all add: c1_def w)
  moreover have e: "waiting c2 = ws" "written c2 = []" "sent c2 = sent c" "stopped c2 = stopped c"
    using w Suc.prems by (simp_all add: c1_def c2_def handleExpiredCall_def deletePending_def Handle_def)
  moreover have "n = length (waiting c2)" using Suc.hyps(2) w e by simp
  then obtain c' where "rtranclp (step C R) c2 c'" "written c' = []" "waiting c' = []" "sent c' = sent c" "stopped c' = stopped c"
    using Suc.hyps(1) [of c2] e by auto
  ultimately show ?case by (meson converse_rtranclp_into_rtranclp)
qed auto

text \<open>
  C33. While the client is open, no call is forgotten: once nothing is left to run, every call sent has its outcome or was refused by the
  server; and every state can run on, without another message from the server, to one where this is so.
\<close>

theorem every_call_settles:
  assumes "reachable C R c" "\<not> stopped c"
  shows "(written c = [] \<and> waiting c = [] \<longrightarrow> (\<forall>k\<in>callsOf C c. outcomes C k c = 1 \<or> refused C k c)) \<and>
    (\<exists>c'. rtranclp (step C R) c c' \<and> sent c' = sent c \<and> \<not> stopped c' \<and> (\<forall>k\<in>callsOf C c'. outcomes C k c' = 1 \<or> refused C k c'))"
proof -
  obtain c1 where c1: "rtranclp (step C R) c c1" "written c1 = []" "sent c1 = sent c" "stopped c1 = stopped c" using settle_written by blast
  obtain c2 where c2: "rtranclp (step C R) c1 c2" "written c2 = []" "waiting c2 = []" "sent c2 = sent c1" "stopped c2 = stopped c1"
    using settle_waiting [OF c1(2)] by blast
  have t: "rtranclp (step C R) c c2" using c1(1) c2(1) by (rule rtranclp_trans)
  have "\<forall>k\<in>callsOf C c2. outcomes C k c2 = 1 \<or> refused C k c2"
    using settled [OF rtranclp_reachable [OF t assms(1)]] assms(2) c1 c2 by simp
  with t c1 c2 assms(2) show ?thesis using settled [OF assms] by auto
qed

section \<open>A concrete run\<close>

definition run1 :: client where
  "run1 = snd (Client_Call ''u'' ''f'' (Inr JNull) 5 None (NewClient [SetCallTimeout 0] 0))"

definition run4 :: client where
  "run4 = (let c = Call_pending plainCodec (fst (hd (written run1))) 5 run1; c' = c\<lparr>clock := clock c + 5\<rparr>
     in handleExpiredCall plainCodec ''x'' (fst (hd (waiting c'))) 5 c')"

lemmas run_simps = Client_Call_def NewClient_def SetCallTimeout_def NewCall_def WriteJSON_def Let_def

lemma run1_reachable: "reachable plainCodec initRegistry run1"
proof -
  have "reachable plainCodec initRegistry (NewClient [SetCallTimeout 0] 0)" by (rule reachable.new)
  moreover have "fresh plainCodec ''u'' (NewClient [SetCallTimeout 0] 0)" by (simp add: fresh_def NewClient_def SetCallTimeout_def)
  ultimately show ?thesis unfolding run1_def by (metis reachable.step step.call prod.collapse)
qed

lemma run4_reachable: "reachable plainCodec initRegistry run4"
proof -
  obtain m where m: "written run1 = [(m, 5)]" "waiting run1 = []" "clock run1 = 0" by (simp add: run1_def run_simps)
  define c where "c = Call_pending plainCodec m 5 run1"
  have c: "waiting c = [(m, 5)]" "clock c = 0" by (simp_all add: c_def Call_pending_def addPending_def m waitTime_def Let_def)
  have "reachable plainCodec initRegistry c" unfolding c_def by (rule reachable.step [OF run1_reachable step.pending]) (simp add: m)
  then have "reachable plainCodec initRegistry (c\<lparr>clock := clock c + 5\<rparr>)" by (rule reachable.step) (rule step.tick, simp)
  then have "reachable plainCodec initRegistry (handleExpiredCall plainCodec ''x'' m 5 (c\<lparr>clock := clock c + 5\<rparr>))"
    by (rule reachable.step) (rule step.expired, simp_all add: c)
  moreover have "run4 = handleExpiredCall plainCodec ''x'' m 5 (c\<lparr>clock := clock c + 5\<rparr>)" by (simp add: run4_def m c Let_def flip: c_def)
  ultimately show ?thesis by simp
qed

theorem one_outcome_per_call_witness: "handled run4 \<noteq> [] \<and> outcomes plainCodec ''u'' run4 \<le> 1"
proof
  show "handled run4 \<noteq> []"
    by (simp add: run4_def run1_def run_simps Call_pending_def addPending_def waitTime_def handleExpiredCall_def deletePending_def Handle_def)
  show "outcomes plainCodec ''u'' run4 \<le> 1" using one_outcome_per_call [OF run4_reachable] by blast
qed

theorem every_call_settles_witness:
  "\<exists>c'. rtranclp (step plainCodec initRegistry) run1 c' \<and> (outcomes plainCodec ''u'' c' = 1 \<or> refused plainCodec ''u'' c')"
proof -
  have "\<not> stopped run1" "''u'' \<in> callsOf plainCodec run1"
    by (simp_all add: run1_def run_simps callsOf_def plainCodec_def NewMeta_def)
  then obtain c' where "rtranclp (step plainCodec initRegistry) run1 c'" "sent c' = sent run1"
      "\<forall>k\<in>callsOf plainCodec c'. outcomes plainCodec k c' = 1 \<or> refused plainCodec k c'"
    using every_call_settles [OF run1_reachable] by blast
  moreover from this(2) have "callsOf plainCodec c' = callsOf plainCodec run1" by (simp add: callsOf_def)
  ultimately show ?thesis using \<open>''u'' \<in> callsOf plainCodec run1\<close> by blast
qed

end
