(* ===== verification/Juggler_Callee.thy ===== *)
theory Juggler_Callee
  imports Juggler_Broker
begin

text \<open>
  The callee, \<^verbatim>\<open>juggler/callee/callee.go\<close>, on the Redis broker. The function that serves a URI is an argument: it gives a
  value, as \<^verbatim>\<open>json.Marshal\<close> renders it, an error, if any, and the time it took.
\<close>

section \<open>Results\<close>

datatype thunkErr = Marshaler "string + json" | PlainErr gobytes

type_synonym Thunk = "CallPayload \<Rightarrow> (string + json) \<times> thunkErr option \<times> int"

datatype calleeErr = ErrCallExpired | StoreErr string

definition ErrResult :: "gobytes \<Rightarrow> json" where
  "ErrResult message = JObj [(''error'', JObj [(''message'', jstr message)])]"

definition storeResult ::
    "uuidCodec \<Rightarrow> 's redis \<Rightarrow> brokerCfg \<Rightarrow> CallPayload \<Rightarrow> string + json \<Rightarrow> thunkErr option \<Rightarrow> int \<Rightarrow> 's \<Rightarrow> calleeErr option \<times> 's" where
  "storeResult C R b cp v e timeout s =
     (let v = (case e of None \<Rightarrow> v | Some (Marshaler ms) \<Rightarrow> ms | Some (PlainErr msg) \<Rightarrow> Inr (ErrResult msg)) in
      case v of
        Inl err \<Rightarrow> (Some (StoreErr err), s)
      | Inr j \<Rightarrow>
          (case Broker_Result C R b \<lparr>rp_ConnUUID = cp_ConnUUID cp, rp_MsgUUID = cp_MsgUUID cp, rp_URI = cp_URI cp, rp_Args = Some j\<rparr> timeout s of
             (err, s1) \<Rightarrow> (map_option StoreErr err, s1)))"

definition InvokeAndStoreResult ::
    "uuidCodec \<Rightarrow> 's redis \<Rightarrow> brokerCfg \<Rightarrow> CallPayload \<Rightarrow> Thunk \<Rightarrow> 's \<Rightarrow> calleeErr option \<times> 's" where
  "InvokeAndStoreResult C R b cp fn s =
     (case fn cp of (v, e, elapsed) \<Rightarrow>
        (let remain = TTLAfterRead cp - elapsed in
         if remain > 0 then storeResult C R b cp v e remain s else (Some ErrCallExpired, s)))"

section \<open>Listening\<close>

definition SplitByHashSlot :: "gobytes list \<Rightarrow> gobytes list list" where
  "SplitByHashSlot uris = []"

text \<open>The calls of the channel one after the other; a URI without a function calls a nil function. Errors are logged only.\<close>

fun listenLoop ::
    "uuidCodec \<Rightarrow> 's redis \<Rightarrow> brokerCfg \<Rightarrow> (gobytes \<times> Thunk) list \<Rightarrow> CallPayload list \<Rightarrow> 's \<Rightarrow> ('s, unit) result" where
  "listenLoop C R b m [] s = Ret () s"
| "listenLoop C R b m (cp # cps) s =
     (case map_of m (cp_URI cp) of
        None \<Rightarrow> Panic (PanicValue ''invalid memory address or nil pointer dereference'') s
      | Some fn \<Rightarrow> (case InvokeAndStoreResult C R b cp fn s of (_, s1) \<Rightarrow> listenLoop C R b m cps s1))"

text \<open>
  Each round of the broker's loop hands its call over before the next round starts; the time the function takes is part of the
  delay before the next round.
\<close>

fun listenRounds ::
    "uuidCodec \<Rightarrow> 's redis \<Rightarrow> brokerCfg \<Rightarrow> (gobytes \<times> Thunk) list \<Rightarrow> delay list \<Rightarrow> 's \<Rightarrow> ('s, string option) result" where
  "listenRounds C R b m [] s = Ret None s"
| "listenRounds C R b m (d # ds) s =
     (case callsRound C R b (map fst m) d s of
        (Stop e, s1) \<Rightarrow> Ret (Some e) s1
      | (Skip, s1) \<Rightarrow> listenRounds C R b m ds s1
      | (Deliver cp, s1) \<Rightarrow>
          (case listenLoop C R b m [cp] s1 of
             Ret _ s2 \<Rightarrow> listenRounds C R b m ds s2
           | Panic x s2 \<Rightarrow> Panic x s2
           | OutOfFuel \<Rightarrow> OutOfFuel))"

text \<open>Listening for as many rounds as there are delays; \<open>dial\<close> is the error of the connection to the broker, if any.\<close>

definition Listen ::
    "uuidCodec \<Rightarrow> 's redis \<Rightarrow> brokerCfg \<Rightarrow> (gobytes \<times> Thunk) list \<Rightarrow> string option \<Rightarrow> delay list \<Rightarrow> 's \<Rightarrow> ('s, string option) result" where
  "Listen C R b m dial ds s =
     (if m = [] then Ret None s
      else case dial of Some e \<Rightarrow> Ret (Some e) s | None \<Rightarrow> listenRounds C R b m ds s)"

end
