(* ===== verification/Juggler_Callee_Properties.thy ===== *)
theory Juggler_Callee_Properties
  imports Juggler_Callee Juggler_Broker_Properties
begin

text \<open>
  A call from the server to the callee and back, through the Redis broker: the whole way of a result, and what
  happens to a call that takes too long.
\<close>

lemma decResPayload_marshal:
  "uuid_laws C \<Longrightarrow> validString (rp_URI rp) \<Longrightarrow> wf_uuid (rp_ConnUUID rp) \<Longrightarrow> wf_uuid (rp_MsgUUID rp) \<Longrightarrow>
    decResPayload C (marshalResPayload C rp) zeroResPayload = Inr rp"
  by (cases "rp_Args rp") (simp_all add: decResPayload_def marshalResPayload_def decStruct_def omitRaw_def findField_def field_def
      decRaw_def zeroResPayload_def)

definition resMsgKey :: "uuidCodec \<Rightarrow> ResPayload \<Rightarrow> string" where
  "resMsgKey C rp = resTimeoutKey (ustring C (rp_ConnUUID rp)) (ustring C (rp_MsgUUID rp))"

lemma keys_apart [simp]:
  "resKey u \<noteq> callKey v" "callKey v \<noteq> resKey u" "resKey u \<noteq> callTimeoutKey v m" "callTimeoutKey v m \<noteq> resKey u"
  "resTimeoutKey u m \<noteq> callKey v" "callKey v \<noteq> resTimeoutKey u m" "resTimeoutKey u m \<noteq> callTimeoutKey v n" "callTimeoutKey v n \<noteq> resTimeoutKey u m"
  by (simp_all add: callKey_def callTimeoutKey_def resKey_def resTimeoutKey_def)

context redis_server
begin

lemma Result_pushes:
  assumes "0 < timeout" "notStr (val s (resKey (ustring C (rp_ConnUUID rp))))"
    "\<not> (0 < ResultCap b \<and> ResultCap b \<le> int (length (listOf (val s (resKey (ustring C (rp_ConnUUID rp)))))))"
  shows "\<exists>s'. Broker_Result C R b rp timeout s = (None, s') \<and>
    val s' = (val s)(resMsgKey C rp \<mapsto> RStr (itoa (millis timeout)),
      resKey (ustring C (rp_ConnUUID rp)) \<mapsto> RList (marshalResPayload C rp # listOf (val s (resKey (ustring C (rp_ConnUUID rp)))))) \<and>
    ttl s' = (ttl s)(resMsgKey C rp \<mapsto> millis timeout)"
proof -
  let ?k2 = "resKey (ustring C (rp_ConnUUID rp))"
  have m: "0 < millis timeout" using millis_cases(1,2) [of timeout] assms(1) by (cases "timeout < Millisecond"; force)
  have c: "\<not> (ResultCap b > 0 \<and> int (length (listOf (val s ?k2))) + 1 > ResultCap b)" using assms(3) by linarith
  have k: "resMsgKey C rp \<noteq> ?k2" by (simp add: resMsgKey_def)
  from script_pushes [OF m assms(2) k c, where p = "marshalResPayload C rp"] show ?thesis
    by (auto simp: Broker_Result_def registerCallOrRes_def Let_def resMsgKey_def)
qed

lemma resultsRound_pops:
  assumes "decResPayload C (marshalResPayload C rp) zeroResPayload = Inr rp" "rp_ConnUUID rp = u" "0 \<le> before d" "0 \<le> between d"
    "0 \<le> BlockingTimeout b" "val s (resKey (ustring C u)) = Some (RList (q @ [marshalResPayload C rp]))" "ttl s (resKey (ustring C u)) = None"
    "ttl s (resMsgKey C rp) = Some t"
  shows "\<exists>s'. resultsRound C R b u d s = (if before d + between d < t then Deliver rp else Skip, s') \<and>
    val s' = (\<lambda>j. if expires (before d + between d) (ttl s j) then None else val s j)(resKey (ustring C u) := mkList q, resMsgKey C rp := None) \<and>
    ttl s' = (\<lambda>j. aged (before d + between d) (ttl s j))(resMsgKey C rp := None)"
proof -
  from wait_pop_wait [OF assms(3,4) blocking [OF assms(5)] assms(6,7)]
  obtain s1 where s1: "rBRPOP R [resKey (ustring C u)] (quot (BlockingTimeout b) Second) (rWait R (before d) s) = (PopVal (resKey (ustring C u)) (marshalResPayload C rp), s1)"
    "val (rWait R (between d) s1) = (\<lambda>j. if expires (before d + between d) (ttl s j) then None else val s j)(resKey (ustring C u) := mkList q)"
    "ttl (rWait R (between d) s1) = (\<lambda>j. aged (before d + between d) (ttl s j))" by blast
  obtain n s2 where s2: "delAndPTTLScript R (resMsgKey C rp) (rWait R (between d) s1) = (Inr n, s2)"
    "case ttl (rWait R (between d) s1) (resMsgKey C rp) of Some t \<Rightarrow> n = t | None \<Rightarrow> n < 0"
    "val s2 = (val (rWait R (between d) s1))(resMsgKey C rp := None)" "ttl s2 = (ttl (rWait R (between d) s1))(resMsgKey C rp := None)"
    using delAndPTTL [of "resMsgKey C rp" "rWait R (between d) s1"] by blast
  have "resultsRound C R b u d s = (if before d + between d < t then Deliver rp else Skip, s2)"
    using s1(1) s2(1,2) assms(1,8) unfolding s1(3) by (auto simp: resultsRound_def aged_def resMsgKey_def split: if_splits)
  with s1 s2 show ?thesis by auto
qed

end

definition resultOf :: "CallPayload \<Rightarrow> json \<Rightarrow> ResPayload" where
  "resultOf cp j = \<lparr>rp_ConnUUID = cp_ConnUUID cp, rp_MsgUUID = cp_MsgUUID cp, rp_URI = cp_URI cp, rp_Args = Some j\<rparr>"

lemma resultOf_simps [simp]: "rp_ConnUUID (resultOf cp j) = cp_ConnUUID cp" "rp_URI (resultOf cp j) = cp_URI cp"
  "rp_MsgUUID (resultOf cp j) = cp_MsgUUID cp" "resultOf (cp\<lparr>ReadTimestamp := n, TTLAfterRead := t\<rparr>) j = resultOf cp j"
  by (simp_all add: resultOf_def)

text \<open>The document of a result: the value of the function, or its error as a document.\<close>

definition rendered :: "string + json \<Rightarrow> thunkErr option \<Rightarrow> string + json" where
  "rendered v e = (case e of None \<Rightarrow> v | Some (Marshaler ms) \<Rightarrow> ms | Some (PlainErr msg) \<Rightarrow> Inr (ErrResult msg))"

definition noKey :: "('s \<Rightarrow> string \<Rightarrow> rval option) \<Rightarrow> ('s \<Rightarrow> string \<Rightarrow> int option) \<Rightarrow> 's \<Rightarrow> string \<Rightarrow> bool" where
  "noKey val ttl s k \<longleftrightarrow> val s k = None \<and> ttl s k = None"

lemma Invoke_stores:
  assumes "fn cp = (v, e, elapsed)" "rendered v e = Inr j"
  shows "InvokeAndStoreResult C R b cp fn s =
    (if elapsed < TTLAfterRead cp
     then (case Broker_Result C R b (resultOf cp j) (TTLAfterRead cp - elapsed) s of (e, s1) \<Rightarrow> (map_option StoreErr e, s1))
     else (Some ErrCallExpired, s))"
  using assms by (simp add: InvokeAndStoreResult_def storeResult_def resultOf_def rendered_def Let_def)

context redis_server
begin

lemma noKey_wait: "0 \<le> ms \<Longrightarrow> noKey val ttl s k \<Longrightarrow> noKey val ttl (rWait R ms s) k"
  by (simp add: noKey_def wait)

lemma call_delivered:
  assumes "uuid_laws C" "wf_payload cp" "0 \<le> BlockingTimeout b" "0 \<le> before d" "0 \<le> between d" "\<not> timeout \<le> - Millisecond"
    "noKey val ttl s (callKey (cp_URI cp))"
  shows "\<exists>s1 s2. Broker_Call C R b cp timeout s = (None, s1) \<and>
    callsRound C R b [cp_URI cp] d s1 =
      (if before d + between d < millis timeout
       then Deliver (cp\<lparr>ReadTimestamp := clockAt d, TTLAfterRead := (millis timeout - (before d + between d)) * Millisecond\<rparr>) else Skip, s2) \<and>
    noKey val ttl s2 (callKey (cp_URI cp)) \<and> noKey val ttl s2 (msgKey C cp) \<and> (\<forall>u. noKey val ttl s (resKey u) \<longrightarrow> noKey val ttl s2 (resKey u))"
proof -
  have i: "val s (callKey (cp_URI cp)) = None" "ttl s (callKey (cp_URI cp)) = None" using assms(7) by (simp_all add: noKey_def)
  have "\<not> (CallCap b > 0 \<and> int (length (listOf (val s (callKey (cp_URI cp))))) + 1 > CallCap b)" using i by simp
  moreover have "msgKey C cp \<noteq> callKey (cp_URI cp)" "notStr (val s (callKey (cp_URI cp)))" using i by (simp_all add: msgKey_def)
  ultimately obtain n s1 where s1: "callOrResScript R (msgKey C cp) (callKey (cp_URI cp)) (millis timeout) (marshalCallPayload C cp) (CallCap b) s = (Inr n, s1)"
      "val s1 = (val s)(msgKey C cp \<mapsto> RStr (itoa (millis timeout)), callKey (cp_URI cp) \<mapsto> RList [marshalCallPayload C cp])"
      "ttl s1 = (ttl s)(msgKey C cp \<mapsto> millis timeout)"
    using script_pushes [OF millis_pos [OF assms(6)], of s "callKey (cp_URI cp)" "msgKey C cp" "CallCap b" "marshalCallPayload C cp"] i by auto
  have "Broker_Call C R b cp timeout s = (None, s1)" using s1(1) by (simp add: Broker_Call_def registerCallOrRes_def Let_def msgKey_def)
  moreover have "val s1 (callKey (cp_URI cp)) = Some (RList ([] @ [marshalCallPayload C cp]))" "ttl s1 (callKey (cp_URI cp)) = None"
    using i by (simp_all add: s1 msgKey_def)
  from callsRound_pops [OF assms(1,2) refl assms(4,5,3) this]
  obtain s2 where s2: "callsRound C R b [cp_URI cp] d s1 = (case inTime C (ttl s1) 0 [cp] [d] of [] \<Rightarrow> Skip | cp' # _ \<Rightarrow> Deliver cp', s2)"
      "val s2 = (\<lambda>j. if expires (before d + between d) (ttl s1 j) then None else val s1 j)(callKey (cp_URI cp) := None, msgKey C cp := None)"
      "ttl s2 = (\<lambda>j. aged (before d + between d) (ttl s1 j))(msgKey C cp := None)" by (auto simp: mkList_def)
  moreover have "inTime C (ttl s1) 0 [cp] [d] = (if before d + between d < millis timeout
      then [cp\<lparr>ReadTimestamp := clockAt d, TTLAfterRead := (millis timeout - (before d + between d)) * Millisecond\<rparr>] else [])"
    by (simp add: s1(3))
  ultimately show ?thesis using s1(2,3) i by (auto simp: noKey_def msgKey_def)
qed

lemma result_delivered:
  assumes "uuid_laws C" "validString (rp_URI rp)" "wf_uuid (rp_ConnUUID rp)" "wf_uuid (rp_MsgUUID rp)" "0 \<le> BlockingTimeout b"
    "0 \<le> before d" "0 \<le> between d" "0 < remain" "noKey val ttl s (resKey (ustring C (rp_ConnUUID rp)))"
  shows "\<exists>s1 s2. Broker_Result C R b rp remain s = (None, s1) \<and>
    resultsRound C R b (rp_ConnUUID rp) d s1 = (if before d + between d < millis remain then Deliver rp else Skip, s2) \<and>
    noKey val ttl s2 (resKey (ustring C (rp_ConnUUID rp))) \<and> noKey val ttl s2 (resMsgKey C rp) \<and>
    (\<forall>u. noKey val ttl s (callKey u) \<longrightarrow> noKey val ttl s2 (callKey u)) \<and>
    (\<forall>u m. noKey val ttl s (callTimeoutKey u m) \<longrightarrow> noKey val ttl s2 (callTimeoutKey u m))"
proof -
  let ?k = "resKey (ustring C (rp_ConnUUID rp))"
  have i: "val s ?k = None" "ttl s ?k = None" using assms(9) by (simp_all add: noKey_def)
  then have "notStr (val s ?k)" "\<not> (0 < ResultCap b \<and> ResultCap b \<le> int (length (listOf (val s ?k))))" by simp_all
  from Result_pushes [OF assms(8) this] i
  obtain s1 where s1: "Broker_Result C R b rp remain s = (None, s1)"
      "val s1 = (val s)(resMsgKey C rp \<mapsto> RStr (itoa (millis remain)), ?k \<mapsto> RList [marshalResPayload C rp])"
      "ttl s1 = (ttl s)(resMsgKey C rp \<mapsto> millis remain)" by auto
  have "val s1 ?k = Some (RList ([] @ [marshalResPayload C rp]))" "ttl s1 ?k = None" "ttl s1 (resMsgKey C rp) = Some (millis remain)"
    using i by (simp_all add: s1 resMsgKey_def)
  from resultsRound_pops [OF decResPayload_marshal [OF assms(1-4)] refl assms(6,7,5) this]
  obtain s2 where "resultsRound C R b (rp_ConnUUID rp) d s1 = (if before d + between d < millis remain then Deliver rp else Skip, s2)"
      "val s2 = (\<lambda>j. if expires (before d + between d) (ttl s1 j) then None else val s1 j)(?k := None, resMsgKey C rp := None)"
      "ttl s2 = (\<lambda>j. aged (before d + between d) (ttl s1 j))(resMsgKey C rp := None)" by (auto simp: mkList_def)
  with s1 i show ?thesis by (auto simp: noKey_def resMsgKey_def)
qed

lemma result_way:
  assumes "uuid_laws C" "wf_payload cp" "0 \<le> BlockingTimeout b" "0 \<le> before d" "0 \<le> between d" "fn cp' = (v, e, elapsed)" "rendered v e = Inr j"
    "cp' = cp\<lparr>ReadTimestamp := now, TTLAfterRead := left\<rparr>" "elapsed < left"
    "noKey val ttl s (callKey (cp_URI cp))" "noKey val ttl s (msgKey C cp)" "noKey val ttl s (resKey (ustring C (cp_ConnUUID cp)))"
  shows "\<exists>s3 s4. InvokeAndStoreResult C R b cp' fn s = (None, s3) \<and>
    resultsRound C R b (cp_ConnUUID cp) d s3 =
      (if before d + between d < (if left - elapsed < Millisecond then 60000 else (left - elapsed) div Millisecond)
       then Deliver (resultOf cp j) else Skip, s4) \<and>
    list_all (noKey val ttl s4) [callKey (cp_URI cp), msgKey C cp, resKey (ustring C (cp_ConnUUID cp)), resMsgKey C (resultOf cp j)]"
proof -
  have p: "validString (rp_URI (resultOf cp j))" "wf_uuid (rp_ConnUUID (resultOf cp j))" "wf_uuid (rp_MsgUUID (resultOf cp j))"
      "0 < left - elapsed" "noKey val ttl s (resKey (ustring C (rp_ConnUUID (resultOf cp j))))"
    using assms(2,9,12) by (simp_all add: wf_payload_def)
  obtain s3 s4 where "Broker_Result C R b (resultOf cp j) (left - elapsed) s = (None, s3)"
      "resultsRound C R b (cp_ConnUUID cp) d s3 = (if before d + between d < millis (left - elapsed) then Deliver (resultOf cp j) else Skip, s4)"
      "noKey val ttl s4 (resKey (ustring C (cp_ConnUUID cp)))" "noKey val ttl s4 (resMsgKey C (resultOf cp j))"
      "noKey val ttl s4 (callKey (cp_URI cp))" "noKey val ttl s4 (msgKey C cp)"
    using result_delivered [OF assms(1) p(1-3) assms(3-5) p(4,5)] assms(10,11) unfolding msgKey_def resultOf_simps by blast
  moreover have "- Millisecond < left - elapsed" using p(4) by (simp add: Millisecond_def)
  moreover have "TTLAfterRead cp' = left" "resultOf cp' j = resultOf cp j" by (simp_all add: assms(8))
  ultimately show ?thesis using assms(9) unfolding Invoke_stores [of fn cp', OF assms(6,7)]
    by (intro exI [of _ s3] exI [of _ s4]) (simp add: millis_eq)
qed

end

text \<open>
  C34. A call that the server registers on an idle URI goes through the broker to the callee and its result back, while time passes
  before and between the commands. The call is delivered if the milliseconds up to the question for its timeout are fewer than its
  timeout in milliseconds, with exactly what is left; otherwise it is dropped. If the function takes less than what is left, its
  result, or its error as a document, is stored, and is delivered to the connection that called, under the identifier of the call, if
  it is read within the rest, counted in milliseconds, or within the default of a minute if the rest is less than a millisecond;
  if the function takes as long or longer, the call is reported as expired and nothing is stored. In the end no trace of the call is
  left on the server. A call with a timeout below a millisecond, of either sign, has the default of a minute.
\<close>

theorem call_round_trip:
  assumes "redis_server R val ttl" "uuid_laws C" "wf_payload cp" "0 \<le> BlockingTimeout b" "- Millisecond < timeout"
    "0 \<le> before d" "0 \<le> between d" "0 \<le> before d'" "0 \<le> between d'" "0 \<le> w"
    "noKey val ttl s (callKey (cp_URI cp))" "noKey val ttl s (resKey (ustring C (cp_ConnUUID cp)))"
    "\<And>x. fn x = (v, e, elapsed)" "rendered v e = Inr j"
  shows "\<exists>s1 r s2. Broker_Call C R b cp timeout s = (None, s1) \<and> callsRound C R b [cp_URI cp] d s1 = (r, s2) \<and>
    noKey val ttl s2 (callKey (cp_URI cp)) \<and> noKey val ttl s2 (msgKey C cp) \<and>
    (let ms = (if timeout < Millisecond then 60000 else timeout div Millisecond);
         ttl1 = (ms - (before d + between d)) * Millisecond;
         cp' = cp\<lparr>ReadTimestamp := clockAt d, TTLAfterRead := ttl1\<rparr>;
         remain = ttl1 - elapsed
     in if ms \<le> before d + between d then r = Skip
        else r = Deliver cp' \<and>
          (if remain \<le> 0 then InvokeAndStoreResult C R b cp' fn (rWait R w s2) = (Some ErrCallExpired, rWait R w s2)
           else \<exists>s3 s4. InvokeAndStoreResult C R b cp' fn (rWait R w s2) = (None, s3) \<and>
             resultsRound C R b (cp_ConnUUID cp) d' s3 =
               (if before d' + between d' < (if remain < Millisecond then 60000 else remain div Millisecond)
                then Deliver (resultOf cp j) else Skip, s4) \<and>
             list_all (noKey val ttl s4) [callKey (cp_URI cp), msgKey C cp, resKey (ustring C (cp_ConnUUID cp)), resMsgKey C (resultOf cp j)]))"
proof -
  have t: "\<not> timeout \<le> - Millisecond" using assms(5) by simp
  define ttl1 where "ttl1 = (millis timeout - (before d + between d)) * Millisecond"
  define cp' where "cp' = cp\<lparr>ReadTimestamp := clockAt d, TTLAfterRead := ttl1\<rparr>"
  obtain s1 s2 where s: "Broker_Call C R b cp timeout s = (None, s1)"
      "callsRound C R b [cp_URI cp] d s1 = (if before d + between d < millis timeout then Deliver cp' else Skip, s2)"
      "noKey val ttl s2 (callKey (cp_URI cp))" "noKey val ttl s2 (msgKey C cp)" "noKey val ttl s2 (resKey (ustring C (cp_ConnUUID cp)))"
    using redis_server.call_delivered [OF assms(1-4,6,7) t assms(11)] assms(12) unfolding cp'_def ttl1_def by blast
  note iw = redis_server.noKey_wait [OF assms(1,10)]
  note stored = redis_server.result_way [OF assms(1-4,8,9,13,14) cp'_def _ iw [OF s(3)] iw [OF s(4)] iw [OF s(5)]]
  have expired: "\<not> elapsed < ttl1 \<Longrightarrow> InvokeAndStoreResult C R b cp' fn x = (Some ErrCallExpired, x)" for x
    using Invoke_stores [where cp = cp' and C = C and R = R and b = b and s = x, OF assms(13,14)] by (simp add: cp'_def)
  show ?thesis unfolding Let_def millis_eq [OF assms(5), symmetric] ttl1_def [symmetric] cp'_def [symmetric]
    using s stored expired by (intro exI [of _ s1] exI [of _ "fst (callsRound C R b [cp_URI cp] d s1)"] exI [of _ s2]) (cases "elapsed < ttl1"; simp)
qed

theorem call_round_trip_witness:
  "\<exists>s1 s2 s3 s4. Broker_Call hexCodec memoryRedis aBroker (aPayload ''1'') Second \<lparr>mem = (\<lambda>_. None), px = (\<lambda>_. None)\<rparr> = (None, s1) \<and>
     callsRound hexCodec memoryRedis aBroker [''f''] \<lparr>before = 300, between = 2, clockAt = 0\<rparr> s1 =
       (Deliver ((aPayload ''1'')\<lparr>ReadTimestamp := 0, TTLAfterRead := 698 * Millisecond\<rparr>), s2) \<and>
     InvokeAndStoreResult hexCodec memoryRedis aBroker ((aPayload ''1'')\<lparr>ReadTimestamp := 0, TTLAfterRead := 698 * Millisecond\<rparr>)
       (\<lambda>_. (Inr (JInt 3), None, 600 * Millisecond)) (rWait memoryRedis 601 s2) = (None, s3) \<and>
     resultsRound hexCodec memoryRedis aBroker ''a connection 123'' \<lparr>before = 96, between = 1, clockAt = 0\<rparr> s3 =
       (Deliver (resultOf (aPayload ''1'') (JInt 3)), s4)"
proof -
  let ?s = "\<lparr>mem = (\<lambda>_. None), px = (\<lambda>_. None)\<rparr>" and ?d = "\<lparr>before = 300, between = 2, clockAt = 0\<rparr>" and ?d' = "\<lparr>before = 96, between = 1, clockAt = 0\<rparr>"
  have v: "wf_payload (aPayload ''1'')" "0 \<le> BlockingTimeout aBroker" "- Millisecond < Second" "noKey mem px ?s k"
      "0 \<le> before ?d" "0 \<le> between ?d" "0 \<le> before ?d'" "0 \<le> between ?d'" "(0 :: int) \<le> 601" "rendered (Inr (JInt 3)) None = Inr (JInt 3)" for k
    by (simp_all add: aPayload_wf aBroker_def Millisecond_def Second_def noKey_def rendered_def)
  have c: "cp_ConnUUID (aPayload ''1'') = ''a connection 123''" by (simp add: aPayload_def)
  note call_round_trip [OF memServer.redis_server_axioms hexCodec_laws v(1-3) v(5-9) v(4) v(4) refl v(10), where elapsed = "600 * Millisecond"]
  then show ?thesis unfolding c aPayload_wf(2) by (auto simp: Millisecond_def Second_def Let_def)
qed

end
