(* ===== verification/Juggler_Conn.thy ===== *)
theory Juggler_Conn
  imports Juggler_Broker
begin

text \<open>
  The server's end of a connection, \<^verbatim>\<open>juggler/conn.go\<close>, \<^verbatim>\<open>handler.go\<close> and \<^verbatim>\<open>server.go\<close>. The
  websocket, the lock channel as other goroutines leave it, the brokers behind their interfaces and the source of random
  identifiers are the world, a record of functions on an abstract state. A handler is a function on the state of the connection that
  may panic; it gets the way to send a message as an argument, since sending calls the server's handler again. Logging is left out.
\<close>

section \<open>The world\<close>

text \<open>Errors that the code compares are constructors.\<close>

datatype goerr = ErrWriteLockTimeout | ErrWriteLimitExceeded | OtherErr string

fun errText :: "goerr \<Rightarrow> string" where
  "errText ErrWriteLockTimeout = ''juggler: timed out waiting for write lock''"
| "errText ErrWriteLimitExceeded = ''write limit exceeded''"
| "errText (OtherErr s) = s"

record 's world =
  wAcquire :: "int \<Rightarrow> 's \<Rightarrow> bool \<times> 's"
  wRelease :: "'s \<Rightarrow> 's"
  wNextWriter :: "'s \<Rightarrow> string option \<times> 's"
  wWrite :: "gobytes \<Rightarrow> 's \<Rightarrow> string option \<times> 's"
  wCloseWriter :: "'s \<Rightarrow> string option \<times> 's"
  wSetWriteDeadline :: "int option \<Rightarrow> 's \<Rightarrow> 's"
  wSetReadDeadline :: "int option \<Rightarrow> 's \<Rightarrow> 's"
  wSetReadLimit :: "int \<Rightarrow> 's \<Rightarrow> 's"
  wUUID :: "'s \<Rightarrow> uuid \<times> 's"
  wCall :: "CallPayload \<Rightarrow> int \<Rightarrow> 's \<Rightarrow> string option \<times> 's"
  wPublish :: "gobytes \<Rightarrow> PubPayload \<Rightarrow> 's \<Rightarrow> string option \<times> 's"
  wSubscribe :: "gobytes \<Rightarrow> bool \<Rightarrow> 's \<Rightarrow> string option \<times> 's"
  wUnsubscribe :: "gobytes \<Rightarrow> bool \<Rightarrow> 's \<Rightarrow> string option \<times> 's"
  wResults :: "uuid \<Rightarrow> 's \<Rightarrow> string option \<times> 's"
  wPubSub :: "'s \<Rightarrow> string option \<times> 's"

record Server =
  ReadLimit :: int
  ReadTimeout :: int
  WriteLimit :: int
  WriteTimeout :: int
  AcquireWriteLockTimeout :: int
  hasVars :: bool

record 's Conn =
  ConnUUID :: uuid
  CloseErr :: "goerr option"
  onceDone :: bool
  killed :: bool
  pscCloses :: nat
  rescCloses :: nat
  Vars :: "string \<Rightarrow> int"
  world :: 's

section \<open>The exclusive writer\<close>

record exclusiveWriter =
  writer :: bool
  ini :: bool
  lockTimeout :: int
  writeTimeout :: int

text \<open>Writing with no writer from the websocket is a nil dereference.\<close>

definition putBytes :: "'s world \<Rightarrow> exclusiveWriter \<Rightarrow> gobytes \<Rightarrow> 's \<Rightarrow> ('s, exclusiveWriter \<times> goerr option) result" where
  "putBytes W w p s =
     (if writer w then (case wWrite W p s of (e, s1) \<Rightarrow> Ret (w, map_option OtherErr e) s1)
      else Panic (PanicValue ''invalid memory address or nil pointer dereference'') s)"

definition exclusiveWriter_Write :: "'s world \<Rightarrow> exclusiveWriter \<Rightarrow> gobytes \<Rightarrow> 's \<Rightarrow> ('s, exclusiveWriter \<times> goerr option) result" where
  "exclusiveWriter_Write W w p s =
     (if \<not> ini w then
        (case wAcquire W (lockTimeout w) s of
           (False, s1) \<Rightarrow> Ret (w, Some ErrWriteLockTimeout) s1
         | (True, s1) \<Rightarrow>
             (case wNextWriter W s1 of
                (Some e, s2) \<Rightarrow> Ret (w\<lparr>ini := True\<rparr>, Some (OtherErr e)) s2
              | (None, s2) \<Rightarrow>
                  putBytes W (w\<lparr>ini := True, writer := True\<rparr>) p
                    (if writeTimeout w > 0 then wSetWriteDeadline W (Some (writeTimeout w)) s2 else s2)))
      else putBytes W w p s)"

definition exclusiveWriter_Close :: "'s world \<Rightarrow> exclusiveWriter \<Rightarrow> 's \<Rightarrow> string option \<times> 's" where
  "exclusiveWriter_Close W w s =
     (if \<not> ini w then (None, s)
      else case (if writer w then (case wCloseWriter W s of (e, s1) \<Rightarrow> (e, wSetWriteDeadline W None s1)) else (None, s)) of
        (e, s1) \<Rightarrow> (e, wRelease W s1))"

definition Conn_Writer :: "Server \<Rightarrow> int \<Rightarrow> exclusiveWriter" where
  "Conn_Writer srv timeout = \<lparr>writer = False, ini = False, lockTimeout = timeout, writeTimeout = WriteTimeout srv\<rparr>"

section \<open>Writing a message\<close>

definition minWriteLimit :: int where "minWriteLimit = 4096"

definition limitWriter :: "int \<Rightarrow> int" where
  "limitWriter limit = (if limit < minWriteLimit then minWriteLimit else limit)"

text \<open>The writer's budget, if it has one, is its first argument.\<close>

definition limitedWriter_Write ::
    "'s world \<Rightarrow> int option \<Rightarrow> exclusiveWriter \<Rightarrow> gobytes \<Rightarrow> 's \<Rightarrow> ('s, exclusiveWriter \<times> goerr option) result" where
  "limitedWriter_Write W n w p s =
     (case n of
        None \<Rightarrow> exclusiveWriter_Write W w p s
      | Some n \<Rightarrow> if n - int (length p) < 0 then Ret (w, Some ErrWriteLimitExceeded) s else exclusiveWriter_Write W w p s)"

definition encodeMsg :: "uuidCodec \<Rightarrow> Msg \<Rightarrow> gobytes" where
  "encodeMsg C m = jtext (marshal C m) @ [CHR 0x0A]"

definition writeMsg :: "uuidCodec \<Rightarrow> Server \<Rightarrow> 's world \<Rightarrow> Msg \<Rightarrow> 's \<Rightarrow> ('s, goerr option) result" where
  "writeMsg C srv W m s =
     (let w = Conn_Writer srv (AcquireWriteLockTimeout srv);
          n = (if WriteLimit srv > 0 then Some (limitWriter (WriteLimit srv)) else None)
      in case limitedWriter_Write W n w (encodeMsg C m) s of
           Ret (w1, e) s1 \<Rightarrow> Ret e (snd (exclusiveWriter_Close W w1 s1))
         | Panic x s1 \<Rightarrow> Panic x s1
         | OutOfFuel \<Rightarrow> OutOfFuel)"

section \<open>The connection\<close>

definition newConn :: "uuid \<Rightarrow> 's \<Rightarrow> 's Conn" where
  "newConn u s = \<lparr>ConnUUID = u, CloseErr = None, onceDone = False, killed = False, pscCloses = 0, rescCloses = 0, Vars = (\<lambda>_. 0), world = s\<rparr>"

definition Conn_Close :: "goerr option \<Rightarrow> 's Conn \<Rightarrow> 's Conn" where
  "Conn_Close err c =
     (if onceDone c then c
      else c\<lparr>onceDone := True, CloseErr := err, pscCloses := pscCloses c + 1, rescCloses := rescCloses c + 1, killed := True\<rparr>)"

text \<open>
  The same call in the steps that other goroutines can see, with the mutex and the flag of \<^verbatim>\<open>sync.Once\<close>: a goroutine
  loads the flag, takes the mutex, looks at the flag again, runs the function, sets the flag and gives the mutex back. Closing a
  channel that is closed panics. A goroutine that has to wait for the mutex has no step.
\<close>

datatype closeAt =
    NotClosing | OnceLoad "goerr option" | OnceLock "goerr option" | OnceCheck "goerr option" | SetCloseErr "goerr option"
  | ClosePsc | CloseResc | CloseKill | OnceStore | OnceUnlock | CloseReturned | ClosePanicked

fun closeStep :: "closeAt \<Rightarrow> bool \<times> 's Conn \<Rightarrow> (closeAt \<times> bool \<times> 's Conn) option" where
  "closeStep (OnceLoad err) (held, c) = Some (if onceDone c then CloseReturned else OnceLock err, held, c)"
| "closeStep (OnceLock err) (held, c) = (if held then None else Some (OnceCheck err, True, c))"
| "closeStep (OnceCheck err) (held, c) = Some (if onceDone c then OnceUnlock else SetCloseErr err, held, c)"
| "closeStep (SetCloseErr err) (held, c) = Some (ClosePsc, held, c\<lparr>CloseErr := err\<rparr>)"
| "closeStep ClosePsc (held, c) = Some (CloseResc, held, c\<lparr>pscCloses := pscCloses c + 1\<rparr>)"
| "closeStep CloseResc (held, c) = Some (CloseKill, held, c\<lparr>rescCloses := rescCloses c + 1\<rparr>)"
| "closeStep CloseKill (held, c) = Some (if killed c then ClosePanicked else OnceStore, held, c\<lparr>killed := True\<rparr>)"
| "closeStep OnceStore (held, c) = Some (OnceUnlock, held, c\<lparr>onceDone := True\<rparr>)"
| "closeStep OnceUnlock (held, c) = Some (CloseReturned, False, c)"
| "closeStep NotClosing _ = None"
| "closeStep CloseReturned _ = None"
| "closeStep ClosePanicked _ = None"

definition addFn :: "Server \<Rightarrow> string \<Rightarrow> int \<Rightarrow> 's Conn \<Rightarrow> 's Conn" where
  "addFn srv name n c = (if hasVars srv then c\<lparr>Vars := (Vars c)(name := Vars c name + n)\<rparr> else c)"

definition onWorld :: "('s \<Rightarrow> ('s, 'a) result) \<Rightarrow> 's Conn \<Rightarrow> ('s Conn, 'a) result" where
  "onWorld f c =
     (case f (world c) of Ret a s \<Rightarrow> Ret a (c\<lparr>world := s\<rparr>) | Panic x s \<Rightarrow> Panic x (c\<lparr>world := s\<rparr>) | OutOfFuel \<Rightarrow> OutOfFuel)"

definition writeFailed :: "goerr \<Rightarrow> goerr option" where
  "writeFailed e = Some (OtherErr (''writeMsg failed: '' @ errText e @ ''; closing connection''))"

definition doWrite :: "uuidCodec \<Rightarrow> Server \<Rightarrow> 's world \<Rightarrow> Msg \<Rightarrow> 's Conn \<Rightarrow> ('s Conn, unit) result" where
  "doWrite C srv W m c =
     bindR (onWorld (writeMsg C srv W m) c) (\<lambda>e c1.
       case e of
         None \<Rightarrow> Ret () c1
       | Some ErrWriteLockTimeout \<Rightarrow> Ret () (Conn_Close (writeFailed ErrWriteLockTimeout) (addFn srv ''WriteLockTimeouts'' 1 c1))
       | Some ErrWriteLimitExceeded \<Rightarrow>
           (let c2 = addFn srv ''WriteLimitExceeded'' 1 c1; (u, s) = wUUID W (world c2)
            in bindR (onWorld (writeMsg C srv W (NewErr u m 599 (errText ErrWriteLimitExceeded))) (c2\<lparr>world := s\<rparr>)) (\<lambda>e c3.
                 case e of
                   Some ErrWriteLockTimeout \<Rightarrow> Ret () (Conn_Close (writeFailed ErrWriteLockTimeout) (addFn srv ''WriteLockTimeouts'' 1 c3))
                 | _ \<Rightarrow> Ret () c3))
       | Some (OtherErr _) \<Rightarrow> Ret () c1)"

section \<open>Processing a message\<close>

type_synonym 's handler = "Msg \<Rightarrow> 's Conn \<Rightarrow> ('s Conn, unit) result"

text \<open>The reply to a client's message, once the broker has answered.\<close>

definition reply :: "'s world \<Rightarrow> 's handler \<Rightarrow> Msg \<Rightarrow> string option \<times> 's \<Rightarrow> 's Conn \<Rightarrow> ('s Conn, unit) result" where
  "reply W send m r c =
     (case r of (e, s) \<Rightarrow>
        (case wUUID W s of (u, s1) \<Rightarrow>
           send (case e of Some err \<Rightarrow> NewErr u m 500 err | None \<Rightarrow> NewOK u m) (c\<lparr>world := s1\<rparr>)))"

definition ProcessMsg :: "uuidCodec \<Rightarrow> Server \<Rightarrow> 's world \<Rightarrow> 's handler \<Rightarrow> 's handler" where
  "ProcessMsg C srv W send m c =
     (let c1 = addFn srv ''Msgs'' 1 c;
          c2 = (if IsRead (Type m) then addFn srv ''ReadMsgs'' 1 c1 else c1);
          c3 = (if IsWrite (Type m) then addFn srv ''WriteMsgs'' 1 c2 else c2)
      in case m of
           Call _ p \<Rightarrow>
             (let cp = zeroCallPayload\<lparr>cp_ConnUUID := ConnUUID c, cp_MsgUUID := UUID m, cp_URI := c_URI p, cp_Args := c_Args p\<rparr>
              in reply W send m (wCall W cp (c_Timeout p) (world c3)) (addFn srv ''CallMsgs'' 1 c3))
         | Pub _ p \<Rightarrow>
             reply W send m (wPublish W (p_Channel p) \<lparr>pp_MsgUUID = UUID m, pp_Args = p_Args p\<rparr> (world c3)) (addFn srv ''PubMsgs'' 1 c3)
         | Sub _ p \<Rightarrow> reply W send m (wSubscribe W (s_Channel p) (s_Pattern p) (world c3)) (addFn srv ''SubMsgs'' 1 c3)
         | Unsb _ p \<Rightarrow> reply W send m (wUnsubscribe W (s_Channel p) (s_Pattern p) (world c3)) (addFn srv ''UnsbMsgs'' 1 c3)
         | OK _ _ \<Rightarrow> doWrite C srv W m (addFn srv ''OKMsgs'' 1 c3)
         | Err _ _ \<Rightarrow> doWrite C srv W m (addFn srv ''ErrMsgs'' 1 c3)
         | Evnt _ _ \<Rightarrow> doWrite C srv W m (addFn srv ''EvntMsgs'' 1 c3)
         | Res _ _ \<Rightarrow> doWrite C srv W m (addFn srv ''ResMsgs'' 1 c3)
         | OtherMsg _ _ \<Rightarrow> Ret () (addFn srv ''UnknownMsgs'' 1 c3))"

text \<open>
  Sending calls the server's handler, or \<^verbatim>\<open>ProcessMsg\<close> if there is none. The fuel bounds how deep sends are nested; without
  a handler of its own, a server nests two deep.
\<close>

fun Conn_Send :: "uuidCodec \<Rightarrow> Server \<Rightarrow> 's world \<Rightarrow> ('s handler \<Rightarrow> 's handler) option \<Rightarrow> nat \<Rightarrow> 's handler" where
  "Conn_Send C srv W h 0 m c = OutOfFuel"
| "Conn_Send C srv W h (Suc n) m c =
     (case h of
        Some f \<Rightarrow> f (Conn_Send C srv W h n) m c
      | None \<Rightarrow> ProcessMsg C srv W (Conn_Send C srv W h n) m c)"

section \<open>Handlers\<close>

fun Chain :: "('s handler \<Rightarrow> 's handler) list \<Rightarrow> 's handler \<Rightarrow> 's handler" where
  "Chain [] send m c = Ret () c"
| "Chain (h # hs) send m c = bindR (h send m c) (\<lambda>_ c1. Chain hs send m c1)"

definition panicError :: "panicval \<Rightarrow> goerr option" where
  "panicError e = Some (OtherErr (case e of PanicError s \<Rightarrow> s | PanicValue s \<Rightarrow> s | Hangs \<Rightarrow> ''''))"

definition PanicRecover :: "Server \<Rightarrow> ('s handler \<Rightarrow> 's handler) \<Rightarrow> 's handler \<Rightarrow> 's handler" where
  "PanicRecover srv h send m c =
     (case h send m c of
        Panic e c1 \<Rightarrow>
          if e = Hangs then Panic Hangs c1
          else Ret () (Conn_Close (panicError e) (addFn srv ''RecoveredPanics'' 1 c1))
      | r \<Rightarrow> r)"

section \<open>The loops of a connection\<close>

text \<open>What the websocket gives: an error, or a frame of some type with a document or the error of reading it.\<close>

datatype wsFrame = NextFailed string | Frame int "string + json"

definition TextMessage :: int where "TextMessage = 1"

text \<open>One round of the read loop; True if the loop goes on.\<close>

definition receiveRound ::
    "uuidCodec \<Rightarrow> registry \<Rightarrow> Server \<Rightarrow> 's world \<Rightarrow> 's handler \<Rightarrow> wsFrame \<Rightarrow> 's Conn \<Rightarrow> ('s Conn, bool) result" where
  "receiveRound C R srv W handle f c =
     (let c1 = c\<lparr>world := wSetReadDeadline W None (world c)\<rparr> in
      case f of
        NextFailed e \<Rightarrow> Ret False (Conn_Close (Some (OtherErr e)) c1)
      | Frame mt r \<Rightarrow>
          if mt \<noteq> TextMessage then Ret False (Conn_Close (Some (OtherErr (''invalid websocket message type: '' @ itoa mt))) c1)
          else
            (let c2 = (if ReadTimeout srv > 0 then c1\<lparr>world := wSetReadDeadline W (Some (ReadTimeout srv)) (world c1)\<rparr> else c1) in
             case UnmarshalRequest C R r of
               Inl e \<Rightarrow> Ret False (Conn_Close (Some (OtherErr e)) c2)
             | Inr m \<Rightarrow> bindR (handle m c2) (\<lambda>_ c3. Ret True c3)))"

definition startLoop :: "Server \<Rightarrow> 's Conn \<Rightarrow> 's Conn" where
  "startLoop srv c = addFn srv ''ActiveConnGoros'' 1 (addFn srv ''TotalConnGoros'' 1 c)"

definition endLoop :: "Server \<Rightarrow> 's Conn \<Rightarrow> 's Conn" where
  "endLoop srv c = addFn srv ''ActiveConnGoros'' (- 1) c"

fun receiveLoop :: "uuidCodec \<Rightarrow> registry \<Rightarrow> Server \<Rightarrow> 's world \<Rightarrow> 's handler \<Rightarrow> wsFrame list \<Rightarrow> 's Conn \<Rightarrow> ('s Conn, unit) result" where
  "receiveLoop C R srv W handle [] c = Ret () c"
| "receiveLoop C R srv W handle (f # fs) c =
     bindR (receiveRound C R srv W handle f c) (\<lambda>on c1. if on then receiveLoop C R srv W handle fs c1 else Ret () (endLoop srv c1))"

definition sendResult :: "'s world \<Rightarrow> 's handler \<Rightarrow> ResPayload \<Rightarrow> 's Conn \<Rightarrow> ('s Conn, unit) result" where
  "sendResult W send rp c = (case wUUID W (world c) of (u, s) \<Rightarrow> send (NewRes u rp) (c\<lparr>world := s\<rparr>))"

definition sendEvent :: "'s world \<Rightarrow> 's handler \<Rightarrow> EvntPayload \<Rightarrow> 's Conn \<Rightarrow> ('s Conn, unit) result" where
  "sendEvent W send ep c = (case wUUID W (world c) of (u, s) \<Rightarrow> send (NewEvnt u ep) (c\<lparr>world := s\<rparr>))"

fun forEach :: "('p \<Rightarrow> 's Conn \<Rightarrow> ('s Conn, unit) result) \<Rightarrow> 'p list \<Rightarrow> 's Conn \<Rightarrow> ('s Conn, unit) result" where
  "forEach f [] c = Ret () c"
| "forEach f (x # xs) c = bindR (f x c) (\<lambda>_ c1. forEach f xs c1)"

text \<open>The two loops over the broker's channels, with what the channel gives and the error it is closed with.\<close>

definition Conn_results :: "Server \<Rightarrow> 's world \<Rightarrow> 's handler \<Rightarrow> ResPayload list \<Rightarrow> goerr option \<Rightarrow> 's Conn \<Rightarrow> ('s Conn, unit) result" where
  "Conn_results srv W send rps err c =
     bindR (forEach (sendResult W send) rps (startLoop srv c)) (\<lambda>_ c1. Ret () (endLoop srv (Conn_Close err c1)))"

definition Conn_pubSub :: "Server \<Rightarrow> 's world \<Rightarrow> 's handler \<Rightarrow> EvntPayload list \<Rightarrow> goerr option \<Rightarrow> 's Conn \<Rightarrow> ('s Conn, unit) result" where
  "Conn_pubSub srv W send eps err c =
     bindR (forEach (sendEvent W send) eps (startLoop srv c)) (\<lambda>_ c1. Ret () (endLoop srv (Conn_Close err c1)))"

definition Conn_receive ::
    "uuidCodec \<Rightarrow> registry \<Rightarrow> Server \<Rightarrow> 's world \<Rightarrow> 's handler \<Rightarrow> wsFrame list \<Rightarrow> 's Conn \<Rightarrow> ('s Conn, unit) result" where
  "Conn_receive C R srv W handle fs c = receiveLoop C R srv W handle fs (startLoop srv c)"

section \<open>Serving\<close>

text \<open>The part of \<^verbatim>\<open>ServeConn\<close> up to the start of the loops, with the error for which the connection is dropped, if any.\<close>

definition ServeConn :: "Server \<Rightarrow> 's world \<Rightarrow> 's Conn \<Rightarrow> string option \<times> 's Conn" where
  "ServeConn srv W c =
     (let c0 = addFn srv ''TotalConns'' 1 (addFn srv ''ActiveConns'' 1 c); c1 = c0\<lparr>world := wSetReadLimit W (ReadLimit srv) (world c0)\<rparr> in
      case wResults W (ConnUUID c1) (world c1) of
        (Some e, s) \<Rightarrow> (Some e, addFn srv ''ActiveConns'' (- 1) (c1\<lparr>world := s\<rparr>))
      | (None, s) \<Rightarrow>
          (case wPubSub W s of
             (Some e, s1) \<Rightarrow> (Some e, addFn srv ''ActiveConns'' (- 1) (c1\<lparr>world := s1\<rparr>))
           | (None, s1) \<Rightarrow> (None, c1\<lparr>world := s1\<rparr>)))"

definition Subprotocols :: "string list" where
  "Subprotocols = [''juggler.0'']"

text \<open>Whether an upgraded connection is served.\<close>

definition Upgrade :: "string \<Rightarrow> bool" where
  "Upgrade subprotocol \<longleftrightarrow> subprotocol \<in> set Subprotocols"

end
