(* ===== verification/Juggler_Conn_Properties.thy ===== *)
theory Juggler_Conn_Properties
  imports Juggler_Conn Juggler_Broker_Properties
begin

text \<open>
  Properties of the server's end of a connection: what reaches the websocket, the answer to a request, the write lock, and the
  closing of the connection.
\<close>

section \<open>What the connection relies on\<close>

text \<open>
  Of the world one sees the messages that were completed on the websocket, the message being written, if any, and whether the
  goroutine has the write lock. A write that fails gives the message up, and closing the writer completes the message.
\<close>

locale websocket =
  fixes W :: "'s world" and out :: "'s \<Rightarrow> gobytes list" and cur :: "'s \<Rightarrow> gobytes option" and held :: "'s \<Rightarrow> bool"
  assumes acquire: "wAcquire W t s = (b, s') \<Longrightarrow> out s' = out s \<and> cur s' = cur s \<and> held s' = (b \<or> held s)"
    and release: "out (wRelease W s) = out s" "cur (wRelease W s) = cur s" "\<not> held (wRelease W s)"
    and next_writer: "wNextWriter W s = (e, s') \<Longrightarrow> out s' = out s \<and> cur s' = (if e = None then Some [] else cur s) \<and> held s' = held s"
    and ws_write: "wWrite W x s = (e, s') \<Longrightarrow>
      out s' = out s \<and> cur s' = (if e = None then map_option (\<lambda>p. p @ x) (cur s) else None) \<and> held s' = held s"
    and close_writer: "wCloseWriter W s = (e, s') \<Longrightarrow>
      out s' = out s @ (case cur s of Some p \<Rightarrow> if e = None then [p] else [] | None \<Rightarrow> []) \<and> cur s' = None \<and> held s' = held s"
    and write_deadline: "out (wSetWriteDeadline W d s) = out s" "cur (wSetWriteDeadline W d s) = cur s" "held (wSetWriteDeadline W d s) = held s"
    and new_uuid: "wUUID W s = (u, s') \<Longrightarrow> out s' = out s \<and> cur s' = cur s \<and> held s' = held s"
    and broker_call: "wCall W cp n s = (e, s') \<Longrightarrow> out s' = out s \<and> cur s' = cur s \<and> held s' = held s"
    and broker_publish: "wPublish W ch pp s = (e, s') \<Longrightarrow> out s' = out s \<and> cur s' = cur s \<and> held s' = held s"
    and broker_subscribe: "wSubscribe W ch pat s = (e, s') \<Longrightarrow> out s' = out s \<and> cur s' = cur s \<and> held s' = held s"
    and broker_unsubscribe: "wUnsubscribe W ch pat s = (e, s') \<Longrightarrow> out s' = out s \<and> cur s' = cur s \<and> held s' = held s"

definition fits :: "uuidCodec \<Rightarrow> Server \<Rightarrow> Msg \<Rightarrow> bool" where
  "fits C srv m \<longleftrightarrow> (WriteLimit srv > 0 \<longrightarrow> int (length (encodeMsg C m)) \<le> max 4096 (WriteLimit srv))"

lemma limitWriter_max: "limitWriter l = max 4096 l"
  by (simp add: limitWriter_def minWriteLimit_def)

definition idle :: "('s \<Rightarrow> gobytes option) \<Rightarrow> ('s \<Rightarrow> bool) \<Rightarrow> 's \<Rightarrow> bool" where
  "idle cur held s \<longleftrightarrow> cur s = None \<and> \<not> held s"

section \<open>Writing\<close>

context websocket
begin

lemma writeMsg_long: "\<not> fits C srv m \<Longrightarrow> writeMsg C srv W m s = Ret (Some ErrWriteLimitExceeded) s"
  by (auto simp: writeMsg_def fits_def limitedWriter_Write_def limitWriter_max Let_def Conn_Writer_def exclusiveWriter_Close_def)

lemma writeMsg_short:
  "fits C srv m \<Longrightarrow> writeMsg C srv W m s =
    (case exclusiveWriter_Write W (Conn_Writer srv (AcquireWriteLockTimeout srv)) (encodeMsg C m) s of
       Ret (w1, e) s1 \<Rightarrow> Ret e (snd (exclusiveWriter_Close W w1 s1)) | Panic x s1 \<Rightarrow> Panic x s1 | OutOfFuel \<Rightarrow> OutOfFuel)"
  by (auto simp: writeMsg_def fits_def limitedWriter_Write_def limitWriter_max Let_def)

lemma writeMsg_done:
  assumes "fits C srv m" "wAcquire W (AcquireWriteLockTimeout srv) s = (True, s1)" "wNextWriter W s1 = (None, s2)"
    "wWrite W (encodeMsg C m) (if WriteTimeout srv > 0 then wSetWriteDeadline W (Some (WriteTimeout srv)) s2 else s2) = (f, s4)"
    "wCloseWriter W s4 = (g, s5)"
  shows "writeMsg C srv W m s = Ret (map_option OtherErr f) (wRelease W (wSetWriteDeadline W None s5))"
  using assms
  by (cases "WriteTimeout srv > 0")
    (simp_all add: writeMsg_short exclusiveWriter_Write_def Conn_Writer_def exclusiveWriter_Close_def putBytes_def)

lemma writeMsg_effect:
  assumes "idle cur held s" "fits C srv m"
  shows "\<exists>e s'. writeMsg C srv W m s = Ret e s' \<and> idle cur held s' \<and> e \<noteq> Some ErrWriteLimitExceeded \<and>
    (out s' = out s \<or> e = None \<and> out s' = out s @ [encodeMsg C m])"
proof -
  let ?w = "Conn_Writer srv (AcquireWriteLockTimeout srv)"
  obtain b s1 where a: "wAcquire W (AcquireWriteLockTimeout srv) s = (b, s1)" by (cases "wAcquire W (AcquireWriteLockTimeout srv) s")
  note a1 = acquire [OF a]
  show ?thesis
  proof (cases b)
    case False
    then show ?thesis using a a1 assms
      by (simp add: writeMsg_short exclusiveWriter_Write_def Conn_Writer_def exclusiveWriter_Close_def idle_def)
  next
    case True
    obtain e s2 where n: "wNextWriter W s1 = (e, s2)" by (cases "wNextWriter W s1")
    note n1 = next_writer [OF n]
    show ?thesis
    proof (cases e)
      case (Some x)
      then show ?thesis using True a a1 n n1 assms
        by (simp add: writeMsg_short exclusiveWriter_Write_def Conn_Writer_def exclusiveWriter_Close_def idle_def release)
    next
      case None
      define s3 where "s3 = (if WriteTimeout srv > 0 then wSetWriteDeadline W (Some (WriteTimeout srv)) s2 else s2)"
      have s3: "out s3 = out s" "cur s3 = Some []" using a1 n1 None by (simp_all add: s3_def write_deadline)
      obtain f s4 where w: "wWrite W (encodeMsg C m) s3 = (f, s4)" by (cases "wWrite W (encodeMsg C m) s3")
      obtain g s5 where c: "wCloseWriter W s4 = (g, s5)" by (cases "wCloseWriter W s4")
      have "writeMsg C srv W m s = Ret (map_option OtherErr f) (wRelease W (wSetWriteDeadline W None s5))"
        using writeMsg_done [OF assms(2) a [unfolded eqTrueI [OF True]] n [unfolded None] w [unfolded s3_def] c] by simp
      moreover have "out s5 = out s @ (if f = None \<and> g = None then [encodeMsg C m] else [])" "cur s5 = None"
        using close_writer [OF c] ws_write [OF w] s3 by (auto split: if_splits)
      ultimately show ?thesis by (cases f) (auto simp: idle_def release write_deadline)
    qed
  qed
qed

lemma writeMsg_healthy:
  assumes "idle cur held s" "fits C srv m" "\<And>t s. \<not> held s \<Longrightarrow> fst (wAcquire W t s)" "\<And>s. fst (wNextWriter W s) = None"
    "\<And>x s. fst (wWrite W x s) = None" "\<And>s. fst (wCloseWriter W s) = None"
  shows "\<exists>s'. writeMsg C srv W m s = Ret None s' \<and> idle cur held s' \<and> out s' = out s @ [encodeMsg C m]"
proof -
  obtain s1 where a: "wAcquire W (AcquireWriteLockTimeout srv) s = (True, s1)"
    using assms(3) [of s "AcquireWriteLockTimeout srv"] assms(1) by (cases "wAcquire W (AcquireWriteLockTimeout srv) s") (auto simp: idle_def)
  obtain s2 where n: "wNextWriter W s1 = (None, s2)" using assms(4) [of s1] by (cases "wNextWriter W s1") auto
  define s3 where "s3 = (if WriteTimeout srv > 0 then wSetWriteDeadline W (Some (WriteTimeout srv)) s2 else s2)"
  have s3: "out s3 = out s" "cur s3 = Some []" using acquire [OF a] next_writer [OF n] by (simp_all add: s3_def write_deadline)
  obtain s4 where w: "wWrite W (encodeMsg C m) s3 = (None, s4)" using assms(5) [of "encodeMsg C m" s3] by (cases "wWrite W (encodeMsg C m) s3") auto
  obtain s5 where c: "wCloseWriter W s4 = (None, s5)" using assms(6) [of s4] by (cases "wCloseWriter W s4") auto
  have "writeMsg C srv W m s = Ret None (wRelease W (wSetWriteDeadline W None s5))"
    using writeMsg_done [OF assms(2) a n _ c] w s3_def by simp
  then show ?thesis using close_writer [OF c] ws_write [OF w] s3 by (simp add: idle_def release write_deadline)
qed

lemma onWorld_writeMsg:
  assumes "idle cur held (world c)" "fits C srv m"
  shows "\<exists>e s'. onWorld (writeMsg C srv W m) c = Ret e (c\<lparr>world := s'\<rparr>) \<and> idle cur held s' \<and> e \<noteq> Some ErrWriteLimitExceeded \<and>
    (out s' = out (world c) \<or> e = None \<and> out s' = out (world c) @ [encodeMsg C m])"
  using writeMsg_effect [OF assms] by (auto simp: onWorld_def)

lemma idle_uuid: "idle cur held s \<Longrightarrow> wUUID W s = (u, s') \<Longrightarrow> idle cur held s' \<and> out s' = out s"
  by (auto simp: idle_def dest: new_uuid)

lemma doWrite_long:
  assumes "idle cur held (world c)" "\<not> fits C srv m" "wUUID W (world c) = (u, s)"
  shows "doWrite C srv W m c =
    bindR (onWorld (writeMsg C srv W (NewErr u m 599 ''write limit exceeded'')) ((addFn srv ''WriteLimitExceeded'' 1 c)\<lparr>world := s\<rparr>)) (\<lambda>e c3.
      case e of Some ErrWriteLockTimeout \<Rightarrow> Ret () (Conn_Close (writeFailed ErrWriteLockTimeout) (addFn srv ''WriteLockTimeouts'' 1 c3))
      | _ \<Rightarrow> Ret () c3)"
proof -
  have "onWorld (writeMsg C srv W m) c = Ret (Some ErrWriteLimitExceeded) c" using writeMsg_long [OF assms(2)] by (simp add: onWorld_def)
  then show ?thesis using assms(3) by (simp add: doWrite_def bindR_def addFn_def)
qed

end

lemma world_simps [simp]: "world (addFn srv n k c) = world c" "world (Conn_Close e c) = world c" "ConnUUID (addFn srv n k c) = ConnUUID c"
  by (simp_all add: addFn_def Conn_Close_def)

context websocket
begin

lemma doWrite_fits:
  assumes "idle cur held (world c)" "fits C srv m"
  shows "\<exists>c'. doWrite C srv W m c = Ret () c' \<and> idle cur held (world c') \<and>
    (out (world c') = out (world c) \<or> out (world c') = out (world c) @ [encodeMsg C m])"
proof -
  obtain e s' where "onWorld (writeMsg C srv W m) c = Ret e (c\<lparr>world := s'\<rparr>)" "idle cur held s'" "e \<noteq> Some ErrWriteLimitExceeded"
      "out s' = out (world c) \<or> e = None \<and> out s' = out (world c) @ [encodeMsg C m]"
    using onWorld_writeMsg [OF assms] by blast
  then show ?thesis by (auto simp: doWrite_def bindR_def split: option.splits goerr.splits)
qed

lemma doWrite_effect:
  assumes "idle cur held (world c)"
  shows "\<exists>c' fs. doWrite C srv W m c = Ret () c' \<and> idle cur held (world c') \<and> out (world c') = out (world c) @ fs \<and>
    (fs = [] \<or> (if fits C srv m then fs = [encodeMsg C m]
      else \<exists>u. fs = [encodeMsg C (NewErr u m 599 ''write limit exceeded'')] \<and> fits C srv (NewErr u m 599 ''write limit exceeded'')))"
proof (cases "fits C srv m")
  case True
  from doWrite_fits [OF assms True] show ?thesis using True by fastforce
next
  case False
  obtain u s where u: "wUUID W (world c) = (u, s)" by (cases "wUUID W (world c)")
  let ?e = "NewErr u m 599 ''write limit exceeded''" and ?c = "(addFn srv ''WriteLimitExceeded'' 1 c)\<lparr>world := s\<rparr>"
  note d = doWrite_long [OF assms False u] and i = idle_uuid [OF assms u]
  show ?thesis
  proof (cases "fits C srv ?e")
    case False
    then have "onWorld (writeMsg C srv W ?e) ?c = Ret (Some ErrWriteLimitExceeded) ?c" by (simp add: onWorld_def writeMsg_long)
    then have "doWrite C srv W m c = Ret () ?c" using d by (simp add: bindR_def)
    with i show ?thesis by auto
  next
    case True
    have "idle cur held (world ?c)" using i by simp
    from onWorld_writeMsg [OF this True] obtain x s' where "onWorld (writeMsg C srv W ?e) ?c = Ret x (?c\<lparr>world := s'\<rparr>)" "idle cur held s'"
        "out s' = out s \<or> x = None \<and> out s' = out s @ [encodeMsg C ?e]" by auto
    then show ?thesis using d i True \<open>\<not> fits C srv m\<close> by (cases x; cases "the x") (auto simp: bindR_def)
  qed
qed

end

text \<open>
  C35. Writing a message to the client always returns with the write lock given back and no message half written; at most one
  message is completed, the message itself if it is within the write limit (4096 bytes at least), else an ERR with code 599 in
  its place; no completed message is longer than the limit.
\<close>

theorem write_within_limit:
  assumes "websocket W out cur held" "idle cur held (world c)"
  shows "\<exists>c' fs. doWrite C srv W m c = Ret () c' \<and> idle cur held (world c') \<and> out (world c') = out (world c) @ fs \<and>
    (fs = [] \<or> fs = [encodeMsg C m] \<or> (\<exists>u. fs = [encodeMsg C (NewErr u m 599 ''write limit exceeded'')] \<and> \<not> fits C srv m)) \<and>
    (0 < WriteLimit srv \<longrightarrow> (\<forall>f\<in>set fs. int (length f) \<le> max 4096 (WriteLimit srv)))"
proof -
  obtain c' fs where "doWrite C srv W m c = Ret () c'" "idle cur held (world c')" "out (world c') = out (world c) @ fs" and
    f: "fs = [] \<or> (if fits C srv m then fs = [encodeMsg C m]
      else \<exists>u. fs = [encodeMsg C (NewErr u m 599 ''write limit exceeded'')] \<and> fits C srv (NewErr u m 599 ''write limit exceeded''))"
    using websocket.doWrite_effect [OF assms] by blast
  moreover from f have "0 < WriteLimit srv \<longrightarrow> (\<forall>f\<in>set fs. int (length f) \<le> max 4096 (WriteLimit srv))"
    by (auto simp: fits_def split: if_splits)
  ultimately show ?thesis by (metis (full_types))
qed

section \<open>Requests\<close>

definition healthy :: "'s world \<Rightarrow> ('s \<Rightarrow> bool) \<Rightarrow> bool" where
  "healthy W held \<longleftrightarrow> (\<forall>t s. \<not> held s \<longrightarrow> fst (wAcquire W t s)) \<and> (\<forall>s. fst (wNextWriter W s) = None) \<and> (\<forall>x s. fst (wWrite W x s) = None) \<and>
     (\<forall>s. fst (wCloseWriter W s) = None)"

definition isRequest :: "Msg \<Rightarrow> bool" where
  "isRequest m \<longleftrightarrow> (case m of Call _ _ \<Rightarrow> True | Pub _ _ \<Rightarrow> True | Sub _ _ \<Rightarrow> True | Unsb _ _ \<Rightarrow> True | _ \<Rightarrow> False)"

text \<open>What the brokers are asked for a request.\<close>

definition brokerAnswer :: "'s world \<Rightarrow> uuid \<Rightarrow> Msg \<Rightarrow> 's \<Rightarrow> string option \<times> 's" where
  "brokerAnswer W u m s =
     (case m of
        Call _ p \<Rightarrow> wCall W (zeroCallPayload\<lparr>cp_ConnUUID := u, cp_MsgUUID := UUID m, cp_URI := c_URI p, cp_Args := c_Args p\<rparr>) (c_Timeout p) s
      | Pub _ p \<Rightarrow> wPublish W (p_Channel p) \<lparr>pp_MsgUUID = UUID m, pp_Args = p_Args p\<rparr> s
      | Sub _ p \<Rightarrow> wSubscribe W (s_Channel p) (s_Pattern p) s
      | Unsb _ p \<Rightarrow> wUnsubscribe W (s_Channel p) (s_Pattern p) s
      | _ \<Rightarrow> (None, s))"

definition answer :: "uuid \<Rightarrow> Msg \<Rightarrow> string option \<Rightarrow> Msg" where
  "answer u m e = (case e of Some err \<Rightarrow> NewErr u m 500 err | None \<Rightarrow> NewOK u m)"

definition counted :: "Server \<Rightarrow> (string \<Rightarrow> int) \<Rightarrow> string list \<Rightarrow> string \<Rightarrow> int" where
  "counted srv v ns n = v n + (if hasVars srv then int (count_list ns n) else 0)"

lemma Vars_addFn: "Vars (addFn srv n 1 c) = counted srv (Vars c) [n]"
  by (auto simp: addFn_def counted_def)

lemma counted_counted: "counted srv (counted srv v ns) ms = counted srv v (ns @ ms)"
  by (auto simp: counted_def)

lemma process_request:
  assumes "isRequest m" "IsRead (Type m)"
  shows "\<exists>n c1. n \<in> {''CallMsgs'', ''PubMsgs'', ''SubMsgs'', ''UnsbMsgs''} \<and> Vars c1 = counted srv (Vars c) [''Msgs'', ''ReadMsgs'', n] \<and>
    world c1 = world c \<and> ProcessMsg C srv W send m c = reply W send m (brokerAnswer W (ConnUUID c) m (world c)) c1"
proof -
  have w: "\<not> IsWrite (Type m)" using assms(2) by (auto simp: IsRead_def IsWrite_def type_defs)
  obtain n where n: "n \<in> {''CallMsgs'', ''PubMsgs'', ''SubMsgs'', ''UnsbMsgs''}" and
    "ProcessMsg C srv W send m c = reply W send m (brokerAnswer W (ConnUUID c) m (world c))
       (addFn srv n 1 (addFn srv ''ReadMsgs'' 1 (addFn srv ''Msgs'' 1 c)))"
    using assms w by (cases m) (auto simp: ProcessMsg_def brokerAnswer_def isRequest_def)
  moreover have "Vars (addFn srv n 1 (addFn srv ''ReadMsgs'' 1 (addFn srv ''Msgs'' 1 c))) = counted srv (Vars c) [''Msgs'', ''ReadMsgs'', n]"
    by (simp add: Vars_addFn counted_counted)
  ultimately show ?thesis by (metis world_simps(1))
qed

lemma process_answer:
  "\<exists>n c1. n \<in> {''OKMsgs'', ''ErrMsgs''} \<and> Vars c1 = counted srv (Vars c) [''Msgs'', ''WriteMsgs'', n] \<and> world c1 = world c \<and>
    ProcessMsg C srv W send (answer u m e) c = doWrite C srv W (answer u m e) c1"
proof -
  define n where "n = (if e = None then ''OKMsgs'' else ''ErrMsgs'')"
  have t: "\<not> IsRead (Type (answer u m e))" "IsWrite (Type (answer u m e))"
    by (auto simp: answer_def NewOK_def NewErr_def Type_def NewMeta_def IsRead_def IsWrite_def type_defs split: option.splits)
  have "ProcessMsg C srv W send (answer u m e) c =
      doWrite C srv W (answer u m e) (addFn srv n 1 (addFn srv ''WriteMsgs'' 1 (addFn srv ''Msgs'' 1 c)))"
    using t by (cases e) (simp_all add: ProcessMsg_def answer_def NewOK_def NewErr_def n_def)
  moreover have "Vars (addFn srv n 1 (addFn srv ''WriteMsgs'' 1 (addFn srv ''Msgs'' 1 c))) = counted srv (Vars c) [''Msgs'', ''WriteMsgs'', n]"
    by (simp add: Vars_addFn counted_counted)
  moreover have "n \<in> {''OKMsgs'', ''ErrMsgs''}" by (simp add: n_def)
  ultimately show ?thesis by (metis world_simps(1))
qed

context websocket
begin

lemma doWrite_healthy:
  assumes "healthy W held" "idle cur held (world c)" "fits C srv m"
  shows "\<exists>s'. doWrite C srv W m c = Ret () (c\<lparr>world := s'\<rparr>) \<and> idle cur held s' \<and> out s' = out (world c) @ [encodeMsg C m]"
proof -
  obtain s' where "writeMsg C srv W m (world c) = Ret None s'" "idle cur held s'" "out s' = out (world c) @ [encodeMsg C m]"
    using writeMsg_healthy [OF assms(2,3)] assms(1) unfolding healthy_def by blast
  then show ?thesis by (auto simp: doWrite_def onWorld_def bindR_def)
qed

lemma brokerAnswer_idle: "idle cur held s \<Longrightarrow> brokerAnswer W u m s = (e, s') \<Longrightarrow> idle cur held s' \<and> out s' = out s"
  by (cases m) (auto simp: brokerAnswer_def idle_def dest: broker_call broker_publish broker_subscribe broker_unsubscribe)

end

text \<open>
  C36. A request is answered once: on a working websocket with a free lock, a server without a handler of its own asks the broker and writes one
  message, an OK if the broker agreed and an ERR with its error otherwise, that names the request; it counts two messages, one read and one
  written. Two levels of nested sends are enough.
\<close>

theorem request_answered_once:
  assumes "websocket W out cur held" "healthy W held" "idle cur held (world c)" "isRequest m" "IsRead (Type m)"
    "brokerAnswer W (ConnUUID c) m (world c) = (e, s)" "wUUID W s = (u, s1)" "fits C srv (answer u m e)" "wf_msg m"
  shows "\<exists>c'. Conn_Send C srv W None 2 m c = Ret () c' \<and> out (world c') = out (world c) @ [encodeMsg C (answer u m e)] \<and>
    idle cur held (world c') \<and> about (answer u m e) = about m \<and>
    (hasVars srv \<longrightarrow> Vars c' ''Msgs'' = Vars c ''Msgs'' + 2 \<and> Vars c' ''ReadMsgs'' = Vars c ''ReadMsgs'' + 1 \<and>
       Vars c' ''WriteMsgs'' = Vars c ''WriteMsgs'' + 1)"
proof -
  let ?r = "answer u m e"
  obtain n c1 where c1: "n \<in> {''CallMsgs'', ''PubMsgs'', ''SubMsgs'', ''UnsbMsgs''}" "Vars c1 = counted srv (Vars c) [''Msgs'', ''ReadMsgs'', n]"
      "ProcessMsg C srv W (Conn_Send C srv W None 1) m c = reply W (Conn_Send C srv W None 1) m (e, s) c1"
    using process_request [OF assms(4,5), of srv c C W "Conn_Send C srv W None 1"] assms(6) by auto
  obtain n' c2 where c2: "n' \<in> {''OKMsgs'', ''ErrMsgs''}" "Vars c2 = counted srv (Vars c1) [''Msgs'', ''WriteMsgs'', n']" "world c2 = s1"
      "ProcessMsg C srv W (Conn_Send C srv W None 0) ?r (c1\<lparr>world := s1\<rparr>) = doWrite C srv W ?r c2"
    using process_answer [of srv "c1\<lparr>world := s1\<rparr>" C W "Conn_Send C srv W None 0" u m e] by auto
  have "idle cur held s1" "out s1 = out (world c)"
    using websocket.brokerAnswer_idle [OF assms(1,3,6)] websocket.idle_uuid [OF assms(1) _ assms(7)] by auto
  then obtain s2 where s2: "doWrite C srv W ?r c2 = Ret () (c2\<lparr>world := s2\<rparr>)" "idle cur held s2" "out s2 = out (world c) @ [encodeMsg C ?r]"
    using websocket.doWrite_healthy [OF assms(1,2) _ assms(8), of c2] c2(3) by auto
  have "Conn_Send C srv W None 2 m c = Ret () (c2\<lparr>world := s2\<rparr>)"
    using c1(3) c2(4) s2(1) assms(7) by (simp add: numeral_2_eq_2 reply_def answer_def)
  moreover have "about ?r = about m" using about_NewErr about_NewOK assms(5,9) by (auto simp: answer_def split: option.splits)
  moreover have "Vars (c2\<lparr>world := s2\<rparr>) = counted srv (Vars c) ([''Msgs'', ''ReadMsgs'', n] @ [''Msgs'', ''WriteMsgs'', n'])"
    using c1(2) c2(2) by (simp add: counted_counted)
  ultimately show ?thesis using s2(2,3) c1(1) c2(1) by (auto simp: counted_def)
qed

section \<open>The write lock\<close>

locale lock_channel =
  fixes W :: "'s world" and token :: "'s \<Rightarrow> bool"
  assumes lock_acquire: "wAcquire W t s = (b, s') \<Longrightarrow> if b then token s \<and> \<not> token s' else token s' = token s"
    and lock_release: "token (wRelease W s)"
    and lock_writer: "token (snd (wNextWriter W s)) = token s" "token (snd (wWrite W x s)) = token s"
      "token (snd (wCloseWriter W s)) = token s" "token (wSetWriteDeadline W d s) = token s"

text \<open>
  Writers of one connection, numbered as they are asked for, each used as the documentation says: written to until it is
  closed, and closed once.
\<close>

record 's writers =
  ws :: "nat \<Rightarrow> exclusiveWriter"
  closedW :: "nat set"
  shared :: 's

inductive writerStep :: "Server \<Rightarrow> 's world \<Rightarrow> 's writers \<Rightarrow> 's writers \<Rightarrow> bool" for srv W where
  fill: "i \<notin> closedW a \<Longrightarrow> exclusiveWriter_Write W (ws a i) p (shared a) = Ret (w, e) s \<Longrightarrow>
    writerStep srv W a (a\<lparr>ws := (ws a)(i := w), shared := s\<rparr>)"
| shut: "i \<notin> closedW a \<Longrightarrow> exclusiveWriter_Close W (ws a i) (shared a) = (e, s) \<Longrightarrow>
    writerStep srv W a (a\<lparr>closedW := insert i (closedW a), shared := s\<rparr>)"

definition active :: "'s writers \<Rightarrow> nat set" where
  "active a = {i. ini (ws a i) \<and> i \<notin> closedW a}"

definition lockOk :: "('s \<Rightarrow> bool) \<Rightarrow> 's writers \<Rightarrow> bool" where
  "lockOk token a \<longleftrightarrow> (if token (shared a) then active a = {} else \<exists>i. active a = {i})"

context lock_channel
begin

lemma putBytes_token: "putBytes W w p s = Ret (w', e) s' \<Longrightarrow> w' = w \<and> token s' = token s"
  using lock_writer(2) [of p s] by (auto simp: putBytes_def split: if_splits prod.splits)

lemma write_token:
  assumes "exclusiveWriter_Write W w p s = Ret (w', e) s'"
  shows "if ini w' \<and> \<not> ini w then token s \<and> \<not> token s' else token s' = token s \<and> ini w' = ini w"
proof (cases "ini w")
  case True
  then show ?thesis using assms putBytes_token [of w p s] by (simp add: exclusiveWriter_Write_def)
next
  case False
  obtain b s1 where a: "wAcquire W (lockTimeout w) s = (b, s1)" by (cases "wAcquire W (lockTimeout w) s")
  obtain f s2 where n: "wNextWriter W s1 = (f, s2)" by (cases "wNextWriter W s1")
  have t: "token s2 = token s1" using lock_writer(1) [of s1] n by simp
  show ?thesis
    using assms False a n lock_acquire [OF a] t putBytes_token [of "w\<lparr>ini := True, writer := True\<rparr>"] lock_writer(4)
    by (cases b; cases f) (fastforce simp: exclusiveWriter_Write_def split: if_splits)+
qed

lemma close_token: "exclusiveWriter_Close W w s = (e, s') \<Longrightarrow> if ini w then token s' else s' = s"
  by (auto simp: exclusiveWriter_Close_def lock_release split: if_splits prod.splits)

lemma writerStep_lock: "writerStep srv W a a' \<Longrightarrow> lockOk token a \<Longrightarrow> lockOk token a'"
proof (induction rule: writerStep.induct)
  case (fill i a p w e s)
  note t = write_token [OF fill.hyps(2)]
  show ?case
  proof (cases "ini w \<and> \<not> ini (ws a i)")
    case True
    then have "active (a\<lparr>ws := (ws a)(i := w), shared := s\<rparr>) = insert i (active a)" using fill.hyps(1) by (auto simp: active_def)
    with True t fill.prems show ?thesis by (auto simp: lockOk_def)
  next
    case False
    then have "active (a\<lparr>ws := (ws a)(i := w), shared := s\<rparr>) = active a" using t by (auto simp: active_def)
    with False t fill.prems show ?thesis by (auto simp: lockOk_def)
  qed
next
  case (shut i a e s)
  note t = close_token [OF shut.hyps(2)]
  have "active (a\<lparr>closedW := insert i (closedW a), shared := s\<rparr>) = active a - {i}" by (auto simp: active_def)
  moreover have "i \<in> active a \<longleftrightarrow> ini (ws a i)" using shut.hyps(1) by (simp add: active_def)
  ultimately show ?case using t shut.prems by (auto simp: lockOk_def split: if_splits)
qed

lemma writerSteps_lock: "rtranclp (writerStep srv W) a a' \<Longrightarrow> lockOk token a \<Longrightarrow> lockOk token a'"
  by (induction rule: rtranclp_induct) (auto intro: writerStep_lock)

end

text \<open>
  C38. However the writers of a connection interleave, at most one has the write lock, the lock is free exactly when none has it, and a
  writer that has it finds room to give it back: closing never blocks and no lock is lost, even when the websocket fails.
\<close>

theorem one_writer_at_a_time:
  assumes "lock_channel W token" "token (shared a)" "ws a = (\<lambda>_. Conn_Writer srv t)" "rtranclp (writerStep srv W) a a'"
  shows "(\<forall>i\<in>active a'. \<forall>j\<in>active a'. i = j) \<and> (token (shared a') \<longleftrightarrow> active a' = {}) \<and> (\<forall>i\<in>active a'. \<not> token (shared a'))"
proof -
  have "lockOk token a" using assms(2,3) by (simp add: lockOk_def active_def Conn_Writer_def)
  then have "lockOk token a'" by (rule lock_channel.writerSteps_lock [OF assms(1,4)])
  then show ?thesis by (auto simp: lockOk_def split: if_splits)
qed

section \<open>A world in memory\<close>

text \<open>A websocket that keeps what is written, with the model of the Redis broker behind it.\<close>

record wsMem =
  mOut :: "gobytes list"
  mCur :: "gobytes option"
  mToken :: bool
  mCount :: nat
  mRedis :: memory

definition memWorld :: "wsMem world" where
  "memWorld = \<lparr>
     wAcquire = (\<lambda>t s. if mToken s then (True, s\<lparr>mToken := False\<rparr>) else (False, s)),
     wRelease = (\<lambda>s. s\<lparr>mToken := True\<rparr>),
     wNextWriter = (\<lambda>s. (None, s\<lparr>mCur := Some []\<rparr>)),
     wWrite = (\<lambda>x s. (None, s\<lparr>mCur := map_option (\<lambda>p. p @ x) (mCur s)\<rparr>)),
     wCloseWriter = (\<lambda>s. (None, s\<lparr>mOut := mOut s @ (case mCur s of Some p \<Rightarrow> [p] | None \<Rightarrow> []), mCur := None\<rparr>)),
     wSetWriteDeadline = (\<lambda>d s. s), wSetReadDeadline = (\<lambda>d s. s), wSetReadLimit = (\<lambda>n s. s),
     wUUID = (\<lambda>s. (itoa (int (mCount s)), s\<lparr>mCount := mCount s + 1\<rparr>)),
     wCall = (\<lambda>cp t s. case Broker_Call plainCodec memoryRedis aBroker cp t (mRedis s) of (e, r) \<Rightarrow> (e, s\<lparr>mRedis := r\<rparr>)),
     wPublish = (\<lambda>ch pp s. case Broker_Publish plainCodec memoryRedis ch pp (mRedis s) of (e, r) \<Rightarrow> (e, s\<lparr>mRedis := r\<rparr>)),
     wSubscribe = (\<lambda>ch pat s. (None, s)), wUnsubscribe = (\<lambda>ch pat s. (None, s)),
     wResults = (\<lambda>u s. (None, s)), wPubSub = (\<lambda>s. (None, s))\<rparr>"

interpretation memSocket: websocket memWorld mOut mCur "\<lambda>s. \<not> mToken s"
  by unfold_locales (auto simp: memWorld_def split: if_splits option.splits prod.splits)

interpretation memLock: lock_channel memWorld mToken
  by unfold_locales (auto simp: memWorld_def split: if_splits)

definition aServer :: Server where
  "aServer = \<lparr>ReadLimit = 0, ReadTimeout = 0, WriteLimit = 0, WriteTimeout = 0, AcquireWriteLockTimeout = 0, hasVars = True\<rparr>"

definition aConn :: "wsMem Conn" where
  "aConn = newConn ''c'' \<lparr>mOut = [], mCur = None, mToken = True, mCount = 1, mRedis = \<lparr>mem = (\<lambda>_. None), px = (\<lambda>_. None)\<rparr>\<rparr>"

lemma aConn_idle: "idle mCur (\<lambda>s. \<not> mToken s) (world aConn)"
  by (simp add: aConn_def newConn_def idle_def)

theorem write_within_limit_witness:
  "\<exists>c' fs. doWrite plainCodec (aServer\<lparr>WriteLimit := 1\<rparr>) memWorld aCall aConn = Ret () c' \<and> mOut (world c') = fs \<and>
     (\<forall>f\<in>set fs. int (length f) \<le> 4096)"
proof -
  have o: "mOut (world aConn) = []" by (simp add: aConn_def newConn_def)
  from write_within_limit [OF memSocket.websocket_axioms aConn_idle, of plainCodec "aServer\<lparr>WriteLimit := 1\<rparr>" aCall]
  show ?thesis unfolding o by (auto simp: aServer_def)
qed

theorem request_answered_once_witness:
  "\<exists>c'. Conn_Send plainCodec aServer memWorld None 2 aCall aConn = Ret () c' \<and>
     mOut (world c') = [encodeMsg plainCodec (NewOK ''1'' aCall)] \<and> Vars c' ''Msgs'' = 2"
proof -
  let ?s = "world aConn"
  have "isRequest aCall" "IsRead (Type aCall)" by (simp_all add: aCall_def isRequest_def IsRead_def Type_def type_defs)
  moreover obtain s where s: "brokerAnswer memWorld (ConnUUID aConn) aCall ?s = (None, s)" "mCount s = 1"
    by (simp add: brokerAnswer_def aCall_def memWorld_def aConn_def newConn_def Broker_Call_def registerCallOrRes_def callOrResScript_def
        memoryRedis_def millis_def quot_def Millisecond_def DefaultCallTimeout_def Second_def aBroker_def Let_def)
  moreover have "wUUID memWorld s = (''1'', s\<lparr>mCount := 2\<rparr>)"
  proof -
    have "itoa 1 = ''1''" by code_simp
    then show ?thesis using s(2) by (simp add: memWorld_def numeral_2_eq_2)
  qed
  moreover have "fits plainCodec aServer (answer ''1'' aCall None)" "hasVars aServer" by (simp_all add: fits_def aServer_def)
  moreover have "healthy memWorld (\<lambda>s. \<not> mToken s)" by (simp add: healthy_def memWorld_def)
  ultimately have "\<exists>c'. Conn_Send plainCodec aServer memWorld None 2 aCall aConn = Ret () c' \<and>
      mOut (world c') = mOut ?s @ [encodeMsg plainCodec (answer ''1'' aCall None)] \<and> Vars c' ''Msgs'' = Vars aConn ''Msgs'' + 2"
    using request_answered_once [OF memSocket.websocket_axioms _ aConn_idle _ _ _ _ _ aCall_wf] by blast
  then show ?thesis by (simp add: aConn_def newConn_def answer_def)
qed

theorem one_writer_at_a_time_witness:
  "\<exists>a'. rtranclp (writerStep aServer memWorld) \<lparr>ws = (\<lambda>_. Conn_Writer aServer 0), closedW = {}, shared = world aConn\<rparr> a' \<and>
     active a' = {7} \<and> \<not> mToken (shared a')"
proof -
  let ?a = "\<lparr>ws = (\<lambda>_. Conn_Writer aServer 0), closedW = {}, shared = world aConn\<rparr> :: wsMem writers"
  obtain w e s where w: "exclusiveWriter_Write memWorld (ws ?a 7) ''x'' (shared ?a) = Ret (w, e) s" "ini w"
    by (simp add: exclusiveWriter_Write_def Conn_Writer_def memWorld_def aConn_def newConn_def aServer_def putBytes_def)
  let ?b = "?a\<lparr>ws := (ws ?a)(7 := w), shared := s\<rparr>"
  have st: "rtranclp (writerStep aServer memWorld) ?a ?b" using writerStep.fill [OF _ w(1)] by auto
  have "active ?b = {7}" using w(2) by (auto simp: active_def Conn_Writer_def)
  with one_writer_at_a_time [OF memLock.lock_channel_axioms _ _ st] st show ?thesis by (auto simp: aConn_def newConn_def)
qed

end
