(* ===== verification/Juggler_Close_Properties.thy ===== *)
theory Juggler_Close_Properties
  imports Juggler_Conn_Properties
begin

text \<open>
  Closing a connection: handlers and loops change what \<^verbatim>\<open>Close\<close> changes only by calling it, and however the calls of
  several goroutines interleave, step by step, the connection is closed once.
\<close>

section \<open>Only Close closes\<close>

definition closeFields :: "'s Conn \<Rightarrow> bool \<times> goerr option \<times> bool \<times> nat \<times> nat" where
  "closeFields c = (onceDone c, CloseErr c, killed c, pscCloses c, rescCloses c)"

definition keeps :: "'s Conn \<Rightarrow> 's Conn \<Rightarrow> bool" where
  "keeps c c' \<longleftrightarrow> closeFields c' = closeFields c \<or> (\<exists>e. closeFields c' = closeFields (Conn_Close e c))"

definition keepsR :: "'s Conn \<Rightarrow> ('s Conn, 'a) result \<Rightarrow> bool" where
  "keepsR c r \<longleftrightarrow> (case r of Ret _ c' \<Rightarrow> keeps c c' | Panic _ c' \<Rightarrow> keeps c c' | OutOfFuel \<Rightarrow> True)"

definition handlerOk :: "'s handler \<Rightarrow> bool" where
  "handlerOk h \<longleftrightarrow> (\<forall>m c. keepsR c (h m c))"

text \<open>A handler that closes the connection only as the package lets it.\<close>

definition middlewareOk :: "('s handler \<Rightarrow> 's handler) \<Rightarrow> bool" where
  "middlewareOk f \<longleftrightarrow> (\<forall>send. handlerOk send \<longrightarrow> handlerOk (f send))"

lemma keeps_refl [simp]: "keeps c c" by (simp add: keeps_def)

lemma closeFields_Close: "closeFields c = closeFields d \<Longrightarrow> closeFields (Conn_Close e c) = closeFields (Conn_Close e d)"
  by (simp add: closeFields_def Conn_Close_def)

lemma Close_twice: "closeFields d = closeFields (Conn_Close e c) \<Longrightarrow> closeFields (Conn_Close e' d) = closeFields (Conn_Close e c)"
  by (auto simp: closeFields_def Conn_Close_def split: if_splits)

lemma keeps_trans [trans]: "keeps a b \<Longrightarrow> keeps b c \<Longrightarrow> keeps a c"
  unfolding keeps_def using closeFields_Close Close_twice by metis

lemma keeps_done: "keeps c c' \<Longrightarrow> onceDone c' = onceDone c \<Longrightarrow> closeFields c' = closeFields c"
  by (auto simp: keeps_def closeFields_def Conn_Close_def split: if_splits)

lemma closeFields_simps [simp]:
  "closeFields (addFn srv n k c) = closeFields c" "closeFields (c\<lparr>world := s\<rparr>) = closeFields c" "closeFields (startLoop srv c) = closeFields c"
  "closeFields (endLoop srv c) = closeFields c"
  by (simp_all add: closeFields_def addFn_def startLoop_def endLoop_def)

lemma keeps_ops [simp]:
  "keeps c (Conn_Close e c)" "keeps c (addFn srv n k c)" "keeps c (c\<lparr>world := s\<rparr>)" "keeps c (startLoop srv c)" "keeps c (endLoop srv c)"
  by (auto simp: keeps_def)

lemma keeps_addFn [simp]: "keeps c (addFn srv n k d) = keeps c d" "keeps c (endLoop srv d) = keeps c d"
  by (simp_all add: keeps_def)

lemma keepsR_simps [simp]: "keepsR c (Ret x c') = keeps c c'" "keepsR c (Panic v c') = keeps c c'" "keepsR c OutOfFuel"
  by (simp_all add: keepsR_def)

lemma keepsR_from: "keeps c c' \<Longrightarrow> keepsR c' r \<Longrightarrow> keepsR c r"
  by (cases r) (auto intro: keeps_trans)

lemma keepsR_bind: "keepsR c r \<Longrightarrow> (\<And>x c'. keepsR c' (f x c')) \<Longrightarrow> keepsR c (bindR r f)"
  by (cases r) (auto simp: bindR_def intro: keepsR_from)

lemma keepsR_onWorld: "keepsR c (onWorld f c)"
  by (auto simp: onWorld_def split: result.splits)

lemma keeps_close_add [simp]: "keeps c (Conn_Close e (addFn srv n k c))"
  by (rule keeps_trans [of _ "addFn srv n k c"]) simp_all

lemma doWrite_keeps: "keepsR c (doWrite C srv W m c)"
  unfolding doWrite_def
proof (rule keepsR_bind [OF keepsR_onWorld])
  fix e and c1 :: "'a Conn"
  have k: "keepsR c2 (bindR (onWorld g (c2\<lparr>world := s\<rparr>)) (\<lambda>e c3. case e of
      Some ErrWriteLockTimeout \<Rightarrow> Ret () (Conn_Close x (addFn srv y 1 c3)) | _ \<Rightarrow> Ret () c3))" for g :: "'a \<Rightarrow> ('a, goerr option) result" and s x y c2
    by (rule keepsR_from [of _ "c2\<lparr>world := s\<rparr>"], simp, rule keepsR_bind [OF keepsR_onWorld]) (auto split: option.splits goerr.splits)
  show "keepsR c1 (case e of
         None \<Rightarrow> Ret () c1
       | Some ErrWriteLockTimeout \<Rightarrow> Ret () (Conn_Close (writeFailed ErrWriteLockTimeout) (addFn srv ''WriteLockTimeouts'' 1 c1))
       | Some ErrWriteLimitExceeded \<Rightarrow>
           (let c2 = addFn srv ''WriteLimitExceeded'' 1 c1; (u, s) = wUUID W (world c2)
            in bindR (onWorld (writeMsg C srv W (NewErr u m 599 (errText ErrWriteLimitExceeded))) (c2\<lparr>world := s\<rparr>)) (\<lambda>e c3.
                 case e of
                   Some ErrWriteLockTimeout \<Rightarrow> Ret () (Conn_Close (writeFailed ErrWriteLockTimeout) (addFn srv ''WriteLockTimeouts'' 1 c3))
                 | _ \<Rightarrow> Ret () c3))
       | Some (OtherErr _) \<Rightarrow> Ret () c1)"
    by (auto simp: Let_def split: option.splits goerr.splits prod.splits intro!: keepsR_from [OF keeps_ops(2) k])
qed

lemma reply_keeps: "handlerOk send \<Longrightarrow> keepsR c (reply W send m r c)"
  by (auto simp: reply_def handlerOk_def split: prod.splits intro: keepsR_from [OF keeps_ops(3)])

lemma ProcessMsg_ok: "middlewareOk (ProcessMsg C srv W)"
proof -
  have r: "keepsR c (reply W send m r d)" if "handlerOk send" "keeps c d" for c d :: "'a Conn" and send m r
    using keepsR_from [OF that(2) reply_keeps [OF that(1)]] .
  have w: "keepsR c (doWrite C srv W m d)" if "keeps c d" for c d :: "'a Conn" and m
    using keepsR_from [OF that doWrite_keeps] .
  have "keepsR c (ProcessMsg C srv W send m c)" if "handlerOk send" for send m and c :: "'a Conn"
    by (cases m) (use that in \<open>auto simp: ProcessMsg_def Let_def intro!: r w\<close>)
  then show ?thesis by (simp add: middlewareOk_def handlerOk_def)
qed

lemma Conn_Send_ok: "(case h of None \<Rightarrow> True | Some f \<Rightarrow> middlewareOk f) \<Longrightarrow> handlerOk (Conn_Send C srv W h n)"
proof (induction n)
  case (Suc n)
  then show ?case using ProcessMsg_ok [of C srv W] by (cases h) (auto simp: handlerOk_def middlewareOk_def)
qed (simp add: handlerOk_def)

lemma Chain_ok: "\<forall>f\<in>set fs. middlewareOk f \<Longrightarrow> middlewareOk (Chain fs)"
proof -
  have "keepsR c (Chain fs send m c)" if "\<forall>f\<in>set fs. handlerOk (f send)" for send m and c :: "'a Conn"
    using that by (induction fs arbitrary: c) (auto simp: handlerOk_def intro!: keepsR_bind)
  then show "\<forall>f\<in>set fs. middlewareOk f \<Longrightarrow> middlewareOk (Chain fs)" by (simp add: middlewareOk_def handlerOk_def)
qed

lemma PanicRecover_ok: "middlewareOk f \<Longrightarrow> middlewareOk (PanicRecover srv f)"
proof -
  assume f: "middlewareOk f"
  have "keepsR c (PanicRecover srv f send m c)" if "handlerOk send" for send m c
  proof -
    have "keepsR c (f send m c)" using f that by (simp add: middlewareOk_def handlerOk_def)
    then show ?thesis by (auto simp: PanicRecover_def split: result.splits intro: keeps_trans)
  qed
  then show ?thesis by (simp add: middlewareOk_def handlerOk_def)
qed

text \<open>
  The life of a connection that is served: a round of the read loop, a result, an event, the end of one of the broker's channels,
  or a call of \<^verbatim>\<open>Close\<close> from anywhere.
\<close>

inductive connStep :: "uuidCodec \<Rightarrow> registry \<Rightarrow> Server \<Rightarrow> 's world \<Rightarrow> 's handler \<Rightarrow> 's Conn \<Rightarrow> 's Conn \<Rightarrow> bool"
  for C R srv W send where
  frame: "receiveRound C R srv W send f c = Ret goon c' \<Longrightarrow> connStep C R srv W send c c'"
| result: "sendResult W send rp c = Ret () c' \<Longrightarrow> connStep C R srv W send c c'"
| event: "sendEvent W send ep c = Ret () c' \<Longrightarrow> connStep C R srv W send c c'"
| channel_closed: "connStep C R srv W send c (endLoop srv (Conn_Close err c))"
| Close: "connStep C R srv W send c (Conn_Close err c)"

lemma receiveRound_keeps: "handlerOk send \<Longrightarrow> keepsR c (receiveRound C R srv W send f c)"
proof -
  assume s: "handlerOk send"
  let ?c = "c\<lparr>world := wSetReadDeadline W None (world c)\<rparr>"
  have w: "keeps c (Conn_Close e (c\<lparr>world := x\<rparr>))" for e x by (rule keeps_trans [of _ "c\<lparr>world := x\<rparr>"]) simp_all
  have h: "keepsR c (bindR (send m (c\<lparr>world := x\<rparr>)) (\<lambda>_ c3. Ret True c3))" for m x
    by (rule keepsR_from [of _ "c\<lparr>world := x\<rparr>"], simp, rule keepsR_bind) (use s in \<open>auto simp: handlerOk_def\<close>)
  show ?thesis by (cases f) (auto simp: receiveRound_def Let_def w h split: sum.splits)
qed

lemma connStep_keeps: "connStep C R srv W send c c' \<Longrightarrow> handlerOk send \<Longrightarrow> keeps c c'"
proof (induction rule: connStep.induct)
  case (frame f c goon c')
  then show ?case using receiveRound_keeps [OF frame.prems, of c C R srv W f] by simp
next
  case (result rp c c')
  have "keepsR c (sendResult W send rp c)" using result.prems
    by (auto simp: sendResult_def handlerOk_def split: prod.splits intro: keepsR_from [OF keeps_ops(3)])
  then show ?case using result.hyps by simp
next
  case (event ep c c')
  have "keepsR c (sendEvent W send ep c)" using event.prems
    by (auto simp: sendEvent_def handlerOk_def split: prod.splits intro: keepsR_from [OF keeps_ops(3)])
  then show ?case using event.hyps by simp
qed simp_all

section \<open>Interleaved calls of Close\<close>

text \<open>
  A served connection with its goroutines, by number, each at some step of a call of \<^verbatim>\<open>Close\<close> or in none. A goroutine in
  none does a round; if the round calls \<^verbatim>\<open>Close\<close> on a connection that is not closed yet, the rest of the round is done and
  the goroutine is at the start of the call: in the loops the call is the last action but for a counter.
\<close>

record 's goros =
  conn :: "'s Conn"
  onceHeld :: bool
  pc :: "nat \<Rightarrow> closeAt"

definition notYet :: "'s Conn \<Rightarrow> 's Conn \<Rightarrow> 's Conn" where
  "notYet c c' = c'\<lparr>onceDone := onceDone c, CloseErr := CloseErr c, killed := killed c, pscCloses := pscCloses c, rescCloses := rescCloses c\<rparr>"

inductive gorosStep :: "uuidCodec \<Rightarrow> registry \<Rightarrow> Server \<Rightarrow> 's world \<Rightarrow> 's handler \<Rightarrow> 's goros \<Rightarrow> 's goros \<Rightarrow> bool"
  for C R srv W send where
  round: "pc a i = NotClosing \<Longrightarrow> connStep C R srv W send (conn a) c \<Longrightarrow> onceDone c = onceDone (conn a) \<Longrightarrow>
    gorosStep C R srv W send a (a\<lparr>conn := c\<rparr>)"
| closing: "pc a i = NotClosing \<Longrightarrow> connStep C R srv W send (conn a) c \<Longrightarrow> \<not> onceDone (conn a) \<Longrightarrow> onceDone c \<Longrightarrow>
    gorosStep C R srv W send a (a\<lparr>conn := notYet (conn a) c, pc := (pc a)(i := OnceLoad (CloseErr c))\<rparr>)"
| within: "closeStep (pc a i) (onceHeld a, conn a) = Some (p, held, c) \<Longrightarrow>
    gorosStep C R srv W send a \<lparr>conn = c, onceHeld = held, pc = (pc a)(i := p)\<rparr>"
| goes_on: "pc a i = CloseReturned \<Longrightarrow> gorosStep C R srv W send a (a\<lparr>pc := (pc a)(i := NotClosing)\<rparr>)"

inductive_cases gorosStep_cases: "gorosStep C R srv W send a a'"

fun inside :: "closeAt \<Rightarrow> bool" where
  "inside (OnceCheck _) = True"
| "inside (SetCloseErr _) = True"
| "inside ClosePsc = True"
| "inside CloseResc = True"
| "inside CloseKill = True"
| "inside OnceStore = True"
| "inside OnceUnlock = True"
| "inside _ = False"

text \<open>What a goroutine can rely on at each step: the flag, the kill channel and how often each broker connection was closed.\<close>

definition counts :: "'s Conn \<Rightarrow> bool \<times> bool \<times> nat \<times> nat" where
  "counts c = (onceDone c, killed c, pscCloses c, rescCloses c)"

fun expects :: "closeAt \<Rightarrow> (bool \<times> bool \<times> nat \<times> nat) set" where
  "expects (SetCloseErr _) = {(False, False, 0, 0)}"
| "expects ClosePsc = {(False, False, 0, 0)}"
| "expects CloseResc = {(False, False, 1, 0)}"
| "expects CloseKill = {(False, False, 1, 1)}"
| "expects OnceStore = {(False, True, 1, 1)}"
| "expects OnceUnlock = {(True, True, 1, 1)}"
| "expects CloseReturned = {(True, True, 1, 1)}"
| "expects ClosePanicked = {}"
| "expects _ = {(False, False, 0, 0), (False, False, 1, 0), (False, False, 1, 1), (False, True, 1, 1), (True, True, 1, 1)}"

text \<open>The goroutine that has the mutex, if any; without one the connection is untouched or closed.\<close>

definition onceOk :: "'s goros \<Rightarrow> bool" where
  "onceOk a \<longleftrightarrow> (\<forall>i. counts (conn a) \<in> expects (pc a i)) \<and>
     (if onceHeld a then \<exists>i. {i. inside (pc a i)} = {i} \<and> (\<forall>e. pc a i = OnceCheck e \<longrightarrow> counts (conn a) \<in> {(False, False, 0, 0), (True, True, 1, 1)})
      else {i. inside (pc a i)} = {} \<and> counts (conn a) \<in> {(False, False, 0, 0), (True, True, 1, 1)})"

lemma closeFields_counts: "closeFields c = closeFields d \<Longrightarrow> counts c = counts d \<and> CloseErr c = CloseErr d"
  by (simp add: closeFields_def counts_def)

lemma counts_notYet [simp]: "counts (notYet c c') = counts c" "CloseErr (notYet c c') = CloseErr c"
  by (simp_all add: counts_def notYet_def)

lemma inside_upd: "{j. inside (((pc a)(i := p)) j)} = (if inside p then insert i {j. inside (pc a j)} else {j. inside (pc a j)} - {i})"
  by auto

lemma expects_outside: "\<not> inside p \<Longrightarrow> q \<in> expects p \<Longrightarrow> fst q \<longrightarrow> fst q' \<Longrightarrow> q' \<in> expects ClosePsc \<union> expects CloseResc \<union> expects CloseKill \<union> expects OnceStore \<union> expects OnceUnlock \<Longrightarrow> q' \<in> expects p"
  by (cases p) auto

lemma holder:
  assumes "onceOk a" "inside (pc a i)"
  shows "onceHeld a" "{j. inside (pc a j)} = {i}"
proof -
  have i: "i \<in> {j. inside (pc a j)}" using assms(2) by simp
  then show "onceHeld a" using assms(1) by (auto simp: onceOk_def split: if_splits)
  with assms(1) obtain k where "{j. inside (pc a j)} = {k}" by (auto simp: onceOk_def)
  with i show "{j. inside (pc a j)} = {i}" by simp
qed

text \<open>A step of the goroutine that has the mutex and keeps it.\<close>

lemma holder_moves:
  assumes "onceOk a" "inside (pc a i)" "inside p" "counts c \<in> expects p" "\<And>e. p \<noteq> OnceCheck e" "onceDone (conn a) \<longrightarrow> onceDone c"
  shows "onceOk \<lparr>conn = c, onceHeld = onceHeld a, pc = (pc a)(i := p)\<rparr>"
proof -
  note h = holder [OF assms(1,2)]
  have "counts c \<in> expects (pc a j)" if "j \<noteq> i" for j
  proof (rule expects_outside [of _ "counts (conn a)"])
    show "\<not> inside (pc a j)" using h(2) that by auto
    show "counts (conn a) \<in> expects (pc a j)" using assms(1) by (simp add: onceOk_def)
    show "fst (counts (conn a)) \<longrightarrow> fst (counts c)" using assms(6) by (simp add: counts_def)
    show "counts c \<in> expects ClosePsc \<union> expects CloseResc \<union> expects CloseKill \<union> expects OnceStore \<union> expects OnceUnlock"
      using assms(3-5) by (cases p) auto
  qed
  then show ?thesis using h assms(3-5) by (auto simp: onceOk_def)
qed

lemma onceOk_outside:
  assumes "onceOk a" "\<not> inside (pc a i)" "\<not> inside p" "counts (conn a) \<in> expects p"
  shows "onceOk (a\<lparr>pc := (pc a)(i := p)\<rparr>)"
proof -
  have "{j. inside (((pc a)(i := p)) j)} = {j. inside (pc a j)}" using assms(2,3) by auto
  with assms show ?thesis by (auto simp: onceOk_def split: if_splits)
qed

lemma closeStep_ok:
  assumes "onceOk a" "closeStep (pc a i) (onceHeld a, conn a) = Some (p, held, c)"
  shows "onceOk \<lparr>conn = c, onceHeld = held, pc = (pc a)(i := p)\<rparr>"
proof (cases "inside (pc a i)")
  case True
  note h = holder [OF assms(1) True]
  have e: "counts (conn a) \<in> expects (pc a i)" using assms(1) by (simp add: onceOk_def)
  have k: "pc a i = OnceCheck x \<Longrightarrow> counts (conn a) \<in> {(False, False, 0, 0), (True, True, 1, 1)}" for x
    using assms(1) h by (auto simp: onceOk_def)
  show ?thesis
  proof (cases "pc a i = OnceUnlock")
    case u: True
    then have "\<forall>j. \<not> inside (((pc a)(i := CloseReturned)) j)" using h(2) by auto
    with u e assms show ?thesis by (auto simp: onceOk_def)
  next
    case False
    have "inside p \<and> held = onceHeld a \<and> counts c \<in> expects p \<and> (\<forall>x. p \<noteq> OnceCheck x) \<and> (onceDone (conn a) \<longrightarrow> onceDone c)"
      using assms(2) True False e k by (cases "pc a i") (auto simp: counts_def split: if_splits)
    then show ?thesis using holder_moves [OF assms(1) True, of p c] by auto
  qed
next
  case False
  show ?thesis
  proof (cases "\<exists>x. pc a i = OnceLock x")
    case True
    then obtain x where x: "pc a i = OnceLock x" by blast
    then have s: "\<not> onceHeld a" "held" "c = conn a" "p = OnceCheck x" using assms(2) by (cases "onceHeld a"; simp)+
    with assms(1) have "\<forall>j. \<not> inside (pc a j)" "counts c \<in> {(False, False, 0, 0), (True, True, 1, 1)}" "\<forall>j. counts c \<in> expects (pc a j)"
      by (auto simp: onceOk_def)
    moreover from this(1) s(4) have "{j. inside (((pc a)(i := p)) j)} = {i}" by auto
    ultimately show ?thesis using s(2,4) by (auto simp: onceOk_def)
  next
    case load: False
    have e: "counts (conn a) \<in> expects (pc a i)" using assms(1) by (simp add: onceOk_def)
    have "held = onceHeld a \<and> c = conn a \<and> \<not> inside p \<and> counts c \<in> expects p"
      using assms(2) False load e by (cases "pc a i") (auto simp: counts_def)
    then show ?thesis using onceOk_outside [OF assms(1) False, of p] by (cases a) simp
  qed
qed

lemma onceOk_same: "onceOk a \<Longrightarrow> counts c = counts (conn a) \<Longrightarrow> onceOk (a\<lparr>conn := c\<rparr>)"
  by (cases "onceHeld a") (auto simp: onceOk_def)

lemma onceOk_any: "onceOk a \<Longrightarrow> counts (conn a) \<in> expects NotClosing"
proof -
  assume "onceOk a"
  then have "counts (conn a) \<in> expects (pc a 0)" by (simp add: onceOk_def)
  then show ?thesis by (cases "pc a 0") auto
qed

text \<open>Once the kill channel is closed, nothing of the closing changes any more.\<close>

lemma closeStep_stable:
  assumes "onceOk a" "closeStep (pc a i) (onceHeld a, conn a) = Some (p, held, c)" "killed (conn a)"
  shows "killed c \<and> CloseErr c = CloseErr (conn a)"
proof -
  have "counts (conn a) \<in> expects (pc a i)" using assms(1) by (simp add: onceOk_def)
  then show ?thesis using assms(2,3) by (cases "pc a i") (auto simp: counts_def split: if_splits)
qed

lemma gorosStep_ok:
  assumes "gorosStep C R srv W send a a'" "handlerOk send" "onceOk a"
  shows "onceOk a' \<and> (killed (conn a) \<longrightarrow> killed (conn a') \<and> CloseErr (conn a') = CloseErr (conn a))"
  using assms(1)
proof (cases rule: gorosStep.cases)
  case (round i c)
  have "closeFields c = closeFields (conn a)" using keeps_done [OF connStep_keeps [OF round(3) assms(2)] round(4)] .
  then have "counts c = counts (conn a)" "CloseErr c = CloseErr (conn a)" "killed c = killed (conn a)"
    by (simp_all add: closeFields_def counts_def)
  then show ?thesis using round(1) onceOk_same [OF assms(3)] by simp
next
  case (closing i c)
  let ?a = "a\<lparr>conn := notYet (conn a) c\<rparr>"
  have "onceOk ?a" using onceOk_same [OF assms(3)] by simp
  then have "onceOk (?a\<lparr>pc := (pc ?a)(i := OnceLoad (CloseErr c))\<rparr>)"
    by (rule onceOk_outside) (use closing(2) onceOk_any [OF assms(3)] in simp_all)
  then show ?thesis using closing(1) by (simp add: notYet_def)
next
  case (within i p held c)
  then show ?thesis using closeStep_ok [OF assms(3) within(2)] closeStep_stable [OF assms(3) within(2)] by simp
next
  case (goes_on i)
  then show ?thesis using onceOk_outside [OF assms(3), of i NotClosing] onceOk_any [OF assms(3)] by simp
qed

lemma gorosSteps_ok:
  assumes "rtranclp (gorosStep C R srv W send) a a'" "handlerOk send" "onceOk a"
  shows "onceOk a' \<and> (killed (conn a) \<longrightarrow> killed (conn a') \<and> CloseErr (conn a') = CloseErr (conn a))"
  using assms(1,3)
proof (induction rule: rtranclp_induct)
  case (step a1 a2)
  then show ?case using gorosStep_ok [OF step.hyps(2) assms(2)] by auto
qed simp

text \<open>A goroutine that waits for the mutex waits for one that can go on.\<close>

lemma close_progress:
  assumes "onceOk a" "pc a i \<notin> {NotClosing, CloseReturned}"
  shows "\<exists>j. closeStep (pc a j) (onceHeld a, conn a) \<noteq> None"
proof (cases "onceHeld a")
  case True
  with assms(1) obtain j where "inside (pc a j)" by (auto simp: onceOk_def)
  then have "closeStep (pc a j) (onceHeld a, conn a) \<noteq> None" by (cases "pc a j") auto
  then show ?thesis by blast
next
  case False
  have "counts (conn a) \<in> expects (pc a i)" using assms(1) by (simp add: onceOk_def)
  with False assms(2) have "closeStep (pc a i) (onceHeld a, conn a) \<noteq> None" by (cases "pc a i") auto
  then show ?thesis by blast
qed

definition served :: "'s Conn \<Rightarrow> 's goros" where
  "served c = \<lparr>conn = c, onceHeld = False, pc = (\<lambda>_. NotClosing)\<rparr>"

lemma served_ok: "ServeConn srv W (newConn u s) = (None, c0) \<Longrightarrow> onceOk (served c0)"
proof -
  assume a: "ServeConn srv W (newConn u s) = (None, c0)"
  have "closeFields c0 = closeFields (newConn u s)" using a by (auto simp: ServeConn_def Let_def split: prod.splits option.splits)
  then have "counts c0 = (False, False, 0, 0)" by (simp add: closeFields_def counts_def newConn_def)
  then show ?thesis by (simp add: served_def onceOk_def)
qed

text \<open>
  C37. However the loops of a served connection and the calls of \<^verbatim>\<open>Close\<close> by any number of goroutines interleave, step by
  step inside \<^verbatim>\<open>sync.Once\<close>, and whatever handler built from \<^verbatim>\<open>ProcessMsg\<close>, \<^verbatim>\<open>Chain\<close> and
  \<^verbatim>\<open>PanicRecover\<close> the connection has: its two broker connections are closed at most once and the kill channel never a second
  time, which would panic; the kill channel is closed only after both, and from then on the close error does not change; a call of
  \<^verbatim>\<open>Close\<close> returns only when the connection is closed; and while a call is under way some goroutine in a call can go on.
\<close>

theorem closed_once:
  assumes "case h of None \<Rightarrow> True | Some f \<Rightarrow> middlewareOk f" "ServeConn srv W (newConn u s) = (None, c0)"
    "rtranclp (gorosStep C R srv W (Conn_Send C srv W h n)) (served c0) a" "rtranclp (gorosStep C R srv W (Conn_Send C srv W h n)) a a'"
  shows "pscCloses (conn a) \<le> 1 \<and> rescCloses (conn a) \<le> 1 \<and> (\<forall>i. pc a i \<noteq> ClosePanicked) \<and>
    (killed (conn a) \<longrightarrow> pscCloses (conn a) = 1 \<and> rescCloses (conn a) = 1 \<and> killed (conn a') \<and> CloseErr (conn a') = CloseErr (conn a)) \<and>
    (\<forall>i. pc a i = CloseReturned \<longrightarrow> killed (conn a)) \<and>
    (\<forall>i. pc a i \<notin> {NotClosing, CloseReturned} \<longrightarrow> (\<exists>j. closeStep (pc a j) (onceHeld a, conn a) \<noteq> None))"
proof -
  have a: "onceOk a" using gorosSteps_ok [OF assms(3) Conn_Send_ok [OF assms(1)] served_ok [OF assms(2)]] by simp
  have e: "counts (conn a) \<in> expects (pc a i)" for i using a by (simp add: onceOk_def)
  have "pscCloses (conn a) \<le> 1 \<and> rescCloses (conn a) \<le> 1 \<and> (killed (conn a) \<longrightarrow> pscCloses (conn a) = 1 \<and> rescCloses (conn a) = 1)"
    using onceOk_any [OF a] by (auto simp: counts_def)
  moreover have "pc a i \<noteq> ClosePanicked" for i using e [of i] by auto
  moreover have "pc a i = CloseReturned \<Longrightarrow> killed (conn a)" for i using e [of i] by (simp add: counts_def)
  ultimately show ?thesis using gorosSteps_ok [OF assms(4) Conn_Send_ok [OF assms(1)] a] close_progress [OF a] by blast
qed

text \<open>A call of \<^verbatim>\<open>Close\<close> that no other goroutine disturbs does what the definition of one step says.\<close>

fun follow :: "nat list \<Rightarrow> 's goros \<Rightarrow> 's goros" where
  "follow [] a = a"
| "follow (i # is) a =
     (case closeStep (pc a i) (onceHeld a, conn a) of
        None \<Rightarrow> a
      | Some (p, held, c) \<Rightarrow> follow is \<lparr>conn = c, onceHeld = held, pc = (pc a)(i := p)\<rparr>)"

lemma follow_steps: "rtranclp (gorosStep C R srv W send) a (follow is a)"
proof (induction "is" a rule: follow.induct)
  case (2 i "is" a)
  show ?case
  proof (cases "closeStep (pc a i) (onceHeld a, conn a)")
    case (Some x)
    obtain p held c where "x = (p, held, c)" by (cases x)
    with Some 2 show ?thesis by (auto intro: converse_rtranclp_into_rtranclp gorosStep.within)
  qed simp
qed simp

lemma Close_alone:
  assumes "pc a i = OnceLoad err" "\<not> onceHeld a" "onceDone (conn a) \<or> \<not> killed (conn a)"
  shows "\<exists>n. follow (replicate n i) a = a\<lparr>conn := Conn_Close err (conn a), pc := (pc a)(i := CloseReturned)\<rparr>"
proof (cases "onceDone (conn a)")
  case True
  then have "follow (replicate 1 i) a = a\<lparr>conn := Conn_Close err (conn a), pc := (pc a)(i := CloseReturned)\<rparr>"
    using assms by (simp add: Conn_Close_def)
  then show ?thesis by blast
next
  case False
  then have "follow (replicate 9 i) a = a\<lparr>conn := Conn_Close err (conn a), pc := (pc a)(i := CloseReturned)\<rparr>"
    using assms by (simp add: Conn_Close_def numeral_eq_Suc)
  then show ?thesis by blast
qed

section \<open>Concrete run\<close>

text \<open>
  Goroutine 1 reads a binary frame and calls \<^verbatim>\<open>Close\<close>, goroutine 2 calls it too and gets as far as waiting for the mutex;
  when goroutine 1 has closed the kill channel, goroutine 2 goes on and returns, and nothing has been closed twice.
\<close>

definition closing2 :: "wsMem Conn \<Rightarrow> wsMem goros" where
  "closing2 c = follow [1, 2, 1, 1, 1, 1, 1, 1] ((served c)\<lparr>pc := (\<lambda>_. NotClosing)(1 := OnceLoad (Some (OtherErr ''invalid websocket message type: 2'')), 2 := OnceLoad None)\<rparr>)"

theorem closed_once_witness:
  "\<exists>c0. ServeConn aServer memWorld aConn = (None, c0) \<and> pc (closing2 c0) 2 = OnceLock None \<and> killed (conn (closing2 c0)) \<and>
     pc (follow [1, 1, 2, 2, 2] (closing2 c0)) 2 = CloseReturned \<and>
     CloseErr (conn (follow [1, 1, 2, 2, 2] (closing2 c0))) = Some (OtherErr ''invalid websocket message type: 2'')"
proof -
  define h where "h = Some (PanicRecover aServer (Chain [ProcessMsg plainCodec aServer memWorld]))"
  have h: "case h of None \<Rightarrow> True | Some f \<Rightarrow> middlewareOk f" by (simp add: h_def PanicRecover_ok Chain_ok ProcessMsg_ok)
  obtain c0 where c0: "ServeConn aServer memWorld aConn = (None, c0)" "onceDone c0 = False" "killed c0 = False" "world c0 = world aConn"
    by (simp add: ServeConn_def memWorld_def aConn_def newConn_def addFn_def Let_def aServer_def)
  let ?send = "Conn_Send plainCodec aServer memWorld h 3" and ?e = "Some (OtherErr ''invalid websocket message type: 2'')"
  let ?st = "gorosStep plainCodec initRegistry aServer memWorld ?send"
  have i2: "itoa 2 = ''2''" by code_simp
  have w: "c\<lparr>world := wSetReadDeadline memWorld None (world c)\<rparr> = c" for c by (simp add: memWorld_def)
  have "receiveRound plainCodec initRegistry aServer memWorld ?send (Frame 2 (Inl [])) c0 = Ret False (Conn_Close ?e c0)"
    by (simp add: receiveRound_def TextMessage_def i2 w Let_def)
  from connStep.frame [OF this] have "connStep plainCodec initRegistry aServer memWorld ?send (conn (served c0)) (Conn_Close ?e c0)"
    by (simp add: served_def)
  from gorosStep.closing [OF _ this, of 1] have s1: "?st (served c0) ((served c0)\<lparr>conn := notYet c0 (Conn_Close ?e c0), pc := (\<lambda>_. NotClosing)(1 := OnceLoad ?e)\<rparr>)"
    using c0(2) by (simp add: served_def Conn_Close_def)
  have n: "notYet c (Conn_Close e c) = c" for e and c :: "wsMem Conn" by (simp add: notYet_def Conn_Close_def)
  let ?a = "(served c0)\<lparr>pc := (\<lambda>_. NotClosing)(1 := OnceLoad ?e)\<rparr>"
  have "?st ?a ((served c0)\<lparr>pc := (\<lambda>_. NotClosing)(1 := OnceLoad ?e, 2 := OnceLoad None)\<rparr>)"
    using gorosStep.closing [of ?a 2, OF _ connStep.Close [where err = None]] c0(2) n [of c0 None] by (simp add: served_def Conn_Close_def)
  with s1 have "rtranclp ?st (served c0) ((served c0)\<lparr>pc := (\<lambda>_. NotClosing)(1 := OnceLoad ?e, 2 := OnceLoad None)\<rparr>)"
    by (simp add: n served_def)
  then have r: "rtranclp ?st (served c0) (closing2 c0)" unfolding closing2_def by (rule rtranclp_trans) (rule follow_steps)
  have k: "pc (closing2 c0) 2 = OnceLock None" "killed (conn (closing2 c0))" "CloseErr (conn (closing2 c0)) = ?e"
      "pc (follow [1, 1, 2, 2, 2] (closing2 c0)) 2 = CloseReturned"
    using c0(2,3) by (simp_all add: closing2_def served_def)
  from closed_once [OF h c0(1) [unfolded aConn_def] r follow_steps, of "[1, 1, 2, 2, 2]"] k c0(1) show ?thesis by auto
qed

end
