(* ===== verification/Spec2Isabelle.thy ===== *)
theory Spec2Isabelle
  imports
    Peg_Properties Peg_Builder_Properties Peg_Bootstrap_Properties Peg_Print Lexer
    Calculator_Evaluation Json_Parser_Properties Pigeon_Properties Bootstrap_Pigeon_Properties
    Juggler_Msg_Properties Juggler_Broker_Properties Juggler_Client_Properties Juggler_Callee_Properties Juggler_Close_Properties
begin

text \<open>
  A verification library for the packages of the repository: the parser generator under \<^verbatim>\<open>src/peg\<close>, the remote procedure
  call and publish/subscribe system under \<^verbatim>\<open>src/juggler\<close>, and the lexer driver under \<^verbatim>\<open>src/parser/lexer\<close>.

  \<^bold>\<open>The program.\<close> The generator reads a grammar (\<^verbatim>\<open>peg/bootstrap/scan.go\<close>, \<^verbatim>\<open>token.go\<close> and
  \<^verbatim>\<open>parser.go\<close>) into a syntax tree (\<^verbatim>\<open>peg/ast/ast.go\<close>), from which \<^verbatim>\<open>peg/builder/builder.go\<close> writes a Go
  file: the grammar as a value, one function for each code block, and the engine of \<^verbatim>\<open>peg/builder/static_code.go\<close> that
  interprets the grammar. In juggler a client (\<^verbatim>\<open>client/client.go\<close>) exchanges messages (\<^verbatim>\<open>msg/msg.go\<close>) with a server
  (\<^verbatim>\<open>conn.go\<close>, \<^verbatim>\<open>handler.go\<close>, \<^verbatim>\<open>server.go\<close>) over a websocket; the server registers calls with a Redis
  broker (\<^verbatim>\<open>broker/redisbroker\<close>), from which callees (\<^verbatim>\<open>callee/callee.go\<close>) take them and to which they give the results, which the
  server sends on to the client.

  \<^bold>\<open>Shared theories.\<close> \<open>Prelude\<close> has the named collections, the types of bytes and runes and the generic lemmas.
  \<open>Utf8\<close>, \<open>Strconv\<close>, \<open>Fmt\<close> and \<open>Json\<close> model what the code uses of Go's library, \<open>Unicode_Env\<close> the Unicode tables as an argument.
  \<open>Loops\<close> has loops with a bound on their rounds (None when it is reached) and the result type of code that may panic: a value and a state, a
  panic and the state at that moment, or no more fuel; its locale \<open>variant_loop\<close> gives the bound from a variant, and is
  interpreted on the loops of the scanner.

  \<^bold>\<open>The generator.\<close>
  \<^item> \<open>Peg_Runtime\<close> is \<^verbatim>\<open>static_code.go\<close>: the record \<open>parser\<close> is the struct of the same name, with the slots of the
    value stack beyond its length kept, as Go's slices keep them; each \<^verbatim>\<open>parseXxx\<close> method is a definition of that name.
    \<open>Peg_Engine\<close> proves the contract all of them share, \<open>Peg_Semantics\<close> gives the reference semantics of parsing expressions and the
    simulation, \<open>Peg_Properties\<close> the theorems for the user of a generated parser: agreement with the reference semantics, termination exactly
    when the reference semantics has an outcome, the restored position after a failure, recovered panics, the error list, positions, and the
    three places where the engine surprises.
  \<^item> \<open>Peg_Token\<close> and \<open>Peg_Scanner\<close> are the scanner, \<open>Peg_Scan_Proofs\<close> and \<open>Peg_Scan_Properties\<close> show that it ends on every input,
    makes progress and loses no text.
  \<^item> \<open>Peg_Ast\<close> and \<open>Peg_Print\<close> are the syntax tree with the parser of character classes and the printed forms;
    \<open>Peg_Class\<close> shows the round trip of classes and where the class parser panics or hangs.
  \<^item> \<open>Peg_Bootstrap\<close> is the recursive descent parser; \<open>Peg_Bootstrap_Proofs\<close> and \<open>Peg_Bootstrap_Properties\<close> show that it returns with complete
    rules when the classes of the input parse, and reports the rules it drops.
  \<^item> \<open>Peg_Builder\<close> is the generator, whose output is the sequence of its \<^verbatim>\<open>fmt.Fprintf\<close> calls; \<open>Peg_Builder_Proofs\<close> and
    \<open>Peg_Builder_Properties\<close> show that the functions referred to are those emitted, with the labels in scope as parameters, and that a failing
    writer stops it.

  \<^bold>\<open>Generated parsers.\<close> The files the generator has written are modelled too: the engine in each is the text of
  \<^verbatim>\<open>static_code.go\<close>; the grammar value is one definition per rule, with the positions, and the code blocks are a pair of definitions each,
  \<^verbatim>\<open>onXxx\<close> and \<^verbatim>\<open>callonXxx\<close>, as the file has them (\<open>Peg_Actions\<close> has type assertions and indexing, which may panic).
  \<^item> \<open>Peg_WellFormed\<close> is a termination check for grammars with code blocks: no left recursion, by a rank of the rules, and no repetition of an
    expression that may consume nothing. \<open>Peg_Texts\<close> and \<open>Peg_Typing\<close> compute the texts an expression can match and the dynamic types of the values
    that reach the code blocks. Each analysis is a locale on the recursive call of the engine, interpreted on \<open>parseExpr\<close>. \<open>Peg_Checked\<close> puts them
    together: the locale \<open>checked_grammar\<close>, in which a parser returns on every input and yields a value of the type of its first rule.
  \<^item> \<open>Calculator\<close> and \<open>Json_Parser\<close> are the two examples, \<open>Pigeon\<close> is \<^verbatim>\<open>peg/pigeon.go\<close>, the parser of grammars, and \<open>Bootstrap_Pigeon\<close> the
    one of the bootstrapping command. Their theories of properties check each grammar rule by rule: the calculator panics only on a division by zero, the JSON
    parser never panics and yields JSON values, pigeon yields a grammar or errors, and all return on every input, except that pigeon and its bootstrapping
    version hang where the parser of character classes does.
  \<^item> \<open>Peg_BigStep\<close> is a second reference semantics, with values, labels, error messages and the panics of code blocks, for inputs of ASCII
    characters, and shows by mutual rule induction that the engine runs it. \<open>Calculator_Evaluation\<close> uses it to show that the calculator computes, on the
    text of every expression, the result of an arithmetic of exact integers reduced to 64 bits, or reports the division by zero.

  \<^bold>\<open>Juggler.\<close>
  \<^item> \<open>Juggler_Msg\<close> has the messages, their constructors and their JSON form; \<open>Juggler_Msg_Properties\<close> the round trip, the split of messages
    between the peers, and what errors refer to. The UUID package is the record \<open>uuidCodec\<close>, with the law that decoding undoes encoding.
  \<^item> \<open>Juggler_Broker\<close> has the keys, the two Lua scripts, the registration of calls and results, and a round of each loop that reads
    from Redis. The server is the record \<open>redis\<close> of its commands; the locale \<open>redis_server\<close> of \<open>Juggler_Broker_Properties\<close> states their documented
    effect on the values and the times to live, and is interpreted on a server in memory. Shown are the capacity of the queues, the timeouts
    that are registered, and delivery in order of exactly the calls that have not expired.
  \<^item> \<open>Juggler_Client\<close> is the client as a step relation over the pieces of its methods between which other goroutines run;
    \<open>Juggler_Client_Properties\<close> shows by rule induction that a call never has two outcomes and, while the client is open, always gets one.
  \<^item> \<open>Juggler_Callee\<close> runs a call and stores its result; \<open>Juggler_Callee_Properties\<close> follows a call from the server through the broker to the callee
    and back.
  \<^item> \<open>Juggler_Conn\<close> is the server's end of a connection over a \<open>world\<close> of functions for the websocket, the lock and the brokers;
    \<open>Juggler_Conn_Properties\<close> states what it relies on as the locales \<open>websocket\<close> and \<open>lock_channel\<close>, both interpreted on a world in memory, and shows
    the write limit, one answer to every request, one close of a connection, and one writer at a time.

  \<^bold>\<open>The lexer driver.\<close> \<open>Lexer\<close> models \<^verbatim>\<open>lex.go\<close> and \<^verbatim>\<open>grammar.go\<close> and shows that the passthrough grammar ends and loses nothing.

  \<^bold>\<open>Fuel and bounds.\<close> The engine has fuel for the depth of calls and the rounds of repetitions, since left recursion and the
  repetition of an expression that matches nothing do not end; that enough fuel exists exactly when the reference semantics has an outcome is
  proved. The loops of the scanner and of the bootstrap parser have bounds computed from the input, which are proved to be enough. A send on a connection
  needs two levels for a server without a handler of its own. The passthrough run needs two rounds more than there are runes.
  Code that never returns is the panic \<open>Hangs\<close>, which nothing recovers. Integers of the calculator are words of 64 bits; others are unbounded where the code cannot reach the limits of its 64 bit integers; the ones read from JSON are checked to be within them.

  \<^bold>\<open>Not modelled.\<close> The two generated parsers under \<^verbatim>\<open>peg/test\<close>. The commands, which handle flags, files and terminal
  input. Logging, the debug trace and the test helpers. The text of JSON documents: decoding starts from their values. The once-only start of the
  broker's loops and the closing of its connections. The JSON lexer under \<^verbatim>\<open>parser/lexer/json\<close>, which does not compile.
\<close>

end
